(* ===== verification/Prelude.thy ===== *)
theory Prelude
  imports Main "HOL-Library.AList"
begin

text \<open>
  What the components share: the errors the TypeScript code throws, the effect type of an
  \<open>async\<close> method (a computation that takes the state, may throw, and leaves a state), its
  combinators, and the three ways the component theories reason about computations:
  frame facts (\<open>keeps\<close>), invariants (\<open>preserves\<close>) and results (\<open>ensures\<close>), each with
  one rule per combinator collected in a named theorem list.
\<close>

section \<open>Errors\<close>

text \<open>
  The error classes the modelled code distinguishes. \<open>SandboxNotFound\<close> is the class
  \<open>SandboxNotFoundError\<close> the lifecycle catches, \<open>ApiStatus\<close> an HTTP or Kubernetes API
  error that carries a status code, \<open>Plain\<close> any other error with its message, and
  \<open>OutOfFuel\<close> marks a loop of the model that ran out of fuel (no source error; every loop
  has a lemma that its fuel is enough).
\<close>

text \<open>The codes of connect's \<open>ConnectError\<close> and of dsh's \<open>FsError\<close>.\<close>

datatype connect_code =
    Code_Canceled | Code_Unknown | Code_Invalid_Argument | Code_Deadline_Exceeded | Code_Not_Found
  | Code_Already_Exists | Code_Permission_Denied | Code_Resource_Exhausted | Code_Failed_Precondition
  | Code_Aborted | Code_Out_Of_Range | Code_Unimplemented | Code_Internal | Code_Unavailable | Code_Data_Loss
  | Code_Unauthenticated

datatype fs_code =
    FS_NOT_FOUND | FS_EDIT_NOT_FOUND | FS_PERMISSION_DENIED | FS_TOO_LARGE | FS_NOT_OBSERVED | FS_AMBIGUOUS_EDIT
  | FS_STALE_VERSION | FS_ABORTED | FS_IO_ERROR | FS_NOT_TEXT | FS_SAME_TARGET | FS_PATCH_MISMATCH

datatype error =
    SandboxNotFound string
  | ApiStatus nat string
  | ConnectError connect_code string
  | FsError fs_code string
  | Plain string
  | OutOfFuel

fun connect_code_name :: "connect_code \<Rightarrow> string" where
  "connect_code_name Code_Canceled = ''canceled''"
| "connect_code_name Code_Unknown = ''unknown''"
| "connect_code_name Code_Invalid_Argument = ''invalid_argument''"
| "connect_code_name Code_Deadline_Exceeded = ''deadline_exceeded''"
| "connect_code_name Code_Not_Found = ''not_found''"
| "connect_code_name Code_Already_Exists = ''already_exists''"
| "connect_code_name Code_Permission_Denied = ''permission_denied''"
| "connect_code_name Code_Resource_Exhausted = ''resource_exhausted''"
| "connect_code_name Code_Failed_Precondition = ''failed_precondition''"
| "connect_code_name Code_Aborted = ''aborted''"
| "connect_code_name Code_Out_Of_Range = ''out_of_range''"
| "connect_code_name Code_Unimplemented = ''unimplemented''"
| "connect_code_name Code_Internal = ''internal''"
| "connect_code_name Code_Unavailable = ''unavailable''"
| "connect_code_name Code_Data_Loss = ''data_loss''"
| "connect_code_name Code_Unauthenticated = ''unauthenticated''"

text \<open>\<open>String(e)\<close> of an error; \<open>error.message\<close>. A \<open>ConnectError\<close> carries its \<open>rawMessage\<close>.\<close>

fun error_message :: "error \<Rightarrow> string" where
  "error_message (SandboxNotFound m) = m"
| "error_message (ApiStatus n m) = m"
| "error_message (ConnectError c m) = ''['' @ connect_code_name c @ ''] '' @ m"
| "error_message (FsError c m) = m"
| "error_message (Plain m) = m"
| "error_message OutOfFuel = ''''"

fun error_text :: "error \<Rightarrow> string" where
  "error_text (SandboxNotFound m) = ''SandboxNotFoundError: '' @ m"
| "error_text (ConnectError c m) = ''ConnectError: '' @ error_message (ConnectError c m)"
| "error_text e = ''Error: '' @ error_message e"

fun is_not_found :: "error \<Rightarrow> bool" where
  "is_not_found (SandboxNotFound _) = True"
| "is_not_found _ = False"

section \<open>Computations\<close>

type_synonym ('s, 'a) comp = "'s \<Rightarrow> (error + 'a) \<times> 's"

definition ret :: "'a \<Rightarrow> ('s, 'a) comp" where
  "ret a s = (Inr a, s)"

definition throw :: "error \<Rightarrow> ('s, 'a) comp" where
  "throw e s = (Inl e, s)"

definition bindE :: "('s, 'a) comp \<Rightarrow> ('a \<Rightarrow> ('s, 'b) comp) \<Rightarrow> ('s, 'b) comp" where
  "bindE m k s = (case m s of (Inl e, s') \<Rightarrow> (Inl e, s') | (Inr a, s') \<Rightarrow> k a s')"

definition thenE :: "('s, 'a) comp \<Rightarrow> ('s, 'b) comp \<Rightarrow> ('s, 'b) comp" where
  "thenE m n = bindE m (\<lambda>_. n)"

text \<open>\<open>catchE m h\<close> is \<open>try { m } catch (e) { h(e) }\<close>.\<close>

definition catchE :: "('s, 'a) comp \<Rightarrow> (error \<Rightarrow> ('s, 'a) comp) \<Rightarrow> ('s, 'a) comp" where
  "catchE m h s = (case m s of (Inl e, s') \<Rightarrow> h e s' | (Inr a, s') \<Rightarrow> (Inr a, s'))"

definition gets :: "('s \<Rightarrow> 'a) \<Rightarrow> ('s, 'a) comp" where
  "gets f s = (Inr (f s), s)"

definition modify :: "('s \<Rightarrow> 's) \<Rightarrow> ('s, unit) comp" where
  "modify f s = (Inr (), f s)"

definition liftE :: "error + 'a \<Rightarrow> ('s, 'a) comp" where
  "liftE r s = (r, s)"

definition whenE :: "bool \<Rightarrow> ('s, unit) comp \<Rightarrow> ('s, unit) comp" where
  "whenE b m = (if b then m else ret ())"

text \<open>\<open>for (const x of xs) await f(x)\<close>: the first error stops the loop.\<close>

fun forE :: "'x list \<Rightarrow> ('x \<Rightarrow> ('s, unit) comp) \<Rightarrow> ('s, unit) comp" where
  "forE [] f = ret ()"
| "forE (x # xs) f = thenE (f x) (forE xs f)"

lemmas comp_defs = ret_def throw_def bindE_def thenE_def catchE_def gets_def modify_def
  liftE_def whenE_def

lemma bindE_ret [simp]: "bindE (ret a) k = k a"
  by (simp add: comp_defs fun_eq_iff)

lemma bindE_throw [simp]: "bindE (throw e) k = throw e"
  by (simp add: comp_defs fun_eq_iff)

lemma bindE_Inr: "m s = (Inr a, s') \<Longrightarrow> bindE m k s = k a s'"
  by (simp add: bindE_def)

lemma bindE_Inl: "m s = (Inl e, s') \<Longrightarrow> bindE m k s = (Inl e, s')"
  by (simp add: bindE_def)

lemma bindE_eq_Inr:
  "bindE m k s = (Inr b, t) \<longleftrightarrow> (\<exists>a s'. m s = (Inr a, s') \<and> k a s' = (Inr b, t))"
  by (auto simp: bindE_def split: prod.splits sum.splits)

lemma bindE_eq_Inl:
  "bindE m k s = (Inl e, t) \<longleftrightarrow>
     m s = (Inl e, t) \<or> (\<exists>a s'. m s = (Inr a, s') \<and> k a s' = (Inl e, t))"
  by (auto simp: bindE_def split: prod.splits sum.splits)

lemma thenE_eq_Inr:
  "thenE m n s = (Inr b, t) \<longleftrightarrow> (\<exists>a s'. m s = (Inr a, s') \<and> n s' = (Inr b, t))"
  by (simp add: thenE_def bindE_eq_Inr)

lemma thenE_eq_Inl:
  "thenE m n s = (Inl e, t) \<longleftrightarrow>
     m s = (Inl e, t) \<or> (\<exists>a s'. m s = (Inr a, s') \<and> n s' = (Inl e, t))"
  by (simp add: thenE_def bindE_eq_Inl)

lemma catchE_eq_Inr:
  "catchE m h s = (Inr b, t) \<longleftrightarrow>
     m s = (Inr b, t) \<or> (\<exists>e s'. m s = (Inl e, s') \<and> h e s' = (Inr b, t))"
  by (auto simp: catchE_def split: prod.splits sum.splits)

lemma catchE_eq_Inl:
  "catchE m h s = (Inl e, t) \<longleftrightarrow> (\<exists>e' s'. m s = (Inl e', s') \<and> h e' s' = (Inl e, t))"
  by (auto simp: catchE_def split: prod.splits sum.splits)

lemmas comp_eq = bindE_eq_Inr bindE_eq_Inl thenE_eq_Inr thenE_eq_Inl catchE_eq_Inr catchE_eq_Inl

section \<open>Reasoning about computations\<close>

text \<open>
  \<open>preserves I m\<close>: whatever the outcome, \<open>m\<close> keeps the invariant. \<open>keeps f m\<close>: the part
  \<open>f\<close> of the state is left alone. \<open>raises E m\<close>: every error \<open>m\<close> throws satisfies \<open>E\<close>.
  \<open>ensures P m Q\<close>: from a state in \<open>P\<close>, if \<open>m\<close> returns then \<open>Q\<close> holds of the result and
  the final state.
\<close>

definition preserves :: "('s \<Rightarrow> bool) \<Rightarrow> ('s, 'a) comp \<Rightarrow> bool" where
  "preserves I m \<longleftrightarrow> (\<forall>s. I s \<longrightarrow> I (snd (m s)))"

definition keeps :: "('s \<Rightarrow> 'v) \<Rightarrow> ('s, 'a) comp \<Rightarrow> bool" where
  "keeps f m \<longleftrightarrow> (\<forall>s. f (snd (m s)) = f s)"

definition raises :: "(error \<Rightarrow> bool) \<Rightarrow> ('s, 'a) comp \<Rightarrow> bool" where
  "raises E m \<longleftrightarrow> (\<forall>s e t. m s = (Inl e, t) \<longrightarrow> E e)"

definition ensures :: "('s \<Rightarrow> bool) \<Rightarrow> ('s, 'a) comp \<Rightarrow> ('a \<Rightarrow> 's \<Rightarrow> bool) \<Rightarrow> bool" where
  "ensures P m Q \<longleftrightarrow> (\<forall>s a t. P s \<longrightarrow> m s = (Inr a, t) \<longrightarrow> Q a t)"

named_theorems preserves_rules "one rule per combinator for preserves"
named_theorems keeps_rules "one rule per combinator for keeps"
named_theorems raises_rules "one rule per combinator for raises"

lemma preservesD: "preserves I m \<Longrightarrow> I s \<Longrightarrow> m s = (r, t) \<Longrightarrow> I t"
  by (auto simp: preserves_def dest: spec [of _ s])

lemma preserves_snd: "preserves I m \<Longrightarrow> I s \<Longrightarrow> I (snd (m s))"
  by (simp add: preserves_def)

lemma keepsD: "keeps f m \<Longrightarrow> m s = (r, t) \<Longrightarrow> f t = f s"
  by (auto simp: keeps_def dest: spec [of _ s])

lemma keeps_preserves: "keeps f m \<longleftrightarrow> (\<forall>v. preserves (\<lambda>s. f s = v) m)"
  by (auto simp: keeps_def preserves_def)

lemma preserves_basic [preserves_rules]:
  "preserves I (ret a)" "preserves I (throw e)" "preserves I (gets f)" "preserves I (liftE r)"
  by (simp_all add: preserves_def comp_defs)

lemma preserves_bindE [preserves_rules]:
  assumes "preserves I m" and "\<And>a. preserves I (k a)"
  shows "preserves I (bindE m k)"
  unfolding preserves_def
proof (intro allI impI)
  fix s assume "I s"
  obtain r t where m: "m s = (r, t)" by (cases "m s")
  have "I t" by (rule preservesD [OF assms(1) \<open>I s\<close> m])
  with m show "I (snd (bindE m k s))"
    by (cases r) (simp_all add: bindE_def assms(2) [unfolded preserves_def])
qed

lemma preserves_thenE [preserves_rules]:
  "preserves I m \<Longrightarrow> preserves I n \<Longrightarrow> preserves I (thenE m n)"
  by (simp add: thenE_def preserves_bindE)

lemma preserves_catchE [preserves_rules]:
  assumes "preserves I m" and "\<And>e. preserves I (h e)"
  shows "preserves I (catchE m h)"
  unfolding preserves_def
proof (intro allI impI)
  fix s assume "I s"
  obtain r t where m: "m s = (r, t)" by (cases "m s")
  have "I t" by (rule preservesD [OF assms(1) \<open>I s\<close> m])
  with m show "I (snd (catchE m h s))"
    by (cases r) (simp_all add: catchE_def assms(2) [unfolded preserves_def])
qed

lemma preserves_whenE [preserves_rules]: "preserves I m \<Longrightarrow> preserves I (whenE b m)"
  by (simp add: whenE_def preserves_basic)

lemma preserves_forE [preserves_rules]:
  "(\<And>x. preserves I (f x)) \<Longrightarrow> preserves I (forE xs f)"
  by (induction xs) (simp_all add: preserves_rules)

lemma preserves_modify: "(\<And>s. I s \<Longrightarrow> I (f s)) \<Longrightarrow> preserves I (modify f)"
  by (simp add: preserves_def modify_def)

lemma preserves_if [preserves_rules]:
  "(b \<Longrightarrow> preserves I m) \<Longrightarrow> (\<not> b \<Longrightarrow> preserves I n) \<Longrightarrow> preserves I (if b then m else n)"
  by simp

lemma preserves_option [preserves_rules]:
  "(x = None \<Longrightarrow> preserves I m) \<Longrightarrow> (\<And>a. x = Some a \<Longrightarrow> preserves I (k a)) \<Longrightarrow>
   preserves I (case x of None \<Rightarrow> m | Some a \<Rightarrow> k a)"
  by (cases x) simp_all

lemma keeps_basic [keeps_rules]:
  "keeps f (ret a)" "keeps f (throw e)" "keeps f (gets g)" "keeps f (liftE r)"
  by (simp_all add: keeps_preserves preserves_rules)

lemma keeps_bindE [keeps_rules]: "keeps f m \<Longrightarrow> (\<And>a. keeps f (k a)) \<Longrightarrow> keeps f (bindE m k)"
  by (simp add: keeps_preserves preserves_rules)

lemma keeps_thenE [keeps_rules]: "keeps f m \<Longrightarrow> keeps f n \<Longrightarrow> keeps f (thenE m n)"
  by (simp add: keeps_preserves preserves_rules)

lemma keeps_catchE [keeps_rules]: "keeps f m \<Longrightarrow> (\<And>e. keeps f (h e)) \<Longrightarrow> keeps f (catchE m h)"
  by (simp add: keeps_preserves preserves_rules)

lemma keeps_whenE [keeps_rules]: "keeps f m \<Longrightarrow> keeps f (whenE b m)"
  by (simp add: keeps_preserves preserves_rules)

lemma keeps_forE [keeps_rules]: "(\<And>x. keeps f (g x)) \<Longrightarrow> keeps f (forE xs g)"
  by (simp add: keeps_preserves preserves_rules)

lemma keeps_modify [keeps_rules]: "(\<And>s. f (g s) = f s) \<Longrightarrow> keeps f (modify g)"
  by (simp add: keeps_def modify_def)

lemma keeps_if [keeps_rules]: "keeps f m \<Longrightarrow> keeps f n \<Longrightarrow> keeps f (if b then m else n)"
  by simp

lemma keeps_option [keeps_rules]:
  "keeps f m \<Longrightarrow> (\<And>a. keeps f (k a)) \<Longrightarrow> keeps f (case x of None \<Rightarrow> m | Some a \<Rightarrow> k a)"
  by (cases x) simp_all

lemma raises_basic [raises_rules]:
  "raises E (ret a)" "raises E (gets g)" "raises E (modify h)"
  by (simp_all add: raises_def comp_defs)

lemma raises_throw [raises_rules]: "E e \<Longrightarrow> raises E (throw e)"
  by (simp add: raises_def throw_def)

lemma raises_bindE [raises_rules]:
  "raises E m \<Longrightarrow> (\<And>a. raises E (k a)) \<Longrightarrow> raises E (bindE m k)"
  unfolding raises_def by (fastforce simp: comp_eq)

lemma raises_thenE [raises_rules]: "raises E m \<Longrightarrow> raises E n \<Longrightarrow> raises E (thenE m n)"
  by (simp add: thenE_def raises_bindE)

lemma raises_catchE [raises_rules]: "(\<And>e. raises E (h e)) \<Longrightarrow> raises E (catchE m h)"
  unfolding raises_def by (fastforce simp: comp_eq)

lemma raises_catchE_through: "raises F m \<Longrightarrow> (\<And>e. F e \<Longrightarrow> raises E (h e)) \<Longrightarrow> raises E (catchE m h)"
  unfolding raises_def by (fastforce simp: comp_eq)

lemma raises_whenE [raises_rules]: "raises E m \<Longrightarrow> raises E (whenE b m)"
  by (simp add: whenE_def raises_rules)

lemma raises_forE [raises_rules]: "(\<And>x. raises E (g x)) \<Longrightarrow> raises E (forE xs g)"
  by (induction xs) (simp_all add: raises_rules)

lemma raises_if [raises_rules]: 
  "(b \<Longrightarrow> raises E m) \<Longrightarrow> (\<not> b \<Longrightarrow> raises E n) \<Longrightarrow> raises E (if b then m else n)"
  by simp

lemma raises_option [raises_rules]:
  "raises E m \<Longrightarrow> (\<And>a. x = Some a \<Longrightarrow> raises E (k a)) \<Longrightarrow> raises E (case x of None \<Rightarrow> m | Some a \<Rightarrow> k a)"
  by (cases x) simp_all

lemma raisesD: "raises E m \<Longrightarrow> m s = (Inl e, t) \<Longrightarrow> E e"
  by (auto simp: raises_def)

section \<open>Weakest preconditions\<close>

text \<open>
  \<open>wp m Q E s\<close>: run from \<open>s\<close>, \<open>m\<close> ends in \<open>Q\<close> when it returns and in \<open>E\<close> when it throws. The
  rules of the combinators are equations, so \<open>simp add: wp_simps\<close> turns a goal about a method
  into goals about its calls; \<open>wp_mono\<close> joins what is known of a call to what is needed.
\<close>

definition wp :: "('s, 'a) comp \<Rightarrow> ('a \<Rightarrow> 's \<Rightarrow> bool) \<Rightarrow> (error \<Rightarrow> 's \<Rightarrow> bool) \<Rightarrow> 's \<Rightarrow> bool" where
  "wp m Q E s = (case m s of (Inr a, t) \<Rightarrow> Q a t | (Inl e, t) \<Rightarrow> E e t)"

named_theorems wp_simps "the equations of wp"

lemma wp_basic [wp_simps]:
  "wp (ret a) Q E = Q a" "wp (throw e) Q' E = E e" "wp (gets f) Q'' E = (\<lambda>s. Q'' (f s) s)"
  "wp (modify g) R E = (\<lambda>s. R () (g s))"
  "wp (liftE r) R' E = (case r of Inl e \<Rightarrow> E e | Inr a \<Rightarrow> R' a)"
  by (simp_all add: wp_def comp_defs fun_eq_iff split: sum.split)

lemma wp_bindE [wp_simps]: "wp (bindE m k) Q E = wp m (\<lambda>a. wp (k a) Q E) E"
  by (auto simp: wp_def bindE_def fun_eq_iff split: prod.splits sum.splits)

lemma wp_thenE [wp_simps]: "wp (thenE m n) Q E = wp m (\<lambda>_. wp n Q E) E"
  by (simp add: thenE_def wp_bindE)

lemma wp_catchE [wp_simps]: "wp (catchE m h) Q E = wp m Q (\<lambda>e. wp (h e) Q E)"
  by (auto simp: wp_def catchE_def fun_eq_iff split: prod.splits sum.splits)

lemma wp_whenE [wp_simps]: "wp (whenE b m) Q E = (if b then wp m Q E else Q ())"
  by (simp add: whenE_def wp_basic)

lemma wp_if [wp_simps]: "wp (if b then m else n) Q E = (if b then wp m Q E else wp n Q E)"
  by simp

lemma wp_option [wp_simps]:
  "wp (case x of None \<Rightarrow> m | Some a \<Rightarrow> k a) Q E =
     (case x of None \<Rightarrow> wp m Q E | Some a \<Rightarrow> wp (k a) Q E)"
  by (cases x) simp_all

text \<open>Branches applied to a state.\<close>

lemma branch_apply [wp_simps]:
  "(if b then f else g) s = (if b then f s else g s)"
  "(case x of None \<Rightarrow> f | Some a \<Rightarrow> h a) s = (case x of None \<Rightarrow> f s | Some a \<Rightarrow> h a s)"
  "(case r of Inl e \<Rightarrow> h1 e | Inr a \<Rightarrow> h2 a) s = (case r of Inl e \<Rightarrow> h1 e s | Inr a \<Rightarrow> h2 a s)"
  by (simp_all split: option.split sum.split)

lemma wp_mono:
  "wp m Q E s \<Longrightarrow> (\<And>a t. Q a t \<Longrightarrow> Q' a t) \<Longrightarrow> (\<And>e t. E e t \<Longrightarrow> E' e t) \<Longrightarrow> wp m Q' E' s"
  by (auto simp: wp_def split: prod.splits sum.splits)

lemma wp_conj: "wp m Q E s \<Longrightarrow> wp m Q' E' s \<Longrightarrow> wp m (\<lambda>a t. Q a t \<and> Q' a t) (\<lambda>e t. E e t \<and> E' e t) s"
  by (auto simp: wp_def split: prod.splits sum.splits)

lemma wp_preserves: "preserves I m \<longleftrightarrow> (\<forall>s. I s \<longrightarrow> wp m (\<lambda>_. I) (\<lambda>_. I) s)"
  unfolding preserves_def wp_def
  by (intro iff_allI imp_cong refl) (auto split: prod.splits sum.splits)

lemma wp_keeps: "keeps f m \<Longrightarrow> wp m (\<lambda>_ t. f t = f s) (\<lambda>_ t. f t = f s) s"
  by (auto simp: wp_def split: prod.splits sum.splits dest: keepsD)

lemma wp_forE_inv:
  "I s \<Longrightarrow> (\<And>x t. I t \<Longrightarrow> wp (f x) (\<lambda>_. I) (\<lambda>_. I) t) \<Longrightarrow> wp (forE xs f) (\<lambda>_. I) (\<lambda>_. I) s"
proof (induction xs arbitrary: s)
  case (Cons x xs)
  from Cons.prems(2) [OF Cons.prems(1)] show ?case
    by (auto simp: wp_simps intro: wp_mono Cons.IH [OF _ Cons.prems(2)])
qed (simp add: wp_simps)

lemma wp_resultD: "wp m Q E s \<Longrightarrow> m s = (Inr a, t) \<Longrightarrow> Q a t"
  by (simp add: wp_def)

lemma wp_errorD: "wp m Q E s \<Longrightarrow> m s = (Inl e, t) \<Longrightarrow> E e t"
  by (simp add: wp_def)

lemma wp_finalD: "wp m (\<lambda>_. I) (\<lambda>_. I) s \<Longrightarrow> I (snd (m s))"
  by (auto simp: wp_def split: prod.splits sum.splits)

section \<open>Association lists as JavaScript maps\<close>

text \<open>
  A \<open>Map\<close>, or an object used as a dictionary, is an association list in insertion order:
  \<open>AList.update\<close> keeps the place of an existing key and appends a new one,
  \<open>AList.delete\<close> removes it, \<open>map_of\<close> reads it.
\<close>

lemma map_of_update_alist [simp]: "map_of (AList.update k v al) = (map_of al)(k \<mapsto> v)"
  by (rule AList.update_conv')

lemma map_of_delete_alist [simp]: "map_of (AList.delete k al) = (map_of al)(k := None)"
  by (rule AList.delete_conv')

lemma set_updateD: "(n, q) \<in> set (AList.update k v al) \<Longrightarrow> (n, q) = (k, v) \<or> (n, q) \<in> set al"
  by (induction al) (auto split: if_splits)

lemma list_all_update_alist:
  "list_all (\<lambda>(_, v). P v) al \<Longrightarrow> P w \<Longrightarrow> list_all (\<lambda>(_, v). P v) (AList.update k w al)"
  by (induction al) auto

lemma list_all_delete_alist:
  "list_all (\<lambda>(_, v). P v) al \<Longrightarrow> list_all (\<lambda>(_, v). P v) (AList.delete k al)"
  by (auto simp: AList.delete_eq list_all_iff)

lemma distinct_update_alist [simp]:
  "distinct (map fst al) \<Longrightarrow> distinct (map fst (AList.update k v al))"
  by (rule AList.distinct_update)

lemma distinct_delete_alist [simp]:
  "distinct (map fst al) \<Longrightarrow> distinct (map fst (AList.delete k al))"
  by (rule AList.distinct_delete)

text \<open>\<open>{...base, ...extra}\<close>.\<close>

definition spread :: "('k \<times> 'v) list \<Rightarrow> ('k \<times> 'v) list \<Rightarrow> ('k \<times> 'v) list" where
  "spread base extra = fold (\<lambda>(k, v). AList.update k v) extra base"

lemma map_of_spread:
  "map_of (spread base extra) k = (case map_of (rev extra) k of None \<Rightarrow> map_of base k | Some v \<Rightarrow> Some v)"
proof (induction extra arbitrary: base)
  case (Cons e extra)
  obtain a b where "e = (a, b)" by (rule prod.exhaust)
  with Cons [of "AList.update a b base"] show ?case
    by (auto simp: spread_def map_add_def split: option.splits)
qed (simp add: spread_def)

end
