(* ===== verification/Js_Values.thy ===== *)
theory Js_Values
  imports Js_Strings Complex_Main
begin

text \<open>
  JavaScript values as the code receives them from outside: numbers with their non-finite
  values, what \<open>JSON.parse\<close> returns, and the checks (\<open>typeof\<close>, \<open>Array.isArray\<close>,
  \<open>Number.isInteger\<close>) the code makes on them. A finite number is a rational, so rounding is
  not modelled. An object is an association list in insertion order.
\<close>

section \<open>Numbers\<close>

datatype js_number = Finite rat | NaN | PosInf | NegInf

definition js_int :: "int \<Rightarrow> js_number" where
  "js_int i = Finite (of_int i)"

fun num_le :: "js_number \<Rightarrow> js_number \<Rightarrow> bool" where
  "num_le (Finite a) (Finite b) = (a \<le> b)"
| "num_le NegInf y = (y \<noteq> NaN)"
| "num_le x PosInf = (x \<noteq> NaN)"
| "num_le _ _ = False"

definition num_lt :: "js_number \<Rightarrow> js_number \<Rightarrow> bool" where
  "num_lt x y = (num_le x y \<and> x \<noteq> y)"

fun num_add :: "js_number \<Rightarrow> js_number \<Rightarrow> js_number" where
  "num_add (Finite a) (Finite b) = Finite (a + b)"
| "num_add (Finite _) y = y"
| "num_add x (Finite _) = x"
| "num_add PosInf PosInf = PosInf"
| "num_add NegInf NegInf = NegInf"
| "num_add _ _ = NaN"

fun num_neg :: "js_number \<Rightarrow> js_number" where
  "num_neg (Finite a) = Finite (- a)"
| "num_neg PosInf = NegInf"
| "num_neg NegInf = PosInf"
| "num_neg NaN = NaN"

definition num_sub :: "js_number \<Rightarrow> js_number \<Rightarrow> js_number" where
  "num_sub x y = num_add x (num_neg y)"

text \<open>A positive factor; \<open>Math.min\<close> of two numbers.\<close>

fun num_times :: "rat \<Rightarrow> js_number \<Rightarrow> js_number" where
  "num_times r (Finite a) = Finite (r * a)"
| "num_times r x = x"

definition num_min :: "js_number \<Rightarrow> js_number \<Rightarrow> js_number" where
  "num_min x y = (if x = NaN \<or> y = NaN then NaN else if num_le x y then x else y)"

fun is_finite :: "js_number \<Rightarrow> bool" where
  "is_finite (Finite _) = True"
| "is_finite _ = False"

text \<open>\<open>Number.isInteger\<close>.\<close>

fun is_integer :: "js_number \<Rightarrow> bool" where
  "is_integer (Finite q) = (of_int \<lfloor>q\<rfloor> = q)"
| "is_integer _ = False"

text \<open>\<open>Number.isSafeInteger\<close>: an integer of magnitude at most 2^53 - 1.\<close>

fun is_safe_integer :: "js_number \<Rightarrow> bool" where
  "is_safe_integer (Finite q) = (of_int \<lfloor>q\<rfloor> = q \<and> \<bar>q\<bar> \<le> 9007199254740991)"
| "is_safe_integer _ = False"

section \<open>Parsed JSON\<close>

datatype json =
    JNull
  | JBool bool
  | JNum js_number
  | JStr string
  | JArr "json list"
  | JObj "(string \<times> json) list"

fun as_string :: "json \<Rightarrow> string option" where
  "as_string (JStr s) = Some s"
| "as_string _ = None"

text \<open>\<open>typeof v === "object" && v !== null\<close>; the fields of such a value. An array is one too,
  and has none of the fields the code asks for.\<close>

fun object_fields :: "json \<Rightarrow> (string \<times> json) list option" where
  "object_fields (JObj fs) = Some fs"
| "object_fields (JArr _) = Some []"
| "object_fields _ = None"

text \<open>\<open>field k v\<close> is \<open>v.k\<close> of an object, \<open>None\<close> when it is \<open>undefined\<close>.\<close>

definition field :: "string \<Rightarrow> json \<Rightarrow> json option" where
  "field k v = (case object_fields v of None \<Rightarrow> None | Some fs \<Rightarrow> map_of fs k)"

lemma field_JObj [simp]: "field k (JObj fs) = map_of fs k"
  by (simp add: field_def)

lemma js_int_inject [simp]: "js_int i = js_int j \<longleftrightarrow> i = j"
  by (simp add: js_int_def)

lemma is_safe_integer_js_int [simp]:
  "is_safe_integer (js_int i) \<longleftrightarrow> \<bar>i\<bar> \<le> 9007199254740991"
proof -
  have "\<bar>rat_of_int i\<bar> \<le> 9007199254740991 \<longleftrightarrow> \<bar>i\<bar> \<le> 9007199254740991"
    by (metis of_int_abs of_int_le_iff of_int_numeral)
  then show ?thesis by (simp add: js_int_def)
qed

lemma is_safe_integer_iff:
  "is_safe_integer x \<longleftrightarrow> (\<exists>i. x = js_int i \<and> \<bar>i\<bar> \<le> 9007199254740991)"
proof (cases x)
  case (Finite q)
  show ?thesis
  proof
    assume a: "is_safe_integer x"
    with Finite have "x = js_int \<lfloor>q\<rfloor>" by (auto simp: js_int_def)
    with a show "\<exists>i. x = js_int i \<and> \<bar>i\<bar> \<le> 9007199254740991" by (metis is_safe_integer_js_int)
  qed (auto simp: is_safe_integer_js_int)
qed (auto simp: js_int_def)

end
