(* ===== verification/Sandbox_Types.thy ===== *)
theory Sandbox_Types
  imports Js_Values
begin

text \<open>
  \<open>core/types.ts\<close> and the checkpoint type of \<open>sandbox/checkpoint.ts\<close>: sandbox profiles, the
  backend interface, and the durable record of one session. The union \<open>SessionRecord\<close> is a
  record of the common fields whose last field \<open>record_state\<close> carries the fields of its variant. A
  timestamp is the milliseconds of an ISO text, \<open>None\<close> for a text \<open>Date\<close> cannot read.
\<close>

type_synonym timestamp = "int option"

text \<open>\<open>new Date(t).toISOString()\<close>: a \<open>RangeError\<close> beyond 100,000,000 days from 1970.\<close>

definition to_iso_string :: "int \<Rightarrow> error + timestamp" where
  "to_iso_string t =
    (if \<bar>t\<bar> \<le> 8640000000000000 then Inr (Some t) else Inl (Plain ''Invalid time value''))"

type_synonym backend_reference = "(string \<times> json) list"

section \<open>Profiles\<close>

record docker_profile =
  dk_name :: string
  dk_image :: string
  dk_binary :: "string option"
  dk_control_plane_url :: string
  dk_idle_ms :: "js_number option"

record kas_profile =
  ks_name :: string
  ks_namespace :: string
  ks_warm_pool :: string
  ks_ready_timeout_ms :: js_number
  ks_kubeconfig :: "string option"
  ks_idle_ms :: "js_number option"

record buildkite_profile =
  bk_name :: string
  bk_organization :: string
  bk_pipeline :: string
  bk_image :: string
  bk_control_plane_url :: string
  bk_ready_timeout_ms :: js_number
  bk_idle_ms :: "js_number option"
  bk_secret_key :: "string option"

datatype sandbox_profile =
    DockerP docker_profile
  | KasP kas_profile
  | BuildkiteP buildkite_profile

fun profile_name :: "sandbox_profile \<Rightarrow> string" where
  "profile_name (DockerP p) = dk_name p"
| "profile_name (KasP p) = ks_name p"
| "profile_name (BuildkiteP p) = bk_name p"

fun profile_backend :: "sandbox_profile \<Rightarrow> string" where
  "profile_backend (DockerP p) = ''docker''"
| "profile_backend (KasP p) = ''kas''"
| "profile_backend (BuildkiteP p) = ''buildkite''"

fun profile_idle_ms :: "sandbox_profile \<Rightarrow> js_number option" where
  "profile_idle_ms (DockerP p) = dk_idle_ms p"
| "profile_idle_ms (KasP p) = ks_idle_ms p"
| "profile_idle_ms (BuildkiteP p) = bk_idle_ms p"

fun provisions_from_image :: "sandbox_profile \<Rightarrow> bool" where
  "provisions_from_image (DockerP p) = True"
| "provisions_from_image (KasP p) = False"
| "provisions_from_image (BuildkiteP p) = True"

section \<open>Backends\<close>

record sandbox_spec =
  spec_session_id :: string
  spec_repository_url :: string

record sandbox_handle =
  handle_sandbox_id :: string
  handle_reference :: backend_reference

record capabilities =
  supports_hibernate :: bool
  wake_keeps_filesystem :: "bool option"

text \<open>The interface \<open>SandboxBackend\<close>, its methods as computations over the world \<open>'e\<close> the
  backend talks to.\<close>

record 'e backend =
  b_name :: string
  b_capabilities :: capabilities
  b_provision :: "sandbox_spec \<Rightarrow> ('e, sandbox_handle) comp"
  b_hibernate :: "backend_reference \<Rightarrow> ('e, unit) comp"
  b_wake :: "backend_reference \<Rightarrow> ('e, sandbox_handle) comp"
  b_destroy :: "backend_reference \<Rightarrow> ('e, unit) comp"
  b_expire_at :: "backend_reference \<Rightarrow> int \<Rightarrow> ('e, unit) comp"
  b_health :: "backend_reference \<Rightarrow> ('e, bool) comp"

section \<open>Session records\<close>

record checkpoint =
  ck_commit :: "string option"
  ck_branch :: "string option"
  ck_artifacts_dropped :: "bool option"

datatype session_state =
    Running string backend_reference
  | Hibernated string backend_reference timestamp
  | Checkpointed checkpoint timestamp

record session_record =
  session_id :: string
  record_backend :: string
  record_profile :: string
  repository_url :: string
  created_at :: timestamp
  updated_at :: timestamp
  record_state :: session_state

fun is_running :: "session_state \<Rightarrow> bool" where
  "is_running (Running _ _) = True"
| "is_running _ = False"

definition has_repository :: "string \<Rightarrow> bool" where
  "has_repository url = (url \<noteq> '''')"

end
