(* ===== verification/Runner_Client.thy ===== *)
theory Runner_Client
  imports Sandbox_Types
begin

text \<open>
  What the control plane asks of a runner and of the tunnel: the methods of \<open>RunnerClient\<close>
  (\<open>core/runner-client.ts\<close>) and of \<open>RunnerGateway\<close> (\<open>core/tunnel.ts\<close>) the modelled components
  call. A client is a handle; what a call does and answers is decided by the world \<open>'e\<close> the
  runner lives in, so these records are parameters of the definitions that use them.
\<close>

type_synonym client = nat

datatype exec_event = Stdout bytes | Stderr bytes | Exited int | OtherEvent

record exec_request =
  argv :: "string list"
  cwd :: string
  exec_env :: "(string \<times> string) list"
  stdin :: bytes

record git_credential =
  gc_host :: string
  gc_username :: string
  gc_password :: string

record setup_request =
  setup_repository_url :: string
  setup_revision :: string
  setup_workspace :: string

text \<open>\<open>exec\<close> is a stream: its events, and the error that ended it early if one did.\<close>

record 'e runner_rpc =
  rpc_health :: "client \<Rightarrow> ('e, string) comp"
  rpc_exec :: "client \<Rightarrow> exec_request \<Rightarrow> 'e \<Rightarrow> (exec_event list \<times> error option) \<times> 'e"
  rpc_set_secrets :: "client \<Rightarrow> (string \<times> string) list \<Rightarrow> ('e, unit) comp"
  rpc_set_git_credentials :: "client \<Rightarrow> git_credential list \<Rightarrow> ('e, unit) comp"
  rpc_setup :: "client \<Rightarrow> setup_request \<Rightarrow> ('e, unit) comp"

record 'e gateway =
  gw_wait_for :: "string \<Rightarrow> int \<Rightarrow> ('e, client) comp"
  gw_drop :: "string \<Rightarrow> 'e \<Rightarrow> 'e"

end
