(* ===== verification/Posix_Path.thy ===== *)
theory Posix_Path
  imports Js_Strings
begin

text \<open>
  The functions of Node's \<open>path.posix\<close> the code calls: \<open>isAbsolute\<close>, \<open>dirname\<close>, \<open>normalize\<close>,
  \<open>join\<close> and \<open>relative\<close> of absolute paths.
\<close>

abbreviation slash :: char where "slash \<equiv> CHR ''/''"

fun is_absolute :: "string \<Rightarrow> bool" where
  "is_absolute [] = False"
| "is_absolute (c # _) = (c = slash)"

definition dirname :: "string \<Rightarrow> string" where
  "dirname p =
    (let body = rev (dropWhile (\<lambda>c. c = slash) (rev p));
         parent = rev (dropWhile (\<lambda>c. c \<noteq> slash) (rev body))
     in if p = [] then ''.''
        else if body = [] then ''/''
        else if parent = [] then ''.''
        else if parent = ''/'' then ''/''
        else if parent = ''//'' then ''//''
        else butlast parent)"

text \<open>The segments of a path with \<open>.\<close>, \<open>..\<close> and empty ones resolved; \<open>acc\<close> is reversed. Above the
  start of a relative path \<open>..\<close> is kept.\<close>

fun resolve_segments :: "bool \<Rightarrow> string list \<Rightarrow> string list \<Rightarrow> string list" where
  "resolve_segments up acc [] = rev acc"
| "resolve_segments up acc (w # ws) =
    (if w = [] \<or> w = ''.'' then resolve_segments up acc ws
     else if w = ''..'' then
       (case acc of
          [] \<Rightarrow> resolve_segments up (if up then [''..''] else []) ws
        | a # as \<Rightarrow> if a = ''..'' then resolve_segments up (''..'' # acc) ws
                   else resolve_segments up as ws)
     else resolve_segments up (w # acc) ws)"

definition segments :: "string \<Rightarrow> string list" where
  "segments p = resolve_segments (\<not> is_absolute p) [] (split_on slash p)"

definition normalize_path :: "string \<Rightarrow> string" where
  "normalize_path p =
    (let body = join_with ''/'' (segments p);
         trailing = (p \<noteq> [] \<and> last p = slash)
     in if p = [] then ''.''
        else if is_absolute p then
          (if body = [] then ''/'' else ''/'' @ body @ (if trailing then ''/'' else ''''))
        else if body = [] then (if trailing then ''./'' else ''.'')
        else body @ (if trailing then ''/'' else ''''))"

definition join_path :: "string list \<Rightarrow> string" where
  "join_path ws =
    (let joined = join_with ''/'' (filter (\<lambda>w. w \<noteq> []) ws)
     in if joined = [] then ''.'' else normalize_path joined)"

text \<open>\<open>relative from to\<close> of two absolute paths: up from what they do not share, then down.\<close>

fun drop_common :: "string list \<Rightarrow> string list \<Rightarrow> string list \<times> string list" where
  "drop_common (a # as) (b # bs) = (if a = b then drop_common as bs else (a # as, b # bs))"
| "drop_common as bs = (as, bs)"

definition relative :: "string \<Rightarrow> string \<Rightarrow> string" where
  "relative from to =
    (let (up, down) = drop_common (segments from) (segments to)
     in join_with ''/'' (replicate (length up) ''..'' @ down))"

lemma drop_common_eq: "drop_common as bs = (us, ds) \<Longrightarrow> \<exists>cs. as = cs @ us \<and> bs = cs @ ds"
proof (induction as bs rule: drop_common.induct)
  case (1 a as b bs)
  then show ?case
    by (cases "a = b") (auto simp: Cons_eq_append_conv)
qed auto

lemma drop_common_self: "drop_common as as = ([], [])"
  by (induction as) auto

end
