(* ===== verification/Checkpoints.thy ===== *)
theory Checkpoints
  imports Runner_Client Posix_Path
begin

text \<open>
  \<open>sandbox/checkpoint.ts\<close> and \<open>sandbox/artifacts.ts\<close>: how the work of a sandbox that cannot be
  kept is read out of it, checked, kept on the host, and put back into the next one. The shell
  scripts run in the sandbox, behind \<open>rpc_exec\<close>; here are the exact scripts' names, the parsing
  of what they print, and the loop that reads their output.
\<close>

definition MAX_BUNDLE_BYTES :: nat where "MAX_BUNDLE_BYTES = 64 * 1024 * 1024"
definition MAX_ARTIFACTS_BYTES :: nat where "MAX_ARTIFACTS_BYTES = 64 * 1024 * 1024"

abbreviation newline :: char where "newline \<equiv> CHR 0x0A"

definition artifacts_directory :: "string \<Rightarrow> string" where
  "artifacts_directory workspace = join_path [dirname workspace, ''artifacts'']"

section \<open>What the save scripts print\<close>

definition is_commit_id :: "string \<Rightarrow> bool" where
  "is_commit_id s = (length s = 40 \<and> list_all is_hex s)"

text \<open>\<open>BUNDLE_HEADER\<close>: \<open>/^# v\d+ git bundle\n/\<close>.\<close>

definition bundle_header :: "bytes \<Rightarrow> bool" where
  "bundle_header s =
    (starts_with ''# v'' s \<and>
     (let digits = takeWhile is_digit (drop 3 s); rest = dropWhile is_digit (drop 3 s)
      in digits \<noteq> [] \<and> starts_with ('' git bundle'' @ [newline]) rest))"

record git_checkpoint =
  git_checkpoint :: checkpoint
  git_bundle :: bytes

definition no_checkpoint :: checkpoint where
  "no_checkpoint = \<lparr>ck_commit = None, ck_branch = None, ck_artifacts_dropped = None\<rparr>"

definition parse_save_output :: "bytes \<Rightarrow> error + git_checkpoint" where
  "parse_save_output buffer =
    (let (branch, commit, bundle) =
       (case index_of newline buffer of
          None \<Rightarrow> ('''', '''', buffer)
        | Some first \<Rightarrow>
           (case index_of newline (drop (Suc first) buffer) of
              None \<Rightarrow> ('''', '''', buffer)
            | Some n \<Rightarrow> (take first buffer, take n (drop (Suc first) buffer),
                        drop (Suc n) (drop (Suc first) buffer))))
     in if \<not> is_commit_id commit \<or> (bundle \<noteq> [] \<and> \<not> bundle_header (take 32 bundle))
        then Inl (Plain (''unexpected checkpoint output: '' @ json_quote (take 120 buffer)))
        else Inr \<lparr>git_checkpoint = \<lparr>ck_commit = Some commit,
                    ck_branch = (if branch = '''' then None else Some branch),
                    ck_artifacts_dropped = None\<rparr>,
                  git_bundle = bundle\<rparr>)"

definition TAR_MAGIC_OFFSET :: nat where "TAR_MAGIC_OFFSET = 257"
definition TAR_BLOCK_BYTES :: nat where "TAR_BLOCK_BYTES = 512"
definition TAR_END_BLOCKS :: nat where "TAR_END_BLOCKS = 2"

definition is_complete_tar :: "bytes \<Rightarrow> bool" where
  "is_complete_tar tar =
    (if length tar < TAR_BLOCK_BYTES * TAR_END_BLOCKS then False
     else if length tar mod TAR_BLOCK_BYTES \<noteq> 0 then False
     else if take 5 (drop TAR_MAGIC_OFFSET tar) \<noteq> ''ustar'' then False
     else list_all (\<lambda>b. b = CHR 0x00) (drop (length tar - TAR_BLOCK_BYTES * TAR_END_BLOCKS) tar))"

definition parse_artifacts_output :: "bytes \<Rightarrow> error + bytes" where
  "parse_artifacts_output buffer =
    (let header = (case index_of newline buffer of None \<Rightarrow> '''' | Some first \<Rightarrow> take first buffer);
         tar = (case index_of newline buffer of None \<Rightarrow> buffer | Some first \<Rightarrow> drop (Suc first) buffer)
     in if header = ''0'' then Inr []
        else if header \<noteq> ''1'' \<or> \<not> is_complete_tar tar
        then Inl (Plain (''unexpected artifacts output: '' @ json_quote (take 120 buffer)))
        else Inr tar)"

definition restore_environment :: "checkpoint \<Rightarrow> string \<Rightarrow> bytes \<Rightarrow> (string \<times> string) list" where
  "restore_environment ck commit bundle =
    [(''DSH_YAWN_CHECKPOINT_COMMIT'', commit),
     (''DSH_YAWN_CHECKPOINT_BRANCH'', case ck_branch ck of None \<Rightarrow> '''' | Some b \<Rightarrow> b),
     (''DSH_YAWN_CHECKPOINT_HAS_BUNDLE'', if bundle \<noteq> [] then ''1'' else ''0'')]"

section \<open>Running a script in the sandbox\<close>

text \<open>The loop of \<open>runScript\<close> over the events of the stream, and what follows it.\<close>

fun read_events :: "nat \<Rightarrow> bytes \<Rightarrow> bytes \<Rightarrow> bool \<Rightarrow> exec_event list \<Rightarrow> error option \<Rightarrow> error + bytes" where
  "read_events limit out err exited [] broken =
    (case broken of
       Some e \<Rightarrow> Inl e
     | None \<Rightarrow> if exited then Inr out
               else Inl (Plain ''checkpoint script ended without an exit status''))"
| "read_events limit out err exited (Stdout b # evs) broken =
    (if limit < length out + length b
     then Inl (Plain (''checkpoint script output exceeds '' @ show_nat limit @ '' bytes''))
     else read_events limit (out @ b) err exited evs broken)"
| "read_events limit out err exited (Stderr b # evs) broken =
    read_events limit out (err @ b) exited evs broken"
| "read_events limit out err exited (Exited code # evs) broken =
    (if code \<noteq> 0
     then Inl (Plain (''checkpoint script failed with exit code '' @ show_int code @ '': '' @ trim err))
     else read_events limit out err True evs broken)"
| "read_events limit out err exited (OtherEvent # evs) broken =
    read_events limit out err exited evs broken"

definition run_script ::
  "'e runner_rpc \<Rightarrow> client \<Rightarrow> string \<Rightarrow> string \<Rightarrow> (string \<times> string) list \<Rightarrow> bytes \<Rightarrow> nat
   \<Rightarrow> ('e, bytes) comp" where
  "run_script rpc client workspace script env input limit e =
    (let ((evs, broken), e') = rpc_exec rpc client
       \<lparr>argv = [''/bin/bash'', ''-c'', script], cwd = workspace, exec_env = env, stdin = input\<rparr> e
     in (read_events limit [] [] False evs broken, e'))"

text \<open>The texts of the four scripts are parameters: they are shell code, run by the runner.\<close>

record scripts =
  SAVE_SCRIPT :: string
  SAVE_ARTIFACTS_SCRIPT :: string
  RESTORE_SCRIPT :: string
  RESTORE_ARTIFACTS_SCRIPT :: string

record saved_checkpoint =
  sc_checkpoint :: checkpoint
  sc_bundle :: bytes
  sc_artifacts :: bytes
  sc_artifacts_error :: "string option"

definition save_artifacts :: "scripts \<Rightarrow> 'e runner_rpc \<Rightarrow> client \<Rightarrow> string \<Rightarrow> ('e, string + bytes) comp" where
  "save_artifacts sh rpc client workspace =
    catchE
      (bindE (run_script rpc client workspace (SAVE_ARTIFACTS_SCRIPT sh)
                [(''DSH_YAWN_ARTIFACTS_DIR'', artifacts_directory workspace)] [] MAX_ARTIFACTS_BYTES)
         (\<lambda>output. bindE (liftE (parse_artifacts_output output)) (\<lambda>tar. ret (Inr tar))))
      (\<lambda>err. ret (Inl (error_message err)))"

definition git_half :: "scripts \<Rightarrow> 'e runner_rpc \<Rightarrow> client \<Rightarrow> string \<Rightarrow> bool \<Rightarrow> ('e, git_checkpoint) comp" where
  "git_half sh rpc client workspace with_repository =
    (if with_repository
     then bindE (run_script rpc client workspace (SAVE_SCRIPT sh) [] [] MAX_BUNDLE_BYTES)
            (\<lambda>output. liftE (parse_save_output output))
     else ret \<lparr>git_checkpoint = no_checkpoint, git_bundle = []\<rparr>)"

definition save_checkpoint ::
  "scripts \<Rightarrow> 'e runner_rpc \<Rightarrow> client \<Rightarrow> string \<Rightarrow> bool \<Rightarrow> ('e, saved_checkpoint) comp" where
  "save_checkpoint sh rpc client workspace with_repository =
    bindE (git_half sh rpc client workspace with_repository)
      (\<lambda>git. bindE (save_artifacts sh rpc client workspace)
        (\<lambda>artifacts. ret (case artifacts of
            Inl why \<Rightarrow> \<lparr>sc_checkpoint = (git_checkpoint git)\<lparr>ck_artifacts_dropped := Some True\<rparr>,
              sc_bundle = git_bundle git, sc_artifacts = [], sc_artifacts_error = Some why\<rparr>
          | Inr tar \<Rightarrow> \<lparr>sc_checkpoint = git_checkpoint git, sc_bundle = git_bundle git,
              sc_artifacts = tar, sc_artifacts_error = None\<rparr>)))"

definition restore_checkpoint ::
  "scripts \<Rightarrow> 'e runner_rpc \<Rightarrow> client \<Rightarrow> string \<Rightarrow> bool \<Rightarrow> checkpoint \<Rightarrow> bytes \<Rightarrow> bytes \<Rightarrow> ('e, unit) comp" where
  "restore_checkpoint sh rpc client workspace with_repository ck bundle artifacts =
    thenE
      (whenE with_repository
        (case ck_commit ck of
           None \<Rightarrow> throw (Plain ''the checkpoint of a repository session has no commit'')
         | Some commit \<Rightarrow>
             bindE (run_script rpc client workspace (RESTORE_SCRIPT sh)
                     (restore_environment ck commit bundle) bundle 4096) (\<lambda>_. ret ())))
      (whenE (artifacts \<noteq> [])
        (bindE (run_script rpc client workspace (RESTORE_ARTIFACTS_SCRIPT sh)
                [(''DSH_YAWN_ARTIFACTS_DIR'', artifacts_directory workspace)] artifacts 4096)
           (\<lambda>_. ret ())))"

section \<open>The checkpoint files\<close>

text \<open>The host's directory of checkpoint files, keyed by session: \<open>encodeURIComponent\<close> gives
  different sessions different names. \<open>fs_write\<close> and the others are the file system's answers;
  a failed write leaves the old file, because the new one is renamed into place.\<close>

record checkpoint_files =
  bundle_files :: "(string \<times> bytes) list"
  artifact_files :: "(string \<times> bytes) list"

record 'e file_system =
  fs_make_dir :: "('e, unit) comp"
  fs_write :: "('e, unit) comp"
  fs_remove :: "('e, unit) comp"
  fs_read :: "('e, unit) comp"

definition on_env :: "('e, 'a) comp \<Rightarrow> ('x \<times> 'e, 'a) comp" where
  "on_env m s = (case s of (x, e) \<Rightarrow> (case m e of (r, e') \<Rightarrow> (r, (x, e'))))"

definition on_files :: "('x \<Rightarrow> 'x) \<Rightarrow> ('x \<times> 'e, unit) comp" where
  "on_files f = modify (\<lambda>(x, e). (f x, e))"

definition put_bundle :: "string \<Rightarrow> bytes \<Rightarrow> checkpoint_files \<Rightarrow> checkpoint_files" where
  "put_bundle sid b c = c\<lparr>bundle_files := AList.update sid b (bundle_files c)\<rparr>"

definition drop_bundle :: "string \<Rightarrow> checkpoint_files \<Rightarrow> checkpoint_files" where
  "drop_bundle sid c = c\<lparr>bundle_files := AList.delete sid (bundle_files c)\<rparr>"

definition put_artifacts :: "string \<Rightarrow> bytes \<Rightarrow> checkpoint_files \<Rightarrow> checkpoint_files" where
  "put_artifacts sid b c = c\<lparr>artifact_files := AList.update sid b (artifact_files c)\<rparr>"

definition drop_artifacts :: "string \<Rightarrow> checkpoint_files \<Rightarrow> checkpoint_files" where
  "drop_artifacts sid c = c\<lparr>artifact_files := AList.delete sid (artifact_files c)\<rparr>"

definition ckpt_save ::
  "'e file_system \<Rightarrow> string \<Rightarrow> bytes \<Rightarrow> bytes \<Rightarrow> (checkpoint_files \<times> 'e, unit) comp" where
  "ckpt_save fs sid bundle artifacts =
    thenE (on_env (fs_make_dir fs))
   (thenE (on_env (fs_write fs))
   (thenE (on_files (put_bundle sid bundle))
   (if artifacts \<noteq> []
    then thenE (on_env (fs_write fs)) (on_files (put_artifacts sid artifacts))
    else thenE (on_env (fs_remove fs)) (on_files (drop_artifacts sid)))))"

definition ckpt_load :: "'e file_system \<Rightarrow> string \<Rightarrow> (checkpoint_files \<times> 'e, bytes option) comp" where
  "ckpt_load fs sid = thenE (on_env (fs_read fs)) (gets (\<lambda>(c, e). map_of (bundle_files c) sid))"

definition ckpt_load_artifacts ::
  "'e file_system \<Rightarrow> string \<Rightarrow> (checkpoint_files \<times> 'e, bytes option) comp" where
  "ckpt_load_artifacts fs sid =
    thenE (on_env (fs_read fs)) (gets (\<lambda>(c, e). map_of (artifact_files c) sid))"

text \<open>\<open>Promise.all\<close> of two removals: both are attempted, and the first error is the result.\<close>

definition ckpt_remove :: "'e file_system \<Rightarrow> string \<Rightarrow> (checkpoint_files \<times> 'e, unit) comp" where
  "ckpt_remove fs sid s =
    (let (r1, s1) = thenE (on_env (fs_remove fs)) (on_files (drop_bundle sid)) s;
         (r2, s2) = thenE (on_env (fs_remove fs)) (on_files (drop_artifacts sid)) s1
     in (case r1 of Inl err \<Rightarrow> Inl err | Inr _ \<Rightarrow> r2, s2))"

section \<open>Facts\<close>

fun stdout_of :: "exec_event list \<Rightarrow> bytes" where
  "stdout_of [] = []"
| "stdout_of (Stdout b # evs) = b @ stdout_of evs"
| "stdout_of (_ # evs) = stdout_of evs"

fun exit_codes :: "exec_event list \<Rightarrow> int list" where
  "exit_codes [] = []"
| "exit_codes (Exited c # evs) = c # exit_codes evs"
| "exit_codes (_ # evs) = exit_codes evs"

lemma read_events_bound:
  "read_events limit out err exited evs broken = Inr res \<Longrightarrow> length out \<le> limit \<Longrightarrow>
     length res \<le> limit \<and> res = out @ stdout_of evs \<and> broken = None
     \<and> (exited \<or> exit_codes evs \<noteq> []) \<and> set (exit_codes evs) \<subseteq> {0}"
proof (induction evs arbitrary: out err exited rule: stdout_of.induct)
  case (2 b evs)
  then have "read_events limit (out @ b) err exited evs broken = Inr res" "length (out @ b) \<le> limit"
    by (auto split: if_splits)
  from 2(1) [OF this] show ?case by auto
qed (auto split: option.splits if_splits)

lemma read_events_complete:
  "length (out @ stdout_of evs) \<le> limit \<Longrightarrow> exited \<or> exit_codes evs \<noteq> [] \<Longrightarrow>
     set (exit_codes evs) \<subseteq> {0} \<Longrightarrow>
     read_events limit out err exited evs None = Inr (out @ stdout_of evs)"
  by (induction evs arbitrary: out err exited rule: stdout_of.induct) auto

lemma read_events_iff:
  "read_events limit [] [] False evs broken = Inr res \<longleftrightarrow>
     broken = None \<and> exit_codes evs \<noteq> [] \<and> set (exit_codes evs) \<subseteq> {0}
     \<and> res = stdout_of evs \<and> length res \<le> limit"
  using read_events_bound [of limit "[]" "[]" False evs broken res]
    read_events_complete [of "[]" evs limit False "[]"] by auto

lemma bundle_header_take:
  "bundle_header (take 32 (''# v2 git bundle'' @ [newline] @ s))"
  by (simp add: bundle_header_def is_digit_def)

lemma is_hex_no_newline: "is_commit_id c \<Longrightarrow> newline \<notin> set c"
  by (auto simp: is_commit_id_def list_all_iff is_hex_def is_digit_def)

definition git_result :: "string \<Rightarrow> string \<Rightarrow> bytes \<Rightarrow> git_checkpoint" where
  "git_result branch commit bundle =
    \<lparr>git_checkpoint = \<lparr>ck_commit = Some commit,
       ck_branch = (if branch = '''' then None else Some branch), ck_artifacts_dropped = None\<rparr>,
     git_bundle = bundle\<rparr>"

definition save_output :: "string \<Rightarrow> string \<Rightarrow> bytes \<Rightarrow> bytes" where
  "save_output branch commit bundle = branch @ [newline] @ commit @ [newline] @ bundle"

definition good_bundle :: "bytes \<Rightarrow> bool" where
  "good_bundle b = (b = [] \<or> bundle_header (take 32 b))"

lemma parse_save_output_ok:
  assumes "newline \<notin> set branch" "is_commit_id commit" "good_bundle bundle"
  shows "parse_save_output (save_output branch commit bundle) = Inr (git_result branch commit bundle)"
  using assms is_hex_no_newline [OF assms(2)]
  by (auto simp: parse_save_output_def save_output_def index_of_append git_result_def good_bundle_def)

lemma parse_save_output_inv:
  assumes "parse_save_output out = Inr g"
  shows "\<exists>branch commit bundle. out = save_output branch commit bundle \<and> newline \<notin> set branch
    \<and> is_commit_id commit \<and> good_bundle bundle \<and> g = git_result branch commit bundle"
proof (cases "index_of newline out")
  case None
  with assms show ?thesis by (simp add: parse_save_output_def is_commit_id_def)
next
  case (Some i)
  show ?thesis
  proof (cases "index_of newline (drop (Suc i) out)")
    case None
    with Some assms show ?thesis by (simp add: parse_save_output_def is_commit_id_def)
  next
    case (Some j)
    let ?branch = "take i out" and ?commit = "take j (drop (Suc i) out)"
      and ?packed = "drop (Suc j) (drop (Suc i) out)"
    from index_of_SomeD [OF \<open>index_of newline out = Some i\<close>] index_of_SomeD [OF Some]
    have "out = save_output ?branch ?commit ?packed" "newline \<notin> set ?branch"
      by (simp_all add: save_output_def)
    moreover have "is_commit_id ?commit" "good_bundle ?packed" "g = git_result ?branch ?commit ?packed"
      using assms \<open>index_of newline out = Some i\<close> Some
      by (auto simp: parse_save_output_def git_result_def good_bundle_def split: if_splits)
    ultimately show ?thesis by blast
  qed
qed

lemma parse_artifacts_inv:
  "parse_artifacts_output out = Inr tar \<Longrightarrow> tar = [] \<or> is_complete_tar tar"
  by (auto simp: parse_artifacts_output_def Let_def split: if_splits)

lemma run_script_Inr:
  "run_script rpc client workspace script env input limit e = (Inr out, e') \<longleftrightarrow>
     (\<exists>evs. rpc_exec rpc client \<lparr>argv = [''/bin/bash'', ''-c'', script], cwd = workspace,
          exec_env = env, stdin = input\<rparr> e = ((evs, None), e')
        \<and> exit_codes evs \<noteq> [] \<and> set (exit_codes evs) \<subseteq> {0}
        \<and> out = stdout_of evs \<and> length out \<le> limit)"
  by (auto simp: run_script_def read_events_iff split: prod.splits)

lemma run_script_bound:
  "run_script rpc client workspace script env input limit e = (Inr out, e') \<Longrightarrow> length out \<le> limit"
  by (auto simp: run_script_Inr)

lemma parse_artifacts_length:
  "parse_artifacts_output out = Inr tar \<Longrightarrow> length tar \<le> length out"
  by (auto simp: parse_artifacts_output_def Let_def split: if_splits option.splits)

lemma parse_save_length:
  "parse_save_output out = Inr g \<Longrightarrow> length (git_bundle g) \<le> length out"
  using parse_save_output_inv by (force simp: git_result_def save_output_def)

lemma save_artifacts_total:
  "\<exists>r e'. save_artifacts sh rpc client workspace e = (Inr r, e')
     \<and> (\<forall>tar. r = Inr tar \<longrightarrow> (tar = [] \<or> is_complete_tar tar) \<and> length tar \<le> MAX_ARTIFACTS_BYTES)"
proof -
  let ?run = "run_script rpc client workspace (SAVE_ARTIFACTS_SCRIPT sh)
    [(''DSH_YAWN_ARTIFACTS_DIR'', artifacts_directory workspace)] [] MAX_ARTIFACTS_BYTES e"
  obtain r e' where run: "?run = (r, e')" by (rule prod.exhaust)
  show ?thesis
  proof (cases r)
    case (Inl err)
    with run show ?thesis by (simp add: save_artifacts_def comp_defs)
  next
    case (Inr out)
    with run have len: "length out \<le> MAX_ARTIFACTS_BYTES" by (auto dest: run_script_bound)
    show ?thesis
    proof (cases "parse_artifacts_output out")
      case (Inl err)
      with run Inr show ?thesis by (simp add: save_artifacts_def comp_defs)
    next
      case (Inr tar)
      with run \<open>r = Inr out\<close> len parse_artifacts_inv [OF Inr] parse_artifacts_length [OF Inr]
      show ?thesis by (auto simp: save_artifacts_def comp_defs)
    qed
  qed
qed

lemma git_half_Inr:
  assumes "git_half sh rpc client workspace repo e = (Inr g, e')"
  shows "ck_artifacts_dropped (git_checkpoint g) = None \<and> length (git_bundle g) \<le> MAX_BUNDLE_BYTES
    \<and> (repo \<longrightarrow> (\<exists>c. ck_commit (git_checkpoint g) = Some c \<and> is_commit_id c))
    \<and> good_bundle (git_bundle g)"
proof (cases repo)
  case False
  with assms show ?thesis
    by (auto simp: git_half_def ret_def no_checkpoint_def good_bundle_def)
next
  case True
  with assms obtain out e1 where out: "length out \<le> MAX_BUNDLE_BYTES" "parse_save_output out = Inr g"
    by (auto simp: git_half_def comp_eq liftE_def dest: run_script_bound)
  with parse_save_length [OF out(2)] parse_save_output_inv [OF out(2)] show ?thesis
    by (auto simp: git_result_def)
qed

lemma save_checkpoint_alt:
  "save_checkpoint sh rpc client workspace repo e =
    (case git_half sh rpc client workspace repo e of
       (Inl err, e1) \<Rightarrow> (Inl err, e1)
     | (Inr g, e1) \<Rightarrow> (case save_artifacts sh rpc client workspace e1 of
         (Inl err, e2) \<Rightarrow> (Inl err, e2)
       | (Inr (Inl why), e2) \<Rightarrow> (Inr \<lparr>sc_checkpoint = (git_checkpoint g)\<lparr>ck_artifacts_dropped := Some True\<rparr>,
              sc_bundle = git_bundle g, sc_artifacts = [], sc_artifacts_error = Some why\<rparr>, e2)
       | (Inr (Inr tar), e2) \<Rightarrow> (Inr \<lparr>sc_checkpoint = git_checkpoint g, sc_bundle = git_bundle g,
              sc_artifacts = tar, sc_artifacts_error = None\<rparr>, e2)))"
  unfolding save_checkpoint_def
  by (auto simp: bindE_def ret_def split: prod.splits sum.splits)

section \<open>Properties\<close>

text \<open>The save script's output is accepted exactly when it is a branch line, a line with a full
  commit hash and either no bytes or a Git bundle, and what is read back is that branch, commit
  and bundle: a branch line that is empty reads as a detached HEAD.\<close>

lemma parse_save_output_exact:
  "parse_save_output out = Inr g \<longleftrightarrow>
     (\<exists>branch commit bundle. out = save_output branch commit bundle \<and> newline \<notin> set branch
        \<and> is_commit_id commit \<and> good_bundle bundle \<and> g = git_result branch commit bundle)"
  using parse_save_output_inv parse_save_output_ok by metis

text \<open>A script run in the sandbox yields output exactly when its stream ended by itself, an exit
  event came, every exit code was zero, and what it printed fits the limit; the output is then
  everything it printed to stdout, in order. Every other stream is an error.\<close>

lemma run_script_exact:
  "run_script rpc client workspace script env input limit e = (Inr out, e') \<longleftrightarrow>
     (\<exists>evs. rpc_exec rpc client \<lparr>argv = [''/bin/bash'', ''-c'', script], cwd = workspace,
          exec_env = env, stdin = input\<rparr> e = ((evs, None), e')
        \<and> exit_codes evs \<noteq> [] \<and> set (exit_codes evs) \<subseteq> {0}
        \<and> out = stdout_of evs \<and> length out \<le> limit)"
  by (rule run_script_Inr)


definition demo_scripts :: scripts where
  "demo_scripts = \<lparr>SAVE_SCRIPT = ''save'', SAVE_ARTIFACTS_SCRIPT = ''save-artifacts'',
     RESTORE_SCRIPT = ''restore'', RESTORE_ARTIFACTS_SCRIPT = ''restore-artifacts''\<rparr>"

definition demo_commit :: string where
  "demo_commit = ''0123456789abcdef0123456789abcdef01234567''"

text \<open>A runner that answers every call: its tree is on branch main with nothing to bundle, and its
  artifacts script dies.\<close>

definition demo_exec :: "client \<Rightarrow> exec_request \<Rightarrow> 'e \<Rightarrow> (exec_event list \<times> error option) \<times> 'e" where
  "demo_exec c req e =
    ((if argv req = [''/bin/bash'', ''-c'', ''save'']
      then [Stdout (save_output ''main'' demo_commit []), Exited 0]
      else if argv req = [''/bin/bash'', ''-c'', ''save-artifacts'']
      then [Stderr ''no space left'', Exited 2] else [Exited 0], None), e)"

definition demo_rpc :: "'e runner_rpc" where
  "demo_rpc = \<lparr>rpc_health = \<lambda>c. ret ''sandbox-1'', rpc_exec = demo_exec,
     rpc_set_secrets = \<lambda>c ss. ret (), rpc_set_git_credentials = \<lambda>c gs. ret (),
     rpc_setup = \<lambda>c r. ret ()\<rparr>"

definition demo_saved :: saved_checkpoint where
  "demo_saved = \<lparr>sc_checkpoint = \<lparr>ck_commit = Some demo_commit, ck_branch = Some ''main'',
       ck_artifacts_dropped = Some True\<rparr>,
     sc_bundle = [], sc_artifacts = [],
     sc_artifacts_error = Some ''checkpoint script failed with exit code 2: no space left''\<rparr>"

lemma demo_save: "save_checkpoint demo_scripts demo_rpc c w True e = (Inr demo_saved, e)"
  by (simp add: save_checkpoint_def git_half_def save_artifacts_def run_script_def comp_defs
      demo_scripts_def demo_rpc_def demo_exec_def demo_saved_def demo_commit_def
      parse_save_output_def save_output_def is_commit_id_def is_hex_def is_digit_def
      MAX_BUNDLE_BYTES_def MAX_ARTIFACTS_BYTES_def show_int_def show_nat.simps digit_char_def
      trim_def is_space_def)


text \<open>An artifacts folder that cannot be saved never costs the checkpoint: saving fails exactly
  when the Git half fails, with its error, and never for a session without a repository.\<close>

theorem save_checkpoint_fails_iff_git:
  "(\<exists>e'. save_checkpoint sh rpc client workspace repo e = (Inl err, e')) \<longleftrightarrow>
     repo \<and> (\<exists>e'. git_half sh rpc client workspace True e = (Inl err, e'))"
proof -
  have total: "fst (save_artifacts sh rpc client workspace s) \<noteq> Inl x" for s x
    using save_artifacts_total [of sh rpc client workspace s] by auto
  have "repo \<or> (\<forall>e'. git_half sh rpc client workspace repo e \<noteq> (Inl err, e'))"
    by (cases repo) (simp_all add: git_half_def ret_def)
  moreover have "(\<exists>e'. save_checkpoint sh rpc client workspace repo e = (Inl err, e')) \<longleftrightarrow>
      (\<exists>e'. git_half sh rpc client workspace repo e = (Inl err, e'))"
    using total by (auto simp: save_checkpoint_alt split: prod.splits sum.splits) (metis fst_conv)+
  ultimately show ?thesis by (cases repo) auto
qed

end
