(* ===== verification/Durable_File.thy ===== *)
theory Durable_File
  imports Prelude
begin

text \<open>
  The way every durable store of the host writes its file (\<open>SessionStore\<close>,
  \<open>CredentialBroker\<close>, \<open>McpServerStore\<close>): an operation changes the state in memory at once,
  and its promise is the write of a snapshot, chained behind the writes before it
  (\<open>this.writeChain = this.writeChain.then(...)\<close>). The write goes to a temporary file that is
  renamed over the file, so it either replaces the whole content or leaves it alone. A rejected
  chain stays rejected: the callback of a later \<open>then\<close> never runs.

  The locale \<open>durable_store\<close> is the contract of such a store; its lemmas are proved once and
  hold of each store that is interpreted in it.
\<close>

record 'f durable =
  mem :: 'f
  disk :: "'f option"
  chain :: "error option"

text \<open>\<open>persist flush\<close>: \<open>flush\<close> is the outcome of the three file system calls in the world
  \<open>'e\<close>; the snapshot is taken before the chain is awaited, and nothing runs in between here.\<close>

definition persist :: "('e, unit) comp \<Rightarrow> ('f durable \<times> 'e, unit) comp" where
  "persist flush s = (case s of (d, e) \<Rightarrow>
    (case chain d of
       Some err \<Rightarrow> (Inl err, s)
     | None \<Rightarrow>
        (case flush e of
           (Inl err, e') \<Rightarrow> (Inl err, (d\<lparr>chain := Some err\<rparr>, e'))
         | (Inr _, e') \<Rightarrow> (Inr (), (d\<lparr>disk := Some (mem d)\<rparr>, e')))))"

definition change :: "('f \<Rightarrow> 'f) \<Rightarrow> ('f durable \<times> 'e, unit) comp" where
  "change f = modify (\<lambda>(d, e). (d\<lparr>mem := f (mem d)\<rparr>, e))"

text \<open>Running a list of operations whose callers go on after a rejected write.\<close>

definition settle :: "('s, unit) comp \<Rightarrow> ('s, unit) comp" where
  "settle m = catchE m (\<lambda>_. ret ())"

text \<open>\<open>reload parse blank reading\<close>: reading the file again, once the writes under way are over; a missing
  file gives the empty content. \<open>reading\<close> is the parsed file as it is then, \<open>None\<close> when it is
  missing: others may have edited it. A rejected chain of writes rejects the reading too.\<close>

definition reload ::
  "('j \<Rightarrow> error + 'f) \<Rightarrow> 'f \<Rightarrow> ('f durable \<times> 'e \<Rightarrow> error + 'j option) \<Rightarrow> ('f durable \<times> 'e, unit) comp" where
  "reload parse blank reading s =
    (case s of (d, e) \<Rightarrow>
      (case chain d of
         Some err \<Rightarrow> (Inl err, s)
       | None \<Rightarrow>
          (case reading s of
             Inl err \<Rightarrow> (Inl err, s)
           | Inr None \<Rightarrow> (Inr (), (d\<lparr>mem := blank\<rparr>, e))
           | Inr (Some v) \<Rightarrow>
              (case parse v of
                 Inl err \<Rightarrow> (Inl err, s)
               | Inr f \<Rightarrow> (Inr (), (d\<lparr>mem := f\<rparr>, e))))))"

lemma preserves_reload:
  assumes "I blank" and "\<And>s v f. reading s = Inr (Some v) \<Longrightarrow> parse v = Inr f \<Longrightarrow> I f"
  shows "preserves (\<lambda>s. I (mem (fst s))) (reload parse blank reading)"
  using assms unfolding preserves_def reload_def
  by (auto split: prod.splits option.splits sum.splits)

lemma persist_Inr:
  "persist flush s = (Inr u, t) \<Longrightarrow>
   disk (fst t) = Some (mem (fst s)) \<and> mem (fst t) = mem (fst s) \<and> chain (fst t) = None \<and> chain (fst s) = None"
  by (auto simp: persist_def split: prod.splits option.splits sum.splits)

lemma persist_Inl:
  "persist flush s = (Inl err, t) \<Longrightarrow>
   disk (fst t) = disk (fst s) \<and> mem (fst t) = mem (fst s) \<and> chain (fst t) = Some err"
  by (auto simp: persist_def split: prod.splits option.splits sum.splits)

lemma persist_poisoned:
  "chain (fst s) = Some err \<Longrightarrow> persist flush s = (Inl err, s)"
  by (auto simp: persist_def split: prod.splits)

lemma change_simps [simp]:
  "fst (change f s) = Inr ()" "mem (fst (snd (change f s))) = f (mem (fst s))"
  "disk (fst (snd (change f s))) = disk (fst s)" "chain (fst (snd (change f s))) = chain (fst s)"
  by (auto simp: change_def modify_def split: prod.splits)

lemma change_pair: "change f s = (Inr (), snd (change f s))"
  by (simp add: prod_eq_iff)

text \<open>The contract: every operation is its change in memory followed by \<open>persist\<close>.\<close>

locale durable_store =
  fixes run :: "'op \<Rightarrow> ('f durable \<times> 'e, unit) comp"
    and effect :: "'op \<Rightarrow> 'f \<Rightarrow> 'f"
    and flush :: "('e, unit) comp"
  assumes run_op: "run op = thenE (change (effect op)) (persist flush)"
begin

definition after :: "'op list \<Rightarrow> 'f \<Rightarrow> 'f" where
  "after ops f = fold effect ops f"

definition run_all :: "'op list \<Rightarrow> ('f durable \<times> 'e, unit) comp" where
  "run_all ops = forE ops (\<lambda>op. settle (run op))"

lemma run_eq: "run op s = persist flush (snd (change (effect op) s))"
  by (subst run_op) (simp add: thenE_def bindE_Inr [OF change_pair])

lemma run_mem: "mem (fst (snd (run op s))) = effect op (mem (fst s))"
proof -
  obtain r t where r: "persist flush (snd (change (effect op) s)) = (r, t)"
    by (cases "persist flush (snd (change (effect op) s))")
  have "mem (fst t) = mem (fst (snd (change (effect op) s)))"
  proof (cases r)
    case (Inl err)
    with persist_Inl r show ?thesis by blast
  next
    case (Inr u)
    with persist_Inr r show ?thesis by blast
  qed
  then show ?thesis by (simp add: run_eq r)
qed

lemma run_saved: "run op s = (Inr u, t) \<Longrightarrow> disk (fst t) = Some (mem (fst t))"
  unfolding run_eq using persist_Inr by metis

lemma run_failed:
  "run op s = (Inl err, t) \<Longrightarrow> disk (fst t) = disk (fst s) \<and> chain (fst t) = Some err"
  unfolding run_eq using persist_Inl by (metis change_simps(3))

lemma run_poisoned:
  "chain (fst s) = Some err \<Longrightarrow>
     fst (run op s) = Inl err \<and> disk (fst (snd (run op s))) = disk (fst s)
     \<and> chain (fst (snd (run op s))) = Some err"
  by (simp add: run_eq persist_poisoned)

lemma run_disk: "disk (fst (snd (run op s))) \<in> {disk (fst s), Some (mem (fst (snd (run op s))))}"
proof -
  obtain r t where "run op s = (r, t)" by (rule prod.exhaust)
  then show ?thesis by (cases r) (auto dest: run_failed run_saved)
qed

lemma snd_settle [simp]: "snd (settle m s) = snd (m s)"
  by (cases "m s"; cases "fst (m s)") (auto simp: settle_def catchE_def ret_def)

lemma fst_settle [simp]: "fst (settle m s) = Inr ()"
  by (cases "m s"; cases "fst (m s)") (auto simp: settle_def catchE_def ret_def)

lemma run_all_Nil [simp]: "snd (run_all [] s) = s"
  by (simp add: run_all_def ret_def)

lemma run_all_Cons [simp]: "snd (run_all (op # ops) s) = snd (run_all ops (snd (run op s)))"
proof -
  have "settle (run op) s = (Inr (), snd (run op s))"
    by (simp add: prod_eq_iff)
  then show ?thesis by (simp add: run_all_def thenE_def bindE_def)
qed

lemma run_all_mem: "mem (fst (snd (run_all ops s))) = after ops (mem (fst s))"
  by (induction ops arbitrary: s) (simp_all add: after_def run_mem)

text \<open>A poisoned store never writes again: every later operation reports the old error.\<close>

lemma run_all_poisoned:
  "chain (fst s) = Some err \<Longrightarrow>
     disk (fst (snd (run_all ops s))) = disk (fst s) \<and> chain (fst (snd (run_all ops s))) = Some err"
  by (induction ops arbitrary: s) (simp_all add: run_poisoned)

text \<open>Whatever fails, the file is always the state after a prefix of the operations.\<close>

lemma run_all_prefix:
  assumes "disk (fst s) = Some (mem (fst s))"
  shows "\<exists>done. (\<exists>rest. ops = done @ rest)
     \<and> disk (fst (snd (run_all ops s))) = Some (after done (mem (fst s)))"
  using assms
proof (induction ops arbitrary: s)
  case Nil
  then show ?case by (simp add: after_def)
next
  case (Cons op ops)
  obtain r t where Pair: "run op s = (r, t)" by (rule prod.exhaust)
  show ?case
  proof (cases r)
    case (Inl err)
    with Pair Cons.prems have "disk (fst t) = Some (mem (fst s))" "chain (fst t) = Some err"
      by (auto dest: run_failed)
    with Pair have "disk (fst (snd (run_all (op # ops) s))) = Some (after [] (mem (fst s)))"
      by (simp add: run_all_poisoned after_def)
    then show ?thesis by blast
  next
    case (Inr u)
    with Pair have "disk (fst t) = Some (mem (fst t))" by (auto dest: run_saved)
    from Cons.IH [OF this] obtain "done" rest where d: "ops = done @ rest"
      "disk (fst (snd (run_all ops t))) = Some (after done (mem (fst t)))" by blast
    have "mem (fst t) = effect op (mem (fst s))" using run_mem [of op s] Pair by simp
    with d Pair have "op # ops = (op # done) @ rest"
      "disk (fst (snd (run_all (op # ops) s))) = Some (after (op # done) (mem (fst s)))"
      by (simp_all add: after_def)
    then show ?thesis by blast
  qed
qed

end

end
