(* ===== verification/State_Store.thy ===== *)
theory State_Store
  imports Sandbox_Types Durable_File
begin

text \<open>
  \<open>core/state-store.ts\<close>: the durable records of all sessions, the profiles picked for sessions
  without a sandbox, and the MCP servers sessions turned off. \<open>parse_state\<close> is the code's check
  of the parsed file, at the level of JSON; the store itself works on the typed content, which
  the code reaches by a cast it does not check.
\<close>

record state_file =
  sessions :: "(string \<times> session_record) list"
  pending_profiles :: "(string \<times> string) list"
  disabled_mcp_servers :: "(string \<times> string list) list"

definition empty_state :: state_file where
  "empty_state = \<lparr>sessions = [], pending_profiles = [], disabled_mcp_servers = []\<rparr>"

type_synonym session_store = "state_file durable"

section \<open>Reading\<close>

definition get_record :: "string \<Rightarrow> state_file \<Rightarrow> session_record option" where
  "get_record sid f = map_of (sessions f) sid"

definition record_values :: "state_file \<Rightarrow> session_record list" where
  "record_values f = map snd (sessions f)"

definition pending_profile :: "string \<Rightarrow> state_file \<Rightarrow> string option" where
  "pending_profile sid f = map_of (pending_profiles f) sid"

definition disabled_servers :: "string \<Rightarrow> state_file \<Rightarrow> string list option" where
  "disabled_servers sid f = map_of (disabled_mcp_servers f) sid"

section \<open>Writing\<close>

definition put_record :: "session_record \<Rightarrow> state_file \<Rightarrow> state_file" where
  "put_record r f = f\<lparr>sessions := AList.update (session_id r) r (sessions f),
     pending_profiles := AList.delete (session_id r) (pending_profiles f)\<rparr>"

definition drop_record :: "string \<Rightarrow> state_file \<Rightarrow> state_file" where
  "drop_record sid f = f\<lparr>sessions := AList.delete sid (sessions f)\<rparr>"

definition put_pending :: "string \<Rightarrow> string \<Rightarrow> state_file \<Rightarrow> state_file" where
  "put_pending sid p f = f\<lparr>pending_profiles := AList.update sid p (pending_profiles f)\<rparr>"

definition put_disabled :: "string \<Rightarrow> string list \<Rightarrow> state_file \<Rightarrow> state_file" where
  "put_disabled sid ns f = f\<lparr>disabled_mcp_servers := AList.update sid ns (disabled_mcp_servers f)\<rparr>"

definition store_set :: "('e, unit) comp \<Rightarrow> session_record \<Rightarrow> (session_store \<times> 'e, unit) comp" where
  "store_set flush r = thenE (change (put_record r)) (persist flush)"

definition store_delete :: "('e, unit) comp \<Rightarrow> string \<Rightarrow> (session_store \<times> 'e, unit) comp" where
  "store_delete flush sid = thenE (change (drop_record sid)) (persist flush)"

definition set_pending_profile ::
  "('e, unit) comp \<Rightarrow> string \<Rightarrow> string \<Rightarrow> (session_store \<times> 'e, unit) comp" where
  "set_pending_profile flush sid p = thenE (change (put_pending sid p)) (persist flush)"

definition set_disabled_mcp_servers ::
  "('e, unit) comp \<Rightarrow> string \<Rightarrow> string list \<Rightarrow> (session_store \<times> 'e, unit) comp" where
  "set_disabled_mcp_servers flush sid ns = thenE (change (put_disabled sid ns)) (persist flush)"

text \<open>\<open>initialize\<close>: \<open>make_dir\<close> is the creation of the parent directory. A missing file leaves the
  empty state.\<close>

definition store_initialize :: "('e, unit) comp \<Rightarrow> (session_store \<times> 'e, unit) comp" where
  "store_initialize make_dir s = (case s of (d, e) \<Rightarrow>
    (case make_dir e of
       (Inl err, e') \<Rightarrow> (Inl err, (d, e'))
     | (Inr _, e') \<Rightarrow>
        (Inr (), ((case disk d of None \<Rightarrow> d | Some f \<Rightarrow> d\<lparr>mem := f\<rparr>), e'))))"

section \<open>The operations as a durable store\<close>

datatype store_op =
    SetRecord session_record
  | DeleteRecord string
  | SetPending string string
  | SetDisabled string "string list"

fun store_effect :: "store_op \<Rightarrow> state_file \<Rightarrow> state_file" where
  "store_effect (SetRecord r) = put_record r"
| "store_effect (DeleteRecord sid) = drop_record sid"
| "store_effect (SetPending sid p) = put_pending sid p"
| "store_effect (SetDisabled sid ns) = put_disabled sid ns"

fun store_run :: "('e, unit) comp \<Rightarrow> store_op \<Rightarrow> (session_store \<times> 'e, unit) comp" where
  "store_run flush (SetRecord r) = store_set flush r"
| "store_run flush (DeleteRecord sid) = store_delete flush sid"
| "store_run flush (SetPending sid p) = set_pending_profile flush sid p"
| "store_run flush (SetDisabled sid ns) = set_disabled_mcp_servers flush sid ns"

interpretation session_store: durable_store "store_run flush" store_effect flush
  for flush :: "('e, unit) comp"
proof
  fix op
  show "store_run flush op = thenE (change (store_effect op)) (persist flush)"
    by (cases op) (simp_all add: store_set_def store_delete_def set_pending_profile_def
        set_disabled_mcp_servers_def)
qed

section \<open>The file's format\<close>

definition unsupported_format :: error where
  "unsupported_format = Plain ''sandbox session state has an unsupported format''"

text \<open>\<open>Object.values\<close> of a parsed value that is an object, and putting changed values back.\<close>

fun map_values :: "(json \<Rightarrow> error + json) \<Rightarrow> (string \<times> json) list \<Rightarrow> error + (string \<times> json) list" where
  "map_values f [] = Inr []"
| "map_values f ((k, v) # fs) = (case f v of
     Inl e \<Rightarrow> Inl e
   | Inr v' \<Rightarrow> (case map_values f fs of Inl e \<Rightarrow> Inl e | Inr fs' \<Rightarrow> Inr ((k, v') # fs')))"

text \<open>One turn of the loop of \<open>backfillStartTimes\<close>. Reading a field of \<open>null\<close> throws, and so does
  giving a field to a primitive value.\<close>

fun backfill_record :: "json \<Rightarrow> error + json" where
  "backfill_record JNull = Inl (Plain ''TypeError'')"
| "backfill_record (JBool _) = Inl (Plain ''TypeError'')"
| "backfill_record (JNum _) = Inl (Plain ''TypeError'')"
| "backfill_record (JStr _) = Inl (Plain ''TypeError'')"
| "backfill_record (JArr vs) = Inr (JArr vs)"
| "backfill_record (JObj fs) = Inr (JObj
     (case (map_of fs ''createdAt'', map_of fs ''updatedAt'') of
        (None, Some t) \<Rightarrow> AList.update ''createdAt'' t fs
      | _ \<Rightarrow> fs))"

fun backfill_start_times :: "json \<Rightarrow> error + json" where
  "backfill_start_times (JObj fs) = map_sum id JObj (map_values backfill_record fs)"
| "backfill_start_times (JArr vs) =
     map_sum id (\<lambda>fs. JArr (map snd fs)) (map_values backfill_record (map (Pair '''') vs))"
| "backfill_start_times v = Inr v"

record raw_state =
  raw_sessions :: json
  raw_pending_profiles :: json
  raw_disabled_mcp_servers :: json

definition object_or_empty :: "json option \<Rightarrow> json" where
  "object_or_empty v = (case v of
     None \<Rightarrow> JObj []
   | Some w \<Rightarrow> if object_fields w = None then JObj [] else w)"

definition parse_state :: "json \<Rightarrow> error + raw_state" where
  "parse_state v =
    (if object_fields v = None \<or> field ''version'' v \<noteq> Some (JNum (js_int 1)) then Inl unsupported_format
     else case field ''sessions'' v of
       None \<Rightarrow> Inl unsupported_format
     | Some ss \<Rightarrow>
         if object_fields ss = None then Inl unsupported_format
         else case backfill_start_times ss of
           Inl e \<Rightarrow> Inl e
         | Inr ss' \<Rightarrow> Inr \<lparr>raw_sessions = ss',
             raw_pending_profiles = object_or_empty (field ''pendingProfiles'' v),
             raw_disabled_mcp_servers = object_or_empty (field ''disabledMcpServers'' v)\<rparr>)"

section \<open>Facts\<close>

lemma get_put_record: "get_record sid (put_record r f) = (if sid = session_id r then Some r else get_record sid f)"
  by (simp add: get_record_def put_record_def)

lemma get_drop_record: "get_record sid (drop_record k f) = (if sid = k then None else get_record sid f)"
  by (simp add: get_record_def drop_record_def)

lemma pending_put_record:
  "pending_profile sid (put_record r f) = (if sid = session_id r then None else pending_profile sid f)"
  by (simp add: pending_profile_def put_record_def)

lemma pending_drop_record [simp]: "pending_profile sid (drop_record k f) = pending_profile sid f"
  by (simp add: pending_profile_def drop_record_def)

lemma disabled_put_record [simp]: "disabled_servers sid (put_record r f) = disabled_servers sid f"
  by (simp add: disabled_servers_def put_record_def)

lemma disabled_drop_record [simp]: "disabled_servers sid (drop_record k f) = disabled_servers sid f"
  by (simp add: disabled_servers_def drop_record_def)

lemmas store_reads = get_put_record get_drop_record pending_put_record

lemma map_values_of:
  "map_values f fs = Inr gs \<Longrightarrow> map_of fs k = Some v \<Longrightarrow> \<exists>w. map_of gs k = Some w \<and> f v = Inr w"
proof (induction fs arbitrary: gs)
  case (Cons p fs)
  obtain k' v' where p: "p = (k', v')" by (rule prod.exhaust)
  with Cons.prems(1) obtain w gs' where g: "f v' = Inr w" "map_values f fs = Inr gs'" "gs = (k', w) # gs'"
    by (auto split: sum.splits)
  with Cons p show ?case by (cases "k = k'") auto
qed simp

lemma backfill_record_idem: "backfill_record v = Inr w \<Longrightarrow> backfill_record w = Inr w"
  by (cases v) (auto split: option.splits)

section \<open>Durability\<close>

text \<open>\<open>run_ops\<close>: callers that go on after a rejected operation.\<close>

definition run_ops :: "('e, unit) comp \<Rightarrow> store_op list \<Rightarrow> (session_store \<times> 'e, unit) comp" where
  "run_ops flush ops = forE ops (\<lambda>op. settle (store_run flush op))"

lemma run_ops_run_all: "run_ops flush ops = session_store.run_all flush ops"
  by (simp add: run_ops_def session_store.run_all_def)


text \<open>One failed write stops the store: every later operation is rejected with the error of that
  write, and nothing reaches the file any more, even when the disk is well again.\<close>

lemma failed_write_stops_the_store:
  assumes "store_run flush op s = (Inl err, t)"
  shows "disk (fst (snd (run_ops flush ops t))) = disk (fst s)
    \<and> fst (store_run flush later (snd (run_ops flush ops t))) = Inl err"
proof -
  from session_store.run_failed [OF assms] have "disk (fst t) = disk (fst s)" "chain (fst t) = Some err" by simp_all
  with session_store.run_all_poisoned [of t err flush ops]
    session_store.run_poisoned [of "snd (session_store.run_all flush ops t)" err flush later]
  show ?thesis by (simp add: run_ops_run_all)
qed

text \<open>A disk that is full once.\<close>

definition demo_flush :: "(nat, unit) comp" where
  "demo_flush n = (if n = 0 then (Inl (Plain ''ENOSPC''), 1) else (Inr (), n))"

definition demo_durable :: "session_store \<times> nat" where
  "demo_durable = (\<lparr>mem = empty_state, disk = Some empty_state, chain = None\<rparr>, 0)"


lemma demo_failed_write:
  "store_run demo_flush (SetPending ''s'' ''p'') demo_durable = (Inl (Plain ''ENOSPC''),
     (\<lparr>mem = put_pending ''s'' ''p'' empty_state, disk = Some empty_state, chain = Some (Plain ''ENOSPC'')\<rparr>, 1))"
  by (simp add: set_pending_profile_def thenE_def bindE_def change_def modify_def persist_def demo_durable_def
      demo_flush_def)

lemma failed_write_stops_the_store_witness:
  "fst (store_run demo_flush (DeleteRecord ''s'')
     (snd (store_run demo_flush (SetPending ''s'' ''p'') demo_durable))) = Inl (Plain ''ENOSPC'')"
  using failed_write_stops_the_store [OF demo_failed_write, of "[]" "DeleteRecord ''s''"]
  unfolding demo_failed_write by (simp add: run_ops_def ret_def demo_durable_def)

end
