(* ===== verification/Runner_Attachment.thy ===== *)
theory Runner_Attachment
  imports Checkpoints State_Store
begin

text \<open>
  \<open>sandbox/manager/runner-attachment.ts\<close>: the live runner handle of each session. The state
  here is the cache of clients beside the world \<open>'e\<close> that holds the tunnel, the runners, the
  credential broker and the clock; the tunnel, the RPCs and the broker are the parameters the
  class gets as its dependencies.
\<close>

datatype secret_scope = GlobalScope | WorkspaceScope string

record 'e attachment_deps =
  at_gateway :: "'e gateway"
  at_rpc :: "'e runner_rpc"
  at_broker_refresh :: "('e, unit) comp"
  at_broker_secrets :: "secret_scope \<Rightarrow> 'e \<Rightarrow> (string \<times> string) list"
  at_git_credentials :: "string \<Rightarrow> ('e, git_credential list) comp"
  at_revision :: string
  at_workspace :: string
  at_now :: "'e \<Rightarrow> int"
  at_sleep :: "int \<Rightarrow> 'e \<Rightarrow> 'e"
  at_scripts :: scripts

type_synonym clients = "(string \<times> client) list"

section \<open>Waiting for a runner\<close>

definition try_runner :: "'e attachment_deps \<Rightarrow> string \<Rightarrow> int \<Rightarrow> ('e, client) comp" where
  "try_runner d sid deadline =
    bindE (gets (at_now d)) (\<lambda>now.
    bindE (gw_wait_for (at_gateway d) sid (max (deadline - now) 1)) (\<lambda>c.
    bindE (rpc_health (at_rpc d) c) (\<lambda>answered.
      if answered \<noteq> sid
      then throw (Plain (''runner identity mismatch: expected '' @ sid @ '', got '' @ answered))
      else ret c)))"

text \<open>The loop of \<open>waitForRunner\<close>; \<open>fuel\<close> bounds its turns.\<close>

fun wait_loop :: "'e attachment_deps \<Rightarrow> string \<Rightarrow> int \<Rightarrow> nat \<Rightarrow> error option \<Rightarrow> ('e, client) comp" where
  "wait_loop d sid deadline 0 last_error e = (Inl OutOfFuel, e)"
| "wait_loop d sid deadline (Suc fuel) last_error e =
    (if at_now d e < deadline
     then (case try_runner d sid deadline e of
             (Inr c, e') \<Rightarrow> (Inr c, e')
           | (Inl err, e') \<Rightarrow>
               wait_loop d sid deadline fuel (Some err)
                 (at_sleep d 500 (gw_drop (at_gateway d) sid e')))
     else (Inl (Plain (''runner did not become healthy: ''
             @ (case last_error of None \<Rightarrow> ''undefined'' | Some err \<Rightarrow> error_text err))), e))"

definition wait_fuel :: nat where "wait_fuel = 121"

definition wait_for_runner :: "'e attachment_deps \<Rightarrow> string \<Rightarrow> ('e, client) comp" where
  "wait_for_runner d sid e = wait_loop d sid (at_now d e + 60000) wait_fuel None e"

section \<open>The cache\<close>

definition client_for :: "string \<Rightarrow> clients \<Rightarrow> client option" where
  "client_for sid cs = map_of cs sid"

definition cache_client :: "string \<Rightarrow> client \<Rightarrow> (clients \<times> 'e, unit) comp" where
  "cache_client sid c = on_files (AList.update sid c)"

definition evict :: "string \<Rightarrow> (clients \<times> 'e, unit) comp" where
  "evict sid = on_files (AList.delete sid)"

definition drop_runner :: "'e attachment_deps \<Rightarrow> string \<Rightarrow> (clients \<times> 'e, unit) comp" where
  "drop_runner d sandbox = modify (\<lambda>(cs, e). (cs, gw_drop (at_gateway d) sandbox e))"

definition detach :: "'e attachment_deps \<Rightarrow> string \<Rightarrow> string \<Rightarrow> (clients \<times> 'e, unit) comp" where
  "detach d sid sandbox = thenE (evict sid) (drop_runner d sandbox)"

section \<open>Attaching\<close>

definition push_credentials :: "'e attachment_deps \<Rightarrow> client \<Rightarrow> string \<Rightarrow> ('e, unit) comp" where
  "push_credentials d c url =
    thenE (at_broker_refresh d)
   (bindE (gets (at_broker_secrets d (if has_repository url then WorkspaceScope url else GlobalScope)))
      (\<lambda>secrets. thenE (rpc_set_secrets (at_rpc d) c secrets)
   (bindE (at_git_credentials d url) (rpc_set_git_credentials (at_rpc d) c))))"

definition reuse_cached ::
  "'e attachment_deps \<Rightarrow> string \<Rightarrow> session_record option \<Rightarrow> (clients \<times> 'e, client option) comp" where
  "reuse_cached d sid rec s =
    (case (client_for sid (fst s), rec) of
       (Some cached, Some r) \<Rightarrow>
         (case record_state r of
            Running sandbox ref \<Rightarrow>
              catchE
                (bindE (on_env (rpc_health (at_rpc d) cached)) (\<lambda>answered.
                 thenE (if answered \<noteq> sandbox then throw (Plain ''runner identity changed'') else ret ())
                (thenE (on_env (push_credentials d cached (repository_url r)))
                       (ret (Some cached)))))
                (\<lambda>_. thenE (evict sid) (ret None)) s
          | _ \<Rightarrow> (Inr None, s))
     | _ \<Rightarrow> (Inr None, s))"

text \<open>\<open>attach\<close>: \<open>saved\<close> is the checkpoint, its bundle and its artifacts, when there is one.\<close>

definition attach ::
  "'e attachment_deps \<Rightarrow> string \<Rightarrow> string \<Rightarrow> string \<Rightarrow> (checkpoint \<times> bytes \<times> bytes) option
   \<Rightarrow> (clients \<times> 'e, client) comp" where
  "attach d sid sandbox url saved =
    bindE (on_env (wait_for_runner d sandbox)) (\<lambda>c.
    thenE (on_env (push_credentials d c url))
   (thenE (on_env (rpc_setup (at_rpc d) c
             \<lparr>setup_repository_url = url, setup_revision = at_revision d,
              setup_workspace = at_workspace d\<rparr>))
   (thenE (case saved of
             None \<Rightarrow> ret ()
           | Some (ck, bundle, artifacts) \<Rightarrow>
               on_env (restore_checkpoint (at_scripts d) (at_rpc d) c (at_workspace d)
                 (has_repository url) ck bundle artifacts))
   (thenE (cache_client sid c) (ret c)))))"

definition connect :: "'e attachment_deps \<Rightarrow> string \<Rightarrow> string \<Rightarrow> (clients \<times> 'e, client) comp" where
  "connect d sid sandbox =
    bindE (gets (\<lambda>s. client_for sid (fst s))) (\<lambda>cached.
      case cached of
        Some c \<Rightarrow> ret c
      | None \<Rightarrow> bindE (on_env (wait_for_runner d sandbox)) (\<lambda>c. thenE (cache_client sid c) (ret c)))"

definition attachment_checkpoint ::
  "'e attachment_deps \<Rightarrow> string \<Rightarrow> string \<Rightarrow> string \<Rightarrow> (clients \<times> 'e, saved_checkpoint) comp" where
  "attachment_checkpoint d sid sandbox url =
    bindE (connect d sid sandbox) (\<lambda>c.
      on_env (save_checkpoint (at_scripts d) (at_rpc d) c (at_workspace d) (has_repository url)))"

section \<open>Facts\<close>

lemma wp_on_env [wp_simps]:
  "wp (on_env m) Q E = (\<lambda>s. wp m (\<lambda>a e. Q a (fst s, e)) (\<lambda>er e. E er (fst s, e)) (snd s))"
  by (auto simp: wp_def on_env_def fun_eq_iff split: prod.splits sum.splits)

lemma wp_on_files [wp_simps]: "wp (on_files f) Q E = (\<lambda>s. Q () (f (fst s), snd s))"
  by (auto simp: wp_def on_files_def modify_def fun_eq_iff split: prod.splits)

lemma wp_evict [wp_simps]: "wp (evict sid) Q E = (\<lambda>s. Q () (AList.delete sid (fst s), snd s))"
  by (simp add: evict_def wp_simps)

lemma wp_cache_client [wp_simps]:
  "wp (cache_client sid c) Q E = (\<lambda>s. Q () (AList.update sid c (fst s), snd s))"
  by (simp add: cache_client_def wp_simps)

lemma wp_drop_runner [wp_simps]:
  "wp (drop_runner d sb) Q E = (\<lambda>s. Q () (fst s, gw_drop (at_gateway d) sb (snd s)))"
  by (auto simp: wp_def drop_runner_def modify_def fun_eq_iff split: prod.splits)

lemma wp_detach [wp_simps]:
  "wp (detach d sid sb) Q E =
     (\<lambda>s. Q () (AList.delete sid (fst s), gw_drop (at_gateway d) sb (snd s)))"
  by (simp add: detach_def wp_simps)

lemma wp_True: "wp m (\<lambda>_ _. True) (\<lambda>_ _. True) s"
  by (auto simp: wp_def split: prod.splits sum.splits)

lemma wp_any: "(\<And>a t. Q a t) \<Longrightarrow> (\<And>e t. E e t) \<Longrightarrow> wp m Q E s"
  by (rule wp_mono [OF wp_True]) auto

text \<open>The clients after an attach: the session's own entry only, and only on success.\<close>

lemma attach_clients:
  "wp (attach d sid sb url saved)
     (\<lambda>c s'. fst s' = AList.update sid c (fst s)) (\<lambda>_ s'. fst s' = fst s) s"
proof (cases saved)
  case None
  then show ?thesis by (auto simp: attach_def wp_simps intro!: wp_any)
next
  case (Some s3)
  obtain ck b a where "s3 = (ck, b, a)" by (rule prod_cases3)
  with Some show ?thesis by (auto simp: attach_def wp_simps intro!: wp_any)
qed

lemma reuse_cached_clients:
  "wp (reuse_cached d sid rec)
     (\<lambda>r s'. case r of Some c \<Rightarrow> fst s' = fst s \<and> client_for sid (fst s) = Some c
                | None \<Rightarrow> fst s' = fst s \<or> fst s' = AList.delete sid (fst s))
     (\<lambda>_ _. False) s"
proof (cases "client_for sid (fst s)")
  case None
  then show ?thesis by (simp add: wp_def reuse_cached_def)
next
  case (Some c)
  show ?thesis
  proof (cases rec)
    case None
    with Some show ?thesis by (simp add: wp_def reuse_cached_def)
  next
    case rec: (Some r)
    show ?thesis
    proof (cases "record_state r")
      case (Running sb ref)
      have "reuse_cached d sid rec s =
        catchE (bindE (on_env (rpc_health (at_rpc d) c)) (\<lambda>answered.
                 thenE (if answered \<noteq> sb then throw (Plain ''runner identity changed'') else ret ())
                (thenE (on_env (push_credentials d c (repository_url r))) (ret (Some c)))))
               (\<lambda>_. thenE (evict sid) (ret None)) s"
        by (simp add: reuse_cached_def Some rec Running)
      then have "wp (reuse_cached d sid rec) Q E s = wp (catchE (bindE (on_env (rpc_health (at_rpc d) c)) (\<lambda>answered.
                 thenE (if answered \<noteq> sb then throw (Plain ''runner identity changed'') else ret ())
                (thenE (on_env (push_credentials d c (repository_url r))) (ret (Some c)))))
               (\<lambda>_. thenE (evict sid) (ret None))) Q E s" for Q E
        by (simp add: wp_def)
      then show ?thesis by (auto simp: wp_simps Some intro!: wp_any)
    qed (simp_all add: wp_def reuse_cached_def Some rec)
  qed
qed

section \<open>The wait ends\<close>

text \<open>What the loop relies on: no call turns the clock back, and a delay lasts as long as asked.\<close>

definition clock_ok :: "'e attachment_deps \<Rightarrow> bool" where
  "clock_ok d \<longleftrightarrow>
     (\<forall>sid ms e. at_now d e \<le> at_now d (snd (gw_wait_for (at_gateway d) sid ms e)))
   \<and> (\<forall>c e. at_now d e \<le> at_now d (snd (rpc_health (at_rpc d) c e)))
   \<and> (\<forall>sid e. at_now d e \<le> at_now d (gw_drop (at_gateway d) sid e))
   \<and> (\<forall>ms e. at_now d e + ms \<le> at_now d (at_sleep d ms e))"

lemma wp_clock:
  assumes "clock_ok d"
  shows "wp (gw_wait_for (at_gateway d) sid ms) (\<lambda>_ e'. at_now d e \<le> at_now d e') (\<lambda>_ e'. at_now d e \<le> at_now d e') e"
    "wp (rpc_health (at_rpc d) c) (\<lambda>a e'. at_now d e \<le> at_now d e' \<and> rpc_health (at_rpc d) c e = (Inr a, e'))
       (\<lambda>_ e'. at_now d e \<le> at_now d e') e"
  using assms unfolding clock_ok_def wp_def
  by (auto split: prod.splits sum.splits) (metis snd_conv)+

definition answers :: "'e attachment_deps \<Rightarrow> client \<Rightarrow> string \<Rightarrow> 'e \<Rightarrow> bool" where
  "answers d c sid e' = (\<exists>e0. rpc_health (at_rpc d) c e0 = (Inr sid, e'))"

lemma try_runner_wp:
  assumes "clock_ok d"
  shows "wp (try_runner d sid deadline) (\<lambda>c e'. answers d c sid e') (\<lambda>_ e'. at_now d e \<le> at_now d e') e"
proof -
  have health: "wp (rpc_health (at_rpc d) c)
      (\<lambda>a e'. if a \<noteq> sid then at_now d e \<le> at_now d e' else answers d c sid e')
      (\<lambda>_ e'. at_now d e \<le> at_now d e') e1" if "at_now d e \<le> at_now d e1" for c e1
    by (rule wp_mono [OF wp_clock(2) [OF assms]]) (use that in \<open>auto simp: answers_def\<close>)
  show ?thesis
    by (simp add: try_runner_def wp_simps cong: if_cong, rule wp_mono [OF wp_clock(1) [OF assms]])
      (auto intro: wp_mono [OF health] split: if_splits)
qed

lemma wait_loop_result:
  assumes "clock_ok d"
  shows "deadline \<le> at_now d e + 500 * int fuel \<Longrightarrow>
    wp (wait_loop d sid deadline (Suc fuel) le)
      (\<lambda>c e'. answers d c sid e')
      (\<lambda>err e'. deadline \<le> at_now d e' \<and> (\<exists>m. err = Plain (''runner did not become healthy: '' @ m))) e"
proof (induction fuel arbitrary: e le)
  case 0
  then show ?case by (simp add: wp_def)
next
  case (Suc fuel)
  show ?case
  proof (cases "at_now d e < deadline")
    case False
    then show ?thesis by (simp add: wp_def)
  next
    case True
    obtain r e1 where r: "try_runner d sid deadline e = (r, e1)" by (rule prod.exhaust)
    show ?thesis
    proof (cases r)
      case (Inr c)
      with r True wp_resultD [OF try_runner_wp [OF assms]] show ?thesis by (simp add: wp_def)
    next
      case (Inl err)
      let ?e2 = "at_sleep d 500 (gw_drop (at_gateway d) sid e1)"
      from Inl r wp_errorD [OF try_runner_wp [OF assms]] have "at_now d e \<le> at_now d e1" by blast
      moreover have "at_now d e1 + 500 \<le> at_now d ?e2"
        using assms unfolding clock_ok_def by (meson add_right_mono order_trans)
      ultimately have "deadline \<le> at_now d ?e2 + 500 * int fuel" using Suc.prems by simp
      from Suc.IH [OF this] Inl r True show ?thesis by (simp add: wp_def)
    qed
  qed
qed

lemma wait_for_runner_result:
  assumes "clock_ok d"
  shows "wp (wait_for_runner d sid) (\<lambda>c e'. answers d c sid e')
    (\<lambda>err e'. at_now d e + 60000 \<le> at_now d e' \<and> (\<exists>m. err = Plain (''runner did not become healthy: '' @ m))) e"
  using wait_loop_result [OF assms, of "at_now d e + 60000" e 120 sid None]
  by (simp add: wp_def wait_for_runner_def wait_fuel_def del: wait_loop.simps)

section \<open>Properties\<close>

text \<open>Waiting for a runner always ends: with a runner that has just answered the health probe
  under the sandbox's own identity, or, once a full minute has passed, with the error that says
  the runner did not become healthy. It never runs out of the model's fuel.\<close>

lemma wait_for_runner_ends:
  assumes "clock_ok d"
  shows "case wait_for_runner d sid e of
      (Inr c, e') \<Rightarrow> answers d c sid e'
    | (Inl err, e') \<Rightarrow> at_now d e + 60000 \<le> at_now d e'
        \<and> (\<exists>m. err = Plain (''runner did not become healthy: '' @ m))"
  using wait_for_runner_result [OF assms, of sid e]
  by (auto simp: wp_def split: prod.splits sum.splits)

text \<open>A world that is only a clock: every runner registers within ten milliseconds.\<close>

definition demo_gateway :: "int gateway" where
  "demo_gateway = \<lparr>gw_wait_for = \<lambda>sid ms e. (Inr 7, e + 10), gw_drop = \<lambda>sid e. e\<rparr>"

definition demo_attachment :: "int attachment_deps" where
  "demo_attachment = \<lparr>at_gateway = demo_gateway, at_rpc = demo_rpc, at_broker_refresh = ret (),
     at_broker_secrets = \<lambda>sc e. [(''GITHUB_TOKEN'', ''t'')], at_git_credentials = \<lambda>url. ret [],
     at_revision = '''', at_workspace = ''/workspace/repository'', at_now = \<lambda>e. e,
     at_sleep = \<lambda>ms e. e + ms, at_scripts = demo_scripts\<rparr>"

lemma demo_clock: "clock_ok demo_attachment"
  by (simp add: clock_ok_def demo_attachment_def demo_gateway_def demo_rpc_def ret_def)

lemma demo_wait: "wait_for_runner demo_attachment ''sandbox-1'' e = (Inr 7, e + 10)"
proof -
  have f: "wait_fuel = Suc 120" by (simp add: wait_fuel_def)
  show ?thesis
    unfolding wait_for_runner_def f wait_loop.simps(2)
    by (simp add: try_runner_def comp_defs demo_attachment_def demo_gateway_def demo_rpc_def)
qed

lemma wait_for_runner_ends_witness:
  "clock_ok demo_attachment \<and> answers demo_attachment 7 ''sandbox-1'' 10"
  using wait_for_runner_ends [OF demo_clock, where sid = "''sandbox-1''" and e = 0]
    demo_wait [of 0] demo_clock
  by simp

end
