(* ===== verification/Profile_Registry.thy ===== *)
theory Profile_Registry
  imports Sandbox_Types
begin

text \<open>
  \<open>sandbox/manager/profile-registry.ts\<close>: the resolved profiles and the backend built for each,
  and which backend owns a session's record. \<open>create\<close> stands for \<open>createBackend\<close>, which may throw;
  profiles are plain data, so the code's comparison of their JSON texts is equality.
\<close>

record 'e registry =
  reg_profiles :: "(string \<times> sandbox_profile) list"
  reg_backends :: "(string \<times> 'e backend) list"

definition backend_or_replacement ::
  "(sandbox_profile \<Rightarrow> error + 'e backend) \<Rightarrow> (string \<times> 'e backend) list
   \<Rightarrow> string \<Rightarrow> sandbox_profile \<Rightarrow> error + 'e backend" where
  "backend_or_replacement create replacements n p =
    (case map_of replacements n of Some b \<Rightarrow> Inr b | None \<Rightarrow> create p)"

fun build_backends ::
  "(string \<Rightarrow> sandbox_profile \<Rightarrow> error + 'e backend) \<Rightarrow> (string \<times> sandbox_profile) list
   \<Rightarrow> error + (string \<times> 'e backend) list" where
  "build_backends build [] = Inr []"
| "build_backends build ((n, p) # ps) =
    (case build n p of
       Inl e \<Rightarrow> Inl e
     | Inr b \<Rightarrow> (case build_backends build ps of Inl e \<Rightarrow> Inl e | Inr bs \<Rightarrow> Inr ((n, b) # bs)))"

definition new_registry ::
  "(sandbox_profile \<Rightarrow> error + 'e backend) \<Rightarrow> (string \<times> 'e backend) list
   \<Rightarrow> (string \<times> sandbox_profile) list \<Rightarrow> error + 'e registry" where
  "new_registry create replacements profiles =
    map_sum id (\<lambda>bs. \<lparr>reg_profiles = profiles, reg_backends = bs\<rparr>)
      (build_backends (backend_or_replacement create replacements) profiles)"

definition keep_or_build ::
  "(sandbox_profile \<Rightarrow> error + 'e backend) \<Rightarrow> (string \<times> 'e backend) list \<Rightarrow> 'e registry
   \<Rightarrow> string \<Rightarrow> sandbox_profile \<Rightarrow> error + 'e backend" where
  "keep_or_build create replacements reg n p =
    (case map_of (reg_backends reg) n of
       Some existing \<Rightarrow>
         if map_of (reg_profiles reg) n = Some p then Inr existing
         else backend_or_replacement create replacements n p
     | None \<Rightarrow> backend_or_replacement create replacements n p)"

text \<open>\<open>update\<close>: the registry after it, and its error. The swap is the last thing it does.\<close>

definition update_registry ::
  "(sandbox_profile \<Rightarrow> error + 'e backend) \<Rightarrow> (string \<times> 'e backend) list
   \<Rightarrow> (string \<times> sandbox_profile) list \<Rightarrow> ('e registry, unit) comp" where
  "update_registry create replacements profiles reg =
    (case build_backends (keep_or_build create replacements reg) profiles of
       Inl e \<Rightarrow> (Inl e, reg)
     | Inr bs \<Rightarrow> (Inr (), \<lparr>reg_profiles = profiles, reg_backends = bs\<rparr>))"

definition registry_profile :: "'e registry \<Rightarrow> string \<Rightarrow> sandbox_profile option" where
  "registry_profile reg n = map_of (reg_profiles reg) n"

definition backend_of :: "'e registry \<Rightarrow> string \<Rightarrow> 'e backend option" where
  "backend_of reg n = map_of (reg_backends reg) n"

definition find_backend :: "'e registry \<Rightarrow> session_record \<Rightarrow> 'e backend option" where
  "find_backend reg r =
    (case map_of (reg_backends reg) (record_profile r) of
       None \<Rightarrow> None
     | Some b \<Rightarrow> if b_name b = record_backend r then Some b else None)"

definition orphaned_record_message :: "session_record \<Rightarrow> string" where
  "orphaned_record_message r =
    ''session '' @ session_id r @ '' has a '' @ record_backend r @ '' sandbox from profile ''
    @ record_profile r @ '', which is no longer configured on that backend''"

definition backend_for :: "'e registry \<Rightarrow> session_record \<Rightarrow> error + 'e backend" where
  "backend_for reg r =
    (case find_backend reg r of None \<Rightarrow> Inl (Plain (orphaned_record_message r)) | Some b \<Rightarrow> Inr b)"

lemma build_backends_Inr:
  "build_backends build ps = Inr bs \<Longrightarrow>
     map fst bs = map fst ps \<and> (\<forall>n p. map_of ps n = Some p \<longrightarrow> (\<exists>b. build n p = Inr b \<and> map_of bs n = Some b))"
  by (induction ps arbitrary: bs) (auto split: sum.splits)

text \<open>A registry that serves every profile it lists.\<close>

definition registry_ok :: "'e registry \<Rightarrow> bool" where
  "registry_ok reg = (map fst (reg_backends reg) = map fst (reg_profiles reg))"

lemma registry_ok_profile:
  assumes "registry_ok reg" "find_backend reg r = Some b"
  shows "\<exists>p. registry_profile reg (record_profile r) = Some p"
proof -
  from assms(2) have "record_profile r \<in> set (map fst (reg_backends reg))"
    by (auto simp: find_backend_def dest: map_of_SomeD split: option.splits intro: rev_image_eqI)
  with assms(1) show ?thesis
    by (metis map_of_eq_None_iff not_None_eq registry_ok_def registry_profile_def set_map)
qed

lemma backend_for_Inr: "backend_for reg r = Inr b \<longleftrightarrow> find_backend reg r = Some b"
  by (auto simp: backend_for_def split: option.splits)

section \<open>Properties\<close>

text \<open>Updating the profiles is all or nothing: a profile whose backend cannot be built leaves
  the registry as it was; otherwise every new profile has a backend, the old one when the profile
  is unchanged and a newly built one when it was added or edited.\<close>

lemma update_registry_atomic:
  "(\<exists>err. update_registry create repl ps reg = (Inl err, reg)) \<or>
   (\<exists>reg'. update_registry create repl ps reg = (Inr (), reg') \<and> registry_ok reg' \<and> reg_profiles reg' = ps
     \<and> (\<forall>n. case map_of ps n of None \<Rightarrow> backend_of reg' n = None
         | Some p \<Rightarrow>
             if backend_of reg n \<noteq> None \<and> map_of (reg_profiles reg) n = Some p
             then backend_of reg' n = backend_of reg n
             else (\<exists>b. backend_or_replacement create repl n p = Inr b \<and> backend_of reg' n = Some b)))"
proof (cases "build_backends (keep_or_build create repl reg) ps")
  case (Inl e)
  then show ?thesis by (simp add: update_registry_def)
next
  case (Inr bs)
  note keys = build_backends_Inr [OF Inr, THEN conjunct1]
    and built = build_backends_Inr [OF Inr, THEN conjunct2, rule_format]
  let ?reg = "\<lparr>reg_profiles = ps, reg_backends = bs\<rparr>"
  have "case map_of ps n of None \<Rightarrow> backend_of ?reg n = None
     | Some p \<Rightarrow>
         if backend_of reg n \<noteq> None \<and> map_of (reg_profiles reg) n = Some p
         then backend_of ?reg n = backend_of reg n
         else (\<exists>b. backend_or_replacement create repl n p = Inr b \<and> backend_of ?reg n = Some b)" for n
  proof (cases "map_of ps n")
    case None
    then have "n \<notin> set (map fst ps)" by (simp add: map_of_eq_None_iff)
    with keys have "n \<notin> set (map fst bs)" by simp
    then have "map_of bs n = None" by (simp add: map_of_eq_None_iff)
    then show ?thesis by (simp add: None backend_of_def)
  next
    case (Some p)
    from built [OF this] Some show ?thesis
      by (cases "map_of (reg_backends reg) n") (auto simp: backend_of_def keep_or_build_def)
  qed
  with Inr keys show ?thesis by (simp add: update_registry_def registry_ok_def)
qed

end
