(* ===== verification/Lifecycle_World.thy ===== *)
theory Lifecycle_World
  imports Runner_Attachment Profile_Registry
begin

text \<open>
  What the sandbox lifecycle acts on: the session store, the checkpoint files, the cache of
  runner clients, and the world \<open>'e\<close> of backends, runners, hooks and clock. \<open>w_log\<close> is not in
  the code: it records, in order, what a crash of the host would leave on disk after each write,
  and what was on disk when a sandbox was told to go. It is what the crash-safety properties
  speak of.
\<close>

record durable_image =
  im_state :: "state_file option"
  im_files :: checkpoint_files

datatype effect =
    Written durable_image
  | DestroyCalled backend_reference durable_image

record 'e world =
  w_store :: session_store
  w_files :: checkpoint_files
  w_clients :: clients
  w_env :: 'e
  w_log :: "effect list"

definition image_of :: "'e world \<Rightarrow> durable_image" where
  "image_of w = \<lparr>im_state = disk (w_store w), im_files = w_files w\<rparr>"

definition note_written :: "'e world \<Rightarrow> 'e world" where
  "note_written w = w\<lparr>w_log := w_log w @ [Written (image_of w)]\<rparr>"

section \<open>Acting on one part\<close>

definition on_store :: "(session_store \<times> 'e, 'a) comp \<Rightarrow> ('e world, 'a) comp" where
  "on_store m w = (case m (w_store w, w_env w) of
     (r, (st, e)) \<Rightarrow> (r, note_written (w\<lparr>w_store := st, w_env := e\<rparr>)))"

definition on_ckpt :: "(checkpoint_files \<times> 'e, 'a) comp \<Rightarrow> ('e world, 'a) comp" where
  "on_ckpt m w = (case m (w_files w, w_env w) of
     (r, (fs, e)) \<Rightarrow> (r, note_written (w\<lparr>w_files := fs, w_env := e\<rparr>)))"

definition on_clients :: "(clients \<times> 'e, 'a) comp \<Rightarrow> ('e world, 'a) comp" where
  "on_clients m w = (case m (w_clients w, w_env w) of
     (r, (cs, e)) \<Rightarrow> (r, w\<lparr>w_clients := cs, w_env := e\<rparr>))"

definition outside :: "('e, 'a) comp \<Rightarrow> ('e world, 'a) comp" where
  "outside m w = (case m (w_env w) of (r, e) \<Rightarrow> (r, w\<lparr>w_env := e\<rparr>))"

definition destroy_sandbox :: "'e backend \<Rightarrow> backend_reference \<Rightarrow> ('e world, unit) comp" where
  "destroy_sandbox b ref =
    thenE (modify (\<lambda>w. w\<lparr>w_log := w_log w @ [DestroyCalled ref (image_of w)]\<rparr>))
      (outside (b_destroy b ref))"

definition record_of :: "string \<Rightarrow> 'e world \<Rightarrow> session_record option" where
  "record_of sid w = get_record sid (mem (w_store w))"

section \<open>Dependencies\<close>

text \<open>A hook may touch the world outside, but not the lifecycle's own state. A hook the feature
  did not define is \<open>ret ()\<close>.\<close>

record 'e hooks =
  before_hibernate :: "string \<Rightarrow> session_record \<Rightarrow> client option \<Rightarrow> ('e, unit) comp"
  after_wake :: "string \<Rightarrow> session_record \<Rightarrow> client \<Rightarrow> bool \<Rightarrow> ('e, unit) comp"
  before_checkpoint :: "string \<Rightarrow> session_record \<Rightarrow> client \<Rightarrow> ('e, unit) comp"
  after_restore :: "string \<Rightarrow> session_record \<Rightarrow> client \<Rightarrow> checkpoint \<Rightarrow> ('e, unit) comp"
  after_release :: "string \<Rightarrow> ('e, unit) comp"

record 'e lifecycle_deps =
  ld_registry :: "'e registry"
  ld_pending_profile :: "string \<Rightarrow> state_file \<Rightarrow> error + sandbox_profile"
  ld_attachment :: "'e attachment_deps"
  ld_expires_after_ms :: int
  ld_flush :: "('e, unit) comp"
  ld_make_dir :: "('e, unit) comp"
  ld_files :: "'e file_system"
  ld_hooks :: "'e hooks list"
  ld_warn :: "string \<Rightarrow> 'e \<Rightarrow> 'e"
  ld_normalize_url :: "string \<Rightarrow> string"

abbreviation ld_now :: "'e lifecycle_deps \<Rightarrow> 'e world \<Rightarrow> int" where
  "ld_now d w \<equiv> at_now (ld_attachment d) (w_env w)"

definition warn :: "'e lifecycle_deps \<Rightarrow> string \<Rightarrow> ('e world, unit) comp" where
  "warn d msg = modify (\<lambda>w. w\<lparr>w_env := ld_warn d msg (w_env w)\<rparr>)"

definition run_hooks :: "'e lifecycle_deps \<Rightarrow> ('e hooks \<Rightarrow> ('e, unit) comp) \<Rightarrow> ('e world, unit) comp" where
  "run_hooks d seam = forE (ld_hooks d) (\<lambda>h. outside (seam h))"

section \<open>Their weakest preconditions\<close>

lemma wp_on_store:
  "wp (on_store m) Q E = (\<lambda>w. wp m
     (\<lambda>a s. Q a (note_written (w\<lparr>w_store := fst s, w_env := snd s\<rparr>)))
     (\<lambda>er s. E er (note_written (w\<lparr>w_store := fst s, w_env := snd s\<rparr>))) (w_store w, w_env w))"
  by (auto simp: wp_def on_store_def fun_eq_iff split: prod.splits sum.splits)

lemma wp_on_ckpt:
  "wp (on_ckpt m) Q E = (\<lambda>w. wp m
     (\<lambda>a s. Q a (note_written (w\<lparr>w_files := fst s, w_env := snd s\<rparr>)))
     (\<lambda>er s. E er (note_written (w\<lparr>w_files := fst s, w_env := snd s\<rparr>))) (w_files w, w_env w))"
  by (auto simp: wp_def on_ckpt_def fun_eq_iff split: prod.splits sum.splits)

lemma wp_on_clients:
  "wp (on_clients m) Q E = (\<lambda>w. wp m
     (\<lambda>a s. Q a (w\<lparr>w_clients := fst s, w_env := snd s\<rparr>))
     (\<lambda>er s. E er (w\<lparr>w_clients := fst s, w_env := snd s\<rparr>)) (w_clients w, w_env w))"
  by (auto simp: wp_def on_clients_def fun_eq_iff split: prod.splits sum.splits)

lemma wp_outside:
  "wp (outside m) Q E = (\<lambda>w. wp m (\<lambda>a e. Q a (w\<lparr>w_env := e\<rparr>)) (\<lambda>er e. E er (w\<lparr>w_env := e\<rparr>)) (w_env w))"
  by (auto simp: wp_def outside_def fun_eq_iff split: prod.splits sum.splits)

lemma wp_warn:
  "wp (warn d msg) Q E = (\<lambda>w. Q () (w\<lparr>w_env := ld_warn d msg (w_env w)\<rparr>))"
  by (simp add: warn_def wp_simps)

lemma note_written_simps [simp]:
  "w_store (note_written w) = w_store w" "w_files (note_written w) = w_files w"
  "w_clients (note_written w) = w_clients w" "w_env (note_written w) = w_env w"
  "w_log (note_written w) = w_log w @ [Written (image_of w)]"
  by (simp_all add: note_written_def)

lemma image_of_simps [simp]:
  "im_state (image_of w) = disk (w_store w)" "im_files (image_of w) = w_files w"
  by (simp_all add: image_of_def)

lemma record_of_simps [simp]:
  "record_of sid (note_written w) = record_of sid w"
  "record_of sid (w\<lparr>w_env := e\<rparr>) = record_of sid w"
  "record_of sid (w\<lparr>w_files := f\<rparr>) = record_of sid w"
  "record_of sid (w\<lparr>w_clients := c\<rparr>) = record_of sid w"
  "record_of sid (w\<lparr>w_log := l\<rparr>) = record_of sid w"
  by (simp_all add: record_of_def)

section \<open>What an operation can leave behind\<close>

text \<open>
  The world after a write that reached the disk and after one that did not, and after a change of
  the checkpoint files. One introduction rule per operation says which of them it ends in,
  whatever the world outside answers.
\<close>

definition stored :: "(state_file \<Rightarrow> state_file) \<Rightarrow> 'e \<Rightarrow> 'e world \<Rightarrow> 'e world" where
  "stored f e w = note_written (w\<lparr>w_store := \<lparr>mem = f (mem (w_store w)),
     disk = Some (f (mem (w_store w))), chain = None\<rparr>, w_env := e\<rparr>)"

definition unstored :: "(state_file \<Rightarrow> state_file) \<Rightarrow> error option \<Rightarrow> 'e \<Rightarrow> 'e world \<Rightarrow> 'e world" where
  "unstored f c e w = note_written (w\<lparr>w_store := (w_store w)\<lparr>mem := f (mem (w_store w)), chain := c\<rparr>,
     w_env := e\<rparr>)"

definition filed :: "(checkpoint_files \<Rightarrow> checkpoint_files) \<Rightarrow> 'e \<Rightarrow> 'e world \<Rightarrow> 'e world" where
  "filed g e w = note_written (w\<lparr>w_files := g (w_files w), w_env := e\<rparr>)"

definition recached :: "(clients \<Rightarrow> clients) \<Rightarrow> 'e \<Rightarrow> 'e world \<Rightarrow> 'e world" where
  "recached g e w = w\<lparr>w_clients := g (w_clients w), w_env := e\<rparr>"

definition moved :: "'e \<Rightarrow> 'e world \<Rightarrow> 'e world" where
  "moved e w = w\<lparr>w_env := e\<rparr>"

definition told :: "backend_reference \<Rightarrow> 'e world \<Rightarrow> 'e world" where
  "told ref w = w\<lparr>w_log := w_log w @ [DestroyCalled ref (image_of w)]\<rparr>"

named_theorems wp_intro "one introduction rule per operation"

lemma wp_change_persist:
  assumes "\<And>e. Q () (stored f e w)" and "\<And>er c e. E er (unstored f c e w)"
  shows "wp (on_store (thenE (change f) (persist flush))) Q E w"
proof -
  obtain st e where s: "change f (w_store w, w_env w) = (Inr (), (st, e))"
    "st = (w_store w)\<lparr>mem := f (mem (w_store w))\<rparr>"
    by (simp add: change_def modify_def)
  obtain r st' e' where p: "persist flush (st, e) = (r, (st', e'))" by (metis prod.exhaust)
  have m: "thenE (change f) (persist flush) (w_store w, w_env w) = (r, (st', e'))"
    by (simp add: thenE_def bindE_def s(1) p)
  show ?thesis
  proof (cases r)
    case (Inl er)
    with p have "st' = st\<lparr>chain := chain st'\<rparr>"
      by (auto simp: persist_def split: option.splits prod.splits sum.splits)
    with s(2) have "note_written (w\<lparr>w_store := st', w_env := e'\<rparr>) = unstored f (chain st') e' w"
      by (simp add: unstored_def)
    with assms(2) m Inl show ?thesis by (simp add: wp_def on_store_def)
  next
    case (Inr u)
    with p s(2) have "st' = \<lparr>mem = f (mem (w_store w)), disk = Some (f (mem (w_store w))), chain = None\<rparr>"
      by (auto simp: persist_def split: option.splits prod.splits sum.splits)
    with assms(1) m Inr show ?thesis by (simp add: wp_def on_store_def stored_def)
  qed
qed

lemma wp_store_set [wp_intro]:
  "(\<And>e. Q () (stored (put_record r) e w)) \<Longrightarrow> (\<And>er c e. E er (unstored (put_record r) c e w)) \<Longrightarrow>
     wp (on_store (store_set flush r)) Q E w"
  unfolding store_set_def by (rule wp_change_persist)

lemma wp_store_delete [wp_intro]:
  "(\<And>e. Q () (stored (drop_record k) e w)) \<Longrightarrow> (\<And>er c e. E er (unstored (drop_record k) c e w)) \<Longrightarrow>
     wp (on_store (store_delete flush k)) Q E w"
  unfolding store_delete_def by (rule wp_change_persist)

lemma wp_outside_any [wp_intro]:
  "(\<And>a e. Q a (moved e w)) \<Longrightarrow> (\<And>er e. E er (moved e w)) \<Longrightarrow> wp (outside m) Q E w"
  by (auto simp: wp_outside moved_def intro: wp_any)

lemma wp_destroy [wp_intro]:
  "(\<And>e. Q () (moved e (told ref w))) \<Longrightarrow> (\<And>er e. E er (moved e (told ref w))) \<Longrightarrow>
     wp (destroy_sandbox b ref) Q E w"
  by (simp add: destroy_sandbox_def wp_simps told_def [symmetric] wp_outside_any)

lemma wp_ckpt_load [wp_intro]:
  "(\<And>e. Q (map_of (bundle_files (w_files w)) k) (filed id e w)) \<Longrightarrow> (\<And>er e. E er (filed id e w)) \<Longrightarrow>
     wp (on_ckpt (ckpt_load fs k)) Q E w"
  by (auto simp: wp_on_ckpt ckpt_load_def wp_simps filed_def split: prod.splits intro: wp_any)

lemma wp_ckpt_load_artifacts [wp_intro]:
  "(\<And>e. Q (map_of (artifact_files (w_files w)) k) (filed id e w)) \<Longrightarrow> (\<And>er e. E er (filed id e w)) \<Longrightarrow>
     wp (on_ckpt (ckpt_load_artifacts fs k)) Q E w"
  by (auto simp: wp_on_ckpt ckpt_load_artifacts_def wp_simps filed_def split: prod.splits intro: wp_any)

definition save_files :: "string \<Rightarrow> bytes \<Rightarrow> bytes \<Rightarrow> checkpoint_files \<Rightarrow> checkpoint_files" where
  "save_files k b a c = (if a = [] then drop_artifacts k (put_bundle k b c)
     else put_artifacts k a (put_bundle k b c))"

lemma wp_ckpt_save [wp_intro]:
  assumes "\<And>e. Q () (filed (save_files k b a) e w)"
    and "\<And>er e. E er (filed id e w)" and "\<And>er e. E er (filed (put_bundle k b) e w)"
  shows "wp (on_ckpt (ckpt_save fs k b a)) Q E w"
  using assms
  by (auto simp: wp_on_ckpt ckpt_save_def wp_simps filed_def save_files_def
      cong: if_cong intro!: wp_any split: if_splits)

definition remove_files :: "string \<Rightarrow> checkpoint_files \<Rightarrow> checkpoint_files" where
  "remove_files k c = drop_artifacts k (drop_bundle k c)"

lemma wp_ckpt_remove [wp_intro]:
  assumes "\<And>e. Q () (filed (remove_files k) e w)"
    and "\<And>er e. E er (filed id e w)" and "\<And>er e. E er (filed (drop_bundle k) e w)"
    and "\<And>er e. E er (filed (drop_artifacts k) e w)"
  shows "wp (on_ckpt (ckpt_remove fs k)) Q E w"
  using assms
  by (auto simp: wp_on_ckpt wp_def ckpt_remove_def thenE_def bindE_def on_env_def on_files_def
      modify_def filed_def remove_files_def split: prod.splits sum.splits)

lemma wp_attach [wp_intro]:
  "(\<And>c e. Q c (recached (AList.update k c) e w)) \<Longrightarrow> (\<And>er e. E er (recached id e w)) \<Longrightarrow>
     wp (on_clients (attach d k sb url ck)) Q E w"
  by (simp add: wp_on_clients recached_def) (rule wp_mono [OF attach_clients], auto)

lemma wp_reuse_cached [wp_intro]:
  assumes "\<And>c e. client_for k (w_clients w) = Some c \<Longrightarrow> Q (Some c) (recached id e w)"
    and "\<And>e. Q None (recached id e w)" and "\<And>e. Q None (recached (AList.delete k) e w)"
  shows "wp (on_clients (reuse_cached d k rec)) Q E w"
  using assms by (simp add: wp_on_clients recached_def)
    (rule wp_mono [OF reuse_cached_clients], auto split: option.splits)

lemma wp_connect [wp_intro]:
  assumes "\<And>c e. client_for k (w_clients w) = Some c \<Longrightarrow> Q c (recached id e w)"
    and "\<And>c e. Q c (recached (AList.update k c) e w)" and "\<And>er e. E er (recached id e w)"
  shows "wp (on_clients (connect d k sb)) Q E w"
  using assms(1) [of _ "w_env w"] assms(2-)
  by (auto simp: wp_on_clients connect_def wp_simps recached_def intro!: wp_any split: option.split)

lemma wp_attachment_checkpoint [wp_intro]:
  assumes "\<And>sc e. Q sc (recached id e w)" and "\<And>sc c e. Q sc (recached (AList.update k c) e w)"
    and "\<And>er e. E er (recached id e w)" and "\<And>er c e. E er (recached (AList.update k c) e w)"
  shows "wp (on_clients (attachment_checkpoint d k sb url)) Q E w"
  using assms
  by (auto simp: wp_on_clients attachment_checkpoint_def connect_def wp_simps recached_def
      intro!: wp_any split: option.split)

lemma wp_evict_client [wp_intro]:
  assumes "\<And>e. Q () (recached (AList.delete k) e w)"
  shows "wp (on_clients (evict k)) Q E w"
  using assms [of "w_env w"] assms
  by (simp add: wp_on_clients wp_simps recached_def)

lemma wp_drop_client [wp_intro]:
  assumes "\<And>e. Q () (recached id e w)"
  shows "wp (on_clients (drop_runner d sb)) Q E w"
  using assms [of "w_env w"] assms
  by (simp add: wp_on_clients wp_simps recached_def)

lemma wp_detach_client [wp_intro]:
  assumes "\<And>e. Q () (recached (AList.delete k) e w)"
  shows "wp (on_clients (detach d k sb)) Q E w"
  using assms [of "w_env w"] assms
  by (simp add: wp_on_clients wp_simps recached_def)

section \<open>Reading the parts\<close>

lemma stored_simps [simp]:
  "mem (w_store (stored f e w)) = f (mem (w_store w))"
  "disk (w_store (stored f e w)) = Some (f (mem (w_store w)))"
  "w_files (stored f e w) = w_files w" "w_clients (stored f e w) = w_clients w"
  "w_env (stored f e w) = e"
  "w_log (stored f e w) = w_log w @ [Written \<lparr>im_state = Some (f (mem (w_store w))), im_files = w_files w\<rparr>]"
  by (simp_all add: stored_def image_of_def)

lemma unstored_simps [simp]:
  "mem (w_store (unstored f c e w)) = f (mem (w_store w))"
  "disk (w_store (unstored f c e w)) = disk (w_store w)"
  "w_files (unstored f c e w) = w_files w" "w_clients (unstored f c e w) = w_clients w"
  "w_env (unstored f c e w) = e" "w_log (unstored f c e w) = w_log w @ [Written (image_of w)]"
  by (simp_all add: unstored_def image_of_def)

lemma filed_simps [simp]:
  "w_store (filed g e w) = w_store w" "w_files (filed g e w) = g (w_files w)"
  "w_clients (filed g e w) = w_clients w" "w_env (filed g e w) = e"
  "w_log (filed g e w) = w_log w @ [Written \<lparr>im_state = disk (w_store w), im_files = g (w_files w)\<rparr>]"
  by (simp_all add: filed_def image_of_def)

lemma recached_simps [simp]:
  "w_store (recached g e w) = w_store w" "w_files (recached g e w) = w_files w"
  "w_clients (recached g e w) = g (w_clients w)" "w_env (recached g e w) = e"
  "w_log (recached g e w) = w_log w"
  by (simp_all add: recached_def)

lemma moved_simps [simp]:
  "w_store (moved e w) = w_store w" "w_files (moved e w) = w_files w"
  "w_clients (moved e w) = w_clients w" "w_env (moved e w) = e" "w_log (moved e w) = w_log w"
  by (simp_all add: moved_def)

lemma told_simps [simp]:
  "w_store (told r w) = w_store w" "w_files (told r w) = w_files w"
  "w_clients (told r w) = w_clients w" "w_env (told r w) = w_env w"
  "w_log (told r w) = w_log w @ [DestroyCalled r (image_of w)]"
  by (simp_all add: told_def)

lemma record_of_worlds [simp]:
  "record_of k (stored f e w) = get_record k (f (mem (w_store w)))"
  "record_of k (unstored f c e w) = get_record k (f (mem (w_store w)))"
  "record_of k (filed g e w) = record_of k w" "record_of k (recached h e w) = record_of k w"
  "record_of k (moved e w) = record_of k w" "record_of k (told r w) = record_of k w"
  by (simp_all add: record_of_def)

lemma get_record_mem [simp]: "get_record k (mem (w_store w)) = record_of k w"
  by (simp add: record_of_def)

lemma file_reads [simp]:
  "map_of (bundle_files (put_bundle k b c)) j = (if j = k then Some b else map_of (bundle_files c) j)"
  "map_of (bundle_files (drop_bundle k c)) j = (if j = k then None else map_of (bundle_files c) j)"
  "bundle_files (put_artifacts k b c) = bundle_files c" "bundle_files (drop_artifacts k c) = bundle_files c"
  "map_of (artifact_files (put_artifacts k b c)) j = (if j = k then Some b else map_of (artifact_files c) j)"
  "map_of (artifact_files (drop_artifacts k c)) j = (if j = k then None else map_of (artifact_files c) j)"
  "artifact_files (put_bundle k b c) = artifact_files c" "artifact_files (drop_bundle k c) = artifact_files c"
  by (simp_all add: put_bundle_def drop_bundle_def put_artifacts_def drop_artifacts_def)

lemma file_ops [simp]:
  "map_of (bundle_files (save_files k b a c)) j = (if j = k then Some b else map_of (bundle_files c) j)"
  "map_of (bundle_files (remove_files k c)) j = (if j = k then None else map_of (bundle_files c) j)"
  "map_of (artifact_files (save_files k b a c)) j =
     (if j = k then (if a = [] then None else Some a) else map_of (artifact_files c) j)"
  "map_of (artifact_files (remove_files k c)) j = (if j = k then None else map_of (artifact_files c) j)"
  by (simp_all add: save_files_def remove_files_def)

lemma wp_run_hooks:
  assumes "I w" "\<And>w e. I w \<Longrightarrow> I (moved e w)"
  shows "wp (run_hooks d seam) (\<lambda>_. I) (\<lambda>_. I) w"
  unfolding run_hooks_def
  by (rule wp_forE_inv [of I, OF assms(1)]) (auto intro: wp_outside_any assms(2))

text \<open>Hooks run in sequence leave one world that differs in its outside part.\<close>

lemma wp_run_hooks_moved [wp_intro]:
  assumes "\<And>e. Q () (moved e w)" "\<And>er e. E er (moved e w)"
  shows "wp (run_hooks d seam) Q E w"
proof -
  have "wp (run_hooks d seam) (\<lambda>_ t. \<exists>e. t = moved e w) (\<lambda>_ t. \<exists>e. t = moved e w) w"
    by (rule wp_run_hooks) (auto simp: moved_def intro: exI [of _ "w_env w"])
  then show ?thesis by (rule wp_mono) (auto intro: assms)
qed

lemma wp_warn_moved [wp_intro]: "(\<And>e. Q () (moved e w)) \<Longrightarrow> wp (warn d msg) Q E w"
  by (simp add: wp_warn moved_def)

end
