(* ===== verification/Lifecycle.thy ===== *)
theory Lifecycle
  imports Lifecycle_World
begin

text \<open>
  \<open>sandbox/manager/sandbox-lifecycle.ts\<close>: the state machine of one session's sandbox, one
  definition per method in the order the methods call each other. Every event runs under the
  session's lock, so one event is one computation here. Telemetry (spans, histograms, counters)
  is left out.
\<close>

section \<open>Records\<close>

definition iso_now :: "'e lifecycle_deps \<Rightarrow> ('e world, timestamp) comp" where
  "iso_now d = bindE (gets (ld_now d)) (\<lambda>now. liftE (to_iso_string now))"

text \<open>\<open>new Date(NaN).getTime() <= now\<close> is false, so an unreadable deadline never expires here.\<close>

definition has_expired :: "int \<Rightarrow> session_record \<Rightarrow> bool" where
  "has_expired now r =
    (case record_state r of
       Running _ _ \<Rightarrow> False
     | Hibernated _ _ expires \<Rightarrow> (case expires of None \<Rightarrow> False | Some t \<Rightarrow> t \<le> now)
     | Checkpointed _ expires \<Rightarrow> (case expires of None \<Rightarrow> False | Some t \<Rightarrow> t \<le> now))"

section \<open>Steps\<close>

definition forget_session :: "'e lifecycle_deps \<Rightarrow> string \<Rightarrow> ('e world, unit) comp" where
  "forget_session d sid =
    thenE (on_store (store_delete (ld_flush d) sid))
   (thenE (on_ckpt (ckpt_remove (ld_files d) sid))
          (run_hooks d (\<lambda>h. after_release h sid)))"

definition reclaim_expired :: "'e lifecycle_deps \<Rightarrow> session_record \<Rightarrow> ('e world, unit) comp" where
  "reclaim_expired d r =
    thenE (case record_state r of
        Hibernated sandbox ref _ \<Rightarrow>
          bindE (liftE (backend_for (ld_registry d) r)) (\<lambda>b.
            thenE (destroy_sandbox b ref)
              (on_clients (drop_runner (ld_attachment d) sandbox)))
      | _ \<Rightarrow> ret ())
    (forget_session d (session_id r))"

definition claim_sandbox ::
  "'e lifecycle_deps \<Rightarrow> string \<Rightarrow> sandbox_profile \<Rightarrow> string \<Rightarrow> ('e world, session_record) comp" where
  "claim_sandbox d sid profile url =
    (case backend_of (ld_registry d) (profile_name profile) of
       None \<Rightarrow> throw (Plain (''unreachable: no backend for profile '' @ profile_name profile))
     | Some b \<Rightarrow>
        bindE (outside (b_provision b \<lparr>spec_session_id = sid, spec_repository_url = url\<rparr>)) (\<lambda>h.
        bindE (iso_now d) (\<lambda>now.
          ret \<lparr>session_id = sid, record_backend = b_name b, record_profile = profile_name profile,
               repository_url = url, created_at = now, updated_at = now,
               record_state = Running (handle_sandbox_id h) (handle_reference h)\<rparr>)))"

definition provision_session ::
  "'e lifecycle_deps \<Rightarrow> string \<Rightarrow> sandbox_profile \<Rightarrow> string \<Rightarrow> ('e world, session_record) comp" where
  "provision_session d sid profile url =
    bindE (claim_sandbox d sid profile url) (\<lambda>r.
      thenE (on_store (store_set (ld_flush d) r)) (ret r))"

text \<open>\<open>attachment.attach(record, repositoryUrl, checkpoint)\<close> of a record that says running.\<close>

definition attach_record ::
  "'e lifecycle_deps \<Rightarrow> session_record \<Rightarrow> string \<Rightarrow> (checkpoint \<times> bytes \<times> bytes) option
   \<Rightarrow> ('e world, client) comp" where
  "attach_record d r url saved =
    (case record_state r of
       Running sandbox ref \<Rightarrow> on_clients (attach (ld_attachment d) (session_id r) sandbox url saved)
     | _ \<Rightarrow> throw (Plain ''not a running record''))"

definition replace_lost_sandbox ::
  "'e lifecycle_deps \<Rightarrow> 'e backend \<Rightarrow> session_record \<Rightarrow> backend_reference \<Rightarrow> string
   \<Rightarrow> ('e world, client) comp" where
  "replace_lost_sandbox d b r ref url =
    thenE (catchE (destroy_sandbox b ref) (\<lambda>_. ret ()))
   (thenE (forget_session d (session_id r))
    (case registry_profile (ld_registry d) (record_profile r) of
       None \<Rightarrow> throw (Plain ''unreachable: no profile'')
     | Some profile \<Rightarrow>
        bindE (provision_session d (session_id r) profile url) (\<lambda>replacement.
          attach_record d replacement url None)))"

text \<open>\<open>wakeOrReplace\<close> of a running or hibernated record with reference \<open>ref\<close>.\<close>

definition wake_or_replace ::
  "'e lifecycle_deps \<Rightarrow> session_record \<Rightarrow> backend_reference \<Rightarrow> string \<Rightarrow> ('e world, client) comp" where
  "wake_or_replace d r ref url =
    bindE (liftE (backend_for (ld_registry d) r)) (\<lambda>b.
    catchE
      (bindE (outside (b_wake b ref)) (\<lambda>h.
       bindE (iso_now d) (\<lambda>now.
       bindE (ret \<lparr>session_id = session_id r, record_backend = record_backend r,
                  record_profile = record_profile r, repository_url = repository_url r,
                  created_at = created_at r, updated_at = now,
                  record_state = Running (handle_sandbox_id h) (handle_reference h)\<rparr>) (\<lambda>woken.
       thenE (on_store (store_set (ld_flush d) woken))
      (bindE (attach_record d woken url None) (\<lambda>c.
       thenE (whenE (supports_hibernate (b_capabilities b))
               (run_hooks d (\<lambda>h. after_wake h (session_id r) woken c
                  (case wake_keeps_filesystem (b_capabilities b) of None \<Rightarrow> False | Some k \<Rightarrow> k))))
             (ret c)))))))
      (\<lambda>err. if is_not_found err then replace_lost_sandbox d b r ref url else throw err))"

definition provision_fresh ::
  "'e lifecycle_deps \<Rightarrow> string \<Rightarrow> ('e, string) comp \<Rightarrow> ('e world, client) comp" where
  "provision_fresh d sid repository =
    bindE (gets (\<lambda>w. ld_pending_profile d sid (mem (w_store w)))) (\<lambda>chosen.
    bindE (liftE chosen) (\<lambda>profile.
    bindE (outside repository) (\<lambda>raw.
    bindE (provision_session d sid profile (ld_normalize_url d raw)) (\<lambda>r.
      attach_record d r (ld_normalize_url d raw) None))))"

definition serve_running ::
  "'e lifecycle_deps \<Rightarrow> session_record \<Rightarrow> backend_reference \<Rightarrow> ('e world, client) comp" where
  "serve_running d r ref =
    bindE (on_clients (reuse_cached (ld_attachment d) (session_id r) (Some r))) (\<lambda>cached.
    case cached of
      Some c \<Rightarrow> ret c
    | None \<Rightarrow>
       bindE (liftE (backend_for (ld_registry d) r)) (\<lambda>b.
       bindE (outside (b_health b ref)) (\<lambda>healthy.
         if healthy then attach_record d r (repository_url r) None
         else wake_or_replace d r ref (repository_url r))))"

definition restore_session :: "'e lifecycle_deps \<Rightarrow> session_record \<Rightarrow> checkpoint \<Rightarrow> ('e world, client) comp" where
  "restore_session d r ck =
    bindE (on_ckpt (ckpt_load (ld_files d) (session_id r))) (\<lambda>loaded.
    case loaded of
      None \<Rightarrow> throw (Plain (''the checkpoint of session '' @ session_id r
                 @ '' is missing from the host's state directory''))
    | Some bundle \<Rightarrow>
       bindE (on_ckpt (ckpt_load_artifacts (ld_files d) (session_id r))) (\<lambda>artifacts.
       case registry_profile (ld_registry d) (record_profile r) of
         None \<Rightarrow> throw (Plain ''unreachable: no profile'')
       | Some profile \<Rightarrow>
          bindE (claim_sandbox d (session_id r) profile (repository_url r)) (\<lambda>replacement.
          bindE
            (catchE
              (attach_record d replacement (repository_url r)
                (Some (ck, bundle, case artifacts of None \<Rightarrow> [] | Some tar \<Rightarrow> tar)))
              (\<lambda>err. bindE (liftE (backend_for (ld_registry d) replacement)) (\<lambda>b.
                 case record_state replacement of
                   Running sandbox ref \<Rightarrow>
                     thenE (catchE (destroy_sandbox b ref) (\<lambda>_. ret ()))
                    (thenE (on_clients (detach (ld_attachment d) (session_id r) sandbox))
                           (throw err))
                 | _ \<Rightarrow> throw err)))
            (\<lambda>c.
              thenE (on_store (store_set (ld_flush d) replacement))
             (thenE (on_ckpt (ckpt_remove (ld_files d) (session_id r)))
             (thenE (run_hooks d (\<lambda>h. after_restore h (session_id r) replacement c ck))
                    (ret c)))))))"

definition hibernate_sandbox ::
  "'e lifecycle_deps \<Rightarrow> session_record \<Rightarrow> string \<Rightarrow> backend_reference \<Rightarrow> 'e backend \<Rightarrow> ('e world, unit) comp" where
  "hibernate_sandbox d r sandbox ref b =
    bindE (gets (\<lambda>w. client_for (session_id r) (w_clients w))) (\<lambda>c.
    thenE (run_hooks d (\<lambda>h. before_hibernate h (session_id r) r c))
   (bindE (gets (\<lambda>w. ld_now d w + ld_expires_after_ms d)) (\<lambda>deadline.
    thenE (outside (b_hibernate b ref))
   (thenE (outside (b_expire_at b ref deadline))
   (bindE (liftE (to_iso_string deadline)) (\<lambda>expires.
    bindE (iso_now d) (\<lambda>now.
      on_store (store_set (ld_flush d)
        (r\<lparr>record_state := Hibernated sandbox ref expires, updated_at := now\<rparr>)))))))))"

definition runner_for_checkpoint ::
  "'e lifecycle_deps \<Rightarrow> session_record \<Rightarrow> string \<Rightarrow> backend_reference \<Rightarrow> 'e backend \<Rightarrow> ('e world, client) comp" where
  "runner_for_checkpoint d r sandbox ref b =
    bindE (gets (\<lambda>w. client_for (session_id r) (w_clients w))) (\<lambda>cached.
    case cached of
      Some c \<Rightarrow> ret c
    | None \<Rightarrow>
       bindE (outside (b_health b ref)) (\<lambda>healthy.
         if healthy then on_clients (connect (ld_attachment d) (session_id r) sandbox)
         else throw (SandboxNotFound (''sandbox '' @ sandbox @ '' is no longer running''))))"

definition checkpoint_sandbox ::
  "'e lifecycle_deps \<Rightarrow> session_record \<Rightarrow> string \<Rightarrow> backend_reference \<Rightarrow> 'e backend \<Rightarrow> ('e world, unit) comp" where
  "checkpoint_sandbox d r sandbox ref b =
    bindE (runner_for_checkpoint d r sandbox ref b) (\<lambda>c.
    thenE (run_hooks d (\<lambda>h. before_checkpoint h (session_id r) r c))
   (bindE (gets (\<lambda>w. ld_now d w + ld_expires_after_ms d)) (\<lambda>deadline.
    bindE (on_clients (attachment_checkpoint (ld_attachment d) (session_id r) sandbox (repository_url r)))
      (\<lambda>saved.
    thenE (whenE (ck_artifacts_dropped (sc_checkpoint saved) = Some True)
            (warn d (''session '' @ session_id r
               @ '': the artifacts folder was not carried with the checkpoint: ''
               @ (case sc_artifacts_error saved of None \<Rightarrow> ''unknown error'' | Some m \<Rightarrow> m))))
   (thenE (on_ckpt (ckpt_save (ld_files d) (session_id r) (sc_bundle saved) (sc_artifacts saved)))
   (bindE (liftE (to_iso_string deadline)) (\<lambda>expires.
    bindE (iso_now d) (\<lambda>now.
    thenE (on_store (store_set (ld_flush d)
             \<lparr>session_id = session_id r, record_backend = record_backend r,
              record_profile = record_profile r, repository_url = repository_url r,
              created_at = created_at r, updated_at = now,
              record_state = Checkpointed (sc_checkpoint saved) expires\<rparr>))
      (catchE (destroy_sandbox b ref)
        (\<lambda>err. if is_not_found err then ret () else throw err))))))))))"

definition suspend_running ::
  "'e lifecycle_deps \<Rightarrow> session_record \<Rightarrow> string \<Rightarrow> backend_reference \<Rightarrow> ('e world, unit) comp" where
  "suspend_running d r sandbox ref =
    bindE (liftE (backend_for (ld_registry d) r)) (\<lambda>b.
    thenE
      (catchE
        (if supports_hibernate (b_capabilities b) then hibernate_sandbox d r sandbox ref b
         else checkpoint_sandbox d r sandbox ref b)
        (\<lambda>err. if is_not_found err then forget_session d (session_id r) else throw err))
      (on_clients (detach (ld_attachment d) (session_id r) sandbox)))"

definition release_session :: "'e lifecycle_deps \<Rightarrow> session_record \<Rightarrow> ('e world, unit) comp" where
  "release_session d r =
    (case find_backend (ld_registry d) r of
       None \<Rightarrow> warn d (orphaned_record_message r)
     | Some b \<Rightarrow>
        (let destroy_it = (\<lambda>sandbox ref.
           thenE (catchE (destroy_sandbox b ref)
                   (\<lambda>err. if is_not_found err then ret () else throw err))
                 (on_clients (drop_runner (ld_attachment d) sandbox)))
         in thenE (on_clients (evict (session_id r)))
           (thenE (case record_state r of
               Running sandbox ref \<Rightarrow> destroy_it sandbox ref
             | Hibernated sandbox ref expires \<Rightarrow> destroy_it sandbox ref
             | Checkpointed ck expires \<Rightarrow> ret ())
           (forget_session d (session_id r)))))"

section \<open>The machine\<close>

text \<open>An event's answer is the client of \<open>ensureRunning\<close>, and \<open>None\<close> (\<open>undefined\<close>) of the others.\<close>

datatype 'e lifecycle_event = EnsureRunning "('e, string) comp" | HibernateEvent | ReleaseEvent

definition quietly :: "('s, unit) comp \<Rightarrow> ('s, client option) comp" where
  "quietly m = thenE m (ret None)"

definition answering :: "('s, client) comp \<Rightarrow> ('s, client option) comp" where
  "answering m = bindE m (\<lambda>c. ret (Some c))"

fun when_absent :: "'e lifecycle_deps \<Rightarrow> string \<Rightarrow> 'e lifecycle_event \<Rightarrow> ('e world, client option) comp" where
  "when_absent d sid (EnsureRunning repository) = answering (provision_fresh d sid repository)"
| "when_absent d sid HibernateEvent = ret None"
| "when_absent d sid ReleaseEvent = ret None"

fun when_running ::
  "'e lifecycle_deps \<Rightarrow> session_record \<Rightarrow> string \<Rightarrow> backend_reference \<Rightarrow> 'e lifecycle_event
   \<Rightarrow> ('e world, client option) comp" where
  "when_running d r sandbox ref (EnsureRunning repository) = answering (serve_running d r ref)"
| "when_running d r sandbox ref HibernateEvent = quietly (suspend_running d r sandbox ref)"
| "when_running d r sandbox ref ReleaseEvent = quietly (release_session d r)"

fun when_hibernated ::
  "'e lifecycle_deps \<Rightarrow> session_record \<Rightarrow> backend_reference \<Rightarrow> 'e lifecycle_event
   \<Rightarrow> ('e world, client option) comp" where
  "when_hibernated d r ref (EnsureRunning repository) =
     answering (wake_or_replace d r ref (repository_url r))"
| "when_hibernated d r ref HibernateEvent = ret None"
| "when_hibernated d r ref ReleaseEvent = quietly (release_session d r)"

fun when_checkpointed ::
  "'e lifecycle_deps \<Rightarrow> session_record \<Rightarrow> checkpoint \<Rightarrow> 'e lifecycle_event
   \<Rightarrow> ('e world, client option) comp" where
  "when_checkpointed d r ck (EnsureRunning repository) = answering (restore_session d r ck)"
| "when_checkpointed d r ck HibernateEvent = ret None"
| "when_checkpointed d r ck ReleaseEvent = quietly (release_session d r)"

definition dispatch :: "'e lifecycle_deps \<Rightarrow> string \<Rightarrow> session_record option \<Rightarrow> 'e lifecycle_event
   \<Rightarrow> ('e world, client option) comp" where
  "dispatch d sid rec ev =
    (case rec of
       None \<Rightarrow> when_absent d sid ev
     | Some r \<Rightarrow> (case record_state r of
         Running sandbox ref \<Rightarrow> when_running d r sandbox ref ev
       | Hibernated sandbox ref expires \<Rightarrow> when_hibernated d r ref ev
       | Checkpointed ck expires \<Rightarrow> when_checkpointed d r ck ev))"

fun is_ensure :: "'e lifecycle_event \<Rightarrow> bool" where
  "is_ensure (EnsureRunning _) = True"
| "is_ensure _ = False"

text \<open>\<open>fuel\<close> bounds the recursion after a reclaimed deadline; two is enough.\<close>

fun react :: "nat \<Rightarrow> 'e lifecycle_deps \<Rightarrow> string \<Rightarrow> 'e lifecycle_event \<Rightarrow> ('e world, client option) comp" where
  "react 0 d sid ev w = (Inl OutOfFuel, w)"
| "react (Suc n) d sid ev w =
    (case record_of sid w of
       Some r \<Rightarrow>
         if is_ensure ev \<and> has_expired (ld_now d w) r
         then thenE (reclaim_expired d r) (react n d sid ev) w
         else dispatch d sid (Some r) ev w
     | None \<Rightarrow> dispatch d sid None ev w)"

definition react_fuel :: nat where "react_fuel = Suc (Suc 0)"

section \<open>The verbs\<close>

definition ensure_running :: "'e lifecycle_deps \<Rightarrow> string \<Rightarrow> ('e, string) comp \<Rightarrow> ('e world, client option) comp" where
  "ensure_running d sid repository = react react_fuel d sid (EnsureRunning repository)"

text \<open>The guard is what the caller re-checks under the lock; no guard is \<open>\<lambda>_. True\<close>.\<close>

definition hibernate_session :: "'e lifecycle_deps \<Rightarrow> string \<Rightarrow> ('e \<Rightarrow> bool) \<Rightarrow> ('e world, bool) comp" where
  "hibernate_session d sid guard =
    bindE (gets (\<lambda>w. guard (w_env w))) (\<lambda>ok.
      if \<not> ok then ret False
      else thenE (bindE (react react_fuel d sid HibernateEvent) (\<lambda>_. ret ())) (ret True))"

definition release :: "'e lifecycle_deps \<Rightarrow> string \<Rightarrow> ('e \<Rightarrow> bool) \<Rightarrow> ('e world, unit) comp" where
  "release d sid guard =
    bindE (gets (record_of sid)) (\<lambda>rec.
    case rec of
      None \<Rightarrow> ret ()
    | Some r \<Rightarrow>
       bindE (gets (\<lambda>w. guard (w_env w))) (\<lambda>ok.
         if \<not> ok then ret ()
         else bindE (react react_fuel d sid ReleaseEvent) (\<lambda>_. ret ())))"

text \<open>One turn of the loop of \<open>initialize\<close>. At boot an unreadable deadline has passed.\<close>

definition expires_by :: "int \<Rightarrow> timestamp \<Rightarrow> bool" where
  "expires_by now expires = (case expires of None \<Rightarrow> True | Some t \<Rightarrow> t \<le> now)"

definition recover_record :: "'e lifecycle_deps \<Rightarrow> session_record \<Rightarrow> ('e world, unit) comp" where
  "recover_record d r =
    (let release_it = bindE (react react_fuel d (session_id r) ReleaseEvent) (\<lambda>_. ret ())
     in case find_backend (ld_registry d) r of
       None \<Rightarrow> warn d (orphaned_record_message r)
     | Some b \<Rightarrow>
        bindE (gets (ld_now d)) (\<lambda>now.
        case record_state r of
          Running sandbox ref \<Rightarrow> ret ()
        | Checkpointed ck expires \<Rightarrow> if expires_by now expires then release_it else ret ()
        | Hibernated sandbox ref expires \<Rightarrow>
           (case expires of
              None \<Rightarrow> release_it
            | Some deadline \<Rightarrow>
                if deadline \<le> now then release_it
                else catchE (outside (b_expire_at b ref deadline))
                  (\<lambda>err. if is_not_found err then release_it else throw err))))"

definition initialize :: "'e lifecycle_deps \<Rightarrow> ('e world, unit) comp" where
  "initialize d =
    thenE (on_store (store_initialize (ld_make_dir d)))
   (bindE (gets (\<lambda>w. record_values (mem (w_store w)))) (\<lambda>rs. forE rs (recover_record d)))"

end
