(* ===== verification/Lifecycle_Safety.thy ===== *)
theory Lifecycle_Safety
  imports Lifecycle
begin

text \<open>
  What the sandbox lifecycle keeps true whatever its backends, runners, hooks and file system do.
  The locale \<open>serving_invariant\<close> states what an invariant must survive under \<open>ensureRunning\<close> and
  \<open>release\<close>, one law per way their methods change the world; \<open>step_invariant\<close> extends it by the
  changes of a suspend. They prove once that the events keep the invariant and that an answered
  \<open>ensureRunning\<close> serves its session. They are interpreted for \<open>world_ok\<close>, the invariant of the
  store, the checkpoint files and the log of durable images, and for the frame of one session's
  events.
\<close>

section \<open>The invariant\<close>

fun is_checkpointed :: "session_state \<Rightarrow> bool" where
  "is_checkpointed (Checkpointed _ _) = True"
| "is_checkpointed _ = False"

text \<open>Records are filed under their own session, and a checkpointed record has its bundle.\<close>

definition file_ok :: "state_file \<Rightarrow> checkpoint_files \<Rightarrow> bool" where
  "file_ok f c \<longleftrightarrow> (\<forall>k r. get_record k f = Some r \<longrightarrow>
     session_id r = k \<and> (is_checkpointed (record_state r) \<longrightarrow> map_of (bundle_files c) k \<noteq> None))"

definition image_ok :: "durable_image \<Rightarrow> bool" where
  "image_ok im = (case im_state im of None \<Rightarrow> True | Some f \<Rightarrow> file_ok f (im_files im))"

fun effect_ok :: "effect \<Rightarrow> bool" where
  "effect_ok (Written im) = image_ok im"
| "effect_ok (DestroyCalled ref im) = image_ok im"

definition world_ok :: "'e world \<Rightarrow> bool" where
  "world_ok w \<longleftrightarrow> file_ok (mem (w_store w)) (w_files w) \<and> image_ok (image_of w)
     \<and> list_all effect_ok (w_log w)"

text \<open>Neither in memory nor on disk is session \<open>k\<close> checkpointed: its bundle may go.\<close>

definition bundle_free :: "string \<Rightarrow> 'e world \<Rightarrow> bool" where
  "bundle_free k w \<longleftrightarrow>
     (\<forall>r. record_of k w = Some r \<longrightarrow> \<not> is_checkpointed (record_state r))
   \<and> (\<forall>f r. disk (w_store w) = Some f \<longrightarrow> get_record k f = Some r \<longrightarrow> \<not> is_checkpointed (record_state r))"

named_theorems ok_rules "how one step keeps the invariant"

lemma file_ok_more:
  "file_ok f c \<Longrightarrow> (\<And>k. map_of (bundle_files c) k \<noteq> None \<Longrightarrow> map_of (bundle_files c') k \<noteq> None) \<Longrightarrow> file_ok f c'"
  by (auto simp: file_ok_def)

lemma file_ok_put:
  "file_ok f c \<Longrightarrow> (is_checkpointed (record_state r) \<Longrightarrow> map_of (bundle_files c) (session_id r) \<noteq> None) \<Longrightarrow>
     file_ok (put_record r f) c"
  by (auto simp: file_ok_def get_put_record)

lemma file_ok_drop: "file_ok f c \<Longrightarrow> file_ok (drop_record k f) c"
  by (auto simp: file_ok_def get_drop_record)

lemma ok_same [ok_rules]:
  "world_ok w \<Longrightarrow> world_ok (moved e w)" "world_ok w \<Longrightarrow> world_ok (recached g e w)"
  "world_ok w \<Longrightarrow> world_ok (told r w)" "world_ok w \<Longrightarrow> world_ok (filed id e w)"
  by (simp_all add: world_ok_def image_of_def image_ok_def)

lemma ok_stored [ok_rules]:
  "world_ok w \<Longrightarrow> file_ok (f (mem (w_store w))) (w_files w) \<Longrightarrow> world_ok (stored f e w)"
  by (simp add: world_ok_def image_ok_def)

lemma ok_unstored [ok_rules]:
  "world_ok w \<Longrightarrow> file_ok (f (mem (w_store w))) (w_files w) \<Longrightarrow> world_ok (unstored f c e w)"
  by (auto simp: world_ok_def image_ok_def split: option.splits)

lemma ok_filed:
  assumes "world_ok w" and "\<And>k. map_of (bundle_files (w_files w)) k \<noteq> None \<Longrightarrow> map_of (bundle_files (g (w_files w))) k \<noteq> None"
  shows "world_ok (filed g e w)"
  using assms(1) file_ok_more [OF _ assms(2)]
  by (auto simp: world_ok_def image_ok_def split: option.splits)

lemma ok_filed_more [ok_rules]:
  "world_ok w \<Longrightarrow> world_ok (filed (save_files k b a) e w)"
  "world_ok w \<Longrightarrow> world_ok (filed (put_bundle k b) e w)"
  "world_ok w \<Longrightarrow> world_ok (filed (drop_artifacts k) e w)"
  by (rule ok_filed; auto split: if_splits)+

lemma ok_filed_less:
  assumes "world_ok w" "bundle_free k w"
    and "\<And>j. j \<noteq> k \<Longrightarrow> map_of (bundle_files (g (w_files w))) j = map_of (bundle_files (w_files w)) j"
  shows "world_ok (filed g e w)"
proof -
  have less: "file_ok f (g (w_files w))" if "file_ok f (w_files w)"
    "\<forall>r. get_record k f = Some r \<longrightarrow> \<not> is_checkpointed (record_state r)" for f
    using that assms(3) unfolding file_ok_def by metis
  have "file_ok (mem (w_store w)) (g (w_files w))"
    using assms(1,2) by (intro less) (auto simp: world_ok_def bundle_free_def)
  moreover have "file_ok f (g (w_files w))" if "disk (w_store w) = Some f" for f
    using assms(1,2) that by (intro less) (auto simp: world_ok_def bundle_free_def image_ok_def)
  ultimately show ?thesis
    using assms(1) by (auto simp: world_ok_def image_ok_def split: option.splits)
qed

lemma ok_filed_drop [ok_rules]:
  "world_ok w \<Longrightarrow> bundle_free k w \<Longrightarrow> world_ok (filed (drop_bundle k) e w)"
  "world_ok w \<Longrightarrow> bundle_free k w \<Longrightarrow> world_ok (filed (remove_files k) e w)"
  by (rule ok_filed_less; auto)+

lemma ok_mem: "world_ok w \<Longrightarrow> file_ok (mem (w_store w)) (w_files w)"
  by (simp add: world_ok_def)

lemma ok_key: "world_ok w \<Longrightarrow> record_of k w = Some r \<Longrightarrow> session_id r = k"
  by (auto simp: world_ok_def file_ok_def)

lemma bundle_free_stored [ok_rules]:
  "bundle_free k (stored (drop_record k) e w)"
  "\<not> is_checkpointed (record_state r) \<Longrightarrow> session_id r = k \<Longrightarrow> bundle_free k (stored (put_record r) e w)"
  by (auto simp: bundle_free_def store_reads)

section \<open>What the methods share\<close>

lemma wp_iso_now [wp_intro]:
  "(\<And>now. Q now w) \<Longrightarrow> (\<And>er. E er w) \<Longrightarrow> wp (iso_now d) Q E w"
  by (auto simp: iso_now_def wp_simps split: sum.split)

text \<open>What provisioning returns: a running record of the session, under the profile asked for.\<close>

definition fresh_record :: "string \<Rightarrow> sandbox_profile \<Rightarrow> string \<Rightarrow> session_record \<Rightarrow> bool" where
  "fresh_record sid p url r \<longleftrightarrow> session_id r = sid \<and> record_profile r = profile_name p
     \<and> repository_url r = url \<and> is_running (record_state r) \<and> created_at r = updated_at r"

lemma fresh_not_checkpointed: "is_running s \<Longrightarrow> \<not> is_checkpointed s"
  by (cases s) auto

lemma wp_claim [wp_intro]:
  assumes "\<And>r e. fresh_record sid p url r \<Longrightarrow> Q r (moved e w)"
    and "\<And>er e. E er (moved e w)"
  shows "wp (claim_sandbox d sid p url) Q E w"
proof -
  have w: "moved (w_env w) w = w" by (simp add: moved_def)
  show ?thesis
    using assms assms(2) [of _ "w_env w"]
    by (auto simp: claim_sandbox_def wp_simps fresh_record_def w
        intro!: wp_intro split: option.split)
qed

lemma wp_attach_record [wp_intro]:
  assumes "\<And>c e. Q c (recached (AList.update (session_id r) c) e w)" and "\<And>er e. E er (recached id e w)"
  shows "wp (attach_record d r url ck) Q E w"
proof -
  have w: "recached id (w_env w) w = w" by (simp add: recached_def)
  show ?thesis using assms assms(2) [of _ "w_env w"]
    by (auto simp: attach_record_def wp_simps w intro!: wp_intro split: session_state.split)
qed

text \<open>What an answered \<open>ensureRunning\<close> leaves: the session runs, and the answer is its client.\<close>

definition served :: "string \<Rightarrow> client \<Rightarrow> 'e world \<Rightarrow> bool" where
  "served sid c w \<longleftrightarrow> client_for sid (w_clients w) = Some c
     \<and> (\<exists>r. record_of sid w = Some r \<and> is_running (record_state r))"

lemma served_recached [simp]:
  "served sid c (recached (AList.update sid c) e w) \<longleftrightarrow>
     (\<exists>r. record_of sid w = Some r \<and> is_running (record_state r))"
  by (simp add: served_def client_for_def)

lemma served_same [simp]:
  "served sid c (moved e w) = served sid c w" "served sid c (filed g e w) = served sid c w"
  "served sid c (recached id e w) = served sid c w"
  by (simp_all add: served_def)

lemma wp_answering [wp_simps]: "wp (answering m) Q E = wp m (\<lambda>c. Q (Some c)) E"
  by (simp add: answering_def wp_simps)

lemma wp_quietly [wp_simps]: "wp (quietly m) Q E = wp m (\<lambda>_. Q None) E"
  by (simp add: quietly_def wp_simps)

text \<open>An answered \<open>ensureRunning\<close> serves the session; the other events answer nothing.\<close>

definition answer_ok :: "'e lifecycle_event \<Rightarrow> string \<Rightarrow> client option \<Rightarrow> 'e world \<Rightarrow> bool" where
  "answer_ok ev sid res w \<longleftrightarrow>
     (if is_ensure ev then (\<exists>c. res = Some c \<and> served sid c w) else res = None)"

text \<open>\<open>react\<close> as the methods it chooses between.\<close>

lemma react_unfold:
  "react (Suc n) d sid ev w =
     (if \<exists>r. record_of sid w = Some r \<and> is_ensure ev \<and> has_expired (ld_now d w) r
      then thenE (reclaim_expired d (the (record_of sid w))) (react n d sid ev) w
      else dispatch d sid (record_of sid w) ev w)"
  by (simp split: option.split)

lemma wp_eq: "f w = g w \<Longrightarrow> wp f Q E w = wp g Q E w"
  by (simp add: wp_def)

section \<open>Invariants of one session's events\<close>

text \<open>The laws of the changes \<open>ensureRunning\<close> and \<open>release\<close> make: no record is written but a
  running one, and checkpoint files go only when no record needs them.\<close>

locale serving_invariant =
  fixes I :: "'e world \<Rightarrow> bool" and sid :: string
  assumes key: "I w \<Longrightarrow> record_of sid w = Some r \<Longrightarrow> session_id r = sid"
    and same: "I w \<Longrightarrow> I (moved e w)" "I w \<Longrightarrow> I (recached id e w)"
      "I w \<Longrightarrow> I (told ref w)" "I w \<Longrightarrow> I (filed id e w)"
    and recache: "I w \<Longrightarrow> I (recached (AList.update sid c) e w)"
      "I w \<Longrightarrow> I (recached (AList.delete sid) e w)"
    and put_running: "I w \<Longrightarrow> session_id r = sid \<Longrightarrow> is_running (record_state r) \<Longrightarrow>
        I (stored (put_record r) e w) \<and> I (unstored (put_record r) ch e w)"
    and drop_it: "I w \<Longrightarrow> I (stored (drop_record sid) e w)"
      "I w \<Longrightarrow> I (unstored (drop_record sid) ch e w)"
    and unfiling: "I w \<Longrightarrow> I (filed (drop_artifacts sid) e w)"
      "I w \<Longrightarrow> bundle_free sid w \<Longrightarrow> I (filed (drop_bundle sid) e w)"
      "I w \<Longrightarrow> bundle_free sid w \<Longrightarrow> I (filed (remove_files sid) e w)"
begin

text \<open>The record is the session's own; a definition, so that automation keeps \<open>sid\<close> as it is.\<close>

definition mine :: "session_record \<Rightarrow> bool" where
  "mine r \<longleftrightarrow> session_id r = sid"

lemma mine_id [simp]: "mine r \<Longrightarrow> session_id r = sid"
  by (simp add: mine_def)

lemma mine_more [simp]:
  "mine (r\<lparr>record_state := st, updated_at := t\<rparr>) = mine r" "mine (session_record.make sid b p u c t st)"
  by (simp_all add: mine_def session_record.defs)

lemma freshD:
  "fresh_record sid p url r \<Longrightarrow> mine r \<and> is_running (record_state r) \<and> \<not> is_checkpointed (record_state r)"
  by (simp add: fresh_record_def mine_def fresh_not_checkpointed)

lemmas put_run = put_running [THEN conjunct1] put_running [THEN conjunct2]
lemmas laws = same recache put_run drop_it unfiling bundle_free_stored

lemma forget:
  "I w \<Longrightarrow> wp (forget_session d sid) (\<lambda>_ t. I t \<and> record_of sid t = None) (\<lambda>_. I) w"
  by (auto simp: forget_session_def wp_simps store_reads intro!: wp_intro laws)

lemmas forget_step = wp_mono [OF forget]

lemma reclaim:
  "I w \<Longrightarrow> mine r \<Longrightarrow>
     wp (reclaim_expired d r) (\<lambda>_ t. I t \<and> record_of sid t = None) (\<lambda>_. I) w"
  by (auto simp: reclaim_expired_def wp_simps
      intro!: wp_intro forget_step laws split: session_state.split sum.split)

lemma provision:
  "I w \<Longrightarrow> wp (provision_session d sid p url)
     (\<lambda>r t. I t \<and> mine r \<and> is_running (record_state r) \<and> record_of sid t = Some r) (\<lambda>_. I) w"
  by (auto simp: provision_session_def wp_simps store_reads dest!: freshD intro!: wp_intro laws)

lemmas provision_step = wp_mono [OF provision]

lemma replace:
  "I w \<Longrightarrow> mine r \<Longrightarrow>
     wp (replace_lost_sandbox d b r ref url) (\<lambda>c t. I t \<and> served sid c t) (\<lambda>_. I) w"
  by (auto simp: replace_lost_sandbox_def wp_simps cong: option.case_cong
      intro!: wp_intro forget_step provision_step laws split: option.split)

lemmas replace_step = wp_mono [OF replace]

lemma wake:
  "I w \<Longrightarrow> mine r \<Longrightarrow>
     wp (wake_or_replace d r ref url) (\<lambda>c t. I t \<and> served sid c t) (\<lambda>_. I) w"
  by (auto simp: wake_or_replace_def wp_simps store_reads cong: if_cong
      intro!: wp_intro replace_step laws split: sum.split)

lemmas wake_step = wp_mono [OF wake]

lemma fresh:
  "I w \<Longrightarrow> wp (provision_fresh d sid repo) (\<lambda>c t. I t \<and> served sid c t) (\<lambda>_. I) w"
  by (auto simp: provision_fresh_def wp_simps
      intro!: wp_intro provision_step laws split: sum.split)

lemma serve:
  "I w \<Longrightarrow> mine r \<Longrightarrow> record_of sid w = Some r \<Longrightarrow> is_running (record_state r) \<Longrightarrow>
     wp (serve_running d r ref) (\<lambda>c t. I t \<and> served sid c t) (\<lambda>_. I) w"
  by (auto simp: serve_running_def wp_simps cong: if_cong option.case_cong
      intro!: wp_intro wake_step laws split: sum.split if_splits) (simp_all add: served_def)

lemma restore:
  "I w \<Longrightarrow> mine r \<Longrightarrow>
     wp (restore_session d r ck) (\<lambda>c t. I t \<and> served sid c t) (\<lambda>_. I) w"
  by (auto simp: restore_session_def wp_simps store_reads served_def client_for_def
      dest!: freshD cong: option.case_cong session_state.case_cong
      intro!: wp_intro laws split: option.split sum.split session_state.split)

lemma releasing:
  "I w \<Longrightarrow> mine r \<Longrightarrow> wp (release_session d r) (\<lambda>_. I) (\<lambda>_. I) w"
  by (auto simp: release_session_def wp_simps Let_def cong: if_cong session_state.case_cong
      intro!: wp_intro forget_step laws split: option.split session_state.split)

lemma dispatch_serving:
  assumes "I w" "ev \<noteq> HibernateEvent"
  shows "wp (dispatch d sid (record_of sid w) ev) (\<lambda>res t. I t \<and> answer_ok ev sid res t) (\<lambda>_. I) w"
proof (cases "record_of sid w")
  case None
  with assms show ?thesis
    by (cases ev) (auto simp: dispatch_def wp_simps answer_ok_def intro!: wp_mono [OF fresh])
next
  case (Some r)
  with assms have k: "mine r" by (auto simp: mine_def dest: key)
  show ?thesis
    using assms Some k
    by (cases "record_state r"; cases ev)
      (auto simp: dispatch_def wp_simps answer_ok_def
        intro!: wp_mono [OF serve] wp_mono [OF releasing] wp_mono [OF wake] wp_mono [OF restore])
qed

text \<open>After reclaiming an expired session \<open>react\<close> starts over with the session absent.\<close>

lemma react_from_dispatch:
  assumes "I w"
    and disp: "\<And>t. I t \<Longrightarrow>
      wp (dispatch d sid (record_of sid t) ev) (\<lambda>res t. I t \<and> answer_ok ev sid res t) (\<lambda>_. I) t"
  shows "wp (react react_fuel d sid ev) (\<lambda>res t. I t \<and> answer_ok ev sid res t) (\<lambda>_. I) w"
proof -
  have one: "wp (react (Suc n) d sid ev) (\<lambda>res t. I t \<and> answer_ok ev sid res t) (\<lambda>_. I) t"
    if "I t" "record_of sid t = None" for n t
  proof -
    have "react (Suc n) d sid ev t = dispatch d sid (record_of sid t) ev t"
      by (simp add: that(2))
    with disp [OF that(1)] show ?thesis using wp_eq by metis
  qed
  have f: "react_fuel = Suc (Suc 0)" by (simp add: react_fuel_def)
  show ?thesis
  proof (cases "\<exists>r. record_of sid w = Some r \<and> is_ensure ev \<and> has_expired (ld_now d w) r")
    case False
    then have "react react_fuel d sid ev w = dispatch d sid (record_of sid w) ev w"
      unfolding f by (subst react_unfold) auto
    then show ?thesis using disp [OF assms(1)] wp_eq by metis
  next
    case True
    then obtain r where r: "record_of sid w = Some r" by blast
    with assms(1) have k: "mine r" by (auto simp: mine_def dest: key)
    from True r have "react react_fuel d sid ev w = thenE (reclaim_expired d r) (react (Suc 0) d sid ev) w"
      unfolding f by (subst react_unfold) simp
    moreover have "wp (thenE (reclaim_expired d r) (react (Suc 0) d sid ev))
       (\<lambda>res t. I t \<and> answer_ok ev sid res t) (\<lambda>_. I) w"
      unfolding wp_thenE by (rule wp_mono [OF reclaim [OF assms(1) k]]) (auto intro: one)
    ultimately show ?thesis using wp_eq by metis
  qed
qed

lemma react_serving:
  "I w \<Longrightarrow> ev \<noteq> HibernateEvent \<Longrightarrow>
     wp (react react_fuel d sid ev) (\<lambda>res t. I t \<and> answer_ok ev sid res t) (\<lambda>_. I) w"
  by (rule react_from_dispatch) (auto intro: dispatch_serving)

end

text \<open>The laws of every change, those of a suspend included: a parked or checkpointed record may be
  written, the latter once its bundle is there.\<close>

locale step_invariant = serving_invariant +
  assumes put: "I w \<Longrightarrow> session_id r = sid \<Longrightarrow>
        (is_checkpointed (record_state r) \<Longrightarrow> map_of (bundle_files (w_files w)) sid \<noteq> None) \<Longrightarrow>
        I (stored (put_record r) e w) \<and> I (unstored (put_record r) ch e w)"
    and filing: "I w \<Longrightarrow> I (filed (save_files sid b a) e w)" "I w \<Longrightarrow> I (filed (put_bundle sid b) e w)"
begin

lemmas put_any = put [THEN conjunct1] put [THEN conjunct2]
lemmas all_laws = same recache put_any drop_it filing unfiling bundle_free_stored

lemma hibernating:
  "I w \<Longrightarrow> mine r \<Longrightarrow> wp (hibernate_sandbox d r sb ref b) (\<lambda>_. I) (\<lambda>_. I) w"
  by (auto simp: hibernate_sandbox_def wp_simps intro!: wp_intro all_laws split: sum.split)

lemmas hibernating_step = wp_mono [OF hibernating]

lemma runner:
  "I w \<Longrightarrow> mine r \<Longrightarrow> wp (runner_for_checkpoint d r sb ref b) (\<lambda>_. I) (\<lambda>_. I) w"
  by (auto simp: runner_for_checkpoint_def wp_simps cong: if_cong option.case_cong
      intro!: wp_intro all_laws split: option.split)

lemmas runner_step = wp_mono [OF runner]

lemma checkpointing:
  "I w \<Longrightarrow> mine r \<Longrightarrow> wp (checkpoint_sandbox d r sb ref b) (\<lambda>_. I) (\<lambda>_. I) w"
  by (auto simp: checkpoint_sandbox_def wp_simps cong: if_cong
      intro!: wp_intro runner_step all_laws split: sum.split)

lemmas checkpointing_step = wp_mono [OF checkpointing]

lemma suspend:
  "I w \<Longrightarrow> mine r \<Longrightarrow> wp (suspend_running d r sb ref) (\<lambda>_. I) (\<lambda>_. I) w"
  by (auto simp: suspend_running_def wp_simps cong: if_cong
      intro!: wp_intro hibernating_step checkpointing_step forget_step all_laws split: sum.split)

lemma reacting:
  assumes "I w"
  shows "wp (react react_fuel d sid ev) (\<lambda>res t. I t \<and> answer_ok ev sid res t) (\<lambda>_. I) w"
proof (rule react_from_dispatch [OF assms])
  fix t assume "I t"
  show "wp (dispatch d sid (record_of sid t) ev) (\<lambda>res t. I t \<and> answer_ok ev sid res t) (\<lambda>_. I) t"
  proof (cases ev)
    case HibernateEvent
    show ?thesis
    proof (cases "record_of sid t")
      case None
      with HibernateEvent \<open>I t\<close> show ?thesis by (simp add: dispatch_def wp_simps answer_ok_def)
    next
      case (Some r)
      with \<open>I t\<close> have "mine r" by (auto simp: mine_def dest: key)
      with HibernateEvent Some \<open>I t\<close> show ?thesis
        by (cases "record_state r")
          (auto simp: dispatch_def wp_simps answer_ok_def intro!: wp_mono [OF suspend])
    qed
  qed (use \<open>I t\<close> in \<open>auto intro: dispatch_serving\<close>)
qed

end

section \<open>The two interpretations\<close>

interpretation safe: step_invariant world_ok sid for sid
  by unfold_locales
    (auto dest: fresh_not_checkpointed intro: ok_rules ok_key
      intro!: ok_rules ok_mem file_ok_put file_ok_drop)

text \<open>What one session's events may not touch: every other session's record, client and files.\<close>

definition frame :: "string \<Rightarrow> 'e world \<Rightarrow> 'e world \<Rightarrow> bool" where
  "frame sid w0 w \<longleftrightarrow> (\<forall>k. k \<noteq> sid \<longrightarrow> record_of k w = record_of k w0
     \<and> client_for k (w_clients w) = client_for k (w_clients w0)
     \<and> map_of (bundle_files (w_files w)) k = map_of (bundle_files (w_files w0)) k
     \<and> map_of (artifact_files (w_files w)) k = map_of (artifact_files (w_files w0)) k)"

interpretation framed: step_invariant "\<lambda>w. world_ok w \<and> frame sid w0 w" sid for sid w0
  by unfold_locales
    (auto simp: frame_def client_for_def store_reads
      dest: fresh_not_checkpointed intro: safe.key safe.all_laws intro!: safe.all_laws)

lemmas ok_react = safe.reacting

end
