(* ===== verification/Lifecycle_Properties.thy ===== *)
theory Lifecycle_Properties
  imports Lifecycle_Safety
begin

text \<open>
  The properties of the sandbox lifecycle, stated of whole events and of the verbs a caller uses.
\<close>

section \<open>The verbs keep the invariant\<close>

lemma ok_recover: "world_ok w \<Longrightarrow> wp (recover_record d r) (\<lambda>_. world_ok) (\<lambda>_. world_ok) w"
  by (auto simp: recover_record_def Let_def wp_simps cong: if_cong option.case_cong session_state.case_cong
      intro!: wp_intro wp_mono [OF ok_react] ok_rules split: option.split session_state.split)

lemma wp_store_initialize [wp_intro]:
  assumes "\<And>e. disk (w_store w) = None \<Longrightarrow> Q () (note_written (moved e w))"
    and "\<And>f e. disk (w_store w) = Some f \<Longrightarrow>
      Q () (note_written (w\<lparr>w_store := (w_store w)\<lparr>mem := f\<rparr>, w_env := e\<rparr>))"
    and "\<And>er e. E er (note_written (moved e w))"
  shows "wp (on_store (store_initialize mk)) Q E w"
  using assms
  by (auto simp: wp_on_store wp_def store_initialize_def moved_def split: prod.splits sum.splits option.splits)

lemma ok_initialize: "world_ok w \<Longrightarrow> wp (initialize d) (\<lambda>_. world_ok) (\<lambda>_. world_ok) w"
proof -
  assume ok: "world_ok w"
  have start: "world_ok (note_written (moved e w))" for e
    using ok by (auto simp: world_ok_def image_of_def image_ok_def)
  have loaded: "world_ok (note_written (w\<lparr>w_store := (w_store w)\<lparr>mem := f\<rparr>, w_env := e\<rparr>))"
    if "disk (w_store w) = Some f" for f e
    using ok that by (auto simp: world_ok_def image_of_def image_ok_def)
  show ?thesis
    by (auto simp: initialize_def wp_simps start loaded
        intro!: wp_intro wp_forE_inv [of world_ok] ok_recover)
qed

lemma ok_ensure: "world_ok w \<Longrightarrow>
    wp (ensure_running d sid repo) (\<lambda>res t. world_ok t \<and> (\<exists>c. res = Some c \<and> served sid c t)) (\<lambda>_. world_ok) w"
  unfolding ensure_running_def by (rule wp_mono [OF ok_react]) (auto simp: answer_ok_def)

lemma ok_hibernate: "world_ok w \<Longrightarrow> wp (hibernate_session d sid g) (\<lambda>_. world_ok) (\<lambda>_. world_ok) w"
  by (auto simp: hibernate_session_def wp_simps intro!: wp_mono [OF ok_react])

lemma ok_release: "world_ok w \<Longrightarrow> wp (release d sid g) (\<lambda>_. world_ok) (\<lambda>_. world_ok) w"
  by (auto simp: release_def wp_simps intro!: wp_mono [OF ok_react] split: option.split)

text \<open>What a host does over its life: boot, then events in any order, whatever each of them ends
  in. The sessions' repositories and the guards are the caller's.\<close>

datatype 'e call =
    Boot
  | Ensure string "('e, string) comp"
  | Hibernate string "'e \<Rightarrow> bool"
  | Release string "'e \<Rightarrow> bool"

fun perform :: "'e lifecycle_deps \<Rightarrow> 'e call \<Rightarrow> 'e world \<Rightarrow> 'e world" where
  "perform d Boot w = snd (initialize d w)"
| "perform d (Ensure sid repo) w = snd (ensure_running d sid repo w)"
| "perform d (Hibernate sid g) w = snd (hibernate_session d sid g w)"
| "perform d (Release sid g) w = snd (release d sid g w)"

text \<open>The host after a restart that finds \<open>im\<close> on disk: nothing in memory, no runner cached. A crash
  in the middle of a call finds one of the images the call had written.\<close>

definition rebooted :: "durable_image \<Rightarrow> 'e world \<Rightarrow> 'e world" where
  "rebooted im w = w\<lparr>w_store := \<lparr>mem = empty_state, disk = im_state im, chain = None\<rparr>,
     w_files := im_files im, w_clients := []\<rparr>"

inductive reachable :: "'e lifecycle_deps \<Rightarrow> 'e world \<Rightarrow> 'e world \<Rightarrow> bool" for d w0 where
  start: "reachable d w0 w0"
| call: "reachable d w0 w \<Longrightarrow> reachable d w0 (perform d c w)"
| elsewhere: "reachable d w0 w \<Longrightarrow> reachable d w0 (w\<lparr>w_env := e\<rparr>)"
| restart: "reachable d w0 w \<Longrightarrow> reachable d w0 (rebooted (image_of w) w)"
| crash: "reachable d w0 w \<Longrightarrow> Written im \<in> set (w_log (perform d c w)) \<Longrightarrow>
    Written im \<notin> set (w_log w) \<Longrightarrow> reachable d w0 (rebooted im (perform d c w))"

lemma ok_perform: "world_ok w \<Longrightarrow> world_ok (perform d c w)"
  by (cases c) (auto intro: wp_finalD ok_initialize ok_hibernate ok_release
      wp_finalD [OF wp_mono [OF ok_ensure]])

lemma empty_state_ok: "file_ok empty_state c"
  by (simp add: file_ok_def get_record_def empty_state_def)

definition first_world :: "'e \<Rightarrow> 'e world" where
  "first_world e = \<lparr>w_store = \<lparr>mem = empty_state, disk = None, chain = None\<rparr>,
     w_files = \<lparr>bundle_files = [], artifact_files = []\<rparr>, w_clients = [], w_env = e, w_log = []\<rparr>"

lemma first_world_ok: "world_ok (first_world e)"
  by (simp add: world_ok_def first_world_def empty_state_ok image_ok_def image_of_def)

lemma reachable_ok: "reachable d w0 w \<Longrightarrow> world_ok w0 \<Longrightarrow> world_ok w"
proof (induction rule: reachable.induct)
  case (call w c)
  then show ?case by (simp add: ok_perform)
next
  case (restart w)
  then show ?case by (auto simp: world_ok_def rebooted_def empty_state_ok image_ok_def image_of_def)
next
  case (crash w im c)
  then have ok: "world_ok (perform d c w)" by (simp add: ok_perform)
  with crash.hyps(2) have "effect_ok (Written im)" by (simp only: world_ok_def list_all_iff)
  with ok show ?case
    by (auto simp: world_ok_def rebooted_def empty_state_ok image_ok_def image_of_def split: option.splits)
qed (auto simp: world_ok_def image_ok_def image_of_def)

text \<open>C1: However the backends, runners, hooks and the file system answer, in whatever order events
  come, and wherever the host crashes and restarts, a session whose record on disk says
  checkpointed still has its bundle: in the world now, in every image a crash could have left, and
  whenever a sandbox was told to go.\<close>

theorem checkpoint_never_lost:
  assumes "reachable d (first_world e) w"
  shows "image_ok (image_of w) \<and> (\<forall>ef \<in> set (w_log w). effect_ok ef)
    \<and> file_ok (mem (w_store w)) (w_files w)"
  using reachable_ok [OF assms first_world_ok] by (auto simp: world_ok_def list_all_iff)

text \<open>C5: An answered \<open>ensureRunning\<close> serves the session: the answer is a client, it is the session's
  cached client, and the session's record says running.\<close>

theorem ensure_running_serves:
  assumes "reachable d (first_world e) w" and "ensure_running d sid repo w = (Inr res, w')"
  shows "\<exists>c r. res = Some c \<and> client_for sid (w_clients w') = Some c
    \<and> record_of sid w' = Some r \<and> is_running (record_state r)"
  using wp_resultD [OF ok_ensure [OF reachable_ok [OF assms(1) first_world_ok]] assms(2)]
  by (auto simp: served_def)

section \<open>One session's events leave the others alone\<close>

lemma frame_refl: "frame sid w w"
  by (simp add: frame_def)

lemma framed_verbs:
  assumes "world_ok w"
  shows "frame sid w (perform d (Ensure sid repo) w)" "frame sid w (perform d (Hibernate sid g) w)"
    "frame sid w (perform d (Release sid g) w)"
proof -
  have I: "world_ok w \<and> frame sid w w" using assms frame_refl by blast
  note react = wp_mono [OF framed.reacting [OF I]]
  have "wp (ensure_running d sid repo) (\<lambda>_. frame sid w) (\<lambda>_. frame sid w) w"
    unfolding ensure_running_def by (rule react) auto
  then show "frame sid w (perform d (Ensure sid repo) w)" by (simp add: wp_finalD)
  have "wp (hibernate_session d sid g) (\<lambda>_. frame sid w) (\<lambda>_. frame sid w) w"
    using frame_refl by (auto simp: hibernate_session_def wp_simps intro!: react)
  then show "frame sid w (perform d (Hibernate sid g) w)" by (simp add: wp_finalD)
  have "wp (release d sid g) (\<lambda>_. frame sid w) (\<lambda>_. frame sid w) w"
    using frame_refl by (auto simp: release_def wp_simps intro!: react split: option.split)
  then show "frame sid w (perform d (Release sid g) w)" by (simp add: wp_finalD)
qed

text \<open>C8: An event of one session, whatever becomes of it, leaves every other session's record,
  cached client and checkpoint files as they were.\<close>

theorem events_stay_in_their_session:
  assumes "reachable d (first_world e) w" and "k \<noteq> sid"
    and "c \<in> {Ensure sid repo, Hibernate sid g, Release sid g}"
  shows "record_of k (perform d c w) = record_of k w
    \<and> client_for k (w_clients (perform d c w)) = client_for k (w_clients w)
    \<and> map_of (bundle_files (w_files (perform d c w))) k = map_of (bundle_files (w_files w)) k
    \<and> map_of (artifact_files (w_files (perform d c w))) k = map_of (artifact_files (w_files w)) k"
proof -
  from reachable_ok [OF assms(1) first_world_ok] assms(3) have "frame sid w (perform d c w)"
    using framed_verbs by blast
  with assms(2) show ?thesis by (simp add: frame_def)
qed

section \<open>What is on disk when a sandbox goes\<close>

definition destroys :: "'e world \<Rightarrow> (backend_reference \<times> durable_image) list" where
  "destroys w = List.map_filter
     (\<lambda>ef. case ef of DestroyCalled ref im \<Rightarrow> Some (ref, im) | Written im \<Rightarrow> None) (w_log w)"

definition images :: "'e world \<Rightarrow> durable_image list" where
  "images w = List.map_filter
     (\<lambda>ef. case ef of DestroyCalled ref im \<Rightarrow> None | Written im \<Rightarrow> Some im) (w_log w)"

lemma log_reads [simp]:
  "destroys (stored f e w) = destroys w" "destroys (unstored f c e w) = destroys w"
  "destroys (filed g e w) = destroys w" "destroys (recached h e w) = destroys w"
  "destroys (moved e w) = destroys w" "destroys (told ref w) = destroys w @ [(ref, image_of w)]"
  "images (stored f e w) = images w @ [\<lparr>im_state = Some (f (mem (w_store w))), im_files = w_files w\<rparr>]"
  "images (unstored f c e w) = images w @ [image_of w]"
  "images (filed g e w) = images w @ [\<lparr>im_state = disk (w_store w), im_files = g (w_files w)\<rparr>]"
  "images (recached h e w) = images w" "images (moved e w) = images w" "images (told ref w) = images w"
  by (simp_all add: destroys_def images_def List.map_filter_def)

text \<open>The image holds the session's work: a checkpointed record and its bundle.\<close>

definition saved_in :: "string \<Rightarrow> durable_image \<Rightarrow> bool" where
  "saved_in sid im \<longleftrightarrow> (\<exists>f r. im_state im = Some f \<and> get_record sid f = Some r
     \<and> is_checkpointed (record_state r) \<and> map_of (bundle_files (im_files im)) sid \<noteq> None)"

definition destroys_after_save :: "string \<Rightarrow> 'e world \<Rightarrow> 'e world \<Rightarrow> bool" where
  "destroys_after_save sid w0 w \<longleftrightarrow> (\<forall>x \<in> set (destroys w). x \<in> set (destroys w0) \<or> saved_in sid (snd x))"

lemma destroys_after_save_refl: "destroys_after_save sid w w"
  by (simp add: destroys_after_save_def)

lemma destroys_after_save_same [simp]:
  "destroys_after_save sid w0 (stored f e w) = destroys_after_save sid w0 w"
  "destroys_after_save sid w0 (unstored f c e w) = destroys_after_save sid w0 w"
  "destroys_after_save sid w0 (filed g e w) = destroys_after_save sid w0 w"
  "destroys_after_save sid w0 (recached h e w) = destroys_after_save sid w0 w"
  "destroys_after_save sid w0 (moved e w) = destroys_after_save sid w0 w"
  "destroys_after_save sid w0 (told ref w) \<longleftrightarrow>
     destroys_after_save sid w0 w \<and> ((ref, image_of w) \<in> set (destroys w0) \<or> saved_in sid (image_of w))"
  by (auto simp: destroys_after_save_def)

lemma forget_no_destroy:
  "destroys_after_save sid w0 w \<Longrightarrow> wp (forget_session d k)
     (\<lambda>_. destroys_after_save sid w0) (\<lambda>_. destroys_after_save sid w0) w"
  by (auto simp: forget_session_def wp_simps intro!: wp_intro)

lemma hibernate_no_destroy:
  "destroys_after_save sid w0 w \<Longrightarrow> wp (hibernate_sandbox d r sb ref b)
     (\<lambda>_. destroys_after_save sid w0) (\<lambda>_. destroys_after_save sid w0) w"
  by (auto simp: hibernate_sandbox_def wp_simps intro!: wp_intro split: sum.split)

lemma runner_no_destroy:
  "destroys_after_save sid w0 w \<Longrightarrow> wp (runner_for_checkpoint d r sb ref b)
     (\<lambda>_. destroys_after_save sid w0) (\<lambda>_. destroys_after_save sid w0) w"
  by (auto simp: runner_for_checkpoint_def wp_simps cong: if_cong option.case_cong
      intro!: wp_intro split: option.split)

lemma checkpoint_destroy:
  "destroys_after_save (session_id r) w0 w \<Longrightarrow> wp (checkpoint_sandbox d r sb ref b)
     (\<lambda>_. destroys_after_save (session_id r) w0) (\<lambda>_. destroys_after_save (session_id r) w0) w"
  by (auto simp: checkpoint_sandbox_def wp_simps saved_in_def store_reads cong: if_cong
      intro!: wp_intro wp_mono [OF runner_no_destroy] split: sum.split)

lemma suspend_destroy:
  "destroys_after_save (session_id r) w0 w \<Longrightarrow> wp (suspend_running d r sb ref)
     (\<lambda>_. destroys_after_save (session_id r) w0) (\<lambda>_. destroys_after_save (session_id r) w0) w"
  by (auto simp: suspend_running_def wp_simps cong: if_cong
      intro!: wp_intro wp_mono [OF checkpoint_destroy] wp_mono [OF hibernate_no_destroy]
        wp_mono [OF forget_no_destroy] split: sum.split)

lemma hibernate_event_destroy:
  assumes "world_ok w"
  shows "wp (react react_fuel d sid HibernateEvent)
     (\<lambda>_. destroys_after_save sid w) (\<lambda>_. destroys_after_save sid w) w"
proof -
  have f: "react_fuel = Suc (Suc 0)" by (simp add: react_fuel_def)
  have "react react_fuel d sid HibernateEvent w = dispatch d sid (record_of sid w) HibernateEvent w"
    unfolding f by (subst react_unfold) simp
  moreover have "wp (dispatch d sid (record_of sid w) HibernateEvent)
     (\<lambda>_. destroys_after_save sid w) (\<lambda>_. destroys_after_save sid w) w"
  proof (cases "record_of sid w")
    case None
    then show ?thesis by (simp add: dispatch_def wp_simps destroys_after_save_refl)
  next
    case (Some r)
    with assms have "session_id r = sid" by (rule ok_key)
    with Some suspend_destroy [of r w w d] show ?thesis
      by (auto simp: dispatch_def wp_simps destroys_after_save_refl split: session_state.split)
  qed
  ultimately show ?thesis using wp_eq by metis
qed

text \<open>C3: A sandbox is told to go by a hibernate event only once the work is safe: at that moment
  the record on disk says checkpointed and its bundle is on disk. On a backend that hibernates, or
  when the save fails, no sandbox is told to go at all.\<close>

theorem hibernate_destroys_only_saved:
  assumes "reachable d (first_world e) w" and "hibernate_session d sid g w = (res, w')"
    and "(ref, im) \<in> set (destroys w')" and "(ref, im) \<notin> set (destroys w)"
  shows "saved_in sid im"
proof -
  have "wp (hibernate_session d sid g) (\<lambda>_. destroys_after_save sid w) (\<lambda>_. destroys_after_save sid w) w"
    using destroys_after_save_refl [of sid w]
      hibernate_event_destroy [OF reachable_ok [OF assms(1) first_world_ok]]
    by (auto simp: hibernate_session_def wp_simps)
  then have "destroys_after_save sid w w'" using assms(2) wp_finalD by (metis snd_conv)
  with assms(3,4) show ?thesis by (auto simp: destroys_after_save_def)
qed

section \<open>Restoring keeps the checkpoint until the sandbox is running\<close>

text \<open>The image holds the checkpoint \<open>r\<close> with its bundle \<open>b\<close>, or the session already runs.\<close>

definition work_in :: "session_record \<Rightarrow> bytes \<Rightarrow> durable_image \<Rightarrow> bool" where
  "work_in r b im \<longleftrightarrow> (\<exists>f. im_state im = Some f
     \<and> ((get_record (session_id r) f = Some r \<and> map_of (bundle_files (im_files im)) (session_id r) = Some b)
        \<or> (\<exists>r'. get_record (session_id r) f = Some r' \<and> is_running (record_state r'))))"

definition work_kept :: "session_record \<Rightarrow> bytes \<Rightarrow> 'e world \<Rightarrow> 'e world \<Rightarrow> bool" where
  "work_kept r b w0 w \<longleftrightarrow> (\<forall>im \<in> set (images w). im \<in> set (images w0) \<or> work_in r b im)
     \<and> work_in r b (image_of w)"

lemma image_of_worlds [simp]:
  "image_of (stored f e w) = \<lparr>im_state = Some (f (mem (w_store w))), im_files = w_files w\<rparr>"
  "image_of (unstored f c e w) = image_of w"
  "image_of (filed g e w) = \<lparr>im_state = disk (w_store w), im_files = g (w_files w)\<rparr>"
  "image_of (recached h e w) = image_of w" "image_of (moved e w) = image_of w"
  "image_of (told ref w) = image_of w"
  by (simp_all add: image_of_def)

lemma work_kept_same [simp]:
  "work_kept r b w0 (recached h e w) = work_kept r b w0 w"
  "work_kept r b w0 (moved e w) = work_kept r b w0 w"
  "work_kept r b w0 (told ref w) = work_kept r b w0 w"
  "work_kept r b w0 (filed id e w) = work_kept r b w0 w"
  "work_kept r b w0 (unstored f c e w) = work_kept r b w0 w"
  by (auto simp: work_kept_def image_of_def)

lemma work_kept_running:
  "work_kept r b w0 w \<Longrightarrow> session_id r' = session_id r \<Longrightarrow> is_running (record_state r') \<Longrightarrow>
     work_kept r b w0 (stored (put_record r') e w)"
  by (auto simp: work_kept_def work_in_def store_reads)

lemma work_kept_removed:
  "work_kept r b w0 (stored (put_record r') e' w) \<Longrightarrow> session_id r' = session_id r \<Longrightarrow>
     is_running (record_state r') \<Longrightarrow> work_kept r b w0 (filed g e (stored (put_record r') e' w))"
  by (auto simp: work_kept_def work_in_def store_reads)

lemma freshD_running: "fresh_record sid p url r \<Longrightarrow> session_id r = sid \<and> is_running (record_state r)"
  by (simp add: fresh_record_def)

lemma restore_keeps:
  "work_kept r b w0 w \<Longrightarrow> wp (restore_session d r ck) (\<lambda>_. work_kept r b w0) (\<lambda>_. work_kept r b w0) w"
  by (auto simp: restore_session_def wp_simps store_reads dest!: freshD_running
      cong: option.case_cong session_state.case_cong
      intro!: wp_intro work_kept_running work_kept_removed
      split: option.split sum.split session_state.split)

text \<open>C2: Waking a checkpointed session cannot lose its work: whatever fails and wherever the host
  crashes, every image on disk from then on still has the checkpointed record with its bundle
  untouched, or a record that says the restored sandbox is running.\<close>

theorem restore_never_loses_work:
  assumes "reachable d (first_world e) w"
    and "record_of sid w = Some r" and "record_state r = Checkpointed ck deadline"
    and "\<not> has_expired (ld_now d w) r"
    and "disk (w_store w) = Some f" and "get_record sid f = Some r"
    and "map_of (bundle_files (w_files w)) sid = Some b"
    and "ensure_running d sid repo w = (res, w')"
  shows "work_in r b (image_of w') \<and> (\<forall>im \<in> set (images w'). im \<in> set (images w) \<or> work_in r b im)"
proof -
  have k: "session_id r = sid" using ok_key [OF reachable_ok [OF assms(1) first_world_ok] assms(2)] .
  have fuel: "react_fuel = Suc (Suc 0)" by (simp add: react_fuel_def)
  have "work_kept r b w w" using assms(5-7) k by (auto simp: work_kept_def work_in_def)
  then have "wp (answering (restore_session d r ck)) (\<lambda>_. work_kept r b w) (\<lambda>_. work_kept r b w) w"
    unfolding wp_answering by (rule restore_keeps)
  moreover have "ensure_running d sid repo w = answering (restore_session d r ck) w"
    unfolding ensure_running_def fuel
    by (subst react_unfold) (use assms(2-4) in \<open>simp add: dispatch_def\<close>)
  ultimately have "work_kept r b w w'" using wp_finalD assms(8) by (metis snd_conv)
  then show ?thesis by (simp add: work_kept_def)
qed

section \<open>What releasing and suspending leave\<close>

definition gone :: "string \<Rightarrow> 'e world \<Rightarrow> bool" where
  "gone k w \<longleftrightarrow> record_of k w = None \<and> (\<exists>f. disk (w_store w) = Some f \<and> get_record k f = None)
     \<and> map_of (bundle_files (w_files w)) k = None \<and> map_of (artifact_files (w_files w)) k = None"

lemma gone_same [simp]:
  "gone k (recached h e w) = gone k w" "gone k (moved e w) = gone k w"
  by (simp_all add: gone_def)

lemma forget_gone:
  "client_for k (w_clients w) = c \<Longrightarrow>
     wp (forget_session d k) (\<lambda>_ t. gone k t \<and> client_for k (w_clients t) = c)
       (\<lambda>_ t. record_of k t = None) w"
  by (auto simp: forget_session_def wp_simps store_reads gone_def intro!: wp_intro)

lemmas forget_gone_step = wp_mono [OF forget_gone [OF refl]]

lemma release_session_leaves:
  "record_of (session_id r) w = Some r \<Longrightarrow> find_backend (ld_registry d) r = Some b \<Longrightarrow>
     wp (release_session d r)
       (\<lambda>_ t. gone (session_id r) t \<and> client_for (session_id r) (w_clients t) = None)
       (\<lambda>_ t. record_of (session_id r) t \<in> {Some r, None}) w"
  by (auto simp: release_session_def wp_simps Let_def client_for_def
      cong: if_cong session_state.case_cong
      intro!: wp_intro forget_gone_step split: session_state.split)

lemma release_orphan:
  "find_backend (ld_registry d) r = None \<Longrightarrow>
     wp (release_session d r) (\<lambda>_ t. \<exists>e. t = moved e w) (\<lambda>_ _. False) w"
  by (auto simp: release_session_def wp_simps intro!: wp_intro)

text \<open>The record a suspend writes: parked with its reference on a backend that hibernates,
  checkpointed with its bundle on one that cannot, otherwise as it was.\<close>

definition parked_record :: "'e backend \<Rightarrow> session_record \<Rightarrow> session_record \<Rightarrow> bool" where
  "parked_record b r r' \<longleftrightarrow> record_profile r' = record_profile r \<and> record_backend r' = record_backend r
     \<and> repository_url r' = repository_url r \<and> created_at r' = created_at r
     \<and> (case (supports_hibernate (b_capabilities b), record_state r, record_state r') of
          (True, Running sb ref, Hibernated sb' ref' (Some t)) \<Rightarrow> sb' = sb \<and> ref' = ref
        | (False, Running sb ref, Checkpointed ck (Some t)) \<Rightarrow> True
        | _ \<Rightarrow> False)"

definition parked :: "'e backend \<Rightarrow> session_record \<Rightarrow> 'e world \<Rightarrow> bool" where
  "parked b r w \<longleftrightarrow> (\<exists>r' f. record_of (session_id r) w = Some r' \<and> disk (w_store w) = Some f
     \<and> get_record (session_id r) f = Some r' \<and> parked_record b r r'
     \<and> (is_checkpointed (record_state r') \<longrightarrow> map_of (bundle_files (w_files w)) (session_id r) \<noteq> None))"

lemma parked_same [simp]:
  "parked b r (recached h e w) = parked b r w" "parked b r (moved e w) = parked b r w"
  "parked b r (told ref w) = parked b r w"
  by (simp_all add: parked_def)

lemma to_iso_Inr: "to_iso_string t = Inr x \<Longrightarrow> x = Some t"
  by (simp add: to_iso_string_def split: if_splits)

lemma hibernate_sandbox_parks:
  "record_state r = Running sb ref \<Longrightarrow> supports_hibernate (b_capabilities b) \<Longrightarrow>
     wp (hibernate_sandbox d r sb ref b) (\<lambda>_. parked b r) (\<lambda>_ _. True) w"
  by (auto simp: hibernate_sandbox_def wp_simps parked_def parked_record_def store_reads
      dest!: to_iso_Inr intro!: wp_intro split: sum.split)

lemma runner_any: "wp (runner_for_checkpoint d r sb ref b) (\<lambda>_ _. True) (\<lambda>_ _. True) w"
  by (rule wp_True)

lemma checkpoint_sandbox_parks:
  "record_state r = Running sb ref \<Longrightarrow> \<not> supports_hibernate (b_capabilities b) \<Longrightarrow>
     wp (checkpoint_sandbox d r sb ref b) (\<lambda>_. parked b r) (\<lambda>_ _. True) w"
  by (auto simp: checkpoint_sandbox_def wp_simps parked_def parked_record_def store_reads cong: if_cong
      dest!: to_iso_Inr intro!: wp_intro wp_mono [OF runner_any] split: sum.split)

lemma suspend_leaves:
  "record_state r = Running sb ref \<Longrightarrow> find_backend (ld_registry d) r = Some b \<Longrightarrow>
     wp (suspend_running d r sb ref)
       (\<lambda>_ t. client_for (session_id r) (w_clients t) = None \<and> (parked b r t \<or> gone (session_id r) t))
       (\<lambda>_ _. True) w"
  by (auto simp: suspend_running_def wp_simps backend_for_def client_for_def cong: if_cong
      intro!: wp_intro forget_gone_step wp_mono [OF hibernate_sandbox_parks]
        wp_mono [OF checkpoint_sandbox_parks])

lemma react_dispatch:
  assumes "\<not> is_ensure ev \<or> (\<forall>r. record_of sid w = Some r \<longrightarrow> \<not> has_expired (ld_now d w) r)"
  shows "react (Suc n) d sid ev w = dispatch d sid (record_of sid w) ev w"
  by (subst react_unfold) (use assms in auto)

lemma react_fuel_Suc: "react_fuel = Suc (Suc 0)"
  by (simp add: react_fuel_def)

lemma hibernate_event:
  "react react_fuel d sid HibernateEvent w = dispatch d sid (record_of sid w) HibernateEvent w"
  unfolding react_fuel_Suc by (rule react_dispatch) simp

lemma release_event:
  "react react_fuel d sid ReleaseEvent w = dispatch d sid (record_of sid w) ReleaseEvent w"
  unfolding react_fuel_Suc by (rule react_dispatch) simp

lemma wp_hibernate_event:
  "wp (react react_fuel d sid HibernateEvent) Q E w = wp (dispatch d sid (record_of sid w) HibernateEvent) Q E w"
  by (rule wp_eq) (rule hibernate_event)

lemma wp_release_event:
  "wp (react react_fuel d sid ReleaseEvent) Q E w = wp (dispatch d sid (record_of sid w) ReleaseEvent) Q E w"
  by (rule wp_eq) (rule release_event)

lemma dispatch_release:
  "dispatch d sid (Some r) ReleaseEvent = quietly (release_session d r)"
  by (simp add: dispatch_def split: session_state.split)


text \<open>A hibernate the guard refuses, or of a session that has no running sandbox, changes
  nothing at all: it answers what the guard said in the very same world.\<close>

theorem hibernate_without_effect:
  assumes "\<not> g (w_env w) \<or> (\<forall>r. record_of sid w = Some r \<longrightarrow> \<not> is_running (record_state r))"
  shows "hibernate_session d sid g w = (Inr (g (w_env w)), w)"
proof (cases "g (w_env w)")
  case True
  with assms have "react react_fuel d sid HibernateEvent w = (Inr None, w)"
    unfolding hibernate_event
    by (auto simp: dispatch_def comp_defs split: option.split session_state.split)
  with True show ?thesis by (simp add: hibernate_session_def comp_defs)
qed (simp add: hibernate_session_def comp_defs)

text \<open>How a release of a session with a configured backend ends, when its guard allows it.\<close>

lemma release_outcome:
  assumes "world_ok w" and "record_of sid w = Some r" and "find_backend (ld_registry d) r = Some b" and "g (w_env w)"
  shows "wp (release d sid g) (\<lambda>_ t. gone sid t \<and> client_for sid (w_clients t) = None)
    (\<lambda>_ t. record_of sid t \<in> {Some r, None}) w"
proof -
  have k: "session_id r = sid" using ok_key [OF assms(1,2)] .
  have "wp (react react_fuel d sid ReleaseEvent)
      (\<lambda>_ t. gone sid t \<and> client_for sid (w_clients t) = None) (\<lambda>_ t. record_of sid t \<in> {Some r, None}) w"
    unfolding wp_release_event assms(2) dispatch_release wp_quietly
    using release_session_leaves [of r w, OF _ assms(3)] assms(2) k by auto
  then show ?thesis using assms(2,4) by (simp add: release_def wp_simps)
qed


text \<open>The record of a profile that is no longer configured is kept: releasing it only warns, and
  store, files, runners and log stay exactly as they are.\<close>

lemma release_keeps_orphan:
  assumes "record_of sid w = Some r" and "find_backend (ld_registry d) r = None"
  shows "\<exists>e. release d sid g w = (Inr (), w\<lparr>w_env := e\<rparr>)"
proof (cases "g (w_env w)")
  case False
  with assms(1) have "release d sid g w = (Inr (), w\<lparr>w_env := w_env w\<rparr>)"
    by (simp add: release_def comp_defs)
  then show ?thesis by blast
next
  case True
  have "react react_fuel d sid ReleaseEvent w
     = (Inr None, w\<lparr>w_env := ld_warn d (orphaned_record_message r) (w_env w)\<rparr>)"
    unfolding release_event assms(1) dispatch_release
    using assms(2) by (simp add: release_session_def warn_def quietly_def comp_defs)
  with True assms(1)
  have "release d sid g w = (Inr (), w\<lparr>w_env := ld_warn d (orphaned_record_message r) (w_env w)\<rparr>)"
    by (simp add: release_def comp_defs)
  then show ?thesis by blast
qed

text \<open>The machine reads a session's state at most twice: more fuel than two gives the same
  result, so the recursion after a reclaimed deadline ends.\<close>

lemma react_fuel_enough:
  assumes "reachable d (first_world e) w" and "react_fuel \<le> n"
  shows "react n d sid ev w = react react_fuel d sid ev w"
proof -
  obtain m where n: "n = Suc (Suc m)" using assms(2) by (metis react_fuel_Suc Suc_le_D Suc_le_mono)
  show ?thesis
  proof (cases "\<exists>r. record_of sid w = Some r \<and> is_ensure ev \<and> has_expired (ld_now d w) r")
    case False
    then have "\<not> is_ensure ev \<or> (\<forall>r. record_of sid w = Some r \<longrightarrow> \<not> has_expired (ld_now d w) r)"
      by auto
    then show ?thesis unfolding n react_fuel_Suc by (simp add: react_dispatch del: react.simps)
  next
    case True
    then obtain r where r: "record_of sid w = Some r" "is_ensure ev" "has_expired (ld_now d w) r" by blast
    have ok: "world_ok w" using reachable_ok [OF assms(1) first_world_ok] .
    have k: "safe.mine sid r" using ok_key [OF ok r(1)] by (simp only: safe.mine_def)
    have unfold: "react (Suc j) d sid ev w = thenE (reclaim_expired d r) (react j d sid ev) w" for j
      using r by (subst react_unfold) (simp del: react.simps)
    obtain res t where t: "reclaim_expired d r w = (res, t)" by (rule prod.exhaust)
    have "react (Suc m) d sid ev t = react (Suc 0) d sid ev t" if "res = Inr u" for u
    proof -
      have "record_of sid t = None" using safe.reclaim [OF ok k, of d] t that by (simp add: wp_def)
      then show ?thesis by (simp add: react_dispatch del: react.simps)
    qed
    with t show ?thesis unfolding n react_fuel_Suc unfold
      by (cases res) (auto simp: thenE_def bindE_def simp del: react.simps)
  qed
qed

end
