(* ===== verification/Lifecycle_Witnesses.thy ===== *)
theory Lifecycle_Witnesses
  imports Lifecycle_Properties
begin

text \<open>
  A small concrete host for the witnesses: the world outside is only a clock, every call works,
  and one profile's backend hibernates or not as the parameter says. The definitions of the
  lifecycle are evaluated on it.
\<close>

definition demo_ref :: backend_reference where
  "demo_ref = [(''containerId'', JStr ''c1''), (''sandboxId'', JStr ''sandbox-1'')]"

definition demo_handle :: sandbox_handle where
  "demo_handle = \<lparr>handle_sandbox_id = ''sandbox-1'', handle_reference = demo_ref\<rparr>"

definition demo_backend :: "bool \<Rightarrow> int backend" where
  "demo_backend h = \<lparr>b_name = ''docker'',
     b_capabilities = \<lparr>supports_hibernate = h, wake_keeps_filesystem = None\<rparr>,
     b_provision = \<lambda>spec. ret demo_handle, b_hibernate = \<lambda>ref. ret (),
     b_wake = \<lambda>ref. ret demo_handle, b_destroy = \<lambda>ref. ret (), b_expire_at = \<lambda>ref t. ret (),
     b_health = \<lambda>ref. ret True\<rparr>"

definition demo_profile :: sandbox_profile where
  "demo_profile = DockerP \<lparr>dk_name = ''small'', dk_image = ''runner'', dk_binary = None,
     dk_control_plane_url = ''ws://h/tunnel'', dk_idle_ms = None\<rparr>"

definition demo_files :: "int file_system" where
  "demo_files = \<lparr>fs_make_dir = ret (), fs_write = ret (), fs_remove = ret (), fs_read = ret ()\<rparr>"

definition demo_deps :: "bool \<Rightarrow> int lifecycle_deps" where
  "demo_deps h = \<lparr>
     ld_registry = \<lparr>reg_profiles = [(''small'', demo_profile)], reg_backends = [(''small'', demo_backend h)]\<rparr>,
     ld_pending_profile = \<lambda>sid f. Inr demo_profile, ld_attachment = demo_attachment,
     ld_expires_after_ms = 1000, ld_flush = ret (), ld_make_dir = ret (), ld_files = demo_files,
     ld_hooks = [], ld_warn = \<lambda>m e. e, ld_normalize_url = \<lambda>u. u\<rparr>"

definition demo_record :: "timestamp \<Rightarrow> session_state \<Rightarrow> session_record" where
  "demo_record t s = \<lparr>session_id = ''s1'', record_backend = ''docker'', record_profile = ''small'',
     repository_url = ''https://github.com/o/r'', created_at = Some 0, updated_at = t, record_state = s\<rparr>"

definition demo_state :: "session_record \<Rightarrow> state_file" where
  "demo_state r = \<lparr>sessions = [(''s1'', r)], pending_profiles = [], disabled_mcp_servers = []\<rparr>"

abbreviation demo_start :: "int world" where
  "demo_start \<equiv> first_world 0"

definition demo_running :: session_record where
  "demo_running = demo_record (Some 0) (Running ''sandbox-1'' demo_ref)"

definition demo_live :: "int world" where
  "demo_live = \<lparr>w_store = \<lparr>mem = demo_state demo_running, disk = Some (demo_state demo_running), chain = None\<rparr>,
     w_files = \<lparr>bundle_files = [], artifact_files = []\<rparr>, w_clients = [(''s1'', 7)], w_env = 10,
     w_log = [Written \<lparr>im_state = Some (demo_state demo_running),
       im_files = \<lparr>bundle_files = [], artifact_files = []\<rparr>\<rparr>]\<rparr>"

lemmas demo_defs = demo_deps_def demo_backend_def demo_handle_def demo_profile_def demo_files_def
  demo_record_def demo_state_def first_world_def demo_running_def demo_live_def

lemmas lifecycle_defs = ensure_running_def react_fuel_def dispatch_def answering_def quietly_def
  provision_fresh_def provision_session_def claim_sandbox_def iso_now_def to_iso_string_def
  attach_record_def on_store_def on_ckpt_def on_clients_def outside_def note_written_def image_of_def
  store_set_def store_delete_def change_def persist_def put_record_def record_of_def get_record_def
  backend_of_def has_expired_def

lemma demo_now [simp]: "at_now demo_attachment e = e"
  by (simp add: demo_attachment_def)

lemma demo_drop [simp]: "gw_drop (at_gateway demo_attachment) sb e = e"
  by (simp add: demo_attachment_def demo_gateway_def)

lemma demo_attach:
  "attach demo_attachment sid ''sandbox-1'' url None (cs, e) = (Inr 7, (AList.update sid 7 cs, e + 10))"
  by (simp add: attach_def bindE_def thenE_def on_env_def demo_wait ret_def push_credentials_def
      demo_attachment_def demo_rpc_def gets_def cache_client_def on_files_def modify_def
      demo_wait [unfolded demo_attachment_def demo_rpc_def] )

lemma demo_ensure:
  "ensure_running (demo_deps h) ''s1'' (ret ''https://github.com/o/r'') demo_start = (Inr (Some 7), demo_live)"
  by (simp add: lifecycle_defs demo_defs comp_defs empty_state_def demo_attach)

lemma demo_reachable: "reachable (demo_deps h) demo_start demo_live"
  using reachable.call [OF reachable.start, of "demo_deps h" demo_start
    "Ensure ''s1'' (ret ''https://github.com/o/r'')"] demo_ensure [of h]
  by simp

definition demo_parked :: session_record where
  "demo_parked = demo_record (Some 10) (Hibernated ''sandbox-1'' demo_ref (Some 1010))"

definition demo_saved_record :: session_record where
  "demo_saved_record = demo_record (Some 10) (Checkpointed (sc_checkpoint demo_saved) (Some 1010))"

lemmas suspend_defs = hibernate_session_def react_fuel_def dispatch_def quietly_def
  suspend_running_def hibernate_sandbox_def checkpoint_sandbox_def runner_for_checkpoint_def
  run_hooks_def backend_for_def find_backend_def client_for_def

lemmas destroy_defs = destroy_sandbox_def detach_def evict_def drop_runner_def on_files_def

lemma demo_hibernate:
  "hibernate_session (demo_deps True) ''s1'' (\<lambda>_. True) demo_live =
     (Inr True, demo_live\<lparr>w_store := \<lparr>mem = demo_state demo_parked, disk = Some (demo_state demo_parked), chain = None\<rparr>,
        w_clients := [], w_log := w_log demo_live @
          [Written \<lparr>im_state = Some (demo_state demo_parked), im_files = \<lparr>bundle_files = [], artifact_files = []\<rparr>\<rparr>]\<rparr>)"
  by (simp add: lifecycle_defs suspend_defs destroy_defs demo_defs comp_defs demo_parked_def
      demo_attachment_def demo_gateway_def)

lemma demo_attachment_checkpoint:
  "attachment_checkpoint demo_attachment ''s1'' sb ''https://github.com/o/r'' ([(''s1'', 7)], e) =
     (Inr demo_saved, ([(''s1'', 7)], e))"
  by (simp add: attachment_checkpoint_def connect_def comp_defs client_for_def on_env_def
      has_repository_def demo_save demo_attachment_def)

definition demo_checkpoint_files :: checkpoint_files where
  "demo_checkpoint_files = \<lparr>bundle_files = [(''s1'', [])], artifact_files = []\<rparr>"

definition demo_checkpointed :: "int world" where
  "demo_checkpointed = demo_live\<lparr>
     w_store := \<lparr>mem = demo_state demo_saved_record, disk = Some (demo_state demo_saved_record), chain = None\<rparr>,
     w_files := demo_checkpoint_files, w_clients := [],
     w_log := w_log demo_live @
       [Written \<lparr>im_state = Some (demo_state demo_running), im_files = demo_checkpoint_files\<rparr>,
        Written \<lparr>im_state = Some (demo_state demo_saved_record), im_files = demo_checkpoint_files\<rparr>,
        DestroyCalled demo_ref \<lparr>im_state = Some (demo_state demo_saved_record), im_files = demo_checkpoint_files\<rparr>]\<rparr>"

lemma demo_checkpoint:
  "hibernate_session (demo_deps False) ''s1'' (\<lambda>_. True) demo_live = (Inr True, demo_checkpointed)"
  by (simp add: lifecycle_defs suspend_defs destroy_defs demo_defs comp_defs demo_saved_record_def
      demo_attachment_checkpoint demo_checkpointed_def ckpt_save_def on_env_def put_bundle_def
      drop_artifacts_def demo_checkpoint_files_def demo_gateway_def demo_saved_def warn_def
     )

lemma demo_checkpointed_reachable: "reachable (demo_deps False) demo_start demo_checkpointed"
  using reachable.call [OF demo_reachable [of False], of "Hibernate ''s1'' (\<lambda>_. True)"] demo_checkpoint
  by simp

lemma demo_live_record [simp]:
  "record_of ''s1'' demo_live = Some demo_running" "record_state demo_running = Running ''sandbox-1'' demo_ref"
  by (simp_all add: record_of_def get_record_def demo_live_def demo_state_def demo_running_def demo_record_def)

lemma demo_found [simp]: "find_backend (ld_registry (demo_deps h)) demo_running = Some (demo_backend h)"
  by (simp add: find_backend_def demo_defs)

section \<open>Witnesses\<close>

theorem checkpoint_never_lost_witness:
  "file_ok (demo_state demo_saved_record) demo_checkpoint_files"
  using checkpoint_never_lost [OF demo_checkpointed_reachable]
  by (simp add: demo_checkpointed_def)

theorem ensure_running_serves_witness:
  "\<exists>r. record_of ''s1'' demo_live = Some r \<and> is_running (record_state r)"
  using ensure_running_serves [OF reachable.start demo_ensure [of True]] by blast

theorem events_stay_in_their_session_witness:
  "record_of ''s2'' (perform (demo_deps True) (Release ''s1'' (\<lambda>_. True)) demo_live) = None"
proof -
  have "record_of ''s2'' (perform (demo_deps True) (Release ''s1'' (\<lambda>_. True)) demo_live) = record_of ''s2'' demo_live"
    by (rule events_stay_in_their_session [OF demo_reachable, where k = "''s2''" and sid = "''s1''"
        and g = "\<lambda>_. True" and repo = "ret ''''", THEN conjunct1]) simp_all
  then show ?thesis by (simp add: record_of_def get_record_def demo_live_def demo_state_def)
qed

theorem hibernate_destroys_only_saved_witness:
  "saved_in ''s1'' \<lparr>im_state = Some (demo_state demo_saved_record), im_files = demo_checkpoint_files\<rparr>"
  by (rule hibernate_destroys_only_saved [OF demo_reachable demo_checkpoint, where ref = demo_ref])
    (simp_all add: destroys_def List.map_filter_def demo_checkpointed_def demo_live_def)

theorem restore_never_loses_work_witness:
  "work_in demo_saved_record [] (image_of (snd (ensure_running (demo_deps False) ''s1'' (ret '''') demo_checkpointed)))"
  by (rule restore_never_loses_work [OF demo_checkpointed_reachable, where sid = "''s1''"
        and r = demo_saved_record and f = "demo_state demo_saved_record",
        OF _ _ _ _ _ _ prod.collapse [symmetric], THEN conjunct1])
    (simp_all add: demo_checkpointed_def demo_saved_record_def demo_record_def record_of_def get_record_def
      demo_state_def has_expired_def demo_live_def demo_deps_def demo_checkpoint_files_def)


theorem hibernate_without_effect_witness:
  "hibernate_session (demo_deps True) ''s1'' (\<lambda>_. False) demo_live = (Inr False, demo_live)"
  using hibernate_without_effect [of "\<lambda>_. False" demo_live] by simp


lemma release_keeps_orphan_witness:
  "\<exists>e. release ((demo_deps True)\<lparr>ld_registry := \<lparr>reg_profiles = [], reg_backends = []\<rparr>\<rparr>) ''s1''
     (\<lambda>_. True) demo_live = (Inr (), demo_live\<lparr>w_env := e\<rparr>)"
  by (rule release_keeps_orphan [of _ _ demo_running]) (simp_all add: find_backend_def)

theorem react_fuel_enough_witness:
  "react 5 (demo_deps True) ''s1'' ReleaseEvent demo_live = react react_fuel (demo_deps True) ''s1'' ReleaseEvent demo_live"
  by (rule react_fuel_enough [OF demo_reachable]) (simp add: react_fuel_def)

end
