(* ===== verification/Profile_Config.thy ===== *)
theory Profile_Config
  imports Sandbox_Types
begin

text \<open>
  \<open>sandbox/config.ts\<close> and \<open>sandbox/manager/runtime-settings.ts\<close>: how the settings of the
  sandbox manager are resolved. The strict resolver throws at the first bad piece, the degrading
  one drops the bad piece with a warning; the central property is that they agree. Settings
  arrive here as the values \<open>readSetting\<close> yields; the schema library that validated them, the
  YAML parser, the URL parser and the formatting of numbers are parameters (\<open>platform\<close>).
\<close>

record platform =
  pf_url_protocol :: "string \<Rightarrow> string option"
  pf_show_number :: "js_number \<Rightarrow> string"
  pf_runner_image :: string
  pf_home_state_dir :: string

section \<open>Settings as written\<close>

record docker_config =
  dc_image :: "string option"
  dc_binary :: "string option"
  dc_control_plane_url :: "string option"
  dc_idle_ms :: "js_number option"

record kas_config =
  kc_namespace :: "string option"
  kc_warm_pool :: "string option"
  kc_ready_timeout_ms :: "js_number option"
  kc_kubeconfig :: "string option"
  kc_idle_ms :: "js_number option"

record buildkite_config =
  bc_organization :: string
  bc_pipeline :: string
  bc_control_plane_url :: string
  bc_image :: "string option"
  bc_ready_timeout_ms :: "js_number option"
  bc_idle_ms :: "js_number option"
  bc_secret_key :: "string option"

datatype profile_config = DockerC docker_config | KasC kas_config | BuildkiteC buildkite_config

record runtime_config =
  rc_profiles :: "(string \<times> profile_config) list option"
  rc_default_profile :: "string option"
  rc_idle_ms :: "js_number option"
  rc_expires_after_ms :: "js_number option"
  rc_ready_timeout_ms :: "js_number option"

record resolved_runtime =
  rr_profiles :: "(string \<times> sandbox_profile) list"
  rr_default_profile :: "string option"
  rr_idle_ms :: js_number
  rr_expires_after_ms :: js_number
  rr_ready_timeout_ms :: "js_number option"

definition DEFAULT_BUILDKITE_READY_TIMEOUT_MS :: js_number where
  "DEFAULT_BUILDKITE_READY_TIMEOUT_MS = js_int (10 * 60000)"

definition DEFAULT_KAS_READY_TIMEOUT_MS :: js_number where
  "DEFAULT_KAS_READY_TIMEOUT_MS = js_int (3 * 60000)"

definition DEFAULT_IDLE_MS :: js_number where "DEFAULT_IDLE_MS = js_int (10 * 60000)"

definition DEFAULT_EXPIRES_AFTER_MS :: js_number where
  "DEFAULT_EXPIRES_AFTER_MS = js_int (7 * 24 * 60 * 60000)"

text \<open>\<open>x ?? y\<close>.\<close>

definition or_else :: "'a option \<Rightarrow> 'a \<Rightarrow> 'a" where
  "or_else x y = (case x of None \<Rightarrow> y | Some v \<Rightarrow> v)"

definition or_option :: "'a option \<Rightarrow> 'a option \<Rightarrow> 'a option" where
  "or_option x y = (case x of None \<Rightarrow> y | Some v \<Rightarrow> Some v)"

text \<open>\<open>Number.isFinite(x) && x > 0\<close>.\<close>

fun positive :: "js_number \<Rightarrow> bool" where
  "positive (Finite q) = (0 < q)"
| "positive _ = False"

section \<open>One profile\<close>

definition check_control_plane_url :: "platform \<Rightarrow> string \<Rightarrow> string \<Rightarrow> error + string" where
  "check_control_plane_url pf n url =
    (case pf_url_protocol pf url of
       None \<Rightarrow> Inl (Plain (''profile '' @ n @ '': controlPlaneUrl '' @ url @ '' is not a URL''))
     | Some proto \<Rightarrow>
        if proto \<noteq> ''ws:'' \<and> proto \<noteq> ''wss:''
        then Inl (Plain (''profile '' @ n @ '': controlPlaneUrl must be a ws:// or wss:// URL, ''
               @ ''such as wss://dsh.example.com/tunnel''))
        else Inr url)"

definition profile_idle_check :: "string \<Rightarrow> js_number option \<Rightarrow> error + js_number option" where
  "profile_idle_check n idle =
    (case idle of
       None \<Rightarrow> Inr None
     | Some ms \<Rightarrow> if positive ms then Inr (Some ms)
                 else Inl (Plain (''profile '' @ n @ '': idleMs must be positive'')))"

fun config_idle_ms :: "profile_config \<Rightarrow> js_number option" where
  "config_idle_ms (DockerC c) = dc_idle_ms c"
| "config_idle_ms (KasC c) = kc_idle_ms c"
| "config_idle_ms (BuildkiteC c) = bc_idle_ms c"

definition resolve_profile ::
  "platform \<Rightarrow> string \<Rightarrow> profile_config \<Rightarrow> nat \<Rightarrow> js_number option \<Rightarrow> error + sandbox_profile" where
  "resolve_profile pf n p port default_ready =
    (case profile_idle_check n (config_idle_ms p) of
       Inl e \<Rightarrow> Inl e
     | Inr idle \<Rightarrow>
        (case p of
           DockerC c \<Rightarrow>
             (case check_control_plane_url pf n (or_else (dc_control_plane_url c)
                      (''ws://host.docker.internal:'' @ show_nat port @ ''/tunnel'')) of
                Inl e \<Rightarrow> Inl e
              | Inr url \<Rightarrow> Inr (DockerP \<lparr>dk_name = n, dk_image = or_else (dc_image c) (pf_runner_image pf),
                   dk_binary = dc_binary c, dk_control_plane_url = url, dk_idle_ms = idle\<rparr>))
         | BuildkiteC c \<Rightarrow>
             (case check_control_plane_url pf n (bc_control_plane_url c) of
                Inl e \<Rightarrow> Inl e
              | Inr url \<Rightarrow> Inr (BuildkiteP \<lparr>bk_name = n, bk_organization = bc_organization c,
                   bk_pipeline = bc_pipeline c, bk_image = or_else (bc_image c) (pf_runner_image pf),
                   bk_control_plane_url = url,
                   bk_ready_timeout_ms = or_else (bc_ready_timeout_ms c)
                     (or_else default_ready DEFAULT_BUILDKITE_READY_TIMEOUT_MS),
                   bk_idle_ms = idle, bk_secret_key = bc_secret_key c\<rparr>))
         | KasC c \<Rightarrow>
             Inr (KasP \<lparr>ks_name = n, ks_namespace = or_else (kc_namespace c) ''dsh-yawn'',
               ks_warm_pool = or_else (kc_warm_pool c) ''dsh-yawn-universal'',
               ks_ready_timeout_ms = or_else (kc_ready_timeout_ms c)
                 (or_else default_ready DEFAULT_KAS_READY_TIMEOUT_MS),
               ks_kubeconfig = kc_kubeconfig c, ks_idle_ms = idle\<rparr>)))"

section \<open>The deployment's settings beneath the page's\<close>

fun add_missing :: "(string \<times> 'v) list \<Rightarrow> (string \<times> 'v) list \<Rightarrow> (string \<times> 'v) list" where
  "add_missing acc [] = acc"
| "add_missing acc ((n, p) # ps) =
    add_missing (if map_of acc n = None then acc @ [(n, p)] else acc) ps"

record raw_runtime =
  raw_profiles :: "(string \<times> profile_config) list"
  raw_default_profile :: "string option"
  raw_idle_ms :: "js_number option"
  raw_expires_after_ms :: "js_number option"
  raw_ready_timeout_ms :: "js_number option"

definition with_deployment_base :: "runtime_config \<Rightarrow> runtime_config \<Rightarrow> raw_runtime" where
  "with_deployment_base config base =
    \<lparr>raw_profiles = add_missing (or_else (rc_profiles base) []) (or_else (rc_profiles config) []),
     raw_default_profile = or_option (rc_default_profile config) (rc_default_profile base),
     raw_idle_ms = or_option (rc_idle_ms config) (rc_idle_ms base),
     raw_expires_after_ms = or_option (rc_expires_after_ms config) (rc_expires_after_ms base),
     raw_ready_timeout_ms = or_option (rc_ready_timeout_ms config) (rc_ready_timeout_ms base)\<rparr>"

section \<open>The strict resolver\<close>

fun resolve_profiles ::
  "platform \<Rightarrow> nat \<Rightarrow> js_number option \<Rightarrow> (string \<times> sandbox_profile) list
   \<Rightarrow> (string \<times> profile_config) list \<Rightarrow> error + (string \<times> sandbox_profile) list" where
  "resolve_profiles pf port d acc [] = Inr acc"
| "resolve_profiles pf port d acc ((n, p) # ps) =
    (case resolve_profile pf n p port d of
       Inl e \<Rightarrow> Inl e
     | Inr q \<Rightarrow> resolve_profiles pf port d (AList.update n q acc) ps)"

definition first_name :: "(string \<times> 'v) list \<Rightarrow> string option" where
  "first_name ps = (case ps of [] \<Rightarrow> None | p # _ \<Rightarrow> Some (fst p))"

definition chosen_default :: "(string \<times> 'v) list \<Rightarrow> string option \<Rightarrow> string option" where
  "chosen_default ps asked = (if ps = [] then None else or_option asked (first_name ps))"

definition known_default :: "(string \<times> 'v) list \<Rightarrow> string option \<Rightarrow> bool" where
  "known_default ps d = (case d of None \<Rightarrow> True | Some n \<Rightarrow> map_of ps n \<noteq> None)"

definition resolve_runtime ::
  "platform \<Rightarrow> runtime_config \<Rightarrow> nat \<Rightarrow> runtime_config \<Rightarrow> error + resolved_runtime" where
  "resolve_runtime pf config port base =
    (let raw = with_deployment_base config base in
     if (case raw_ready_timeout_ms raw of None \<Rightarrow> False | Some ms \<Rightarrow> \<not> positive ms)
     then Inl (Plain ''readyTimeoutMs must be positive'')
     else case resolve_profiles pf port (raw_ready_timeout_ms raw) [] (raw_profiles raw) of
       Inl e \<Rightarrow> Inl e
     | Inr profiles \<Rightarrow>
        (let d = chosen_default profiles (raw_default_profile raw);
             idle = or_else (raw_idle_ms raw) DEFAULT_IDLE_MS;
             expires = or_else (raw_expires_after_ms raw) DEFAULT_EXPIRES_AFTER_MS
         in if \<not> known_default profiles d
            then Inl (Plain (''defaultProfile '' @ or_else d '''' @ '' is not a configured profile''))
            else if \<not> positive idle then Inl (Plain ''idleMs must be positive'')
            else if \<not> positive expires then Inl (Plain ''expiresAfterMs must be positive'')
            else Inr \<lparr>rr_profiles = profiles, rr_default_profile = d, rr_idle_ms = idle,
              rr_expires_after_ms = expires, rr_ready_timeout_ms = raw_ready_timeout_ms raw\<rparr>))"

section \<open>The degrading resolver\<close>

fun degrade_profiles ::
  "platform \<Rightarrow> nat \<Rightarrow> js_number option \<Rightarrow> (string \<times> sandbox_profile) list
   \<Rightarrow> (string \<times> profile_config) list \<Rightarrow> (string \<times> sandbox_profile) list \<times> string list" where
  "degrade_profiles pf port d acc [] = (acc, [])"
| "degrade_profiles pf port d acc ((n, p) # ps) =
    (case resolve_profile pf n p port d of
       Inl e \<Rightarrow> (case degrade_profiles pf port d acc ps of (acc', ws) \<Rightarrow>
         (acc', (''ignoring sandbox profile '' @ n @ '', which the host cannot apply: ''
            @ error_message e) # ws))
     | Inr q \<Rightarrow> degrade_profiles pf port d (AList.update n q acc) ps)"

definition boot_timer :: "platform \<Rightarrow> js_number option \<Rightarrow> string \<Rightarrow> js_number \<Rightarrow> js_number \<times> string list" where
  "boot_timer pf v key fallback =
    (case v of
       None \<Rightarrow> (fallback, [])
     | Some ms \<Rightarrow>
        if positive ms then (ms, [])
        else (fallback, [key @ '' '' @ pf_show_number pf ms @ '' must be positive; using ''
                @ pf_show_number pf fallback]))"

definition degrade_ready :: "platform \<Rightarrow> js_number option \<Rightarrow> js_number option \<times> string list" where
  "degrade_ready pf v =
    (case v of
       None \<Rightarrow> (None, [])
     | Some ms \<Rightarrow>
        if positive ms then (Some ms, [])
        else (None, [''readyTimeoutMs '' @ pf_show_number pf ms
                @ '' must be positive; using each backend's default'']))"

definition degrade_default :: "(string \<times> 'v) list \<Rightarrow> string option \<Rightarrow> string option \<times> string list" where
  "degrade_default ps asked =
    (let d = chosen_default ps asked in
     if known_default ps d then (d, [])
     else (first_name ps, [''defaultProfile '' @ or_else asked ''undefined''
             @ '' names no configured profile; using '' @ or_else (first_name ps) ''undefined'']))"

definition resolve_degrading_runtime ::
  "platform \<Rightarrow> runtime_config \<Rightarrow> nat \<Rightarrow> runtime_config \<Rightarrow> resolved_runtime \<times> string list" where
  "resolve_degrading_runtime pf config port base =
    (let raw = with_deployment_base config base;
         (ready, w1) = degrade_ready pf (raw_ready_timeout_ms raw);
         (profiles, w2) = degrade_profiles pf port ready [] (raw_profiles raw);
         (d, w3) = degrade_default profiles (raw_default_profile raw);
         (idle, w4) = boot_timer pf (raw_idle_ms raw) ''idleMs'' DEFAULT_IDLE_MS;
         (expires, w5) = boot_timer pf (raw_expires_after_ms raw) ''expiresAfterMs'' DEFAULT_EXPIRES_AFTER_MS
     in (\<lparr>rr_profiles = profiles, rr_default_profile = d, rr_idle_ms = idle,
          rr_expires_after_ms = expires, rr_ready_timeout_ms = ready\<rparr>, w1 @ w2 @ w3 @ w4 @ w5))"

section \<open>The whole configuration\<close>

record config =
  cf_runtime :: runtime_config
  cf_state_dir :: "string option"
  cf_repository :: "string option"
  cf_revision :: "string option"
  cf_workspace :: "string option"
  cf_tunnel_port :: "nat option"
  cf_tunnel_bind :: "string option"
  cf_preview_domain :: "string option"
  cf_preview_port :: "nat option"
  cf_preview_bind :: "string option"

record resolved_config =
  cr_runtime :: resolved_runtime
  cr_state_dir :: string
  cr_repository :: "string option"
  cr_revision :: string
  cr_workspace :: string
  cr_tunnel_port :: nat
  cr_tunnel_bind :: string
  cr_preview_domain :: "string option"
  cr_preview_port :: nat
  cr_preview_bind :: string

definition domain_char :: "char \<Rightarrow> bool" where
  "domain_char c = (is_lower c \<or> is_digit c \<or> c = CHR ''.'' \<or> c = CHR ''-'')"

definition check_preview_domain :: "string option \<Rightarrow> error + string option" where
  "check_preview_domain domain =
    (case domain of
       None \<Rightarrow> Inr None
     | Some given \<Rightarrow>
        if trim given = '''' then Inr None
        else let lowered = to_lower (trim given) in
          if \<not> (lowered \<noteq> '''' \<and> list_all domain_char lowered) \<or> contains ''..'' lowered
          then Inl (Plain (''preview domain '' @ given @ '' must be a bare host, such as sandbox.example.com''))
          else Inr (Some lowered))"

definition assemble_config :: "platform \<Rightarrow> config \<Rightarrow> resolved_runtime \<Rightarrow> error + resolved_config" where
  "assemble_config pf c runtime =
    (case check_preview_domain (cf_preview_domain c) of
       Inl e \<Rightarrow> Inl e
     | Inr domain \<Rightarrow>
        (let workspace = or_else (cf_workspace c) ''/workspace/repository'' in
         if \<not> starts_with ''/'' workspace then Inl (Plain ''workspace must be an absolute Linux path'')
         else Inr \<lparr>cr_runtime = runtime, cr_state_dir = or_else (cf_state_dir c) (pf_home_state_dir pf),
           cr_repository = cf_repository c, cr_revision = or_else (cf_revision c) '''',
           cr_workspace = workspace, cr_tunnel_port = or_else (cf_tunnel_port c) 8081,
           cr_tunnel_bind = or_else (cf_tunnel_bind c) ''0.0.0.0'', cr_preview_domain = domain,
           cr_preview_port = or_else (cf_preview_port c) 8082,
           cr_preview_bind = or_else (cf_preview_bind c) ''0.0.0.0''\<rparr>))"

definition resolve_config :: "platform \<Rightarrow> config \<Rightarrow> runtime_config \<Rightarrow> error + resolved_config" where
  "resolve_config pf c base =
    (case resolve_runtime pf (cf_runtime c) (or_else (cf_tunnel_port c) 8081) base of
       Inl e \<Rightarrow> Inl e
     | Inr runtime \<Rightarrow> assemble_config pf c runtime)"

definition resolve_boot_config ::
  "platform \<Rightarrow> config \<Rightarrow> runtime_config \<Rightarrow> error + resolved_config \<times> string list" where
  "resolve_boot_config pf c base =
    (case resolve_degrading_runtime pf (cf_runtime c) (or_else (cf_tunnel_port c) 8081) base of
       (runtime, warnings) \<Rightarrow> map_sum id (\<lambda>r. (r, warnings)) (assemble_config pf c runtime))"

section \<open>Settings read while the host runs\<close>

text \<open>\<open>RuntimeSettings\<close>: the last good slice and the warnings already reported. \<open>read_current\<close> is
  one access; it returns the slice in force and the warnings it reports, if any. \<open>source\<close> is the
  row's current configuration, or the error reading it threw.\<close>

record runtime_settings =
  last_good :: resolved_runtime
  warned_signature :: string

abbreviation line_break :: string where "line_break \<equiv> [CHR 0x0A]"

definition new_runtime_settings :: "resolved_runtime \<Rightarrow> string list \<Rightarrow> runtime_settings" where
  "new_runtime_settings initial warnings =
    \<lparr>last_good = initial, warned_signature = join_with line_break warnings\<rparr>"

definition read_current ::
  "platform \<Rightarrow> nat \<Rightarrow> runtime_config \<Rightarrow> error + runtime_config \<Rightarrow> runtime_settings
   \<Rightarrow> (resolved_runtime \<times> string list option) \<times> runtime_settings" where
  "read_current pf port deployment source st =
    (case source of
       Inr config \<Rightarrow>
        (case resolve_degrading_runtime pf config port deployment of
           (runtime, warnings) \<Rightarrow>
             (let signature = join_with line_break warnings in
              if warnings = []
              then ((runtime, None), \<lparr>last_good = runtime, warned_signature = ''''\<rparr>)
              else if signature \<noteq> warned_signature st
              then ((runtime, Some warnings), \<lparr>last_good = runtime, warned_signature = signature\<rparr>)
              else ((runtime, None), st\<lparr>last_good := runtime\<rparr>)))
     | Inl e \<Rightarrow>
        (let message = ''keeping the previous sandbox settings: '' @ error_message e in
         if warned_signature st \<noteq> message
         then ((last_good st, Some [message]), st\<lparr>warned_signature := message\<rparr>)
         else ((last_good st, None), st)))"

section \<open>Facts\<close>

lemma map_of_add_missing:
  "map_of (add_missing acc ps) n = (case map_of acc n of Some p \<Rightarrow> Some p | None \<Rightarrow> map_of ps n)"
proof (induction acc ps rule: add_missing.induct)
  case (2 acc m p ps)
  then show ?case
    by (cases "map_of acc m") (auto simp: map_add_def split: option.splits)
qed (simp split: option.split)

lemma degrade_profiles_strict:
  "resolve_profiles pf port d acc ps = Inr acc' \<longleftrightarrow> degrade_profiles pf port d acc ps = (acc', [])"
  by (induction ps arbitrary: acc) (auto split: sum.splits prod.splits)

lemma degrade_profiles_from:
  "degrade_profiles pf port d acc ps = (acc', ws) \<Longrightarrow> (n, q) \<in> set acc' \<Longrightarrow>
     (n, q) \<in> set acc \<or> (\<exists>p. (n, p) \<in> set ps \<and> resolve_profile pf n p port d = Inr q)"
proof (induction ps arbitrary: acc ws)
  case (Cons x ps)
  obtain m p where x: "x = (m, p)" by (rule prod.exhaust)
  show ?case
  proof (cases "resolve_profile pf m p port d")
    case (Inl e)
    with Cons x show ?thesis by (auto split: prod.splits)
  next
    case (Inr r)
    with Cons.prems(1) x have "degrade_profiles pf port d (AList.update m r acc) ps = (acc', ws)" by simp
    from Cons.IH [OF this Cons.prems(2)] show ?thesis
      using Inr x by (auto dest: set_updateD)
  qed
qed simp

lemma positive_defaults [simp]: "positive DEFAULT_IDLE_MS" "positive DEFAULT_EXPIRES_AFTER_MS"
  by (simp_all add: DEFAULT_IDLE_MS_def DEFAULT_EXPIRES_AFTER_MS_def js_int_def)

lemma boot_timer_strict:
  "positive fallback \<Longrightarrow>
     boot_timer pf v key fallback = (ms, []) \<longleftrightarrow> ms = or_else v fallback \<and> positive ms"
  by (auto simp: boot_timer_def or_else_def split: option.splits)

lemma degrade_ready_strict:
  "degrade_ready pf v = (r, []) \<longleftrightarrow> r = v \<and> \<not> (case v of None \<Rightarrow> False | Some ms \<Rightarrow> \<not> positive ms)"
  by (auto simp: degrade_ready_def split: option.splits)

lemma degrade_default_strict:
  "degrade_default ps asked = (d, []) \<longleftrightarrow> d = chosen_default ps asked \<and> known_default ps d"
  by (auto simp: degrade_default_def Let_def)

lemma known_first: "known_default ps (first_name ps)"
  by (cases ps) (auto simp: known_default_def first_name_def)

lemma degrade_default_known: "known_default ps (fst (degrade_default ps asked))"
  by (simp add: degrade_default_def Let_def known_first)

lemma degrade_default_None: "fst (degrade_default ps asked) = None \<longleftrightarrow> ps = []"
  by (auto simp: degrade_default_def Let_def chosen_default_def or_option_def first_name_def known_default_def
      split: option.splits list.splits)

lemma boot_timer_positive: "positive fallback \<Longrightarrow> positive (fst (boot_timer pf v key fallback))"
  by (auto simp: boot_timer_def split: option.split)

lemma degrading_strict:
  "resolve_degrading_runtime pf config port base = (r, []) \<longleftrightarrow>
    (let raw = with_deployment_base config base in
      \<not> (case raw_ready_timeout_ms raw of None \<Rightarrow> False | Some ms \<Rightarrow> \<not> positive ms)
      \<and> (\<exists>ps. degrade_profiles pf port (raw_ready_timeout_ms raw) [] (raw_profiles raw) = (ps, [])
        \<and> known_default ps (chosen_default ps (raw_default_profile raw))
        \<and> positive (or_else (raw_idle_ms raw) DEFAULT_IDLE_MS)
        \<and> positive (or_else (raw_expires_after_ms raw) DEFAULT_EXPIRES_AFTER_MS)
        \<and> r = \<lparr>rr_profiles = ps, rr_default_profile = chosen_default ps (raw_default_profile raw),
             rr_idle_ms = or_else (raw_idle_ms raw) DEFAULT_IDLE_MS,
             rr_expires_after_ms = or_else (raw_expires_after_ms raw) DEFAULT_EXPIRES_AFTER_MS,
             rr_ready_timeout_ms = raw_ready_timeout_ms raw\<rparr>))"
proof -
  let ?raw = "with_deployment_base config base"
  note eqs = boot_timer_strict [OF positive_defaults(1)] boot_timer_strict [OF positive_defaults(2)]
    degrade_ready_strict degrade_default_strict
  obtain a w1 where a: "degrade_ready pf (raw_ready_timeout_ms ?raw) = (a, w1)" by (rule prod.exhaust)
  obtain ps w2 where b: "degrade_profiles pf port a [] (raw_profiles ?raw) = (ps, w2)" by (rule prod.exhaust)
  obtain c w3 where c: "degrade_default ps (raw_default_profile ?raw) = (c, w3)" by (rule prod.exhaust)
  obtain e w4 where e: "boot_timer pf (raw_idle_ms ?raw) ''idleMs'' DEFAULT_IDLE_MS = (e, w4)"
    by (rule prod.exhaust)
  obtain f w5 where f: "boot_timer pf (raw_expires_after_ms ?raw) ''expiresAfterMs''
      DEFAULT_EXPIRES_AFTER_MS = (f, w5)"
    by (rule prod.exhaust)
  show ?thesis (is "_ = ?strict")
  proof
    assume "resolve_degrading_runtime pf config port base = (r, [])"
    with a b c e f show ?strict
      by (auto simp: resolve_degrading_runtime_def Let_def eqs)
  next
    assume s: ?strict
    then have "degrade_ready pf (raw_ready_timeout_ms ?raw) = (raw_ready_timeout_ms ?raw, [])"
      by (simp add: degrade_ready_strict Let_def)
    with s show "resolve_degrading_runtime pf config port base = (r, [])"
      by (auto simp: resolve_degrading_runtime_def Let_def
          eqs [THEN iffD2, OF conjI [OF refl]])
  qed
qed

section \<open>Properties\<close>

text \<open>The two resolvers agree: the strict one accepts a configuration exactly when the degrading
  one has nothing to warn about, and then both resolve it to the same settings.\<close>

lemma resolvers_agree:
  "resolve_runtime pf config port base = Inr r \<longleftrightarrow>
     resolve_degrading_runtime pf config port base = (r, [])"
  unfolding degrading_strict degrade_profiles_strict [symmetric]
  by (auto simp: resolve_runtime_def Let_def split: sum.splits if_splits)

text \<open>Whatever is written in the settings, the degrading resolver yields settings the host can
  run on: the default names a resolved profile and is set when there is one, the timers are
  positive and finite, and every profile is the resolution of one that was written.\<close>

lemma degraded_runtime_usable:
  assumes "resolve_degrading_runtime pf config port base = (r, ws)"
  shows "known_default (rr_profiles r) (rr_default_profile r)
    \<and> (rr_profiles r = [] \<longleftrightarrow> rr_default_profile r = None)
    \<and> positive (rr_idle_ms r) \<and> positive (rr_expires_after_ms r)
    \<and> (\<forall>(n, q) \<in> set (rr_profiles r). \<exists>p. (n, p) \<in> set (raw_profiles (with_deployment_base config base))
         \<and> resolve_profile pf n p port (rr_ready_timeout_ms r) = Inr q)"
proof -
  let ?raw = "with_deployment_base config base"
  obtain a w1 where a: "degrade_ready pf (raw_ready_timeout_ms ?raw) = (a, w1)" by (rule prod.exhaust)
  obtain ps w2 where b: "degrade_profiles pf port a [] (raw_profiles ?raw) = (ps, w2)" by (rule prod.exhaust)
  obtain c w3 where c: "degrade_default ps (raw_default_profile ?raw) = (c, w3)" by (rule prod.exhaust)
  obtain e w4 where e: "boot_timer pf (raw_idle_ms ?raw) ''idleMs'' DEFAULT_IDLE_MS = (e, w4)"
    by (rule prod.exhaust)
  obtain f w5 where f: "boot_timer pf (raw_expires_after_ms ?raw) ''expiresAfterMs''
      DEFAULT_EXPIRES_AFTER_MS = (f, w5)"
    by (rule prod.exhaust)
  from a b c e f assms have "r = \<lparr>rr_profiles = ps, rr_default_profile = c, rr_idle_ms = e,
      rr_expires_after_ms = f, rr_ready_timeout_ms = a\<rparr>"
    by (simp add: resolve_degrading_runtime_def Let_def)
  moreover from c degrade_default_known [of ps] degrade_default_None [of ps]
  have "known_default ps c" "(c = None) = (ps = [])" by (metis fst_conv)+
  moreover from e f boot_timer_positive positive_defaults have "positive e" "positive f"
    by (metis fst_conv)+
  ultimately show ?thesis using degrade_profiles_from [OF b] by auto
qed

text \<open>The deployment owns its profile names: after merging, a name the deployment defines means
  the deployment's profile, and every other name the page's.\<close>

theorem deployment_profiles_win:
  "map_of (raw_profiles (with_deployment_base config base)) n =
     (case map_of (or_else (rc_profiles base) []) n of
        Some p \<Rightarrow> Some p
      | None \<Rightarrow> map_of (or_else (rc_profiles config) []) n)"
  by (simp add: with_deployment_base_def map_of_add_missing)

definition demo_platform :: platform where
  "demo_platform = \<lparr>pf_url_protocol = \<lambda>u. if starts_with ''ws://'' u then Some ''ws:'' else None,
     pf_show_number = \<lambda>x. ''n'', pf_runner_image = ''runner:1'', pf_home_state_dir = ''/home/u/.dsh-yawn''\<rparr>"

definition demo_docker_config :: "string option \<Rightarrow> profile_config" where
  "demo_docker_config url = DockerC \<lparr>dc_image = None, dc_binary = None, dc_control_plane_url = url,
     dc_idle_ms = None\<rparr>"

text \<open>A stale URL, a default that names nothing, and a timer that is not a number.\<close>

definition demo_broken :: runtime_config where
  "demo_broken = \<lparr>rc_profiles = Some [(''old'', demo_docker_config (Some ''tcp://h'')), (''good'', demo_docker_config None)],
     rc_default_profile = Some ''gone'', rc_idle_ms = Some NaN, rc_expires_after_ms = None,
     rc_ready_timeout_ms = None\<rparr>"

definition no_settings :: runtime_config where
  "no_settings = \<lparr>rc_profiles = None, rc_default_profile = None, rc_idle_ms = None,
     rc_expires_after_ms = None, rc_ready_timeout_ms = None\<rparr>"

definition demo_resolved :: resolved_runtime where
  "demo_resolved = fst (resolve_degrading_runtime demo_platform demo_broken 8081 no_settings)"

lemma demo_resolved_default: "rr_default_profile demo_resolved = Some ''good''"
  by (simp add: demo_resolved_def resolve_degrading_runtime_def demo_broken_def no_settings_def
      with_deployment_base_def or_else_def or_option_def degrade_ready_def demo_docker_config_def
      resolve_profile_def profile_idle_check_def check_control_plane_url_def demo_platform_def
      degrade_default_def chosen_default_def first_name_def known_default_def boot_timer_def)

lemma degraded_runtime_usable_witness:
  "known_default (rr_profiles demo_resolved) (Some ''good'') \<and> positive (rr_idle_ms demo_resolved)"
  using degraded_runtime_usable [of demo_platform demo_broken 8081 no_settings demo_resolved,
      unfolded demo_resolved_def, OF prod.collapse [symmetric], folded demo_resolved_def]
  by (simp add: demo_resolved_default)

text \<open>Settings are reported once: reading unchanged settings again gives the same slice, reports
  nothing and changes nothing, and a running host does not repeat the warnings of its boot.\<close>

lemma settings_warn_once:
  "case read_current pf port deployment source st of ((r, w), st') \<Rightarrow>
      read_current pf port deployment source st' = ((r, None), st')
    \<and> (case resolve_degrading_runtime pf config port deployment of (boot, warnings) \<Rightarrow>
         fst (read_current pf port deployment (Inr config) (new_runtime_settings boot warnings)) = (boot, None))"
  by (auto simp: read_current_def new_runtime_settings_def Let_def split: sum.splits prod.splits if_splits)

end
