(* ===== verification/Idle_Schedule.thy ===== *)
theory Idle_Schedule
  imports Profile_Config
begin

text \<open>
  \<open>sandbox/manager/idle.ts\<close>: the idle countdowns. The three maps of \<open>IdleSchedule\<close> are
  association lists; the methods are functions on them. What the event loop interleaves, calls
  of the methods, timers that fire, and the two resumptions of an \<open>async\<close> tick, are the steps of
  \<open>idle_step\<close>. A ghost history records what happened, and the two properties compare the maps
  with it: the guard that allows a suspend is exactly "no activity since the countdown was armed
  and no open turn", and a session that was scheduled is never forgotten.
\<close>

section \<open>The maps and the methods\<close>

text \<open>A timer: the activity its callback captured, its delay, and whether it has yet to fire. A timer
  that fired stays in the map until it is replaced, as in the code.\<close>

record idle_timer =
  t_expects :: nat
  t_delay :: js_number
  t_armed :: bool

record idle =
  timers :: "(string \<times> idle_timer) list"
  activity :: "(string \<times> nat) list"
  live_turns :: "(string \<times> int) list"

definition new_idle :: idle where
  "new_idle = \<lparr>timers = [], activity = [], live_turns = []\<rparr>"

definition cancel :: "string \<Rightarrow> idle \<Rightarrow> idle" where
  "cancel sid st = st\<lparr>timers := AList.delete sid (timers st)\<rparr>"

definition mark_active :: "string \<Rightarrow> idle \<Rightarrow> idle" where
  "mark_active sid st =
    (let st' = cancel sid st
     in st'\<lparr>activity := AList.update sid (or_else (map_of (activity st') sid) 0 + 1) (activity st')\<rparr>)"

text \<open>\<open>idle_ms\<close> is the hook \<open>idleMsFor\<close>.\<close>

definition schedule :: "(string \<Rightarrow> js_number) \<Rightarrow> string \<Rightarrow> idle \<Rightarrow> idle" where
  "schedule idle_ms sid st =
    (let st' = cancel sid st;
         timer = \<lparr>t_expects = or_else (map_of (activity st') sid) 0, t_delay = idle_ms sid, t_armed = True\<rparr>
     in st'\<lparr>timers := AList.update sid timer (timers st')\<rparr>)"

definition begin_turn :: "string \<Rightarrow> idle \<Rightarrow> idle" where
  "begin_turn sid st =
    st\<lparr>live_turns := AList.update sid (or_else (map_of (live_turns st) sid) 0 + 1) (live_turns st)\<rparr>"

definition end_turn :: "(string \<Rightarrow> js_number) \<Rightarrow> string \<Rightarrow> idle \<Rightarrow> idle" where
  "end_turn idle_ms sid st =
    (let remaining = or_else (map_of (live_turns st) sid) 0 - 1;
         st' = (if remaining \<le> 0 then st\<lparr>live_turns := AList.delete sid (live_turns st)\<rparr>
                else st\<lparr>live_turns := AList.update sid remaining (live_turns st)\<rparr>)
     in schedule idle_ms sid st')"

definition is_turn_live :: "string \<Rightarrow> idle \<Rightarrow> bool" where
  "is_turn_live sid st \<longleftrightarrow> or_else (map_of (live_turns st) sid) 0 > 0"

definition dispose :: "idle \<Rightarrow> idle" where
  "dispose st = st\<lparr>timers := []\<rparr>"

text \<open>The parts of one tick: the guard \<open>hibernate\<close> runs under the session's lock, what follows its
  answer, and what follows a failure (a warning, and another countdown when nothing happened since).\<close>

definition has_live :: "string \<Rightarrow> idle \<Rightarrow> bool" where
  "has_live sid st \<longleftrightarrow> map_of (live_turns st) sid \<noteq> None"

definition tick_guard :: "string \<Rightarrow> nat \<Rightarrow> idle \<Rightarrow> bool" where
  "tick_guard sid expected st \<longleftrightarrow>
    or_else (map_of (activity st) sid) 0 = expected \<and> \<not> has_live sid st"

definition tick_answered :: "(string \<Rightarrow> js_number) \<Rightarrow> string \<Rightarrow> bool \<Rightarrow> idle \<Rightarrow> idle" where
  "tick_answered idle_ms sid suspended st =
    (if \<not> suspended \<and> has_live sid st then schedule idle_ms sid st else st)"

definition tick_failed :: "(string \<Rightarrow> js_number) \<Rightarrow> string \<Rightarrow> nat \<Rightarrow> idle \<Rightarrow> idle" where
  "tick_failed idle_ms sid expected st =
    (if or_else (map_of (activity st) sid) 0 = expected then schedule idle_ms sid st else st)"

section \<open>Steps of the event loop\<close>

datatype tick_stage = Awaiting | Asked bool

text \<open>What the history records. \<open>Settled\<close> is a tick whose \<open>hibernate\<close> was allowed and answered
  while nothing had happened since its countdown was armed: the session is suspended, or has no
  sandbox to suspend.\<close>

datatype idle_note = Marked string | Scheduled string | Begun string | Ended string | Settled string
  | Disposed | Other

record idle_world =
  sched :: idle
  ticks :: "(string \<times> nat \<times> tick_stage) list"
  past :: "idle_note list"

definition fire :: "string \<Rightarrow> idle_timer \<Rightarrow> idle \<Rightarrow> idle" where
  "fire sid t st = st\<lparr>timers := AList.update sid (t\<lparr>t_armed := False\<rparr>) (timers st)\<rparr>"

definition act :: "idle_note \<Rightarrow> (idle \<Rightarrow> idle) \<Rightarrow> idle_world \<Rightarrow> idle_world" where
  "act n f w = w\<lparr>sched := f (sched w), past := n # past w\<rparr>"

text \<open>\<open>hibernate\<close> answers true only when its guard allowed it (the contract of \<open>IdleScheduleHooks\<close>).\<close>

inductive idle_step :: "(string \<Rightarrow> js_number) \<Rightarrow> idle_world \<Rightarrow> idle_world \<Rightarrow> bool"
  for idle_ms :: "string \<Rightarrow> js_number"
where
  mark: "idle_step idle_ms w (act (Marked sid) (mark_active sid) w)"
| sched: "idle_step idle_ms w (act (Scheduled sid) (schedule idle_ms sid) w)"
| beginT: "idle_step idle_ms w (act (Begun sid) (begin_turn sid) w)"
| endT: "idle_step idle_ms w (act (Ended sid) (end_turn idle_ms sid) w)"
| disp: "idle_step idle_ms w (act Disposed dispose w)"
| fires: "map_of (timers (sched w)) sid = Some t \<Longrightarrow> t_armed t \<Longrightarrow>
    idle_step idle_ms w ((act Other (fire sid t) w)\<lparr>ticks := (sid, t_expects t, Awaiting) # ticks w\<rparr>)"
| asks: "ticks w = xs @ (sid, expected, Awaiting) # ys \<Longrightarrow>
    idle_step idle_ms w ((act Other id w)\<lparr>ticks := xs @ (sid, expected, Asked (tick_guard sid expected (sched w))) # ys\<rparr>)"
| answers: "ticks w = xs @ (sid, expected, Asked allowed) # ys \<Longrightarrow> suspended \<longrightarrow> allowed \<Longrightarrow>
    idle_step idle_ms w
      ((act (if \<not> suspended \<and> has_live sid (sched w) then Scheduled sid
             else if allowed \<and> or_else (map_of (activity (sched w)) sid) 0 = expected then Settled sid
             else Other)
          (tick_answered idle_ms sid suspended) w)\<lparr>ticks := xs @ ys\<rparr>)"
| fails: "ticks w = xs @ (sid, expected, stage) # ys \<Longrightarrow>
    idle_step idle_ms w
      ((act (if or_else (map_of (activity (sched w)) sid) 0 = expected then Scheduled sid else Other)
          (tick_failed idle_ms sid expected) w)\<lparr>ticks := xs @ ys\<rparr>)"

definition idle_start :: idle_world where
  "idle_start = \<lparr>sched = new_idle, ticks = [], past = []\<rparr>"

inductive idle_reachable :: "(string \<Rightarrow> js_number) \<Rightarrow> idle_world \<Rightarrow> bool"
  for idle_ms :: "string \<Rightarrow> js_number"
where
  start: "idle_reachable idle_ms idle_start"
| step: "idle_reachable idle_ms w \<Longrightarrow> idle_step idle_ms w w' \<Longrightarrow> idle_reachable idle_ms w'"

section \<open>What the history says\<close>

text \<open>Newest note first. \<open>open_turns\<close> counts like the turn events do, never below zero.\<close>

fun marks :: "string \<Rightarrow> idle_note list \<Rightarrow> nat" where
  "marks sid [] = 0"
| "marks sid (n # ns) = (if n = Marked sid then 1 else 0) + marks sid ns"

fun open_turns :: "string \<Rightarrow> idle_note list \<Rightarrow> nat" where
  "open_turns sid [] = 0"
| "open_turns sid (n # ns) =
    (if n = Begun sid then open_turns sid ns + 1
     else if n = Ended sid then open_turns sid ns - 1
     else open_turns sid ns)"

text \<open>A countdown is due: one was asked for, and no activity, suspension or shutdown came since.\<close>

fun due :: "string \<Rightarrow> idle_note list \<Rightarrow> bool" where
  "due sid [] = False"
| "due sid (n # ns) =
    (if n = Scheduled sid \<or> n = Ended sid then True
     else if n = Marked sid \<or> n = Settled sid \<or> n = Disposed then False
     else due sid ns)"

section \<open>Invariants\<close>

definition idle_tracks :: "idle_world \<Rightarrow> bool" where
  "idle_tracks w \<longleftrightarrow> (\<forall>sid.
     or_else (map_of (activity (sched w)) sid) 0 = marks sid (past w)
   \<and> map_of (live_turns (sched w)) sid =
       (if open_turns sid (past w) = 0 then None else Some (int (open_turns sid (past w)))))"

definition carried :: "string \<Rightarrow> idle_world \<Rightarrow> bool" where
  "carried sid w \<longleftrightarrow>
     (\<exists>t. map_of (timers (sched w)) sid = Some t \<and> t_armed t
        \<and> t_expects t = or_else (map_of (activity (sched w)) sid) 0)
   \<or> (\<exists>stage. (sid, or_else (map_of (activity (sched w)) sid) 0, stage) \<in> set (ticks w)
        \<and> (stage = Asked False \<longrightarrow> has_live sid (sched w)))"

lemmas idle_defs = act_def cancel_def mark_active_def schedule_def begin_turn_def end_turn_def
  dispose_def tick_answered_def tick_failed_def fire_def Let_def

lemma act_simps [simp]:
  "sched (act n f w) = f (sched w)" "past (act n f w) = n # past w" "ticks (act n f w) = ticks w"
  by (simp_all add: act_def)

text \<open>What each method does to each map.\<close>

lemma method_activity [simp]:
  "activity (schedule h sid st) = activity st" "activity (begin_turn sid st) = activity st"
  "activity (end_turn h sid st) = activity st" "activity (dispose st) = activity st"
  "activity (tick_answered h sid b st) = activity st" "activity (tick_failed h sid e st) = activity st"
  "activity (fire sid t st) = activity st"
  by (simp_all add: idle_defs)

lemma method_live [simp]:
  "live_turns (schedule h sid st) = live_turns st" "live_turns (mark_active sid st) = live_turns st"
  "live_turns (dispose st) = live_turns st" "live_turns (fire sid t st) = live_turns st"
  "live_turns (tick_answered h sid b st) = live_turns st" "live_turns (tick_failed h sid e st) = live_turns st"
  by (simp_all add: idle_defs)

lemma mark_active_activity:
  "or_else (map_of (activity (mark_active sid st)) s) 0 =
     (if s = sid then 1 else 0) + or_else (map_of (activity st) s) 0"
  by (simp add: idle_defs update_conv' or_else_def)

lemma begin_turn_live:
  "map_of (live_turns (begin_turn sid st)) s =
     (if s = sid then Some (or_else (map_of (live_turns st) sid) 0 + 1) else map_of (live_turns st) s)"
  by (simp add: idle_defs update_conv')

lemma end_turn_live:
  "map_of (live_turns (end_turn h sid st)) s =
     (if s = sid then (if or_else (map_of (live_turns st) sid) 0 \<le> 1 then None
                       else Some (or_else (map_of (live_turns st) sid) 0 - 1))
      else map_of (live_turns st) s)"
  by (simp add: idle_defs update_conv')

lemma schedule_timer:
  "map_of (timers (schedule h sid st)) s =
     (if s = sid then Some \<lparr>t_expects = or_else (map_of (activity st) sid) 0, t_delay = h sid, t_armed = True\<rparr>
      else map_of (timers st) s)"
  by (simp add: idle_defs update_conv')

lemma end_turn_timer:
  "map_of (timers (end_turn h sid st)) s =
     (if s = sid then Some \<lparr>t_expects = or_else (map_of (activity st) sid) 0, t_delay = h sid, t_armed = True\<rparr>
      else map_of (timers st) s)"
  by (simp add: idle_defs update_conv')

lemma other_timer:
  "map_of (timers (mark_active sid st)) s = (if s = sid then None else map_of (timers st) s)"
  "map_of (timers (begin_turn sid st)) s = map_of (timers st) s"
  "map_of (timers (fire sid t st)) s = (if s = sid then Some (t\<lparr>t_armed := False\<rparr>) else map_of (timers st) s)"
  by (simp_all add: idle_defs update_conv')

lemma idle_tracks_step: "idle_step h w w' \<Longrightarrow> idle_tracks w \<Longrightarrow> idle_tracks w'"
proof (induction rule: idle_step.induct)
  case (mark w sid)
  then show ?case by (simp add: idle_tracks_def mark_active_activity)
next
  case (beginT w sid)
  then show ?case by (simp add: idle_tracks_def begin_turn_live or_else_def)
next
  case (endT w sid)
  then show ?case
    by (simp add: idle_tracks_def end_turn_live or_else_def)
qed (simp_all add: idle_tracks_def)

lemma idle_tracks_start: "idle_tracks idle_start"
  by (simp add: idle_tracks_def idle_start_def new_idle_def or_else_def)

lemma idle_reachable_tracks: "idle_reachable h w \<Longrightarrow> idle_tracks w"
  by (induction rule: idle_reachable.induct) (auto intro: idle_tracks_step idle_tracks_start)

text \<open>What carries a countdown, by case.\<close>

lemma carried_timer:
  "map_of (timers (sched w)) sid = Some t \<Longrightarrow> t_armed t
     \<Longrightarrow> t_expects t = or_else (map_of (activity (sched w)) sid) 0 \<Longrightarrow> carried sid w"
  by (auto simp: carried_def)

lemma carried_tick:
  "(sid, or_else (map_of (activity (sched w)) sid) 0, stage) \<in> set (ticks w)
     \<Longrightarrow> (stage = Asked False \<longrightarrow> has_live sid (sched w)) \<Longrightarrow> carried sid w"
  by (auto simp: carried_def)

lemma carried_frame:
  assumes "carried sid w"
    and "map_of (timers (sched w')) sid = map_of (timers (sched w)) sid"
    and "map_of (activity (sched w')) sid = map_of (activity (sched w)) sid"
    and "has_live sid (sched w) \<Longrightarrow> has_live sid (sched w')"
    and "\<And>stage. (sid, or_else (map_of (activity (sched w)) sid) 0, stage) \<in> set (ticks w)
       \<Longrightarrow> stage = Asked False \<longrightarrow> has_live sid (sched w)
       \<Longrightarrow> (sid, or_else (map_of (activity (sched w)) sid) 0, stage) \<in> set (ticks w')"
  shows "carried sid w'"
  using assms(1)
proof (unfold carried_def [of sid w], elim disjE exE conjE)
  fix t assume "map_of (timers (sched w)) sid = Some t" "t_armed t"
    "t_expects t = or_else (map_of (activity (sched w)) sid) 0"
  then show ?thesis using assms(2,3) by (intro carried_timer) simp_all
next
  fix stage assume t: "(sid, or_else (map_of (activity (sched w)) sid) 0, stage) \<in> set (ticks w)"
    "stage = Asked False \<longrightarrow> has_live sid (sched w)"
  show ?thesis by (rule carried_tick [where stage = stage]) (use assms(3,4) assms(5) [OF t] t in auto)
qed

lemma carried_step:
  assumes "idle_step h w w'" and "\<And>sid. due sid (past w) \<Longrightarrow> carried sid w" and "due s (past w')"
  shows "carried s w'"
  using assms
proof (induction rule: idle_step.induct)
  case (mark w sid)
  then have "s \<noteq> sid" "carried s w" by (auto split: if_splits)
  then show ?case
    by (elim carried_frame) (simp_all add: other_timer has_live_def mark_active_def cancel_def Let_def update_conv')
next
  case (sched w sid)
  show ?case
  proof (cases "s = sid")
    case True
    then show ?thesis by (simp add: carried_def schedule_timer)
  next
    case False
    with sched show ?thesis
      by - (rule carried_frame [of s w], simp_all add: schedule_timer has_live_def)
  qed
next
  case (beginT w sid)
  then show ?case
    by - (rule carried_frame [of s w], simp_all add: other_timer has_live_def begin_turn_live)
next
  case (endT w sid)
  show ?case
  proof (cases "s = sid")
    case True
    then show ?thesis by (simp add: carried_def end_turn_timer)
  next
    case False
    with endT show ?thesis
      by - (rule carried_frame [of s w], simp_all add: end_turn_timer has_live_def end_turn_live)
  qed
next
  case (disp w)
  then show ?case by simp
next
  case (fires w sid t)
  then have c: "carried s w" by simp
  show ?case
  proof (cases "s = sid \<and> t_expects t = or_else (map_of (activity (sched w)) sid) 0")
    case True
    then show ?thesis by (intro carried_tick [where stage = Awaiting]) simp_all
  next
    case False
    with c fires(1) show ?thesis
      by (cases "s = sid") (auto simp: carried_def other_timer has_live_def fire_def)
  qed
next
  case (asks w xs sid expected ys)
  then have c: "carried s w" by simp
  show ?case
  proof (cases "s = sid \<and> expected = or_else (map_of (activity (sched w)) sid) 0")
    case True
    then show ?thesis
      by (intro carried_tick [where stage = "Asked (tick_guard sid expected (sched w))"])
        (simp_all add: tick_guard_def)
  next
    case False
    with c asks(1) show ?thesis by (auto simp: carried_def)
  qed
next
  case (answers w xs sid expected allowed ys suspended)
  show ?case
  proof (cases "\<not> suspended \<and> has_live sid (sched w)")
    case True
    show ?thesis
    proof (cases "s = sid")
      case True
      with \<open>\<not> suspended \<and> has_live sid (sched w)\<close> show ?thesis
        by (simp add: carried_def tick_answered_def schedule_timer)
    next
      case False
      with True answers show ?thesis
        by - (rule carried_frame [of s w], auto simp: tick_answered_def schedule_timer has_live_def)
    qed
  next
    case False
    with answers show ?thesis
      by - (rule carried_frame [of s w],
        auto simp: tick_answered_def has_live_def split: if_splits)
  qed
next
  case (fails w xs sid expected stage ys)
  show ?case
  proof (cases "s = sid \<and> or_else (map_of (activity (sched w)) sid) 0 = expected")
    case True
    then show ?thesis by (simp add: carried_def tick_failed_def schedule_timer)
  next
    case False
    with fails show ?thesis
      by - (rule carried_frame [of s w],
        auto simp: tick_failed_def schedule_timer has_live_def split: if_splits)
  qed
qed

lemma idle_reachable_carried: "idle_reachable h w \<Longrightarrow> due sid (past w) \<Longrightarrow> carried sid w"
proof (induction arbitrary: sid rule: idle_reachable.induct)
  case start
  then show ?case by (simp add: idle_start_def)
next
  case (step w w')
  show ?case by (rule carried_step [OF step.hyps(2) step.IH step.prems])
qed

section \<open>Properties\<close>

text \<open>The guard of a countdown allows a suspend exactly when no activity of the session was marked
  since the countdown was armed and none of its turns is open; the answer of \<open>isTurnLive\<close> is the
  history's.\<close>

lemma idle_guard_exact:
  assumes "idle_reachable idle_ms w"
  shows "(tick_guard sid expected (sched w) \<longleftrightarrow> marks sid (past w) = expected \<and> open_turns sid (past w) = 0)
    \<and> (is_turn_live sid (sched w) \<longleftrightarrow> open_turns sid (past w) > 0)"
  using idle_reachable_tracks [OF assms]
  by (auto simp: idle_tracks_def tick_guard_def has_live_def is_turn_live_def or_else_def split: if_splits)

text \<open>C21: A session whose countdown is due is never forgotten: at every moment a timer is armed for it
  at its present activity, or a tick for that activity is under way that will suspend it, or was
  refused because of a turn that is still open.\<close>

theorem idle_never_forgotten:
  assumes "idle_reachable idle_ms w" and "due sid (past w)"
  shows "(\<exists>t. map_of (timers (sched w)) sid = Some t \<and> t_armed t \<and> t_expects t = marks sid (past w))
    \<or> (\<exists>stage. (sid, marks sid (past w), stage) \<in> set (ticks w)
         \<and> (stage = Asked False \<longrightarrow> open_turns sid (past w) > 0))"
  using idle_reachable_carried [OF assms] idle_reachable_tracks [OF assms(1)]
  by (auto simp: idle_tracks_def carried_def has_live_def split: if_splits)

text \<open>A session that was active, then idle: its countdown fires while a turn is open.\<close>

definition demo_delay :: "string \<Rightarrow> js_number" where "demo_delay sid = DEFAULT_IDLE_MS"

definition demo_armed :: idle_world where
  "demo_armed = act (Begun ''s'') (begin_turn ''s'')
     (act (Scheduled ''s'') (schedule demo_delay ''s'') (act (Marked ''s'') (mark_active ''s'') idle_start))"

definition demo_fired :: idle_world where
  "demo_fired = (act Other (fire ''s'' \<lparr>t_expects = 1, t_delay = DEFAULT_IDLE_MS, t_armed = True\<rparr>) demo_armed)
     \<lparr>ticks := [(''s'', 1, Awaiting)]\<rparr>"

lemma demo_armed_reachable: "idle_reachable demo_delay demo_armed"
  unfolding demo_armed_def
  by (rule idle_reachable.step [OF idle_reachable.step [OF idle_reachable.step
      [OF idle_reachable.start idle_step.mark] idle_step.sched] idle_step.beginT])

lemma demo_fired_reachable: "idle_reachable demo_delay demo_fired"
proof (rule idle_reachable.step [OF demo_armed_reachable])
  have "map_of (timers (sched demo_armed)) ''s'' = Some \<lparr>t_expects = 1, t_delay = DEFAULT_IDLE_MS, t_armed = True\<rparr>"
    by (simp add: demo_armed_def idle_defs idle_start_def new_idle_def or_else_def demo_delay_def)
  from idle_step.fires [OF this] show "idle_step demo_delay demo_armed demo_fired"
    by (simp add: demo_fired_def demo_armed_def act_def idle_start_def)
qed

lemma idle_guard_exact_witness: "\<not> tick_guard ''s'' 1 (sched demo_fired) \<and> is_turn_live ''s'' (sched demo_fired)"
  using idle_guard_exact [OF demo_fired_reachable, of "''s''" 1]
  by (simp add: demo_fired_def demo_armed_def act_def idle_start_def)

theorem idle_never_forgotten_witness:
  "\<exists>stage. (''s'', 1, stage) \<in> set (ticks demo_fired)"
  using idle_never_forgotten [OF demo_fired_reachable, of "''s''"]
  by (simp add: demo_fired_def demo_armed_def idle_defs idle_start_def new_idle_def or_else_def)

end
