(* ===== verification/Root_Session.thy ===== *)
theory Root_Session
  imports Sandbox_Types
begin

text \<open>
  \<open>sandbox/manager/root-session.ts\<close>: which session's sandbox serves an agent. The agents the
  registry answers are an association list by session id; the loop follows \<open>parentSession\<close> links
  of marked subagent children, and the set of sessions it has seen makes it end on a cycle.
\<close>

record agent =
  agent_id :: string
  origin :: "string option"
  parent_session :: "string option"

text \<open>The test at the head of the loop, and the agent the next turn starts from.\<close>

definition next_agent :: "(string \<times> agent) list \<Rightarrow> string set \<Rightarrow> agent \<Rightarrow> agent option" where
  "next_agent agents seen current =
    (if origin current \<noteq> Some ''subagent'' then None
     else case parent_session current of
       None \<Rightarrow> None
     | Some p \<Rightarrow> if p \<in> seen then None else map_of agents p)"

lemma next_agent_Some:
  "next_agent agents seen current = Some parent \<longleftrightarrow>
     origin current = Some ''subagent'' \<and> (\<exists>p. parent_session current = Some p \<and> p \<notin> seen \<and> map_of agents p = Some parent)"
  by (auto simp: next_agent_def split: option.split)

text \<open>Every turn adds a registered session to \<open>seen\<close>, so the unseen registered ones decrease.\<close>

definition unseen :: "(string \<times> agent) list \<Rightarrow> string set \<Rightarrow> nat" where
  "unseen agents seen = length (filter (\<lambda>(k, _). k \<notin> seen) agents)"

lemma unseen_insert:
  assumes "map_of agents p = Some a" and "p \<notin> seen"
  shows "unseen agents (insert p seen) < unseen agents seen"
  using assms
proof (induction agents)
  case (Cons x xs)
  obtain k b where x: "x = (k, b)" by (cases x)
  have le: "unseen xs (insert p seen) \<le> unseen xs seen"
  proof (induction xs)
    case (Cons y ys)
    then show ?case by (cases y) (auto simp: unseen_def)
  qed (simp add: unseen_def)
  from Cons x le show ?case
    by (cases "k = p") (auto simp: unseen_def)
qed simp

function root_from :: "(string \<times> agent) list \<Rightarrow> string set \<Rightarrow> agent \<Rightarrow> string" where
  "root_from agents seen current =
    (case next_agent agents seen current of
       None \<Rightarrow> agent_id current
     | Some parent \<Rightarrow> root_from agents (insert (the (parent_session current)) seen) parent)"
  by pat_completeness auto
termination
  by (relation "measure (\<lambda>(agents, seen, _). unseen agents seen)")
    (auto simp: next_agent_Some unseen_insert)

declare root_from.simps [simp del]

definition root_session_id :: "agent \<Rightarrow> (string \<times> agent) list \<Rightarrow> string" where
  "root_session_id agent agents = root_from agents {agent_id agent} agent"

section \<open>Facts\<close>

text \<open>A registry answers each session id with that session's agent.\<close>

definition agents_ok :: "(string \<times> agent) list \<Rightarrow> bool" where
  "agents_ok agents \<longleftrightarrow> (\<forall>(k, a) \<in> set agents. agent_id a = k)"

lemma agents_okD: "agents_ok agents \<Longrightarrow> map_of agents p = Some a \<Longrightarrow> agent_id a = p"
  by (auto simp: agents_ok_def dest: map_of_SomeD)

text \<open>Ancestry by marked links: \<open>serves agents a b\<close>, one sandbox may serve \<open>b\<close> for \<open>a\<close>.\<close>

inductive serves :: "(string \<times> agent) list \<Rightarrow> agent \<Rightarrow> agent \<Rightarrow> bool" for agents where
  own: "serves agents a a"
| up: "serves agents a b \<Longrightarrow> origin b = Some ''subagent'' \<Longrightarrow> parent_session b = Some p
        \<Longrightarrow> map_of agents p = Some c \<Longrightarrow> serves agents a c"

lemma root_from_serves:
  assumes "serves agents a current"
  shows "\<exists>b. serves agents a b \<and> root_from agents seen current = agent_id b"
  using assms
proof (induction agents seen current rule: root_from.induct)
  case (1 agents seen current)
  show ?case
  proof (cases "next_agent agents seen current")
    case None
    with "1.prems" show ?thesis by (auto simp: root_from.simps [of agents seen current])
  next
    case (Some parent)
    with "1.prems" have "serves agents a parent" by (auto simp: next_agent_Some intro: serves.up)
    from "1.IH" [OF Some this] Some show ?thesis by (simp add: root_from.simps [of agents seen current])
  qed
qed

text \<open>Where no lineage is cyclic, what was seen on the way does not matter.\<close>

definition ranked :: "(string \<Rightarrow> nat) \<Rightarrow> (string \<times> agent) list \<Rightarrow> agent \<Rightarrow> bool" where
  "ranked rank agents a \<longleftrightarrow> (\<forall>p. parent_session a = Some p \<longrightarrow> rank p < rank (agent_id a))
     \<and> (\<forall>(k, b) \<in> set agents. \<forall>p. parent_session b = Some p \<longrightarrow> rank p < rank (agent_id b))"

lemma ranked_parent: "ranked rank agents a \<Longrightarrow> map_of agents p = Some b \<Longrightarrow> ranked rank agents b"
  by (fastforce simp: ranked_def dest: map_of_SomeD)

lemma root_from_seen:
  assumes "ranked rank agents current" and "agents_ok agents"
    and "\<forall>s \<in> seen1. rank (agent_id current) \<le> rank s" and "\<forall>s \<in> seen2. rank (agent_id current) \<le> rank s"
  shows "root_from agents seen1 current = root_from agents seen2 current"
  using assms
proof (induction agents seen1 current arbitrary: seen2 rule: root_from.induct)
  case (1 agents seen1 current)
  have unseen: "p \<notin> s" if "parent_session current = Some p" "\<forall>q \<in> s. rank (agent_id current) \<le> rank q" for p s
    using that "1.prems"(1) by (fastforce simp: ranked_def)
  have eq: "next_agent agents seen2 current = next_agent agents seen1 current"
    using unseen "1.prems"(3,4) by (auto simp: next_agent_def split: option.split)
  show ?case
  proof (cases "next_agent agents seen1 current")
    case None
    with eq show ?thesis by (simp add: root_from.simps [of agents _ current])
  next
    case (Some parent)
    then obtain p where p: "parent_session current = Some p" "map_of agents p = Some parent"
      by (auto simp: next_agent_Some)
    from p "1.prems"(1,2) have below: "agent_id parent = p" "rank p < rank (agent_id current)"
      by (auto simp: ranked_def agents_okD)
    have "root_from agents (insert (the (parent_session current)) seen1) parent
        = root_from agents (insert (the (parent_session current)) seen2) parent"
      by (rule "1.IH" [OF Some ranked_parent [OF "1.prems"(1) p(2)] "1.prems"(2)])
        (use p below "1.prems"(3,4) in \<open>auto intro: less_imp_le le_trans\<close>)
    with eq Some show ?thesis by (simp add: root_from.simps [of agents _ current])
  qed
qed

section \<open>Properties\<close>

text \<open>Sandbox identity only follows marked links: the session found is the agent itself or reached
  from it by \<open>parentSession\<close> links of registered subagent children, and a fork, which carries no
  mark, serves itself whatever its lineage says.\<close>

lemma root_session_by_marked_links:
  "(\<exists>b. serves agents agent b \<and> root_session_id agent agents = agent_id b)
   \<and> (origin agent = Some ''subagent'' \<or> root_session_id agent agents = agent_id agent)"
proof
  show "\<exists>b. serves agents agent b \<and> root_session_id agent agents = agent_id b"
    unfolding root_session_id_def by (rule root_from_serves [OF serves.own])
  show "origin agent = Some ''subagent'' \<or> root_session_id agent agents = agent_id agent"
    by (simp add: root_session_id_def next_agent_def root_from.simps [of agents _ agent])
qed

text \<open>A subagent shares the sandbox of its parent: when its parent is registered and lineages are
  not cyclic, the two resolve to the same session.\<close>

lemma subagent_shares_parent:
  assumes "ranked rank agents child" and "agents_ok agents"
    and "origin child = Some ''subagent''" and "parent_session child = Some p" and "map_of agents p = Some parent"
  shows "root_session_id child agents = root_session_id parent agents"
proof -
  from assms have p: "agent_id parent = p" "rank p < rank (agent_id child)"
    by (auto simp: agents_okD ranked_def)
  then have "next_agent agents {agent_id child} child = Some parent"
    using assms(3-5) by (auto simp: next_agent_Some)
  then have "root_session_id child agents = root_from agents {p, agent_id child} parent"
    using assms(4) by (simp add: root_session_id_def root_from.simps [of agents _ child])
  also have "\<dots> = root_from agents {p} parent"
    by (rule root_from_seen [where rank = rank])
      (use assms p ranked_parent in \<open>auto simp: less_imp_le\<close>)
  finally show ?thesis using p by (simp add: root_session_id_def)
qed

definition demo_agents :: "(string \<times> agent) list" where
  "demo_agents =
    [(''root'', \<lparr>agent_id = ''root'', origin = None, parent_session = None\<rparr>),
     (''child'', \<lparr>agent_id = ''child'', origin = Some ''subagent'', parent_session = Some ''root''\<rparr>),
     (''fork'', \<lparr>agent_id = ''fork'', origin = None, parent_session = Some ''root''\<rparr>)]"

definition demo_grandchild :: agent where
  "demo_grandchild = \<lparr>agent_id = ''grandchild'', origin = Some ''subagent'', parent_session = Some ''child''\<rparr>"

definition demo_rank :: "string \<Rightarrow> nat" where
  "demo_rank s = (if s = ''root'' then 0 else if s = ''child'' then 1 else 2)"

lemma subagent_shares_parent_witness:
  "root_session_id demo_grandchild demo_agents = root_session_id (the (map_of demo_agents ''child'')) demo_agents"
  by (rule subagent_shares_parent [where rank = demo_rank and p = "''child''"])
    (simp_all add: demo_agents_def demo_grandchild_def ranked_def agents_ok_def demo_rank_def)

end
