(* ===== verification/Mcp_Store.thy ===== *)
theory Mcp_Store
  imports Js_Values Durable_File "HOL-Library.List_Lexorder" "HOL-Library.Char_ord"
begin

text \<open>
  \<open>mcp/mcp-store.ts\<close>: the durable MCP server configuration and its secrets. The file's content is
  modelled as JSON, written by \<open>render_file\<close> and read by \<open>parse_mcp_file\<close>; the text layer of
  JSON, the URL parser (\<open>protocol\<close>, \<open>None\<close> where \<open>new URL\<close> throws) and the clock are parameters.
\<close>

section \<open>Data\<close>

record mcp_server_entry =
  me_server_name :: string
  me_url :: string
  me_auth :: string
  me_token :: "string option"
  me_enabled :: bool
  me_off_by_default :: bool

text \<open>The client identity and the tokens are kept as the JSON objects they came as.\<close>

record oauth_credential =
  oc_redirect_uri :: string
  oc_client :: json
  oc_tokens :: json
  oc_expires_at :: "js_number option"

record stored_server =
  ss_server_name :: string
  ss_url :: string
  ss_auth :: string
  ss_token :: "string option"
  ss_oauth :: "oauth_credential option"
  ss_enabled :: bool
  ss_off_by_default :: bool

type_synonym mcp_file = "stored_server list"
type_synonym mcp_store = "mcp_file durable"

definition mcp_auth_modes :: "string list" where
  "mcp_auth_modes = [''none'', ''bearer'', ''oauth'']"

definition access_token :: "oauth_credential \<Rightarrow> string option" where
  "access_token o1 = (case field ''access_token'' (oc_tokens o1) of None \<Rightarrow> None | Some v \<Rightarrow> as_string v)"

definition refresh_token :: "oauth_credential \<Rightarrow> json option" where
  "refresh_token o1 = field ''refresh_token'' (oc_tokens o1)"

section \<open>Names and tools\<close>

definition tool_prefix :: "string \<Rightarrow> string" where
  "tool_prefix server = ''mcp__'' @ server @ ''__''"

definition is_tool_of_server :: "string \<Rightarrow> string \<Rightarrow> bool" where
  "is_tool_of_server tool server = starts_with (tool_prefix server) tool"

definition name_char :: "char \<Rightarrow> bool" where
  "name_char c = (is_upper c \<or> is_lower c \<or> is_digit c \<or> c = CHR ''_'' \<or> c = CHR ''-'')"

definition server_name_pattern :: "string \<Rightarrow> bool" where
  "server_name_pattern s \<longleftrightarrow> s \<noteq> [] \<and> length s \<le> 32 \<and> list_all name_char s"

definition parse_url :: "(string \<Rightarrow> string option) \<Rightarrow> string \<Rightarrow> error + string" where
  "parse_url protocol v = (case protocol v of
     None \<Rightarrow> Inl (Plain (''invalid MCP server URL: '' @ v)) | Some p \<Rightarrow> Inr p)"

definition validate_mcp_server_entry ::
  "(string \<Rightarrow> string option) \<Rightarrow> mcp_server_entry \<Rightarrow> error + unit" where
  "validate_mcp_server_entry protocol e =
    (let n = me_server_name e in
     if \<not> server_name_pattern n
     then Inl (Plain (''invalid MCP server name '' @ [CHR 0x22] @ n @ [CHR 0x22] @ '': use 1-32 letters, digits, ''
           @ [CHR 0x22] @ ''_'' @ [CHR 0x22] @ '', or '' @ [CHR 0x22] @ ''-'' @ [CHR 0x22]))
     else if contains ''__'' n
     then Inl (Plain (''invalid MCP server name '' @ [CHR 0x22] @ n @ [CHR 0x22] @ '': ''
           @ [CHR 0x22] @ ''__'' @ [CHR 0x22] @ '' is reserved for the tool-name prefix''))
     else if ends_with ''_'' n
     then Inl (Plain (''invalid MCP server name '' @ [CHR 0x22] @ n @ [CHR 0x22] @ '': a trailing ''
           @ [CHR 0x22] @ ''_'' @ [CHR 0x22] @ '' collides with the tool-name prefix''))
     else case parse_url protocol (me_url e) of
       Inl err \<Rightarrow> Inl err
     | Inr p \<Rightarrow>
        if p \<noteq> ''http:'' \<and> p \<noteq> ''https:''
        then Inl (Plain (''MCP server URL must use http or https: '' @ me_url e))
        else if me_auth e \<notin> set mcp_auth_modes
        then Inl (Plain (''invalid MCP authentication method: '' @ me_auth e))
        else Inr ())"

section \<open>Reading\<close>

definition find_server :: "mcp_file \<Rightarrow> string \<Rightarrow> stored_server option" where
  "find_server servers n = find (\<lambda>s. ss_server_name s = n) servers"

definition sorted_servers :: "mcp_file \<Rightarrow> mcp_file" where
  "sorted_servers servers = sort_key ss_server_name servers"

definition public_entry :: "stored_server \<Rightarrow> mcp_server_entry" where
  "public_entry s = \<lparr>me_server_name = ss_server_name s, me_url = ss_url s, me_auth = ss_auth s,
     me_token = None, me_enabled = ss_enabled s, me_off_by_default = ss_off_by_default s\<rparr>"

definition list_servers :: "mcp_file \<Rightarrow> mcp_server_entry list" where
  "list_servers servers = map public_entry (sorted_servers servers)"

definition get_server :: "mcp_file \<Rightarrow> string \<Rightarrow> mcp_server_entry option" where
  "get_server servers n = map_option public_entry (find_server servers n)"

definition oauth_expired :: "js_number \<Rightarrow> oauth_credential \<Rightarrow> bool" where
  "oauth_expired now o1 = (case oc_expires_at o1 of None \<Rightarrow> False | Some t \<Rightarrow> num_le t now)"

definition token_for :: "js_number \<Rightarrow> mcp_file \<Rightarrow> string \<Rightarrow> string option" where
  "token_for now servers n =
    (case find_server servers n of
       None \<Rightarrow> None
     | Some s \<Rightarrow>
        if ss_auth s = ''bearer'' then ss_token s
        else if ss_auth s = ''oauth'' then
          (case ss_oauth s of
             None \<Rightarrow> None
           | Some o1 \<Rightarrow> if oauth_expired now o1 then None else access_token o1)
        else None)"

definition has_bearer_token :: "mcp_file \<Rightarrow> string \<Rightarrow> bool" where
  "has_bearer_token servers n =
    (case find_server servers n of None \<Rightarrow> False | Some s \<Rightarrow> ss_auth s = ''bearer'' \<and> ss_token s \<noteq> None)"

definition oauth_for :: "mcp_file \<Rightarrow> string \<Rightarrow> oauth_credential option" where
  "oauth_for servers n =
    (case find_server servers n of None \<Rightarrow> None | Some s \<Rightarrow> if ss_auth s = ''oauth'' then ss_oauth s else None)"

datatype oauth_status = NoSignIn | Expired | Valid "js_number option" bool

definition oauth_status_of :: "js_number \<Rightarrow> mcp_file \<Rightarrow> string \<Rightarrow> oauth_status" where
  "oauth_status_of now servers n =
    (case oauth_for servers n of
       None \<Rightarrow> NoSignIn
     | Some o1 \<Rightarrow>
        if oauth_expired now o1 then Expired
        else Valid (oc_expires_at o1) (refresh_token o1 \<noteq> None \<and> oc_expires_at o1 \<noteq> None))"

section \<open>The file\<close>

definition opt_field :: "string \<Rightarrow> json option \<Rightarrow> (string \<times> json) list" where
  "opt_field k v = (case v of None \<Rightarrow> [] | Some w \<Rightarrow> [(k, w)])"

definition render_oauth :: "oauth_credential \<Rightarrow> json" where
  "render_oauth o1 = JObj ([(''redirectUri'', JStr (oc_redirect_uri o1)), (''client'', oc_client o1),
     (''tokens'', oc_tokens o1)] @ opt_field ''expiresAt'' (map_option JNum (oc_expires_at o1)))"

definition render_server :: "stored_server \<Rightarrow> json" where
  "render_server s = JObj ([(''serverName'', JStr (ss_server_name s)), (''url'', JStr (ss_url s)),
     (''auth'', JStr (ss_auth s)), (''enabled'', JBool (ss_enabled s))]
     @ (if ss_off_by_default s then [(''offByDefault'', JBool True)] else [])
     @ opt_field ''token'' (map_option JStr (ss_token s))
     @ opt_field ''oauth'' (map_option render_oauth (ss_oauth s)))"

definition render_file :: "mcp_file \<Rightarrow> json" where
  "render_file servers = JObj [(''version'', JNum (js_int 1)),
     (''servers'', JArr (map render_server (sorted_servers servers)))]"

definition unsupported :: error where
  "unsupported = Plain ''MCP server file has an unsupported format''"

definition is_json_string :: "json option \<Rightarrow> bool" where
  "is_json_string v = (case v of Some (JStr _) \<Rightarrow> True | _ \<Rightarrow> False)"

definition parse_oauth :: "json \<Rightarrow> error + oauth_credential" where
  "parse_oauth v =
    (case (field ''redirectUri'' v, field ''client'' v, field ''tokens'' v) of
       (Some (JStr uri), Some client, Some tokens) \<Rightarrow>
         if \<not> is_json_string (field ''client_id'' client) \<or> \<not> is_json_string (field ''access_token'' tokens)
         then Inl unsupported
         else (case field ''expiresAt'' v of
           None \<Rightarrow> Inr \<lparr>oc_redirect_uri = uri, oc_client = client, oc_tokens = tokens, oc_expires_at = None\<rparr>
         | Some (JNum t) \<Rightarrow>
             Inr \<lparr>oc_redirect_uri = uri, oc_client = client, oc_tokens = tokens, oc_expires_at = Some t\<rparr>
         | Some _ \<Rightarrow> Inl unsupported)
     | _ \<Rightarrow> Inl unsupported)"

definition good_token :: "json option \<Rightarrow> bool" where
  "good_token v = (v = None \<or> v = Some JNull \<or> is_json_string v)"

definition good_bool :: "json option \<Rightarrow> bool" where
  "good_bool v = (case v of None \<Rightarrow> True | Some (JBool _) \<Rightarrow> True | _ \<Rightarrow> False)"

definition good_auth :: "json option \<Rightarrow> bool" where
  "good_auth v = (case v of None \<Rightarrow> True | Some (JStr a) \<Rightarrow> a \<in> set mcp_auth_modes | _ \<Rightarrow> False)"

text \<open>A hand-edited null is no token; before there were modes, a saved token meant bearer.\<close>

definition saved_token :: "json \<Rightarrow> string option" where
  "saved_token v = Option.bind (field ''token'' v) as_string"

definition entry_mode :: "json \<Rightarrow> string" where
  "entry_mode v = (case Option.bind (field ''auth'' v) as_string of
     Some a \<Rightarrow> a | None \<Rightarrow> if saved_token v = None then ''none'' else ''bearer'')"

definition plain_entry :: "json \<Rightarrow> string \<Rightarrow> string \<Rightarrow> stored_server" where
  "plain_entry v n url =
    \<lparr>ss_server_name = n, ss_url = url, ss_auth = entry_mode v,
     ss_token = (if entry_mode v = ''bearer'' then saved_token v else None), ss_oauth = None,
     ss_enabled = (field ''enabled'' v \<noteq> Some (JBool False)),
     ss_off_by_default = (field ''offByDefault'' v = Some (JBool True))\<rparr>"

definition with_oauth :: "json \<Rightarrow> stored_server \<Rightarrow> error + stored_server" where
  "with_oauth v entry =
    (case field ''oauth'' v of
       None \<Rightarrow> Inr entry
     | Some o1 \<Rightarrow>
         if ss_auth entry = ''oauth'' \<and> o1 \<noteq> JNull
         then map_sum id (\<lambda>c. entry\<lparr>ss_oauth := Some c\<rparr>) (parse_oauth o1)
         else Inr entry)"

definition parse_entry :: "json \<Rightarrow> error + stored_server" where
  "parse_entry v =
    (case (field ''serverName'' v, field ''url'' v) of
       (Some (JStr n), Some (JStr url)) \<Rightarrow>
         if good_token (field ''token'' v) \<and> good_bool (field ''enabled'' v)
            \<and> good_bool (field ''offByDefault'' v) \<and> good_auth (field ''auth'' v)
         then with_oauth v (plain_entry v n url)
         else Inl unsupported
     | _ \<Rightarrow> Inl unsupported)"

fun parse_entries :: "json list \<Rightarrow> error + mcp_file" where
  "parse_entries [] = Inr []"
| "parse_entries (v # vs) = (case parse_entry v of
     Inl e \<Rightarrow> Inl e
   | Inr s \<Rightarrow> (case parse_entries vs of Inl e \<Rightarrow> Inl e | Inr ss \<Rightarrow> Inr (s # ss)))"

definition parse_mcp_file :: "json \<Rightarrow> error + mcp_file" where
  "parse_mcp_file v =
    (case field ''servers'' v of
       Some (JArr vs) \<Rightarrow>
         if field ''version'' v = Some (JNum (js_int 1)) then parse_entries vs else Inl unsupported
     | _ \<Rightarrow> Inl unsupported)"

section \<open>Writing\<close>

definition replace_server :: "stored_server \<Rightarrow> mcp_file \<Rightarrow> mcp_file" where
  "replace_server s servers = filter (\<lambda>c. ss_server_name c \<noteq> ss_server_name s) servers @ [s]"

definition drop_server :: "string \<Rightarrow> mcp_file \<Rightarrow> mcp_file" where
  "drop_server n servers = filter (\<lambda>c. ss_server_name c \<noteq> n) servers"

text \<open>The two changes and the write that follows each.\<close>

datatype mcp_op = PutServer stored_server | DropServer string

fun mcp_effect :: "mcp_op \<Rightarrow> mcp_file \<Rightarrow> mcp_file" where
  "mcp_effect (PutServer s) = replace_server s"
| "mcp_effect (DropServer n) = drop_server n"

definition mcp_write :: "('e, unit) comp \<Rightarrow> mcp_op \<Rightarrow> (mcp_store \<times> 'e, unit) comp" where
  "mcp_write flush op = thenE (change (mcp_effect op)) (persist flush)"

interpretation mcp_file_store: durable_store "mcp_write flush" mcp_effect flush
  for flush :: "('e, unit) comp"
  by unfold_locales (simp add: mcp_write_def)

text \<open>\<open>reading\<close> is the file as it is then: others may have edited it.\<close>

definition mcp_refresh ::
  "(mcp_store \<times> 'e \<Rightarrow> error + json option) \<Rightarrow> (mcp_store \<times> 'e, unit) comp" where
  "mcp_refresh reading = reload parse_mcp_file [] reading"

definition mcp_initialize ::
  "('e, unit) comp \<Rightarrow> (mcp_store \<times> 'e \<Rightarrow> error + json option) \<Rightarrow> (mcp_store \<times> 'e, unit) comp" where
  "mcp_initialize make_dir reading =
    thenE (\<lambda>(d, e). case make_dir e of (r, e') \<Rightarrow> (r, (d, e'))) (mcp_refresh reading)"

definition servers_of :: "mcp_store \<times> 'e \<Rightarrow> mcp_file" where
  "servers_of s = mem (fst s)"

definition upserted :: "stored_server option \<Rightarrow> mcp_server_entry \<Rightarrow> stored_server" where
  "upserted previous e =
    \<lparr>ss_server_name = me_server_name e, ss_url = me_url e, ss_auth = me_auth e,
     ss_token =
       (if me_auth e \<noteq> ''bearer'' then None
        else if me_token e = None \<or> me_token e = Some '''' then
          (case previous of
             None \<Rightarrow> None
           | Some p \<Rightarrow> if ss_auth p = ''bearer'' then ss_token p else None)
        else me_token e),
     ss_oauth =
       (case previous of
          None \<Rightarrow> None
        | Some p \<Rightarrow>
           if me_auth e = ''oauth'' \<and> ss_auth p = ''oauth'' \<and> ss_url p = me_url e then ss_oauth p else None),
     ss_enabled = me_enabled e, ss_off_by_default = me_off_by_default e\<rparr>"

definition upsert ::
  "(string \<Rightarrow> string option) \<Rightarrow> ('e, unit) comp \<Rightarrow> mcp_server_entry \<Rightarrow> (mcp_store \<times> 'e, unit) comp" where
  "upsert protocol flush e =
    bindE (liftE (validate_mcp_server_entry protocol e)) (\<lambda>_.
    bindE (gets (\<lambda>s. find_server (servers_of s) (me_server_name e))) (\<lambda>previous.
      mcp_write flush (PutServer (upserted previous e))))"

definition save_oauth ::
  "(mcp_store \<times> 'e \<Rightarrow> error + json option) \<Rightarrow> ('e, unit) comp \<Rightarrow> string \<Rightarrow> string \<Rightarrow> oauth_credential
   \<Rightarrow> (mcp_store \<times> 'e, unit) comp" where
  "save_oauth reading flush n url cred =
    thenE (mcp_refresh reading)
   (bindE (gets (\<lambda>s. find_server (servers_of s) n)) (\<lambda>stored.
      case stored of
        None \<Rightarrow> throw (Plain (''MCP server '' @ n @ '' changed while it was being authorized; connect it again''))
      | Some st \<Rightarrow>
          if ss_auth st \<noteq> ''oauth'' \<or> ss_url st \<noteq> url
          then throw (Plain (''MCP server '' @ n @ '' changed while it was being authorized; connect it again''))
          else mcp_write flush (PutServer (st\<lparr>ss_oauth := Some cred\<rparr>))))"

definition replace_oauth ::
  "(mcp_store \<times> 'e \<Rightarrow> error + json option) \<Rightarrow> ('e, unit) comp \<Rightarrow> string \<Rightarrow> string
   \<Rightarrow> oauth_credential option \<Rightarrow> (mcp_store \<times> 'e, bool) comp" where
  "replace_oauth reading flush n token cred =
    thenE (mcp_refresh reading)
   (bindE (gets (\<lambda>s. find_server (servers_of s) n)) (\<lambda>stored.
      case stored of
        None \<Rightarrow> ret False
      | Some st \<Rightarrow>
          if ss_auth st \<noteq> ''oauth'' \<or> Option.bind (ss_oauth st) refresh_token \<noteq> Some (JStr token)
          then ret False
          else thenE (mcp_write flush (PutServer (st\<lparr>ss_oauth := cred\<rparr>))) (ret True)))"

definition remove_server :: "('e, unit) comp \<Rightarrow> string \<Rightarrow> (mcp_store \<times> 'e, unit) comp" where
  "remove_server flush n =
    bindE (gets servers_of) (\<lambda>servers.
      if length (drop_server n servers) = length servers then ret ()
      else mcp_write flush (DropServer n))"

section \<open>Facts\<close>

lemma find_replace_server:
  "find_server (replace_server s servers) n = (if n = ss_server_name s then Some s else find_server servers n)"
  by (induction servers) (auto simp: find_server_def replace_server_def)

lemma find_server_set: "find_server servers n = Some s \<Longrightarrow> s \<in> set servers \<and> ss_server_name s = n"
  by (auto simp: find_server_def find_Some_iff)

lemma set_replace_server:
  "set (replace_server s servers) = insert s {c \<in> set servers. ss_server_name c \<noteq> ss_server_name s}"
  by (auto simp: replace_server_def)

lemma set_drop_server: "set (drop_server n servers) \<subseteq> set servers"
  by (auto simp: drop_server_def)

lemma mcp_write_effect:
  "mcp_write flush op s = (r, t) \<Longrightarrow> servers_of t = mcp_effect op (servers_of s)
     \<and> (r = Inr () \<longrightarrow> disk (fst t) = Some (servers_of t))"
  using mcp_file_store.run_mem [of flush op s] mcp_file_store.run_saved [of flush op s]
  by (cases r) (auto simp: servers_of_def)

text \<open>Two names whose prefixes start the same tool are equal: neither holds the separator, nor ends
  in half of it.\<close>

lemma contains_start: "starts_with p s \<Longrightarrow> contains p s"
  by (cases s; cases p) auto

lemma contains_append: "contains p (u @ p @ v)"
  by (induction u) (auto simp: starts_with_prefix intro: contains_start)

lemma ends_with_append: "ends_with p (u @ p)"
  by (auto simp: ends_with_def starts_with_prefix)

lemma no_separator_prefix:
  assumes "a @ ''__'' @ r = (a @ u) @ ''__'' @ q" and "\<not> contains ''__'' (a @ u)" and "\<not> ends_with ''_'' (a @ u)"
  shows "u = []"
proof (rule ccontr)
  assume "u \<noteq> []"
  from assms(1) have eq: "''__'' @ r = u @ ''__'' @ q" by simp
  then obtain v where u: "u = CHR ''_'' # v" using \<open>u \<noteq> []\<close> by (cases u) auto
  show False
  proof (cases v)
    case Nil
    with u ends_with_append [of "''_''" a] assms(3) show False by simp
  next
    case (Cons c w)
    with u eq have "u = ''__'' @ w" by simp
    with contains_append [of "''__''" a w] assms(2) show False by simp
  qed
qed

text \<open>The secrets of an entry belong to its mode, and a sign-in has what a request needs.\<close>

definition oauth_ok :: "oauth_credential \<Rightarrow> bool" where
  "oauth_ok o1 \<longleftrightarrow> is_json_string (field ''client_id'' (oc_client o1))
     \<and> is_json_string (field ''access_token'' (oc_tokens o1))"

definition server_ok :: "stored_server \<Rightarrow> bool" where
  "server_ok s \<longleftrightarrow> ss_auth s \<in> set mcp_auth_modes
     \<and> (ss_token s \<noteq> None \<longrightarrow> ss_auth s = ''bearer'')
     \<and> (\<forall>o1. ss_oauth s = Some o1 \<longrightarrow> ss_auth s = ''oauth'' \<and> oauth_ok o1)"

definition file_ok :: "mcp_file \<Rightarrow> bool" where
  "file_ok servers \<longleftrightarrow> list_all server_ok servers"

lemma file_okD: "file_ok servers \<Longrightarrow> s \<in> set servers \<Longrightarrow> server_ok s"
  by (auto simp: file_ok_def list_all_iff)

lemma file_ok_replace: "file_ok servers \<Longrightarrow> server_ok s \<Longrightarrow> file_ok (replace_server s servers)"
  by (auto simp: file_ok_def list_all_iff set_replace_server)

lemma file_ok_drop_server: "file_ok servers \<Longrightarrow> file_ok (drop_server n servers)"
  using set_drop_server by (fastforce simp: file_ok_def list_all_iff)

lemma server_ok_upserted:
  "validate_mcp_server_entry protocol e = Inr () \<Longrightarrow> (\<And>p. previous = Some p \<Longrightarrow> server_ok p)
     \<Longrightarrow> server_ok (upserted previous e)"
  by (cases previous)
    (auto simp: server_ok_def upserted_def validate_mcp_server_entry_def Let_def
      split: if_splits sum.splits)

lemma parse_oauth_ok: "parse_oauth v = Inr o1 \<Longrightarrow> oauth_ok o1"
  by (auto simp: parse_oauth_def oauth_ok_def split: option.splits json.splits if_splits)

lemma entry_mode_ok: "good_auth (field ''auth'' v) \<Longrightarrow> entry_mode v \<in> set mcp_auth_modes"
  by (auto simp: good_auth_def entry_mode_def mcp_auth_modes_def split: option.splits json.splits)

lemma parse_entry_Inr:
  "parse_entry v = Inr s \<Longrightarrow> \<exists>n url. with_oauth v (plain_entry v n url) = Inr s \<and> good_auth (field ''auth'' v)"
  by (auto simp: parse_entry_def split: option.splits json.splits if_splits)

lemma with_oauth_Inr:
  "with_oauth v entry = Inr s \<Longrightarrow>
     s = entry \<or> (ss_auth entry = ''oauth'' \<and> (\<exists>o1 c. parse_oauth o1 = Inr c \<and> s = entry\<lparr>ss_oauth := Some c\<rparr>))"
  unfolding with_oauth_def
  by (cases "field ''oauth'' v") (auto simp: map_sum_def split: if_splits sum.splits)

lemma server_ok_plain_entry: "good_auth (field ''auth'' v) \<Longrightarrow> server_ok (plain_entry v n url)"
  using entry_mode_ok [of v] by (simp add: server_ok_def plain_entry_def)

lemma parse_entry_ok: "parse_entry v = Inr s \<Longrightarrow> server_ok s"
proof -
  assume "parse_entry v = Inr s"
  then obtain n url where "with_oauth v (plain_entry v n url) = Inr s" "server_ok (plain_entry v n url)"
    using parse_entry_Inr server_ok_plain_entry by blast
  then show ?thesis
    by (auto dest!: with_oauth_Inr simp: server_ok_def parse_oauth_ok)
qed

lemma parse_entries_ok: "parse_entries vs = Inr ss \<Longrightarrow> file_ok ss"
  by (induction vs arbitrary: ss) (auto simp: file_ok_def parse_entry_ok split: sum.splits)

lemma parse_mcp_file_ok: "parse_mcp_file v = Inr f \<Longrightarrow> file_ok f"
  by (auto simp: parse_mcp_file_def parse_entries_ok split: option.splits json.splits if_splits)

text \<open>What is written is read back.\<close>

lemma parse_render_oauth: "oauth_ok o1 \<Longrightarrow> parse_oauth (render_oauth o1) = Inr o1"
  by (cases "oc_expires_at o1") (simp_all add: oauth_ok_def render_oauth_def parse_oauth_def opt_field_def)

lemma parse_render_server: "server_ok s \<Longrightarrow> parse_entry (render_server s) = Inr s"
proof -
  assume ok: "server_ok s"
  have fields: "field ''serverName'' (render_server s) = Some (JStr (ss_server_name s))"
    "field ''url'' (render_server s) = Some (JStr (ss_url s))"
    "field ''auth'' (render_server s) = Some (JStr (ss_auth s))"
    "field ''enabled'' (render_server s) = Some (JBool (ss_enabled s))"
    "field ''offByDefault'' (render_server s) = (if ss_off_by_default s then Some (JBool True) else None)"
    "field ''token'' (render_server s) = map_option JStr (ss_token s)"
    "field ''oauth'' (render_server s) = map_option render_oauth (ss_oauth s)"
    by (auto simp: render_server_def opt_field_def map_add_def split: option.splits)
  have "parse_entry (render_server s)
      = with_oauth (render_server s) (plain_entry (render_server s) (ss_server_name s) (ss_url s))"
    using ok by (auto simp: parse_entry_def fields good_token_def good_bool_def good_auth_def
        is_json_string_def server_ok_def split: option.splits)
  moreover have mode: "entry_mode (render_server s) = ss_auth s"
    by (simp add: entry_mode_def fields)
  have saved: "saved_token (render_server s) = ss_token s"
    by (cases "ss_token s") (simp_all add: saved_token_def fields)
  have "plain_entry (render_server s) (ss_server_name s) (ss_url s) = s\<lparr>ss_oauth := None\<rparr>"
    by (rule stored_server.equality)
      (use ok in \<open>auto simp: plain_entry_def mode saved fields server_ok_def\<close>)
  moreover have "with_oauth (render_server s) (s\<lparr>ss_oauth := None\<rparr>) = Inr s"
  proof (cases "ss_oauth s")
    case None
    then show ?thesis by (simp add: with_oauth_def fields)
  next
    case (Some o1)
    with ok have "ss_auth s = ''oauth''" "parse_oauth (render_oauth o1) = Inr o1" "render_oauth o1 \<noteq> JNull"
      by (auto simp: server_ok_def parse_render_oauth, simp add: render_oauth_def)
    with Some show ?thesis by (simp add: with_oauth_def fields)
  qed
  ultimately show ?thesis by simp
qed

lemma parse_render_entries: "file_ok ss \<Longrightarrow> parse_entries (map render_server ss) = Inr ss"
  by (induction ss) (simp_all add: file_ok_def parse_render_server)

lemma file_ok_sorted: "file_ok (sorted_servers f) \<longleftrightarrow> file_ok f"
  by (simp add: file_ok_def sorted_servers_def list_all_iff)

definition stored_ok :: "mcp_store \<times> 'e \<Rightarrow> bool" where
  "stored_ok s \<longleftrightarrow> file_ok (servers_of s)"

lemma file_ok_Nil: "file_ok []"
  by (simp add: file_ok_def)

lemma mcp_refresh_ok: "preserves stored_ok (mcp_refresh reading)"
  unfolding mcp_refresh_def stored_ok_def servers_of_def
  by (rule preserves_reload) (auto simp: file_ok_Nil parse_mcp_file_ok)

lemma mcp_write_ok: "(\<And>f. file_ok f \<Longrightarrow> file_ok (mcp_effect op f)) \<Longrightarrow> preserves stored_ok (mcp_write flush op)"
  unfolding preserves_def stored_ok_def
  by (metis mcp_write_effect prod.collapse)

lemma put_ok: "server_ok st \<Longrightarrow> preserves stored_ok (mcp_write flush (PutServer st))"
  by (rule mcp_write_ok) (simp add: file_ok_replace)

lemma found_ok: "stored_ok s \<Longrightarrow> find_server (servers_of s) n = Some st \<Longrightarrow> server_ok st"
  by (auto simp: stored_ok_def dest!: find_server_set intro: file_okD)

text \<open>Reading the state and going on: what was read may be assumed of it.\<close>

lemma preserves_gets:
  assumes "\<And>s0. I s0 \<Longrightarrow> preserves I (k (f s0))"
  shows "preserves I (bindE (gets f) k)"
  using assms by (simp add: preserves_def bindE_def gets_def)

lemma upsert_ok: "preserves stored_ok (upsert protocol flush e)"
proof (cases "validate_mcp_server_entry protocol e")
  case (Inl err)
  then show ?thesis by (simp add: upsert_def preserves_def bindE_def liftE_def)
next
  case (Inr u)
  then have v: "validate_mcp_server_entry protocol e = Inr ()" by simp
  have "preserves stored_ok (bindE (gets (\<lambda>s. find_server (servers_of s) (me_server_name e)))
      (\<lambda>previous. mcp_write flush (PutServer (upserted previous e))))"
    by (rule preserves_gets) (use v found_ok in \<open>blast intro: put_ok server_ok_upserted\<close>)
  with v show ?thesis by (simp add: upsert_def preserves_def bindE_def liftE_def)
qed

lemma save_oauth_ok: "oauth_ok cred \<Longrightarrow> preserves stored_ok (save_oauth reading flush n url cred)"
  unfolding save_oauth_def
  by (intro preserves_thenE mcp_refresh_ok preserves_gets preserves_option preserves_if preserves_basic put_ok)
    (auto simp: server_ok_def dest: found_ok)

lemma replace_oauth_ok:
  "(\<And>c. cred = Some c \<Longrightarrow> oauth_ok c) \<Longrightarrow> preserves stored_ok (replace_oauth reading flush n token cred)"
  unfolding replace_oauth_def
  by (intro preserves_thenE mcp_refresh_ok preserves_gets preserves_option preserves_if preserves_basic put_ok)
    (auto simp: server_ok_def dest: found_ok)

lemma remove_server_ok: "preserves stored_ok (remove_server flush n)"
  unfolding remove_server_def
  by (intro preserves_gets preserves_if preserves_basic mcp_write_ok) (simp_all add: file_ok_drop_server)

section \<open>Properties\<close>

text \<open>What validation guarantees of a name, and what it is for.\<close>

definition good_server_name :: "string \<Rightarrow> bool" where
  "good_server_name n \<longleftrightarrow> \<not> contains ''__'' n \<and> \<not> ends_with ''_'' n"

lemma validated_name: "validate_mcp_server_entry protocol e = Inr () \<Longrightarrow> good_server_name (me_server_name e)"
  by (auto simp: good_server_name_def validate_mcp_server_entry_def Let_def split: if_splits)

lemma good_names_apart:
  assumes "good_server_name a" and "good_server_name b" and "is_tool_of_server tool a" and "is_tool_of_server tool b"
  shows "a = b"
proof -
  from assms(3,4) obtain r q where eq: "a @ ''__'' @ r = b @ ''__'' @ q"
    by (auto simp: is_tool_of_server_def tool_prefix_def starts_with_prefix)
  then consider u where "b = a @ u" | u where "a = b @ u"
    by (metis append_eq_append_conv2)
  then show ?thesis
  proof cases
    case 1
    with assms(2) eq no_separator_prefix [of a r u q] show ?thesis by (simp add: good_server_name_def)
  next
    case 2
    with assms(1) eq no_separator_prefix [of b q u r] show ?thesis by (simp add: good_server_name_def)
  qed
qed

text \<open>A tool name belongs to at most one server: the names \<open>validateMcpServerEntry\<close> lets through
  keep the prefixes \<open>mcp__<name>__\<close> of different servers from matching the same tool.\<close>

lemma tool_prefix_unambiguous:
  assumes "validate_mcp_server_entry protocol e1 = Inr ()" and "validate_mcp_server_entry protocol e2 = Inr ()"
    and "is_tool_of_server tool (me_server_name e1)" and "is_tool_of_server tool (me_server_name e2)"
  shows "me_server_name e1 = me_server_name e2"
  using assms by (blast intro: good_names_apart validated_name)


text \<open>Secrets stay with their mode. Whatever was edited into the file and whichever operations run
  and fail, a bearer token is only kept for a bearer server and a sign-in only for an OAuth
  server, so the token a request gets is of the server's present mode.\<close>

lemma secrets_match_mode:
  assumes "oauth_ok cred" and "\<forall>c. renewed = Some c \<longrightarrow> oauth_ok c" and "stored_ok s"
  shows "stored_ok (snd (mcp_refresh reading s)) \<and> stored_ok (snd (upsert protocol flush e s))
    \<and> stored_ok (snd (save_oauth reading flush n url cred s))
    \<and> stored_ok (snd (replace_oauth reading flush n token renewed s))
    \<and> stored_ok (snd (remove_server flush n s))
    \<and> (\<forall>st. find_server (servers_of s) n = Some st \<longrightarrow>
         token_for now (servers_of s) n = (if ss_token st \<noteq> None then ss_token st
           else case ss_oauth st of None \<Rightarrow> None | Some o1 \<Rightarrow> if oauth_expired now o1 then None else access_token o1))"
proof (intro conjI allI impI)
  show "stored_ok (snd (replace_oauth reading flush n token renewed s))"
    by (rule preserves_snd [where I = stored_ok, OF replace_oauth_ok assms(3)]) (use assms(2) in simp)
  fix st assume st: "find_server (servers_of s) n = Some st"
  with found_ok [OF assms(3)] have "server_ok st" by blast
  then show "token_for now (servers_of s) n = (if ss_token st \<noteq> None then ss_token st
      else case ss_oauth st of None \<Rightarrow> None | Some o1 \<Rightarrow> if oauth_expired now o1 then None else access_token o1)"
    by (auto simp: token_for_def st server_ok_def split: option.splits)
qed (use assms(1) in \<open>auto intro: preserves_snd [where I = stored_ok, OF _ assms(3)] mcp_refresh_ok upsert_ok save_oauth_ok remove_server_ok\<close>)

text \<open>An accepted edit stores exactly its server and writes it: every other server is untouched; an
  edit without a token keeps a bearer server's token; an edit of the URL ends an OAuth sign-in.\<close>

lemma upsert_effect:
  assumes "upsert protocol flush e s = (Inr (), t)" and "n = me_server_name e"
  shows "disk (fst t) = Some (servers_of t)
    \<and> (\<forall>m. m \<noteq> n \<longrightarrow> find_server (servers_of t) m = find_server (servers_of s) m)
    \<and> get_server (servers_of t) n = Some (e\<lparr>me_token := None\<rparr>)
    \<and> (me_auth e = ''bearer'' \<longrightarrow> token_for now (servers_of t) n =
         (if me_token e = None \<or> me_token e = Some ''''
          then (if has_bearer_token (servers_of s) n then token_for now (servers_of s) n else None)
          else me_token e))
    \<and> (me_auth e = ''oauth'' \<longrightarrow> oauth_for (servers_of t) n =
         (case get_server (servers_of s) n of
            None \<Rightarrow> None
          | Some p \<Rightarrow> if me_url p = me_url e then oauth_for (servers_of s) n else None))"
proof -
  let ?st = "upserted (find_server (servers_of s) n) e"
  from assms have "mcp_write flush (PutServer ?st) s = (Inr (), t)"
    by (auto simp: upsert_def bindE_eq_Inr liftE_def gets_def)
  from mcp_write_effect [OF this] have w: "servers_of t = replace_server ?st (servers_of s)"
    "disk (fst t) = Some (servers_of t)" by simp_all
  have f: "find_server (servers_of t) m = (if m = n then Some ?st else find_server (servers_of s) m)" for m
    by (simp add: w(1) find_replace_server upserted_def assms(2))
  have "public_entry ?st = e\<lparr>me_token := None\<rparr>"
    by (simp add: public_entry_def upserted_def)
  then show ?thesis
    by (cases "find_server (servers_of s) n")
      (auto simp: w(2) f token_for_def has_bearer_token_def oauth_for_def get_server_def
        upserted_def public_entry_def split: option.splits)
qed

text \<open>A renewal never touches a newer sign-in: \<open>replaceOAuth\<close> writes exactly when the refresh token
  it used is still the one in the file it has just read, and answers false having written nothing
  otherwise.\<close>

lemma renewal_keeps_newer_sign_in:
  assumes "mcp_refresh reading s = (Inr (), s1)"
    and "replace_oauth reading flush n token cred s = (Inr answer, t)"
  shows "(answer \<longleftrightarrow> Option.bind (oauth_for (servers_of s1) n) refresh_token = Some (JStr token))
    \<and> (answer \<longrightarrow> oauth_for (servers_of t) n = cred \<and> disk (fst t) = Some (servers_of t))
    \<and> (\<not> answer \<longrightarrow> t = s1)"
proof -
  from assms have r: "(case find_server (servers_of s1) n of None \<Rightarrow> ret False
      | Some st \<Rightarrow> if ss_auth st \<noteq> ''oauth'' \<or> Option.bind (ss_oauth st) refresh_token \<noteq> Some (JStr token)
          then ret False
          else thenE (mcp_write flush (PutServer (st\<lparr>ss_oauth := cred\<rparr>))) (ret True)) s1 = (Inr answer, t)"
    by (simp add: replace_oauth_def thenE_def bindE_def gets_def cong: option.case_cong if_cong)
  show ?thesis
  proof (cases "find_server (servers_of s1) n")
    case None
    with r show ?thesis by (auto simp: ret_def oauth_for_def)
  next
    case (Some st)
    show ?thesis
    proof (cases "ss_auth st = ''oauth'' \<and> Option.bind (ss_oauth st) refresh_token = Some (JStr token)")
      case True
      with r Some have a: answer and w: "mcp_write flush (PutServer (st\<lparr>ss_oauth := cred\<rparr>)) s1 = (Inr (), t)"
        by (auto simp: thenE_eq_Inr ret_def)
      from find_server_set [OF Some] have "ss_server_name st = n" by simp
      with True Some a mcp_write_effect [OF w] show ?thesis
        by (simp add: oauth_for_def find_replace_server)
    next
      case False
      with r Some have "\<not> answer \<and> t = s1" by (auto simp: ret_def split: if_splits)
      moreover from False Some have "Option.bind (oauth_for (servers_of s1) n) refresh_token \<noteq> Some (JStr token)"
        by (auto simp: oauth_for_def)
      ultimately show ?thesis by blast
    qed
  qed
qed

section \<open>Witnesses\<close>

definition demo_protocol :: "string \<Rightarrow> string option" where
  "demo_protocol u = (if starts_with ''https://'' u then Some ''https:'' else None)"

definition demo_entry :: "string \<Rightarrow> mcp_server_entry" where
  "demo_entry auth = \<lparr>me_server_name = ''gh'', me_url = ''https://m'', me_auth = auth, me_token = None,
     me_enabled = True, me_off_by_default = False\<rparr>"

definition demo_credential :: oauth_credential where
  "demo_credential = \<lparr>oc_redirect_uri = ''https://me'', oc_client = JObj [(''client_id'', JStr ''c'')],
     oc_tokens = JObj [(''access_token'', JStr ''a''), (''refresh_token'', JStr ''r'')], oc_expires_at = None\<rparr>"

definition demo_oauth_server :: stored_server where
  "demo_oauth_server = \<lparr>ss_server_name = ''gh'', ss_url = ''https://m'', ss_auth = ''oauth'', ss_token = None,
     ss_oauth = Some demo_credential, ss_enabled = True, ss_off_by_default = False\<rparr>"

definition demo_bearer_server :: stored_server where
  "demo_bearer_server = \<lparr>ss_server_name = ''gh'', ss_url = ''https://m'', ss_auth = ''bearer'', ss_token = Some ''t'',
     ss_oauth = None, ss_enabled = True, ss_off_by_default = True\<rparr>"

definition demo_store :: "stored_server \<Rightarrow> mcp_store \<times> unit" where
  "demo_store st = (\<lparr>mem = [st], disk = None, chain = None\<rparr>, ())"

definition demo_reading :: "mcp_store \<times> unit \<Rightarrow> error + json option" where
  "demo_reading s = Inr (Some (render_file (servers_of s)))"

lemma demo_entry_valid: "auth \<in> set mcp_auth_modes \<Longrightarrow> validate_mcp_server_entry demo_protocol (demo_entry auth) = Inr ()"
  by (simp add: validate_mcp_server_entry_def demo_entry_def server_name_pattern_def name_char_def
      is_lower_def ends_with_def parse_url_def demo_protocol_def)

lemma demo_servers_ok: "file_ok [demo_oauth_server]" "file_ok [demo_bearer_server]"
  by (simp_all add: file_ok_def server_ok_def demo_oauth_server_def demo_bearer_server_def mcp_auth_modes_def
      oauth_ok_def demo_credential_def is_json_string_def)

lemma tool_prefix_unambiguous_witness:
  "me_server_name (demo_entry ''none'') = me_server_name (demo_entry ''oauth'')"
  by (rule tool_prefix_unambiguous [where tool = "''mcp__gh__search''", OF demo_entry_valid demo_entry_valid])
    (simp_all add: mcp_auth_modes_def is_tool_of_server_def tool_prefix_def demo_entry_def)


lemma secrets_match_mode_witness:
  "token_for NaN (servers_of (demo_store demo_bearer_server)) ''gh'' = Some ''t''"
proof -
  have cred: "oauth_ok demo_credential"
    by (simp add: oauth_ok_def demo_credential_def is_json_string_def)
  have ok: "stored_ok (demo_store demo_bearer_server)"
    using demo_servers_ok by (simp add: stored_ok_def servers_of_def demo_store_def)
  have none: "\<forall>c. (None :: oauth_credential option) = Some c \<longrightarrow> oauth_ok c" by simp
  show ?thesis
    using secrets_match_mode [OF cred none ok, of demo_reading demo_protocol "ret ()" "demo_entry ''none''" "''gh''"
        "''https://m''" "''r''" NaN]
    by (simp add: servers_of_def demo_store_def find_server_def demo_bearer_server_def)
qed

definition demo_upserted :: "mcp_store \<times> unit" where
  "demo_upserted = snd (upsert demo_protocol (ret ()) (demo_entry ''bearer'') (demo_store demo_bearer_server))"

lemma demo_upsert:
  "upsert demo_protocol (ret ()) (demo_entry ''bearer'') (demo_store demo_bearer_server) = (Inr (), demo_upserted)"
  by (simp add: demo_upserted_def upsert_def demo_entry_valid mcp_auth_modes_def bindE_def liftE_def gets_def
      mcp_write_def thenE_def change_def modify_def persist_def demo_store_def ret_def)

lemma upsert_effect_witness: "token_for NaN (servers_of demo_upserted) ''gh'' = Some ''t''"
  using upsert_effect [OF demo_upsert refl, of NaN]
  by (simp add: demo_entry_def has_bearer_token_def token_for_def find_server_def servers_of_def
      demo_store_def demo_bearer_server_def)

lemma demo_refresh:
  "mcp_refresh demo_reading (demo_store demo_oauth_server) = (Inr (), demo_store demo_oauth_server)"
  using demo_servers_ok(1)
  by (simp add: mcp_refresh_def reload_def demo_reading_def demo_store_def servers_of_def parse_mcp_file_def render_file_def
      sorted_servers_def file_ok_def parse_render_server)

text \<open>A renewal of the sign-in before: another refresh token was saved since.\<close>

lemma renewal_keeps_newer_sign_in_witness:
  "snd (replace_oauth demo_reading (ret ()) ''gh'' ''old'' None (demo_store demo_oauth_server)) = demo_store demo_oauth_server"
proof -
  let ?run = "replace_oauth demo_reading (ret ()) ''gh'' ''old'' None (demo_store demo_oauth_server)"
  have run: "?run = (Inr False, snd ?run)"
    unfolding replace_oauth_def thenE_def
      bindE_Inr [of "mcp_refresh demo_reading" "demo_store demo_oauth_server", OF demo_refresh]
    by (simp add: bindE_def gets_def servers_of_def demo_store_def
        find_server_def demo_oauth_server_def refresh_token_def demo_credential_def ret_def)
  show ?thesis using renewal_keeps_newer_sign_in [OF demo_refresh run] by simp
qed

end
