(* ===== verification/Mcp_Choice.thy ===== *)
theory Mcp_Choice
  imports State_Store Idle_Schedule Mcp_Store
begin

text \<open>
  \<open>mcp/mcp-choice.ts\<close>, with the turn events of \<open>sandbox/manager/sandbox-manager.ts\<close> that drive it:
  the MCP servers a session hides. The stored choice lives in the session store, the snapshots of
  open turns in \<open>live\<close>, and whether a turn is open in the idle schedule, so the state here holds
  all three and the configured servers beside them. The steps of \<open>choice_step\<close> are what may happen
  to them in any order; the properties say that a choice stays put under an open turn and
  outlives changes of the defaults.
\<close>

text \<open>The pool's view of a server, by the fields the choice reads.\<close>

record server_view =
  sv_name :: string
  sv_enabled :: bool
  sv_status :: string
  sv_tool_count :: nat
  sv_tools :: "string list"

record mcp_choice_view =
  cv_servers :: "(string \<times> string \<times> nat \<times> string list) list"
  cv_disabled :: "string list"

record 'e choice_state =
  cs_live :: "(string \<times> string list) list"
  cs_store :: session_store
  cs_idle :: idle
  cs_servers :: "mcp_server_entry list"
  cs_notices :: nat
  cs_env :: 'e

section \<open>The choice\<close>

definition mcp_defaults :: "mcp_server_entry list \<Rightarrow> string list" where
  "mcp_defaults servers = map me_server_name (filter (\<lambda>s. me_enabled s \<and> me_off_by_default s) servers)"

definition chosen :: "string \<Rightarrow> 'e choice_state \<Rightarrow> string list" where
  "chosen sid s = or_else (disabled_servers sid (mem (cs_store s))) (mcp_defaults (cs_servers s))"

definition turn_live :: "string \<Rightarrow> 'e choice_state \<Rightarrow> bool" where
  "turn_live sid s = is_turn_live sid (cs_idle s)"

definition choice_view :: "server_view list \<Rightarrow> string \<Rightarrow> 'e choice_state \<Rightarrow> mcp_choice_view" where
  "choice_view views sid s =
    (let servers = filter sv_enabled views in
     \<lparr>cv_servers = map (\<lambda>v. (sv_name v, sv_status v, sv_tool_count v, sv_tools v)) servers,
      cv_disabled = filter (\<lambda>n. n \<in> set (map sv_name servers)) (chosen sid s)\<rparr>)"

definition hidden_servers :: "string \<Rightarrow> 'e choice_state \<Rightarrow> string list" where
  "hidden_servers sid s =
    (if turn_live sid s then or_else (map_of (cs_live s) sid) (chosen sid s) else chosen sid s)"

definition hides_every_server :: "string \<Rightarrow> 'e choice_state \<Rightarrow> bool" where
  "hides_every_server sid s \<longleftrightarrow> hidden_servers sid s \<noteq> []
     \<and> list_all (\<lambda>v. \<not> me_enabled v \<or> me_server_name v \<in> set (hidden_servers sid s)) (cs_servers s)"

definition same_servers :: "string list \<Rightarrow> string list \<Rightarrow> bool" where
  "same_servers left right \<longleftrightarrow> length left = length right \<and> list_all (\<lambda>n. n \<in> set left) right"

text \<open>\<open>changed\<close> is counted. A write of the store runs in the state's store and environment.\<close>

definition notify :: "'e choice_state \<Rightarrow> 'e choice_state" where
  "notify s = s\<lparr>cs_notices := Suc (cs_notices s)\<rparr>"

definition on_choice_store :: "(session_store \<times> 'e, 'a) comp \<Rightarrow> ('e choice_state, 'a) comp" where
  "on_choice_store m s =
    (case m (cs_store s, cs_env s) of (r, (d, e)) \<Rightarrow> (r, s\<lparr>cs_store := d, cs_env := e\<rparr>))"

definition choice_set ::
  "('e, unit) comp \<Rightarrow> server_view list \<Rightarrow> string \<Rightarrow> string list \<Rightarrow> ('e choice_state, mcp_choice_view) comp" where
  "choice_set flush views sid disabled =
    bindE (gets (\<lambda>s. find (\<lambda>n. n \<notin> set (map me_server_name (cs_servers s))) disabled)) (\<lambda>unknown.
    case unknown of
      Some n \<Rightarrow> throw (Plain (''unknown MCP server: '' @ n))
    | None \<Rightarrow>
       thenE (on_choice_store (change (put_disabled sid (sort (remdups disabled)))))
      (thenE (modify (\<lambda>s. if turn_live sid s then s else notify (s\<lparr>cs_live := AList.delete sid (cs_live s)\<rparr>)))
      (thenE (on_choice_store (persist flush))
       (gets (choice_view views sid)))))"

definition choice_begin_turn :: "string \<Rightarrow> 'e choice_state \<Rightarrow> 'e choice_state" where
  "choice_begin_turn sid s =
    (if map_of (cs_live s) sid \<noteq> None then s
     else s\<lparr>cs_live := AList.update sid (chosen sid s) (cs_live s)\<rparr>)"

definition choice_end_turn :: "string \<Rightarrow> 'e choice_state \<Rightarrow> bool \<times> 'e choice_state" where
  "choice_end_turn sid s =
    (if turn_live sid s then (False, s)
     else (let open_list = map_of (cs_live s) sid; s' = s\<lparr>cs_live := AList.delete sid (cs_live s)\<rparr>
           in ((case open_list of None \<Rightarrow> False | Some l \<Rightarrow> \<not> same_servers l (chosen sid s')), s')))"

text \<open>A failed write of a frozen choice is only warned about; the choice in memory stays.\<close>

definition choice_freeze :: "('e, unit) comp \<Rightarrow> string \<Rightarrow> nat \<Rightarrow> 'e choice_state \<Rightarrow> 'e choice_state" where
  "choice_freeze flush sid turn s =
    (if disabled_servers sid (mem (cs_store s)) \<noteq> None then s
     else notify (snd (on_choice_store
       (settle (set_disabled_mcp_servers flush sid (if turn > 1 then [] else mcp_defaults (cs_servers s)))) s)))"

section \<open>Turn events\<close>

definition turn_started :: "('e, unit) comp \<Rightarrow> string \<Rightarrow> nat \<Rightarrow> 'e choice_state \<Rightarrow> 'e choice_state" where
  "turn_started flush sid turn s =
    choice_begin_turn sid (choice_freeze flush sid turn (s\<lparr>cs_idle := begin_turn sid (cs_idle s)\<rparr>))"

definition turn_ended :: "(string \<Rightarrow> js_number) \<Rightarrow> string \<Rightarrow> 'e choice_state \<Rightarrow> 'e choice_state" where
  "turn_ended idle_ms sid s =
    (case choice_end_turn sid (s\<lparr>cs_idle := end_turn idle_ms sid (cs_idle s)\<rparr>) of
       (changed, s') \<Rightarrow> if changed then notify s' else s')"

text \<open>What may happen, in any order: turns of any session start and end, a page sets a choice (and
  its write may fail), the configured servers change, and the rest of the idle schedule moves on
  without touching the count of open turns.\<close>

inductive choice_step ::
  "(string \<Rightarrow> js_number) \<Rightarrow> ('e, unit) comp \<Rightarrow> 'e choice_state \<Rightarrow> 'e choice_state \<Rightarrow> bool"
  for idle_ms flush
where
  starts: "choice_step idle_ms flush s (turn_started flush sid turn s)"
| ends: "choice_step idle_ms flush s (turn_ended idle_ms sid s)"
| sets: "choice_step idle_ms flush s (snd (choice_set flush views sid disabled s))"
| configures: "choice_step idle_ms flush s (notify (s\<lparr>cs_servers := servers\<rparr>))"
| idles: "live_turns st = live_turns (cs_idle s) \<Longrightarrow> choice_step idle_ms flush s (s\<lparr>cs_idle := st\<rparr>)"

inductive choice_reachable ::
  "(string \<Rightarrow> js_number) \<Rightarrow> ('e, unit) comp \<Rightarrow> 'e choice_state \<Rightarrow> bool"
  for idle_ms flush
where
  boot: "choice_reachable idle_ms flush
    \<lparr>cs_live = [], cs_store = d, cs_idle = new_idle, cs_servers = servers, cs_notices = 0, cs_env = e\<rparr>"
| step: "choice_reachable idle_ms flush s \<Longrightarrow> choice_step idle_ms flush s s' \<Longrightarrow> choice_reachable idle_ms flush s'"

section \<open>Facts\<close>

text \<open>A snapshot exists exactly while a turn of its session is open.\<close>

definition snapshots_ok :: "'e choice_state \<Rightarrow> bool" where
  "snapshots_ok s \<longleftrightarrow> (\<forall>sid. (map_of (cs_live s) sid \<noteq> None) = turn_live sid s)
     \<and> (\<forall>sid n. map_of (live_turns (cs_idle s)) sid = Some n \<longrightarrow> n > 0)"

lemma turn_live_begin:
  "is_turn_live sid (begin_turn k st) \<longleftrightarrow> (if sid = k then or_else (map_of (live_turns st) k) 0 \<ge> 0 else is_turn_live sid st)"
  by (simp add: is_turn_live_def begin_turn_live or_else_def)

lemma turn_live_end:
  "is_turn_live sid (end_turn h k st) \<longleftrightarrow> (if sid = k then or_else (map_of (live_turns st) k) 0 > 1 else is_turn_live sid st)"
  by (simp add: is_turn_live_def end_turn_live or_else_def)

lemma notify_simps [simp]:
  "cs_live (notify s) = cs_live s" "cs_store (notify s) = cs_store s" "cs_idle (notify s) = cs_idle s"
  "cs_servers (notify s) = cs_servers s" "turn_live sid (notify s) = turn_live sid s"
  "chosen sid (notify s) = chosen sid s"
  by (simp_all add: notify_def turn_live_def chosen_def)

lemma snd_on_choice_store:
  "snd (on_choice_store m s) =
     s\<lparr>cs_store := fst (snd (m (cs_store s, cs_env s))), cs_env := snd (snd (m (cs_store s, cs_env s)))\<rparr>"
  by (simp add: on_choice_store_def split: prod.split)

lemma on_choice_store_frame [simp]:
  "cs_live (snd (on_choice_store m s)) = cs_live s" "cs_idle (snd (on_choice_store m s)) = cs_idle s"
  "cs_servers (snd (on_choice_store m s)) = cs_servers s"
  by (simp_all add: on_choice_store_def split: prod.split)

lemma freeze_frame [simp]:
  "cs_live (choice_freeze flush sid turn s) = cs_live s" "cs_idle (choice_freeze flush sid turn s) = cs_idle s"
  "cs_servers (choice_freeze flush sid turn s) = cs_servers s"
  by (simp_all add: choice_freeze_def)

text \<open>The stored choices after each operation, whatever becomes of its write.\<close>

definition choices :: "'e choice_state \<Rightarrow> string \<Rightarrow> string list option" where
  "choices s sid = disabled_servers sid (mem (cs_store s))"

lemma chosen_choices: "chosen sid s = or_else (choices s sid) (mcp_defaults (cs_servers s))"
  by (simp add: chosen_def choices_def)

lemma mem_store_op:
  "mem (cs_store (snd (on_choice_store (store_run flush op) s))) = store_effect op (mem (cs_store s))"
  using session_store.run_mem [of flush op "(cs_store s, cs_env s)"]
  by (simp add: snd_on_choice_store)

lemma disabled_put_disabled:
  "disabled_servers sid (put_disabled k ns f) = (if sid = k then Some ns else disabled_servers sid f)"
  by (simp add: disabled_servers_def put_disabled_def update_conv')

lemma settle_store: "snd (on_choice_store (settle m) s) = snd (on_choice_store m s)"
  by (simp add: snd_on_choice_store)

lemma choices_freeze:
  "choices (choice_freeze flush k turn s) sid =
     (if sid = k \<and> choices s k = None then Some (if turn > 1 then [] else mcp_defaults (cs_servers s))
      else choices s sid)"
  using mem_store_op [of flush "SetDisabled k (if turn > 1 then [] else mcp_defaults (cs_servers s))" s]
  by (auto simp: choice_freeze_def choices_def settle_store disabled_put_disabled)

text \<open>A choice that is refused changes nothing; an accepted one changes this choice alone, and the
  snapshot of the session only when no turn of it is open.\<close>

lemma choice_set_cases:
  assumes "snd (choice_set flush views k disabled s) = s'"
  shows "s' = s \<or> (cs_idle s' = cs_idle s \<and> cs_servers s' = cs_servers s
    \<and> choices s' = (choices s)(k \<mapsto> sort (remdups disabled))
    \<and> cs_live s' = (if turn_live k s then cs_live s else AList.delete k (cs_live s)))"
proof (cases "find (\<lambda>n. n \<notin> set (map me_server_name (cs_servers s))) disabled")
  case (Some n)
  with assms show ?thesis by (simp add: choice_set_def bindE_def gets_def throw_def)
next
  case None
  let ?put = "on_choice_store (change (put_disabled k (sort (remdups disabled))))"
  let ?mark = "\<lambda>s. if turn_live k s then s else notify (s\<lparr>cs_live := AList.delete k (cs_live s)\<rparr>)"
  have c: "change (put_disabled k ns) (d, e) = (Inr (), (d\<lparr>mem := put_disabled k ns (mem d)\<rparr>, e))" for ns d and e :: 'a
    by (simp add: change_def modify_def)
  have put: "?put s = (Inr (), s\<lparr>cs_store := (cs_store s)\<lparr>mem := put_disabled k (sort (remdups disabled)) (mem (cs_store s))\<rparr>\<rparr>)"
    by (simp add: on_choice_store_def c)
  let ?s1 = "?mark (s\<lparr>cs_store := (cs_store s)\<lparr>mem := put_disabled k (sort (remdups disabled)) (mem (cs_store s))\<rparr>\<rparr>)"
  have p: "mem (fst (snd (persist flush x))) = mem (fst x)" for x
    by (cases "persist flush x"; cases "fst (persist flush x)") (auto dest: persist_Inr persist_Inl)
  have "s' = snd (on_choice_store (persist flush) ?s1)"
    using assms None put
    by (auto simp: choice_set_def bindE_def thenE_def gets_def modify_def split: prod.split sum.split)
  moreover have "turn_live k ?s1 = turn_live k s" by (simp add: turn_live_def)
  ultimately show ?thesis
    by (auto simp: choices_def fun_eq_iff snd_on_choice_store p disabled_put_disabled turn_live_def notify_def)
qed

lemma choices_begin [simp]: "choices (choice_begin_turn k s) = choices s"
  by (simp add: fun_eq_iff choices_def choice_begin_turn_def)

lemma choices_notify [simp]: "choices (notify s) = choices s"
  by (simp add: fun_eq_iff choices_def)

lemma begin_frame [simp]:
  "cs_idle (choice_begin_turn k s) = cs_idle s" "cs_servers (choice_begin_turn k s) = cs_servers s"
  by (simp_all add: choice_begin_turn_def)

lemma begin_live:
  "map_of (cs_live (choice_begin_turn k s)) sid =
     (if sid = k \<and> map_of (cs_live s) k = None then Some (chosen k s) else map_of (cs_live s) sid)"
  by (auto simp: choice_begin_turn_def update_conv')

lemma turn_ended_frame:
  "cs_idle (turn_ended h k s) = end_turn h k (cs_idle s)" "cs_servers (turn_ended h k s) = cs_servers s"
  "choices (turn_ended h k s) = choices s"
  "map_of (cs_live (turn_ended h k s)) sid =
     (if sid = k \<and> \<not> is_turn_live k (end_turn h k (cs_idle s)) then None else map_of (cs_live s) sid)"
  by (auto simp: turn_ended_def choice_end_turn_def Let_def turn_live_def fun_eq_iff choices_def split: option.split)

lemma turn_started_frame:
  "cs_idle (turn_started flush k turn s) = begin_turn k (cs_idle s)"
  "cs_servers (turn_started flush k turn s) = cs_servers s"
  by (simp_all add: turn_started_def)

lemma choices_started:
  "choices (turn_started flush k turn s) sid =
     (if sid = k \<and> choices s k = None then Some (if turn > 1 then [] else mcp_defaults (cs_servers s))
      else choices s sid)"
proof -
  have "choices (s\<lparr>cs_idle := st\<rparr>) = choices s" for st by (simp add: fun_eq_iff choices_def)
  then show ?thesis by (simp add: turn_started_def choices_freeze)
qed

lemma live_started:
  "map_of (cs_live (turn_started flush k turn s)) sid =
     (if sid = k \<and> map_of (cs_live s) k = None then Some (chosen k (turn_started flush k turn s))
      else map_of (cs_live s) sid)"
  by (simp add: turn_started_def begin_live chosen_choices)

lemma snapshots_step: "choice_step h flush s s' \<Longrightarrow> snapshots_ok s \<Longrightarrow> snapshots_ok s'"
proof (induction rule: choice_step.induct)
  case (starts s k turn)
  then show ?case
    by (auto simp: snapshots_ok_def turn_live_def turn_started_frame live_started turn_live_begin begin_turn_live
        or_else_def is_turn_live_def intro: less_imp_le split: option.splits)
next
  case (ends s k)
  then show ?case
    by (auto simp: snapshots_ok_def turn_live_def turn_ended_frame turn_live_end end_turn_live
        or_else_def is_turn_live_def split: option.splits if_splits)
next
  case (sets s views k disabled)
  from choice_set_cases [of flush views k disabled s, OF refl] sets show ?case
    by (cases "is_turn_live k (cs_idle s)") (auto simp: snapshots_ok_def turn_live_def split: if_splits)
next
  case (configures s servers)
  then show ?case by (simp add: snapshots_ok_def turn_live_def)
next
  case (idles st s)
  then show ?case by (simp add: snapshots_ok_def turn_live_def is_turn_live_def)
qed

lemma snapshots_reachable: "choice_reachable h flush s \<Longrightarrow> snapshots_ok s"
proof (induction rule: choice_reachable.induct)
  case (boot d servers e)
  then show ?case by (simp add: snapshots_ok_def turn_live_def is_turn_live_def new_idle_def or_else_def)
qed (rule snapshots_step)

text \<open>The hidden servers of an open turn are its snapshot.\<close>

lemma hidden_open: "snapshots_ok s \<Longrightarrow> turn_live sid s \<Longrightarrow> map_of (cs_live s) sid = Some (hidden_servers sid s)"
  by (auto simp: snapshots_ok_def hidden_servers_def or_else_def split: option.split)

section \<open>Properties\<close>

text \<open>A stretch of steps throughout which a turn of the session is open.\<close>

inductive open_during ::
  "(string \<Rightarrow> js_number) \<Rightarrow> ('e, unit) comp \<Rightarrow> string \<Rightarrow> 'e choice_state \<Rightarrow> 'e choice_state \<Rightarrow> bool"
  for idle_ms flush sid
where
  open_now: "turn_live sid s \<Longrightarrow> open_during idle_ms flush sid s s"
| open_on: "open_during idle_ms flush sid s s' \<Longrightarrow> choice_step idle_ms flush s' s'' \<Longrightarrow> turn_live sid s''
     \<Longrightarrow> open_during idle_ms flush sid s s''"

lemma open_during_reachable:
  "open_during h flush sid s s' \<Longrightarrow> choice_reachable h flush s \<Longrightarrow> choice_reachable h flush s' \<and> turn_live sid s'"
  by (induction rule: open_during.induct) (auto intro: choice_reachable.step)

lemma hidden_step:
  assumes "choice_reachable h flush s" and "choice_step h flush s s'" and "turn_live sid s" and "turn_live sid s'"
  shows "hidden_servers sid s' = hidden_servers sid s"
proof -
  have ok: "snapshots_ok s" "snapshots_ok s'"
    using assms(1,2) snapshots_reachable choice_reachable.step by blast+
  have live: "map_of (cs_live s') sid = map_of (cs_live s) sid"
    using assms(2-4) hidden_open [OF ok(1) assms(3)]
  proof (induction rule: choice_step.induct)
    case (starts s k turn)
    then show ?case by (auto simp: live_started)
  next
    case (ends s k)
    then show ?case by (auto simp: turn_ended_frame turn_live_def)
  next
    case (sets s views k disabled)
    with choice_set_cases [of flush views k disabled s, OF refl] show ?case
      by (auto simp: turn_live_def)
  qed simp_all
  then show ?thesis
    using hidden_open [OF ok(1) assms(3)] hidden_open [OF ok(2) assms(4)] by simp
qed

text \<open>C23: The tools do not change under the model: as long as a turn of a session is open, whatever
  else happens, turns of its subagents, choices made on its page, writes that fail, servers added
  or removed, the servers the session hides stay those the turn began with.\<close>

theorem open_turn_keeps_servers:
  assumes "choice_reachable idle_ms flush s" and "open_during idle_ms flush sid s s'"
  shows "hidden_servers sid s' = hidden_servers sid s"
  using assms(2,1)
proof (induction rule: open_during.induct)
  case (open_on s s' s'')
  then have "choice_reachable idle_ms flush s'" "turn_live sid s'"
    using open_during_reachable by blast+
  from hidden_step [OF this(1) open_on.hyps(2) this(2) open_on.hyps(3)] open_on.IH [OF open_on.prems]
  show ?case by simp
qed simp

text \<open>The first turn of a session fixes its choice: it records the default of the moment (everything
  on, when the session is past its first turn), even if the write fails, and from then on only a
  choice set for this very session changes it.\<close>

lemma choice_outlives_defaults:
  assumes "choice_step idle_ms flush s s'" and "choices s sid = Some ns"
  shows "choices (turn_started flush k turn s0) k =
           Some (or_else (choices s0 k) (if turn > 1 then [] else mcp_defaults (cs_servers s0)))
    \<and> (choices s' sid = Some ns \<or> (\<exists>views disabled. s' = snd (choice_set flush views sid disabled s)))"
proof
  show "choices (turn_started flush k turn s0) k =
      Some (or_else (choices s0 k) (if turn > 1 then [] else mcp_defaults (cs_servers s0)))"
    by (auto simp: choices_started or_else_def split: option.split)
  show "choices s' sid = Some ns \<or> (\<exists>views disabled. s' = snd (choice_set flush views sid disabled s))"
    using assms
  proof (induction rule: choice_step.induct)
    case (sets s views k disabled)
    with choice_set_cases [of flush views k disabled s, OF refl] show ?case
      by (cases "k = sid") auto
  next
    case (starts s k turn)
    then show ?case by (auto simp: choices_started)
  next
    case (configures s servers)
    then show ?case by (simp add: choices_def)
  next
    case (idles st s)
    then show ?case by (simp add: choices_def)
  qed (simp add: turn_ended_frame)
qed

definition demo_boot :: "unit choice_state" where
  "demo_boot = \<lparr>cs_live = [], cs_store = \<lparr>mem = empty_state, disk = None, chain = None\<rparr>, cs_idle = new_idle,
     cs_servers = [(demo_entry ''none'')\<lparr>me_off_by_default := True\<rparr>], cs_notices = 0, cs_env = ()\<rparr>"

definition demo_open :: "unit choice_state" where
  "demo_open = turn_started (ret ()) ''s'' 1 demo_boot"

lemma demo_open_reachable: "choice_reachable demo_delay (ret ()) demo_open"
  unfolding demo_open_def demo_boot_def
  by (rule choice_reachable.step [OF choice_reachable.boot choice_step.starts])

lemma demo_open_live: "turn_live ''s'' demo_open"
  by (simp add: turn_live_def demo_open_def turn_started_frame turn_live_begin demo_boot_def new_idle_def or_else_def)

lemma demo_open_choice: "choices demo_open ''s'' = Some [''gh'']"
  by (simp add: demo_open_def choices_started)
    (simp add: choices_def demo_boot_def empty_state_def disabled_servers_def mcp_defaults_def demo_entry_def)

text \<open>The page turns everything on while the turn runs.\<close>

theorem open_turn_keeps_servers_witness:
  "hidden_servers ''s'' (snd (choice_set (ret ()) [] ''s'' [] demo_open)) = hidden_servers ''s'' demo_open"
proof (rule open_turn_keeps_servers [OF demo_open_reachable])
  have "turn_live ''s'' (snd (choice_set (ret ()) [] ''s'' [] demo_open))"
    using choice_set_cases [of "ret ()" "[]" "''s''" "[]" demo_open, OF refl] demo_open_live
    by (auto simp: turn_live_def)
  then show "open_during demo_delay (ret ()) ''s'' demo_open (snd (choice_set (ret ()) [] ''s'' [] demo_open))"
    by (rule open_during.open_on [OF open_during.open_now [OF demo_open_live] choice_step.sets])
qed

lemma choice_outlives_defaults_witness:
  "choices (notify (demo_open\<lparr>cs_servers := []\<rparr>)) ''s'' = Some [''gh'']
   \<or> (\<exists>views disabled. notify (demo_open\<lparr>cs_servers := []\<rparr>) = snd (choice_set (ret ()) views ''s'' disabled demo_open))"
  using choice_outlives_defaults [OF choice_step.configures [of demo_delay "ret ()" demo_open "[]"] demo_open_choice]
  by blast

end
