(* ===== verification/Git_Hosts.thy ===== *)
theory Git_Hosts
  imports Js_Values
begin

text \<open>
  \<open>credentials/git-hosts.ts\<close>: the table of Git hosts and the normal forms of its fields. The
  regular expressions are written out as conditions on the characters.
\<close>

record git_host =
  gh_host :: string
  gh_username :: string
  gh_secret :: string

definition DEFAULT_GIT_USERNAME :: string where "DEFAULT_GIT_USERNAME = ''oauth2''"
definition GITHUB_HOST :: string where "GITHUB_HOST = ''github.com''"
definition GITHUB_USERNAME :: string where "GITHUB_USERNAME = ''x-access-token''"
definition GITHUB_SECRET :: string where "GITHUB_SECRET = ''GITHUB_TOKEN''"

definition is_alpha :: "char \<Rightarrow> bool" where
  "is_alpha c = (is_lower c \<or> is_upper c)"

definition environment_name :: "string \<Rightarrow> bool" where
  "environment_name s = (case s of
     [] \<Rightarrow> False
   | c # cs \<Rightarrow> (is_alpha c \<or> c = CHR ''_'') \<and> list_all (\<lambda>d. is_alpha d \<or> is_digit d \<or> d = CHR ''_'') cs)"

text \<open>The texts are lower case already where these two are used.\<close>

definition alnum :: "char \<Rightarrow> bool" where "alnum c = (is_lower c \<or> is_digit c)"

definition host_label :: "string \<Rightarrow> bool" where
  "host_label s \<longleftrightarrow> s \<noteq> [] \<and> alnum (hd s) \<and> alnum (last s) \<and> list_all (\<lambda>c. alnum c \<or> c = CHR ''-'') s"

definition host_chars :: "string \<Rightarrow> bool" where
  "host_chars s \<longleftrightarrow> s \<noteq> [] \<and> list_all (\<lambda>c. alnum c \<or> c = CHR ''.'' \<or> c = CHR ''-'') s"

text \<open>\<open>HOST_WITH_PORT.exec\<close>: the host name and, after a colon, one to five digits.\<close>

definition host_with_port :: "string \<Rightarrow> (string \<times> string option) option" where
  "host_with_port s =
    (case index_of CHR '':'' s of
       None \<Rightarrow> if host_chars s then Some (s, None) else None
     | Some i \<Rightarrow>
        (let port = drop (Suc i) s
         in if host_chars (take i s) \<and> port \<noteq> [] \<and> length port \<le> 5 \<and> list_all is_digit port
            then Some (take i s, Some port) else None))"

definition bad_host :: error where
  "bad_host = Plain ''Enter a host name, optionally with a port''"

definition normalize_git_host :: "string \<Rightarrow> error + string" where
  "normalize_git_host input =
    (case host_with_port (to_lower (trim input)) of
       None \<Rightarrow> Inl bad_host
     | Some (hostname, port) \<Rightarrow>
        if \<not> list_all host_label (split_on CHR ''.'' hostname) then Inl bad_host
        else (case port of
           None \<Rightarrow> Inr hostname
         | Some p \<Rightarrow>
            (let v = read_nat p
             in if v < 1 \<or> v > 65535 then Inl (Plain ''Enter a port between 1 and 65535'')
                else Inr (if v = 443 then hostname else hostname @ '':'' @ show_nat v))))"

definition normalize_git_username :: "string \<Rightarrow> error + string" where
  "normalize_git_username input =
    (let username = trim input
     in if username = '''' \<or> CHR 0x0D \<in> set username \<or> CHR 0x0A \<in> set username
        then Inl (Plain ''Enter a username'') else Inr username)"

definition normalize_git_secret_name :: "string \<Rightarrow> error + string" where
  "normalize_git_secret_name input =
    (let n = trim input
     in if environment_name n then Inr n
        else Inl (Plain ''Enter a secret name: letters, digits, and underscores''))"

definition has_github_credential_row :: "git_host list \<Rightarrow> bool" where
  "has_github_credential_row rows \<longleftrightarrow> list_ex (\<lambda>e. gh_host e = GITHUB_HOST) rows"

definition git_hosts_for_secret :: "git_host list \<Rightarrow> string \<Rightarrow> string list" where
  "git_hosts_for_secret rows n =
    (let hosts = map gh_host (filter (\<lambda>e. gh_secret e = n) rows)
     in if n = GITHUB_SECRET \<and> \<not> has_github_credential_row rows then GITHUB_HOST # hosts else hosts)"

text \<open>\<open>isGitHostCredential\<close>, with the entry the checked value is used as.\<close>

definition nonempty_string :: "json option \<Rightarrow> string option" where
  "nonempty_string v = (case v of Some (JStr s) \<Rightarrow> if s = '''' then None else Some s | _ \<Rightarrow> None)"

definition git_host_credential :: "json \<Rightarrow> git_host option" where
  "git_host_credential v =
    (case (nonempty_string (field ''host'' v), nonempty_string (field ''username'' v),
           nonempty_string (field ''secret'' v)) of
       (Some h, Some u, Some s) \<Rightarrow> Some \<lparr>gh_host = h, gh_username = u, gh_secret = s\<rparr>
     | _ \<Rightarrow> None)"

definition is_git_host_credential :: "json \<Rightarrow> bool" where
  "is_git_host_credential v \<longleftrightarrow> git_host_credential v \<noteq> None"

section \<open>Normal forms are stable\<close>

lemma alnum_plain: "alnum c \<or> c = CHR ''.'' \<or> c = CHR ''-'' \<or> c = CHR '':'' \<Longrightarrow> \<not> is_space c \<and> \<not> is_upper c"
  by (auto simp: alnum_def is_space_def is_upper_def is_lower_def is_digit_def)

lemma alnum_not_colon: "alnum c \<or> c = CHR ''.'' \<or> c = CHR ''-'' \<Longrightarrow> c \<noteq> CHR '':''"
  by (auto simp: alnum_def is_lower_def is_digit_def)

lemma is_digit_alnum: "is_digit c \<Longrightarrow> alnum c"
  by (simp add: alnum_def)

lemma host_chars_set: "host_chars s \<Longrightarrow> c \<in> set s \<Longrightarrow> alnum c \<or> c = CHR ''.'' \<or> c = CHR ''-''"
  by (auto simp: host_chars_def list_all_iff)

lemma length_show_nat: "n < 10 ^ k \<Longrightarrow> 0 < k \<Longrightarrow> length (show_nat n) \<le> k"
proof (induction n arbitrary: k rule: show_nat.induct)
  case (1 n)
  show ?case
  proof (cases "n < 10")
    case True
    with "1.prems" show ?thesis by (simp add: show_nat.simps [of n])
  next
    case False
    with "1.prems" obtain j where j: "k = Suc j" "0 < j" by (cases k) (auto, cases "k - 1", auto)
    with "1.prems" have "n div 10 < 10 ^ j" by auto
    with "1.IH" [OF False this j(2)] j False show ?thesis by (simp add: show_nat.simps [of n])
  qed
qed

lemma normal_host_shape:
  assumes "normalize_git_host input = Inr h"
  shows "\<exists>n. host_chars n \<and> list_all host_label (split_on CHR ''.'' n)
    \<and> (h = n \<or> (\<exists>v. 1 \<le> v \<and> v \<le> 65535 \<and> v \<noteq> 443 \<and> h = n @ '':'' @ show_nat v))"
  using assms
  by (fastforce simp: normalize_git_host_def host_with_port_def Let_def not_less
      split: option.splits if_splits prod.splits)

text \<open>A normal host is its own normal form.\<close>

lemma normalize_git_host_idem:
  assumes "normalize_git_host input = Inr h"
  shows "normalize_git_host h = Inr h"
proof -
  from normal_host_shape [OF assms] obtain n where n: "host_chars n"
    "list_all host_label (split_on CHR ''.'' n)"
    "h = n \<or> (\<exists>v. 1 \<le> v \<and> v \<le> 65535 \<and> v \<noteq> 443 \<and> h = n @ '':'' @ show_nat v)" by blast
  have no_colon: "CHR '':'' \<notin> set n"
    using host_chars_set [OF n(1)] alnum_not_colon by blast
  have plain: "\<not> is_space c \<and> \<not> is_upper c" if "c \<in> set h" for c
    using that n(3) host_chars_set [OF n(1)] show_nat_digits is_digit_alnum
    by (intro alnum_plain) fastforce
  have same: "to_lower (trim h) = h"
    using plain by (simp add: trim_id to_lower_id)
  from n(3) show ?thesis
  proof (elim disjE exE conjE)
    assume h: "h = n"
    with no_colon have "index_of CHR '':'' h = None" by (simp add: index_of_None)
    with same n(1,2) h show ?thesis by (simp add: normalize_git_host_def host_with_port_def)
  next
    fix v assume v: "1 \<le> v" "v \<le> 65535" "v \<noteq> 443" "h = n @ '':'' @ show_nat v"
    then have "index_of CHR '':'' h = Some (length n)"
      using index_of_append [OF no_colon, of "show_nat v"] by simp
    moreover have "length (show_nat v) \<le> 5" using v(2) by (intro length_show_nat) simp_all
    moreover have "list_all is_digit (show_nat v)" by (simp add: list_all_iff show_nat_digits)
    ultimately have "host_with_port h = Some (n, Some (show_nat v))"
      using n(1) v(4) by (simp add: host_with_port_def)
    with same n(2) v show ?thesis by (simp add: normalize_git_host_def)
  qed
qed

lemma normalize_git_username_idem: "normalize_git_username i = Inr u \<Longrightarrow> normalize_git_username u = Inr u \<and> u \<noteq> ''''"
  by (auto simp: normalize_git_username_def Let_def split: if_splits)

lemma normalize_git_secret_name_idem:
  "normalize_git_secret_name i = Inr n \<Longrightarrow> normalize_git_secret_name n = Inr n \<and> n \<noteq> ''''"
  by (auto simp: normalize_git_secret_name_def Let_def environment_name_def split: if_splits)

lemma normalize_git_host_nonempty: "normalize_git_host i = Inr h \<Longrightarrow> h \<noteq> ''''"
  using normal_host_shape [of i h] by (auto simp: host_chars_def)

end
