(* ===== verification/Credential_Broker.thy ===== *)
theory Credential_Broker
  imports Git_Hosts Durable_File Runner_Attachment "HOL-Library.List_Lexorder" "HOL-Library.Char_ord"
begin

text \<open>
  \<open>credentials/broker.ts\<close>: the host's store of secrets and of the Git host table. The file is JSON,
  read by \<open>parse_broker_file\<close> in its three versions and written by \<open>render_broker\<close>; the URL parser
  is the parameter \<open>url_parts\<close>. A secret's name is taken not to be one of \<open>Object.prototype\<close>, whose
  members the code's plain objects also answer.
\<close>

section \<open>Data\<close>

record broker_file =
  bf_secrets :: "(string \<times> string) list"
  bf_workspaces :: "(string \<times> (string \<times> string) list) list"
  bf_git_hosts :: "git_host list"

definition empty_broker :: broker_file where
  "empty_broker = \<lparr>bf_secrets = [], bf_workspaces = [], bf_git_hosts = []\<rparr>"

type_synonym broker = "broker_file durable"

text \<open>What \<open>new URL\<close> gives; \<open>None\<close> where it throws.\<close>

record url_parts =
  url_protocol :: string
  url_hostname :: string
  url_host :: string
  url_pathname :: string

type_synonym url_parser = "string \<Rightarrow> url_parts option"

section \<open>Repository URLs\<close>

definition line_terminator :: "char \<Rightarrow> bool" where
  "line_terminator c \<longleftrightarrow> c = CHR 0x0A \<or> c = CHR 0x0D"

definition github_scp :: "string \<Rightarrow> string option" where
  "github_scp url =
    (let prefix = ''git@github.com:''; rest = drop (length prefix) url
     in if starts_with prefix url \<and> rest \<noteq> [] \<and> \<not> list_ex line_terminator rest then Some rest else None)"

definition drop_slash :: "string \<Rightarrow> string" where
  "drop_slash p = (case p of c # cs \<Rightarrow> if c = CHR ''/'' then cs else p | [] \<Rightarrow> [])"

definition normalize_repository_url :: "url_parser \<Rightarrow> string \<Rightarrow> string" where
  "normalize_repository_url parse url =
    (case github_scp url of
       Some path \<Rightarrow> ''https://github.com/'' @ path
     | None \<Rightarrow>
        (case parse url of
           None \<Rightarrow> url
         | Some u \<Rightarrow>
            if url_protocol u = ''ssh:'' \<and> to_lower (url_hostname u) = ''github.com''
            then ''https://github.com/'' @ drop_slash (url_pathname u)
            else url))"

definition strip_slashes :: "string \<Rightarrow> string" where
  "strip_slashes p = rev (dropWhile (\<lambda>c. c = CHR ''/'') (rev p))"

definition strip_git :: "string \<Rightarrow> string" where
  "strip_git p = (if ends_with ''.git'' (to_lower p) then take (length p - 4) p else p)"

definition strip_suffix :: "string \<Rightarrow> string" where
  "strip_suffix p = strip_slashes (strip_git (strip_slashes p))"

text \<open>The expression \<open>^(?:([^@/:]+)@)?([^/:]+):(.+)$\<close>: the optional user is what precedes the first \<open>@\<close>,
  unless nothing precedes or nothing follows it before the colon.\<close>

definition scp_parts :: "string \<Rightarrow> (string option \<times> string \<times> string) option" where
  "scp_parts s =
    (case index_of CHR '':'' s of
       None \<Rightarrow> None
     | Some i \<Rightarrow>
        (let authority = take i s; path = drop (Suc i) s
         in if authority = [] \<or> CHR ''/'' \<in> set authority \<or> path = [] \<or> list_ex line_terminator path
            then None
            else (case index_of CHR ''@'' authority of
                None \<Rightarrow> Some (None, authority, path)
              | Some j \<Rightarrow>
                 if j = 0 \<or> drop (Suc j) authority = [] then Some (None, authority, path)
                 else Some (Some (take j authority), drop (Suc j) authority, path))))"

definition workspace_key :: "url_parser \<Rightarrow> string \<Rightarrow> string" where
  "workspace_key parse url =
    (let normalized = normalize_repository_url parse (trim url)
     in case parse normalized of
          Some u \<Rightarrow> url_protocol u @ ''//'' @ url_host u @ strip_suffix (url_pathname u)
        | None \<Rightarrow>
           (case scp_parts normalized of
              Some (user, host, path) \<Rightarrow>
                (case user of None \<Rightarrow> '''' | Some n \<Rightarrow> n @ ''@'') @ to_lower host @ '':'' @ strip_suffix path
            | None \<Rightarrow> strip_suffix normalized))"

section \<open>Reading\<close>

definition stored_scope :: "url_parser \<Rightarrow> secret_scope \<Rightarrow> broker_file \<Rightarrow> (string \<times> string) list" where
  "stored_scope parse scope f =
    (case scope of
       GlobalScope \<Rightarrow> bf_secrets f
     | WorkspaceScope url \<Rightarrow>
        (case map_of (bf_workspaces f) (workspace_key parse url) of None \<Rightarrow> [] | Some ss \<Rightarrow> ss))"

definition broker_secrets :: "url_parser \<Rightarrow> secret_scope \<Rightarrow> broker_file \<Rightarrow> (string \<times> string) list" where
  "broker_secrets parse scope f =
    (case scope of
       GlobalScope \<Rightarrow> bf_secrets f
     | WorkspaceScope url \<Rightarrow> spread (bf_secrets f) (stored_scope parse scope f))"

definition secret_names :: "url_parser \<Rightarrow> secret_scope \<Rightarrow> broker_file \<Rightarrow> string list" where
  "secret_names parse scope f = sort (map fst (stored_scope parse scope f))"

text \<open>The loop of \<open>resolvedGitCredentials\<close>: \<open>hosts\<close> are those already answered.\<close>

fun table_credentials ::
  "(string \<times> string) list \<Rightarrow> string set \<Rightarrow> git_host list \<Rightarrow> git_credential list" where
  "table_credentials secrets hosts [] = []"
| "table_credentials secrets hosts (e # es) =
    (if gh_host e \<in> hosts then table_credentials secrets hosts es
     else case map_of secrets (gh_secret e) of
       None \<Rightarrow> table_credentials secrets hosts es
     | Some p \<Rightarrow> \<lparr>gc_host = gh_host e, gc_username = gh_username e, gc_password = p\<rparr>
         # table_credentials secrets (insert (gh_host e) hosts) es)"

definition resolved_git_credentials :: "url_parser \<Rightarrow> secret_scope \<Rightarrow> broker_file \<Rightarrow> git_credential list" where
  "resolved_git_credentials parse scope f =
    (let secrets = broker_secrets parse scope f
     in table_credentials secrets {} (bf_git_hosts f)
        @ (case map_of secrets GITHUB_SECRET of
             None \<Rightarrow> []
           | Some token \<Rightarrow>
              if has_github_credential_row (bf_git_hosts f) then []
              else [\<lparr>gc_host = GITHUB_HOST, gc_username = GITHUB_USERNAME, gc_password = token\<rparr>]))"

definition git_credentials :: "url_parser \<Rightarrow> string \<Rightarrow> broker_file \<Rightarrow> git_credential list" where
  "git_credentials parse url f = resolved_git_credentials parse (WorkspaceScope url) f"

definition global_git_credentials :: "url_parser \<Rightarrow> broker_file \<Rightarrow> git_credential list" where
  "global_git_credentials parse f = resolved_git_credentials parse GlobalScope f"

definition credential_of :: "url_parser \<Rightarrow> string \<Rightarrow> string option \<Rightarrow> broker_file \<Rightarrow> git_credential option" where
  "credential_of parse host url f =
    (case normalize_git_host host of
       Inl _ \<Rightarrow> None
     | Inr normalized \<Rightarrow>
        (let credentials =
           (case url of
              None \<Rightarrow> global_git_credentials parse f
            | Some u \<Rightarrow> if u = '''' then global_git_credentials parse f else git_credentials parse u f)
         in find (\<lambda>c. gc_host c = normalized) credentials))"

section \<open>The file\<close>

definition broker_format :: error where
  "broker_format = Plain ''credential broker file has an unsupported format''"

fun json_secrets :: "(string \<times> json) list \<Rightarrow> (string \<times> string) list option" where
  "json_secrets [] = Some []"
| "json_secrets ((k, v) # fs) =
    (case (as_string v, json_secrets fs) of (Some s, Some ss) \<Rightarrow> Some ((k, s) # ss) | _ \<Rightarrow> None)"

text \<open>\<open>isSecretRecord\<close> and \<open>isWorkspaceScopeMap\<close>, with the records they let through.\<close>

definition secret_record :: "json option \<Rightarrow> (string \<times> string) list option" where
  "secret_record v = (case v of Some (JObj fs) \<Rightarrow> json_secrets fs | _ \<Rightarrow> None)"

fun json_workspaces :: "(string \<times> json) list \<Rightarrow> (string \<times> (string \<times> string) list) list option" where
  "json_workspaces [] = Some []"
| "json_workspaces ((k, v) # fs) =
    (case (secret_record (Some v), json_workspaces fs) of (Some s, Some ss) \<Rightarrow> Some ((k, s) # ss) | _ \<Rightarrow> None)"

definition workspace_scope_map :: "json option \<Rightarrow> (string \<times> (string \<times> string) list) list option" where
  "workspace_scope_map v = (case v of Some (JObj fs) \<Rightarrow> json_workspaces fs | _ \<Rightarrow> None)"

definition normal_row :: "git_host \<Rightarrow> error + git_host" where
  "normal_row e =
    (case (normalize_git_host (gh_host e), normalize_git_username (gh_username e),
           normalize_git_secret_name (gh_secret e)) of
       (Inr h, Inr u, Inr s) \<Rightarrow> Inr \<lparr>gh_host = h, gh_username = u, gh_secret = s\<rparr>
     | (Inl e1, _, _) \<Rightarrow> Inl e1
     | (_, Inl e2, _) \<Rightarrow> Inl e2
     | (_, _, Inl e3) \<Rightarrow> Inl e3)"

fun parse_git_hosts_from :: "(string \<times> git_host) list \<Rightarrow> json list \<Rightarrow> error + git_host list" where
  "parse_git_hosts_from acc [] = Inr (map snd acc)"
| "parse_git_hosts_from acc (v # vs) =
    (case git_host_credential v of
       None \<Rightarrow> Inl broker_format
     | Some e \<Rightarrow>
        (case normal_row e of
           Inl _ \<Rightarrow> Inl broker_format
         | Inr r \<Rightarrow> parse_git_hosts_from (AList.update (gh_host r) r acc) vs))"

definition parse_git_hosts :: "json \<Rightarrow> error + git_host list" where
  "parse_git_hosts v = (case v of JArr vs \<Rightarrow> parse_git_hosts_from [] vs | _ \<Rightarrow> Inl broker_format)"

definition parse_broker_file :: "json \<Rightarrow> error + broker_file" where
  "parse_broker_file v =
    (let version = field ''version'' v in
     if version \<notin> {Some (JNum (js_int 1)), Some (JNum (js_int 2)), Some (JNum (js_int 3))} then Inl broker_format
     else case secret_record (field ''secrets'' v) of
       None \<Rightarrow> Inl broker_format
     | Some secrets \<Rightarrow>
        if version = Some (JNum (js_int 1))
        then Inr \<lparr>bf_secrets = secrets, bf_workspaces = [], bf_git_hosts = []\<rparr>
        else (case workspace_scope_map (field ''workspaces'' v) of
           None \<Rightarrow> Inl broker_format
         | Some workspaces \<Rightarrow>
            if version = Some (JNum (js_int 2))
            then Inr \<lparr>bf_secrets = secrets, bf_workspaces = workspaces, bf_git_hosts = []\<rparr>
            else (case field ''gitHosts'' v of
               None \<Rightarrow> Inl broker_format
             | Some hosts \<Rightarrow>
                map_sum id (\<lambda>hs. \<lparr>bf_secrets = secrets, bf_workspaces = workspaces, bf_git_hosts = hs\<rparr>)
                  (parse_git_hosts hosts))))"

definition render_secrets :: "(string \<times> string) list \<Rightarrow> json" where
  "render_secrets ss = JObj (map (\<lambda>(k, v). (k, JStr v)) ss)"

definition render_git_host :: "git_host \<Rightarrow> json" where
  "render_git_host e = JObj [(''host'', JStr (gh_host e)), (''username'', JStr (gh_username e)),
     (''secret'', JStr (gh_secret e))]"

definition render_broker :: "broker_file \<Rightarrow> json" where
  "render_broker f = JObj [(''version'', JNum (js_int 3)), (''secrets'', render_secrets (bf_secrets f)),
     (''workspaces'', JObj (map (\<lambda>(k, ss). (k, render_secrets ss)) (bf_workspaces f))),
     (''gitHosts'', JArr (map render_git_host (bf_git_hosts f)))]"

section \<open>Writing\<close>

definition put_secret :: "url_parser \<Rightarrow> secret_scope \<Rightarrow> string \<Rightarrow> string \<Rightarrow> broker_file \<Rightarrow> broker_file" where
  "put_secret parse scope n v f =
    (case scope of
       GlobalScope \<Rightarrow> f\<lparr>bf_secrets := AList.update n v (bf_secrets f)\<rparr>
     | WorkspaceScope url \<Rightarrow>
        f\<lparr>bf_workspaces := AList.update (workspace_key parse url)
             (AList.update n v (stored_scope parse scope f)) (bf_workspaces f)\<rparr>)"

definition drop_secret :: "url_parser \<Rightarrow> secret_scope \<Rightarrow> string \<Rightarrow> broker_file \<Rightarrow> broker_file" where
  "drop_secret parse scope n f =
    (case scope of
       GlobalScope \<Rightarrow> f\<lparr>bf_secrets := AList.delete n (bf_secrets f)\<rparr>
     | WorkspaceScope url \<Rightarrow>
        (let key = workspace_key parse url; left = AList.delete n (stored_scope parse scope f)
         in f\<lparr>bf_workspaces := (if left = [] then AList.delete key (bf_workspaces f)
                else AList.update key left (bf_workspaces f))\<rparr>))"

fun put_row :: "git_host \<Rightarrow> git_host list \<Rightarrow> git_host list" where
  "put_row e [] = [e]"
| "put_row e (r # rs) = (if gh_host r = gh_host e then e # rs else r # put_row e rs)"

fun drop_row :: "string \<Rightarrow> git_host list \<Rightarrow> git_host list" where
  "drop_row h [] = []"
| "drop_row h (r # rs) = (if gh_host r = h then rs else r # drop_row h rs)"

datatype broker_op =
    PutSecret secret_scope string string
  | DropSecret secret_scope string
  | PutRow git_host
  | DropRow string

fun broker_effect :: "url_parser \<Rightarrow> broker_op \<Rightarrow> broker_file \<Rightarrow> broker_file" where
  "broker_effect parse (PutSecret scope n v) = put_secret parse scope n v"
| "broker_effect parse (DropSecret scope n) = drop_secret parse scope n"
| "broker_effect parse (PutRow e) = (\<lambda>f. f\<lparr>bf_git_hosts := put_row e (bf_git_hosts f)\<rparr>)"
| "broker_effect parse (DropRow h) = (\<lambda>f. f\<lparr>bf_git_hosts := drop_row h (bf_git_hosts f)\<rparr>)"

definition broker_write :: "url_parser \<Rightarrow> ('e, unit) comp \<Rightarrow> broker_op \<Rightarrow> (broker \<times> 'e, unit) comp" where
  "broker_write parse flush op = thenE (change (broker_effect parse op)) (persist flush)"

interpretation broker_store: durable_store "broker_write parse flush" "broker_effect parse" flush
  for parse :: url_parser and flush :: "('e, unit) comp"
  by unfold_locales (simp add: broker_write_def)

definition broker_content :: "broker \<times> 'e \<Rightarrow> broker_file" where
  "broker_content s = mem (fst s)"

definition set_secret ::
  "url_parser \<Rightarrow> ('e, unit) comp \<Rightarrow> secret_scope \<Rightarrow> string \<Rightarrow> string \<Rightarrow> (broker \<times> 'e, unit) comp" where
  "set_secret parse flush scope n v =
    (if \<not> environment_name n then throw (Plain (''invalid environment variable name: '' @ n))
     else broker_write parse flush (PutSecret scope n v))"

definition delete_secret ::
  "url_parser \<Rightarrow> ('e, unit) comp \<Rightarrow> secret_scope \<Rightarrow> string \<Rightarrow> (broker \<times> 'e, unit) comp" where
  "delete_secret parse flush scope n =
    bindE (gets (\<lambda>s. case scope of
        GlobalScope \<Rightarrow> True
      | WorkspaceScope url \<Rightarrow> map_of (bf_workspaces (broker_content s)) (workspace_key parse url) \<noteq> None)) (\<lambda>present.
      if present then broker_write parse flush (DropSecret scope n) else ret ())"

definition set_git_host ::
  "url_parser \<Rightarrow> ('e, unit) comp \<Rightarrow> string \<Rightarrow> string \<Rightarrow> string \<Rightarrow> (broker \<times> 'e, unit) comp" where
  "set_git_host parse flush host username secret =
    bindE (liftE (normal_row \<lparr>gh_host = host, gh_username = username, gh_secret = secret\<rparr>)) (\<lambda>e.
      broker_write parse flush (PutRow e))"

definition delete_git_host ::
  "url_parser \<Rightarrow> ('e, unit) comp \<Rightarrow> string \<Rightarrow> (broker \<times> 'e, unit) comp" where
  "delete_git_host parse flush host =
    bindE (liftE (normalize_git_host host)) (\<lambda>h.
    bindE (gets (\<lambda>s. list_ex (\<lambda>r. gh_host r = h) (bf_git_hosts (broker_content s)))) (\<lambda>present.
      if present then broker_write parse flush (DropRow h) else ret ()))"

definition broker_refresh :: "(broker \<times> 'e \<Rightarrow> error + json option) \<Rightarrow> (broker \<times> 'e, unit) comp" where
  "broker_refresh reading = reload parse_broker_file empty_broker reading"

definition broker_initialize ::
  "('e, unit) comp \<Rightarrow> (broker \<times> 'e \<Rightarrow> error + json option) \<Rightarrow> (broker \<times> 'e, unit) comp" where
  "broker_initialize make_dir reading =
    thenE (\<lambda>(d, e). case make_dir e of (r, e') \<Rightarrow> (r, (d, e'))) (broker_refresh reading)"

section \<open>Facts\<close>

text \<open>The keys of a JavaScript object are distinct; the rows of the table are in normal form, one per
  host.\<close>

definition rows_ok :: "git_host list \<Rightarrow> bool" where
  "rows_ok rows \<longleftrightarrow> distinct (map gh_host rows) \<and> list_all (\<lambda>r. normal_row r = Inr r) rows"

definition keys_ok :: "broker_file \<Rightarrow> bool" where
  "keys_ok f \<longleftrightarrow> distinct (map fst (bf_secrets f)) \<and> distinct (map fst (bf_workspaces f))
     \<and> list_all (\<lambda>(_, ss). distinct (map fst ss)) (bf_workspaces f)"

definition broker_ok :: "broker_file \<Rightarrow> bool" where
  "broker_ok f \<longleftrightarrow> rows_ok (bf_git_hosts f) \<and> keys_ok f"

lemma normal_row_normal: "normal_row e = Inr r \<Longrightarrow> normal_row r = Inr r"
  by (auto simp: normal_row_def normalize_git_host_idem normalize_git_username_idem
      normalize_git_secret_name_idem split: sum.splits)

lemma normal_row_nonempty: "normal_row e = Inr r \<Longrightarrow> gh_host r \<noteq> [] \<and> gh_username r \<noteq> [] \<and> gh_secret r \<noteq> []"
  by (auto simp: normal_row_def dest: normalize_git_host_nonempty normalize_git_username_idem
      normalize_git_secret_name_idem split: sum.splits)

lemma gh_host_put_row: "gh_host ` set (put_row e rs) = insert (gh_host e) (gh_host ` set rs)"
  by (induction rs) auto

lemma rows_ok_put: "rows_ok rs \<Longrightarrow> normal_row e = Inr e \<Longrightarrow> rows_ok (put_row e rs)"
  by (induction rs) (auto simp: rows_ok_def gh_host_put_row)

lemma set_drop_row: "set (drop_row h rs) \<subseteq> set rs"
  by (induction rs) auto

lemma rows_ok_drop: "rows_ok rs \<Longrightarrow> rows_ok (drop_row h rs)"
proof (induction rs)
  case (Cons r rs)
  then show ?case using set_drop_row [of h rs] by (auto simp: rows_ok_def list_all_iff)
qed simp

lemma stored_scope_distinct: "keys_ok f \<Longrightarrow> distinct (map fst (stored_scope parse scope f))"
  by (auto simp: stored_scope_def keys_ok_def list_all_iff split: secret_scope.split option.split
      dest: map_of_SomeD)

lemma keys_ok_put: "keys_ok f \<Longrightarrow> keys_ok (put_secret parse scope n v f)"
  using stored_scope_distinct [of f parse scope]
  by (auto simp: put_secret_def keys_ok_def list_all_update_alist split: secret_scope.split)

lemma keys_ok_drop: "keys_ok f \<Longrightarrow> keys_ok (drop_secret parse scope n f)"
  using stored_scope_distinct [of f parse scope]
  by (auto simp: drop_secret_def keys_ok_def list_all_update_alist list_all_delete_alist Let_def
      split: secret_scope.split)

lemma broker_ok_effect:
  "broker_ok f \<Longrightarrow> (\<And>e. op = PutRow e \<Longrightarrow> normal_row e = Inr e) \<Longrightarrow> broker_ok (broker_effect parse op f)"
proof (cases op)
  case (PutSecret scope n v)
  assume "broker_ok f"
  then show ?thesis
    using keys_ok_put [of f parse scope n v]
    by (auto simp: PutSecret broker_ok_def put_secret_def split: secret_scope.split)
next
  case (DropSecret scope n)
  assume "broker_ok f"
  then show ?thesis
    using keys_ok_drop [of f parse scope n]
    by (auto simp: DropSecret broker_ok_def drop_secret_def Let_def split: secret_scope.split)
qed (auto simp: broker_ok_def rows_ok_put rows_ok_drop keys_ok_def)

text \<open>The file read back.\<close>

lemma json_secrets_render: "json_secrets (map (\<lambda>(k, v). (k, JStr v)) ss) = Some ss"
  by (induction ss) auto

lemma json_workspaces_render: "json_workspaces (map (\<lambda>(k, ss). (k, render_secrets ss)) ws) = Some ws"
  by (induction ws) (auto simp: secret_record_def render_secrets_def json_secrets_render)

lemma git_host_credential_render:
  "normal_row e = Inr e \<Longrightarrow> git_host_credential (render_git_host e) = Some e"
  using normal_row_nonempty [of e e]
  by (simp add: git_host_credential_def render_git_host_def nonempty_string_def)

lemma parse_git_hosts_render:
  "rows_ok rs \<Longrightarrow> gh_host ` set rs \<inter> fst ` set acc = {} \<Longrightarrow>
     parse_git_hosts_from acc (map render_git_host rs) = Inr (map snd acc @ rs)"
proof (induction rs arbitrary: acc)
  case (Cons r rs)
  then have "gh_host r \<notin> fst ` set acc" "normal_row r = Inr r" "gh_host r \<notin> gh_host ` set rs" "rows_ok rs"
    by (auto simp: rows_ok_def)
  moreover from this(1) have "AList.update (gh_host r) r acc = acc @ [(gh_host r, r)]"
    by (induction acc) auto
  ultimately show ?case
    using Cons.IH [of "acc @ [(gh_host r, r)]"] Cons.prems(2)
    by (auto simp: git_host_credential_render)
qed simp

lemma parse_render_broker: "rows_ok (bf_git_hosts f) \<Longrightarrow> parse_broker_file (render_broker f) = Inr f"
  using parse_git_hosts_render [of "bf_git_hosts f" "[]"]
  by (simp add: parse_broker_file_def render_broker_def render_secrets_def secret_record_def
      workspace_scope_map_def parse_git_hosts_def json_secrets_render
      json_workspaces_render [unfolded render_secrets_def] Let_def)

text \<open>Effective secrets.\<close>

lemma map_of_spread_distinct: "distinct (map fst b) \<Longrightarrow> map_of (spread a b) = map_of a ++ map_of b"
  using map_of_inject_set [of "rev b" b]
  by (intro ext) (simp add: map_of_spread map_add_def rev_map [symmetric])

definition effective :: "url_parser \<Rightarrow> secret_scope \<Rightarrow> broker_file \<Rightarrow> string \<Rightarrow> string option" where
  "effective parse scope f = map_of (broker_secrets parse scope f)"

lemma effective_scopes:
  "effective parse GlobalScope f = map_of (bf_secrets f)"
  "keys_ok f \<Longrightarrow> effective parse (WorkspaceScope url) f
     = map_of (bf_secrets f) ++ map_of (stored_scope parse (WorkspaceScope url) f)"
  by (simp_all add: effective_def broker_secrets_def map_of_spread_distinct stored_scope_distinct)

lemma stored_put_secret:
  "map_of (stored_scope parse (WorkspaceScope url) (put_secret parse scope n v f)) =
     (case scope of
        GlobalScope \<Rightarrow> map_of (stored_scope parse (WorkspaceScope url) f)
      | WorkspaceScope u \<Rightarrow>
          if workspace_key parse u = workspace_key parse url
          then (map_of (stored_scope parse (WorkspaceScope url) f))(n \<mapsto> v)
          else map_of (stored_scope parse (WorkspaceScope url) f))"
  by (auto simp: stored_scope_def put_secret_def split: secret_scope.split option.split)

text \<open>The credentials of the table.\<close>

lemma table_credentials_hosts:
  "gc_host ` set (table_credentials ss hosts es) \<inter> hosts = {}
   \<and> distinct (map gc_host (table_credentials ss hosts es))"
  by (induction ss hosts es rule: table_credentials.induct) (auto split: option.split)

lemma table_credentials_from:
  "c \<in> set (table_credentials ss hosts es) \<Longrightarrow> gc_host c \<in> gh_host ` set es"
  by (induction ss hosts es rule: table_credentials.induct) (auto split: if_splits option.splits)

lemma table_credentials_iff:
  "distinct (map gh_host es) \<Longrightarrow> c \<in> set (table_credentials ss hosts es) \<longleftrightarrow>
     (\<exists>e \<in> set es. gh_host e \<notin> hosts \<and> gc_host c = gh_host e \<and> gc_username c = gh_username e
        \<and> map_of ss (gh_secret e) = Some (gc_password c))"
proof (induction ss hosts es rule: table_credentials.induct)
  case (2 ss hosts e es)
  show ?case
  proof (cases "gh_host e \<in> hosts \<or> map_of ss (gh_secret e) = None")
    case True
    with 2 show ?thesis by (auto split: option.split)
  next
    case False
    then obtain p where p: "map_of ss (gh_secret e) = Some p" "gh_host e \<notin> hosts" by auto
    from "2.prems" have fresh: "gh_host e \<notin> gh_host ` set es" "distinct (map gh_host es)" by simp_all
    then have "(\<exists>x \<in> set es. gh_host x \<notin> insert (gh_host e) hosts \<and> Q x) \<longleftrightarrow> (\<exists>x \<in> set es. gh_host x \<notin> hosts \<and> Q x)" for Q
      by (metis image_eqI insert_iff)
    with "2.IH"(3) [OF p(2) p(1) fresh(2)] p show ?thesis
      by (cases c) auto
  qed
qed simp

text \<open>The rows stay in normal form through every operation, and any file read has normal rows.\<close>

definition stored_rows_ok :: "broker \<times> 'e \<Rightarrow> bool" where
  "stored_rows_ok s \<longleftrightarrow> rows_ok (bf_git_hosts (broker_content s))"

lemma parse_git_hosts_from_ok:
  assumes "parse_git_hosts_from acc vs = Inr rows" and "rows_ok (map snd acc)" and "map fst acc = map (gh_host \<circ> snd) acc"
  shows "rows_ok rows"
  using assms
proof (induction acc vs rule: parse_git_hosts_from.induct)
  case (2 acc v vs)
  then obtain e r where e: "git_host_credential v = Some e" "normal_row e = Inr r"
    "parse_git_hosts_from (AList.update (gh_host r) r acc) vs = Inr rows"
    by (auto split: option.splits sum.splits)
  have keys: "map fst (AList.update (gh_host r) r acc) = map (gh_host \<circ> snd) (AList.update (gh_host r) r acc)"
    using "2.prems"(3) by (induction acc) auto
  have hosts: "map gh_host (map snd al) = map fst al" if "map fst al = map (gh_host \<circ> snd) al" for al :: "(string \<times> git_host) list"
    using that by simp
  have "distinct (map fst (AList.update (gh_host r) r acc))"
    using "2.prems"(2) hosts [OF "2.prems"(3)]
    by (intro distinct_update_alist) (simp only: rows_ok_def)
  moreover have "list_all (\<lambda>r. normal_row r = Inr r) (map snd (AList.update (gh_host r) r acc))"
    using "2.prems"(2) normal_row_normal [OF e(2)]
    by (auto simp: rows_ok_def list_all_iff dest!: set_updateD)
  ultimately have "rows_ok (map snd (AList.update (gh_host r) r acc))"
    using hosts [OF keys] keys by (simp add: rows_ok_def)
  from "2.IH" [OF e(1) e(2) e(3) this keys] show ?case .
qed (simp add: rows_ok_def)

lemma rows_ok_Nil: "rows_ok []"
  by (simp add: rows_ok_def)

lemma parse_broker_rows: "parse_broker_file v = Inr f \<Longrightarrow> rows_ok (bf_git_hosts f)"
  unfolding parse_broker_file_def parse_git_hosts_def Let_def
  by (auto simp: rows_ok_Nil map_sum_def split: if_splits option.splits json.splits sum.splits
      intro: parse_git_hosts_from_ok)

lemma broker_write_content: "broker_content (snd (broker_write parse flush op s)) = broker_effect parse op (broker_content s)"
  by (simp add: broker_content_def broker_store.run_mem)

lemma broker_write_rows:
  "(\<And>e. op = PutRow e \<Longrightarrow> normal_row e = Inr e) \<Longrightarrow> preserves stored_rows_ok (broker_write parse flush op)"
  unfolding preserves_def stored_rows_ok_def broker_write_content
  by (cases op) (auto simp: rows_ok_put rows_ok_drop put_secret_def drop_secret_def Let_def split: secret_scope.split)

lemma preserves_liftE_bind:
  "(\<And>a. r = Inr a \<Longrightarrow> preserves I (k a)) \<Longrightarrow> preserves I (bindE (liftE r) k)"
  by (cases r) (simp_all add: preserves_def bindE_def liftE_def)

lemma broker_ops_rows:
  "preserves stored_rows_ok (set_secret parse flush scope n v)"
  "preserves stored_rows_ok (delete_secret parse flush scope n)"
  "preserves stored_rows_ok (set_git_host parse flush h u p)"
  "preserves stored_rows_ok (delete_git_host parse flush h)"
  "preserves stored_rows_ok (broker_refresh reading)"
proof -
  show "preserves stored_rows_ok (broker_refresh reading)"
    unfolding broker_refresh_def stored_rows_ok_def broker_content_def
    by (rule preserves_reload) (auto simp: empty_broker_def rows_ok_Nil parse_broker_rows)
qed (auto simp: set_secret_def delete_secret_def set_git_host_def delete_git_host_def
    intro!: preserves_rules preserves_liftE_bind broker_write_rows normal_row_normal)

section \<open>Properties\<close>

text \<open>The credentials Git may ask for are exactly those of the rows whose secret the scope has, and
  the built-in one of github.com when the table has no row for it; no host is answered twice.\<close>

lemma git_credentials_exact:
  assumes "rows_ok (bf_git_hosts f)"
  shows "distinct (map gc_host (resolved_git_credentials parse scope f))
    \<and> (c \<in> set (resolved_git_credentials parse scope f) \<longleftrightarrow>
         (\<exists>e \<in> set (bf_git_hosts f). gc_host c = gh_host e \<and> gc_username c = gh_username e
            \<and> effective parse scope f (gh_secret e) = Some (gc_password c))
         \<or> (GITHUB_HOST \<notin> gh_host ` set (bf_git_hosts f) \<and> gc_host c = GITHUB_HOST
            \<and> gc_username c = GITHUB_USERNAME \<and> effective parse scope f GITHUB_SECRET = Some (gc_password c)))"
proof -
  let ?ss = "broker_secrets parse scope f"
  have row: "has_github_credential_row (bf_git_hosts f) \<longleftrightarrow> GITHUB_HOST \<in> gh_host ` set (bf_git_hosts f)"
    by (force simp: has_github_credential_row_def list_ex_iff)
  have "distinct (map gc_host (resolved_git_credentials parse scope f))"
    using table_credentials_hosts [of ?ss "{}" "bf_git_hosts f"] table_credentials_from [of _ ?ss "{}" "bf_git_hosts f"]
    by (auto simp: resolved_git_credentials_def Let_def row split: option.split) metis
  moreover have "c \<in> set (table_credentials ?ss {} (bf_git_hosts f)) \<longleftrightarrow>
      (\<exists>e \<in> set (bf_git_hosts f). gc_host c = gh_host e \<and> gc_username c = gh_username e
         \<and> effective parse scope f (gh_secret e) = Some (gc_password c))"
    using assms by (simp add: table_credentials_iff rows_ok_def effective_def)
  ultimately show ?thesis
    by (cases c) (auto simp: resolved_git_credentials_def Let_def row effective_def split: option.split)
qed

text \<open>Scopes stay apart: storing a secret changes what a sandbox of a workspace receives exactly when
  it is the workspace's own scope, by the key both URLs share, or the global scope and the
  workspace has no secret of that name itself; it never changes another name.\<close>

lemma secret_scopes_isolated:
  assumes "set_secret parse flush scope n v s = (Inr (), t)" and "keys_ok (broker_content s)"
  shows "effective parse (WorkspaceScope url) (broker_content t) =
      (let before = effective parse (WorkspaceScope url) (broker_content s)
       in case scope of
            GlobalScope \<Rightarrow>
              if n \<in> set (secret_names parse (WorkspaceScope url) (broker_content s)) then before else before(n \<mapsto> v)
          | WorkspaceScope u \<Rightarrow>
              if workspace_key parse u = workspace_key parse url then before(n \<mapsto> v) else before)
    \<and> effective parse GlobalScope (broker_content t) =
      (if scope = GlobalScope then (effective parse GlobalScope (broker_content s))(n \<mapsto> v)
       else effective parse GlobalScope (broker_content s))
    \<and> disk (fst t) = Some (broker_content t)"
proof -
  from assms(1) have w: "broker_write parse flush (PutSecret scope n v) s = (Inr (), t)"
    by (auto simp: set_secret_def throw_def split: if_splits)
  have c: "broker_content t = put_secret parse scope n v (broker_content s)"
    using broker_write_content [of parse flush "PutSecret scope n v" s] w by simp
  have d: "disk (fst t) = Some (broker_content t)"
    using broker_store.run_saved [OF w] by (simp add: broker_content_def)
  have k: "keys_ok (broker_content t)" using assms(2) by (simp add: c keys_ok_put)
  have names: "n \<in> set (secret_names parse (WorkspaceScope url) (broker_content s))
      \<longleftrightarrow> map_of (stored_scope parse (WorkspaceScope url) (broker_content s)) n \<noteq> None"
    by (simp add: secret_names_def map_of_eq_None_iff)
  have g: "bf_secrets (broker_content t) = (if scope = GlobalScope then AList.update n v (bf_secrets (broker_content s))
      else bf_secrets (broker_content s))"
    by (cases scope) (simp_all add: c put_secret_def)
  show ?thesis
    unfolding effective_scopes(1) effective_scopes(2) [OF k] effective_scopes(2) [OF assms(2)] names g
    using stored_put_secret [of parse url scope n v "broker_content s"] d
    by (cases scope) (auto simp: c Let_def fun_eq_iff map_add_def split: option.split)
qed

text \<open>The broker never writes a file it cannot read back: from a table in normal form, or from
  whatever file a refresh accepted, every operation, failed or not, leaves a state whose rendering
  parses to that state.\<close>

lemma broker_file_roundtrip:
  assumes "stored_rows_ok s"
    and "t \<in> {snd (set_secret parse flush scope n v s), snd (delete_secret parse flush scope n s),
      snd (set_git_host parse flush h u p s), snd (delete_git_host parse flush h s), snd (broker_refresh reading s)}"
  shows "stored_rows_ok t \<and> parse_broker_file (render_broker (broker_content t)) = Inr (broker_content t)"
proof -
  from assms(2) have "stored_rows_ok t"
    by (auto intro: preserves_snd [where I = stored_rows_ok, OF _ assms(1)] broker_ops_rows)
  then show ?thesis by (simp add: parse_render_broker stored_rows_ok_def)
qed

section \<open>Witnesses\<close>

definition demo_urls :: url_parser where "demo_urls u = None"

definition demo_broker :: broker_file where
  "demo_broker = \<lparr>bf_secrets = [(''GITHUB_TOKEN'', ''g''), (''TOKEN'', ''t'')],
     bf_workspaces = [(''/repo'', [(''TOKEN'', ''w'')])],
     bf_git_hosts = [\<lparr>gh_host = ''git.example:8443'', gh_username = ''oauth2'', gh_secret = ''TOKEN''\<rparr>]\<rparr>"

definition demo_broker_state :: "broker \<times> unit" where
  "demo_broker_state = (\<lparr>mem = demo_broker, disk = None, chain = None\<rparr>, ())"

lemma demo_rows: "rows_ok (bf_git_hosts demo_broker)"
  by (simp add: rows_ok_def demo_broker_def normal_row_def normalize_git_host_def host_with_port_def trim_def
      is_space_def to_lower_def is_upper_def host_chars_def alnum_def is_lower_def is_digit_def host_label_def
      read_nat_def digit_val_def show_nat.simps digit_char_def normalize_git_username_def
      normalize_git_secret_name_def environment_name_def is_alpha_def)

lemma demo_keys: "keys_ok (broker_content demo_broker_state)"
  by (simp add: keys_ok_def demo_broker_state_def broker_content_def demo_broker_def)

lemma git_credentials_exact_witness:
  "\<lparr>gc_host = ''git.example:8443'', gc_username = ''oauth2'', gc_password = ''w''\<rparr>
     \<in> set (resolved_git_credentials demo_urls (WorkspaceScope ''/repo/'') demo_broker)"
  using git_credentials_exact [OF demo_rows, of demo_urls "WorkspaceScope ''/repo/''"
      "\<lparr>gc_host = ''git.example:8443'', gc_username = ''oauth2'', gc_password = ''w''\<rparr>"]
  by (simp add: demo_broker_def effective_def broker_secrets_def stored_scope_def workspace_key_def
      normalize_repository_url_def github_scp_def demo_urls_def trim_def is_space_def scp_parts_def
      strip_suffix_def strip_slashes_def strip_git_def ends_with_def to_lower_def is_upper_def spread_def Let_def)

definition demo_set :: "broker \<times> unit" where
  "demo_set = snd (set_secret demo_urls (ret ()) GlobalScope ''TOKEN'' ''new'' demo_broker_state)"

lemma demo_set_eq: "set_secret demo_urls (ret ()) GlobalScope ''TOKEN'' ''new'' demo_broker_state = (Inr (), demo_set)"
  by (simp add: demo_set_def set_secret_def environment_name_def is_alpha_def is_upper_def is_digit_def is_lower_def
      broker_write_def thenE_def bindE_def change_def modify_def persist_def ret_def demo_broker_state_def)

lemma secret_scopes_isolated_witness:
  "effective demo_urls GlobalScope (broker_content demo_set) ''TOKEN'' = Some ''new''"
  using secret_scopes_isolated [OF demo_set_eq demo_keys, of "''/repo''"] by simp

lemma broker_file_roundtrip_witness:
  "parse_broker_file (render_broker (broker_content (snd (delete_git_host demo_urls (ret ()) ''x'' demo_broker_state))))
     = Inr (broker_content (snd (delete_git_host demo_urls (ret ()) ''x'' demo_broker_state)))"
  using broker_file_roundtrip [of demo_broker_state, where t = "snd (delete_git_host demo_urls (ret ()) ''x'' demo_broker_state)"
      and h = "''x''" and parse = demo_urls and flush = "ret ()"] demo_rows
  by (simp add: stored_rows_ok_def demo_broker_state_def broker_content_def)

end
