(* ===== verification/Message_Queue.thy ===== *)
theory Message_Queue
  imports Prelude
begin

text \<open>
  \<open>core/message-queue.ts\<close>: the pull-based source of a request stream. A promise \<open>next()\<close> gives is a
  number its caller chose; an operation answers which promises it settles, and with what. The
  methods of the iterator and of the producer are interleaved in any order by \<open>queue_step\<close>, and the
  queue is shown to implement a channel (\<open>channel_step\<close>): what is received is what was sent, in
  order, nothing lost and nothing invented, until the consumer injects a failure.
\<close>

datatype 'm outcome = Item 'm | Finished | Rejected error

record 'm message_queue =
  buffered :: "'m list"
  waiting :: "nat option"
  ended :: bool
  failure :: "error option"

definition new_queue :: "'m message_queue" where
  "new_queue = \<lparr>buffered = [], waiting = None, ended = False, failure = None\<rparr>"

type_synonym 'm settled = "(nat \<times> 'm outcome) list"

definition settle_waiting :: "'m message_queue \<Rightarrow> 'm outcome \<Rightarrow> 'm settled" where
  "settle_waiting q a = (case waiting q of None \<Rightarrow> [] | Some i \<Rightarrow> [(i, a)])"

definition push :: "'m \<Rightarrow> 'm message_queue \<Rightarrow> error + ('m settled \<times> 'm message_queue)" where
  "push m q =
    (if ended q \<or> failure q \<noteq> None then Inl (Plain ''the request stream is closed'')
     else case waiting q of
       None \<Rightarrow> Inr ([], q\<lparr>buffered := buffered q @ [m]\<rparr>)
     | Some i \<Rightarrow> Inr ([(i, Item m)], q\<lparr>waiting := None\<rparr>))"

definition end_queue :: "'m message_queue \<Rightarrow> 'm settled \<times> 'm message_queue" where
  "end_queue q =
    (if ended q then ([], q)
     else (settle_waiting q Finished, q\<lparr>ended := True, waiting := None\<rparr>))"

definition next_call :: "nat \<Rightarrow> 'm message_queue \<Rightarrow> 'm settled \<times> 'm message_queue" where
  "next_call i q =
    (case failure q of
       Some e \<Rightarrow> ([(i, Rejected e)], q)
     | None \<Rightarrow>
        (case buffered q of
           m # ms \<Rightarrow> ([(i, Item m)], q\<lparr>buffered := ms\<rparr>)
         | [] \<Rightarrow> if ended q then ([(i, Finished)], q) else ([], q\<lparr>waiting := Some i\<rparr>)))"

definition throw_call :: "nat \<Rightarrow> error \<Rightarrow> 'm message_queue \<Rightarrow> 'm settled \<times> 'm message_queue" where
  "throw_call i e q =
    (settle_waiting q (Rejected e) @ [(i, Rejected e)],
     q\<lparr>ended := True, failure := Some e, waiting := None\<rparr>)"

definition return_call :: "nat \<Rightarrow> 'm message_queue \<Rightarrow> 'm settled \<times> 'm message_queue" where
  "return_call i q = (case end_queue q of (out, q') \<Rightarrow> (out @ [(i, Finished)], q'))"

section \<open>The operations in any order\<close>

text \<open>With the history: what was pushed and accepted, and every settled promise in the order of
  settling. The consumer asks for a message only when its last request is settled, as connect does.\<close>

record 'm queue_run =
  queue :: "'m message_queue"
  sent :: "'m list"
  answers :: "'m settled"

definition moved_to :: "'m settled \<times> 'm message_queue \<Rightarrow> 'm queue_run \<Rightarrow> 'm queue_run" where
  "moved_to r w = w\<lparr>queue := snd r, answers := answers w @ fst r\<rparr>"

inductive queue_step :: "'m queue_run \<Rightarrow> 'm queue_run \<Rightarrow> bool" where
  pushes: "push m (queue w) = Inr r \<Longrightarrow> queue_step w ((moved_to r w)\<lparr>sent := sent w @ [m]\<rparr>)"
| refuses: "push m (queue w) = Inl e \<Longrightarrow> queue_step w w"
| ends: "queue_step w (moved_to (end_queue (queue w)) w)"
| asks_next: "waiting (queue w) = None \<Longrightarrow> queue_step w (moved_to (next_call i (queue w)) w)"
| throws: "queue_step w (moved_to (throw_call i e (queue w)) w)"
| returns: "queue_step w (moved_to (return_call i (queue w)) w)"

definition queue_start :: "'m queue_run" where
  "queue_start = \<lparr>queue = new_queue, sent = [], answers = []\<rparr>"

inductive queue_reachable :: "'m queue_run \<Rightarrow> bool" where
  start: "queue_reachable queue_start"
| step: "queue_reachable w \<Longrightarrow> queue_step w w' \<Longrightarrow> queue_reachable w'"

section \<open>The channel\<close>

text \<open>A channel only has the messages sent and those received.\<close>

inductive channel_step :: "'m list \<times> 'm list \<Rightarrow> 'm list \<times> 'm list \<Rightarrow> bool" where
  idle: "channel_step c c"
| sends: "channel_step (s, r) (s @ [m], r)"
| receives: "channel_step (r @ m # s, r) (r @ m # s, r @ [m])"
| passes: "channel_step (r, r) (r @ [m], r @ [m])"

fun items :: "'m settled \<Rightarrow> 'm list" where
  "items [] = []"
| "items ((i, Item m) # as) = m # items as"
| "items ((i, Finished) # as) = items as"
| "items ((i, Rejected e) # as) = items as"

definition channel_of :: "'m queue_run \<Rightarrow> 'm list \<times> 'm list" where
  "channel_of w = (sent w, items (answers w))"

definition queue_ok :: "'m queue_run \<Rightarrow> bool" where
  "queue_ok w \<longleftrightarrow> sent w = items (answers w) @ buffered (queue w)
     \<and> (waiting (queue w) \<noteq> None \<longrightarrow> buffered (queue w) = [] \<and> \<not> ended (queue w))
     \<and> (failure (queue w) \<noteq> None \<longrightarrow> ended (queue w))"

lemma items_append [simp]: "items (as @ bs) = items as @ items bs"
  by (induction as rule: items.induct) auto

lemma items_settle [simp]: "items (settle_waiting q Finished) = []" "items (settle_waiting q (Rejected e)) = []"
  by (simp_all add: settle_waiting_def split: option.split)

lemma moved_to_simps [simp]:
  "queue (moved_to r w) = snd r" "sent (moved_to r w) = sent w" "answers (moved_to r w) = answers w @ fst r"
  by (simp_all add: moved_to_def)

lemmas queue_ops = push_def end_queue_def next_call_def throw_call_def return_call_def

lemma queue_ok_step: "queue_step w w' \<Longrightarrow> queue_ok w \<Longrightarrow> queue_ok w'"
  by (induction rule: queue_step.induct)
    (auto simp: queue_ok_def queue_ops split: if_splits option.splits list.splits)

lemma queue_start_ok: "queue_ok queue_start"
  by (simp add: queue_ok_def queue_start_def new_queue_def)

lemma queue_reachable_ok: "queue_reachable w \<Longrightarrow> queue_ok w"
  by (induction rule: queue_reachable.induct) (auto intro: queue_ok_step queue_start_ok)

text \<open>Every step of the queue is a step of the channel.\<close>

lemma queue_simulates:
  assumes "queue_step w w'" and "queue_ok w"
  shows "channel_step (channel_of w) (channel_of w')"
  using assms
proof (induction rule: queue_step.induct)
  case (pushes m w r)
  then show ?case
    using channel_step.sends [of "sent w" "items (answers w)" m] channel_step.passes [of "sent w" m]
    by (auto simp: channel_of_def queue_ok_def push_def split: if_splits option.splits)
next
  case (asks_next w i)
  then show ?case
    by (auto simp: channel_of_def queue_ok_def next_call_def intro: channel_step.intros split: option.splits list.splits)
qed (auto simp: channel_of_def queue_ops intro: channel_step.idle)

section \<open>Properties\<close>

text \<open>C22: The queue refines the channel. In every reachable state each operation of either side is one
  step of the channel; what was received, followed by what is buffered, is what was sent; and a
  consumer only waits when nothing is buffered and the stream is open.\<close>

theorem message_queue_refines_channel:
  assumes "queue_reachable w" and "queue_step w w'"
  shows "channel_step (channel_of w) (channel_of w')
    \<and> sent w = items (answers w) @ buffered (queue w)
    \<and> (waiting (queue w) \<noteq> None \<longrightarrow> buffered (queue w) = [] \<and> \<not> ended (queue w))"
  using queue_simulates [OF assms(2)] queue_reachable_ok [OF assms(1)] by (simp add: queue_ok_def)

definition demo_run :: "nat queue_run" where
  "demo_run = \<lparr>queue = \<lparr>buffered = [7], waiting = None, ended = False, failure = None\<rparr>, sent = [7], answers = []\<rparr>"

lemma demo_run_reachable: "queue_reachable demo_run"
proof -
  have "push 7 (queue queue_start) = Inr ([], queue demo_run)"
    by (simp add: push_def queue_start_def new_queue_def demo_run_def)
  from queue_reachable.step [OF queue_reachable.start queue_step.pushes [OF this]] show ?thesis
    by (simp add: moved_to_def queue_start_def demo_run_def)
qed

text \<open>The producer ends the stream; what it had sent is still delivered.\<close>

theorem message_queue_refines_channel_witness:
  "channel_step ([7], []) (channel_of (moved_to (end_queue (queue demo_run)) demo_run))
   \<and> fst (next_call 1 (snd (end_queue (queue demo_run)))) = [(1, Item (7 :: nat))]"
  using message_queue_refines_channel [OF demo_run_reachable queue_step.ends]
  by (simp add: channel_of_def demo_run_def end_queue_def next_call_def)

end
