(* ===== verification/Tunnel.thy ===== *)
theory Tunnel
  imports Js_Strings
begin

text \<open>
  \<open>core/tunnel.ts\<close>: the server runners dial. A connection, its stream and the client on it are one
  number; a waiter is a number too. What is destroyed is kept in the state, since the code asks
  every stream. HTTP, WebSocket and the hash (\<open>digest\<close>) are parameters or outside; the events of
  the network, the timers and the callers are the steps of \<open>tunnel_step\<close>, in any order.
\<close>

record upgrade_request =
  rq_url :: string
  rq_authorization :: "string option"
  rq_sandbox_id :: "string option"

definition TUNNEL_PATH :: string where "TUNNEL_PATH = ''/tunnel''"
definition HEALTH_PATH :: string where "HEALTH_PATH = ''/healthz''"

record tunnel =
  registrations :: "(string \<times> nat) list"
  waiters :: "(string \<times> nat list) list"
  destroyed :: "nat list"

definition new_tunnel :: "string list \<Rightarrow> error + tunnel" where
  "new_tunnel tokens =
    (if tokens = [] \<or> list_ex (\<lambda>t. t = '''') tokens
     then Inl (Plain ''the tunnel needs at least one non-empty token'')
     else Inr \<lparr>registrations = [], waiters = [], destroyed = []\<rparr>)"

text \<open>The answer to a plain HTTP request: status and body.\<close>

definition handle_request :: "string \<Rightarrow> nat \<times> string" where
  "handle_request url =
    (if url = HEALTH_PATH then (200, ''ok'' @ [CHR 0x0A]) else (404, ''not found'' @ [CHR 0x0A]))"

definition parse_hello :: "upgrade_request \<Rightarrow> (string \<times> string) option" where
  "parse_hello r =
    (let authorization = (case rq_authorization r of None \<Rightarrow> '''' | Some a \<Rightarrow> a);
         token = (if starts_with ''Bearer '' authorization then trim (drop (length ''Bearer '') authorization) else '''')
     in case rq_sandbox_id r of
          None \<Rightarrow> None
        | Some sid \<Rightarrow>
            if token = '''' then None
            else if length sid = 0 \<or> length sid > 256 then None
            else Some (sid, token))"

definition live_registration :: "string \<Rightarrow> tunnel \<Rightarrow> nat option" where
  "live_registration sid t =
    (case map_of (registrations t) sid of
       None \<Rightarrow> None | Some c \<Rightarrow> if c \<in> set (destroyed t) then None else Some c)"

text \<open>\<open>register\<close> answers every waiter of the sandbox with the new connection.\<close>

definition register :: "string \<Rightarrow> nat \<Rightarrow> tunnel \<Rightarrow> (nat \<times> nat) list \<times> tunnel" where
  "register sid c t =
    (let t' = t\<lparr>registrations := AList.update sid c (registrations t)\<rparr>
     in case map_of (waiters t') sid of
          None \<Rightarrow> ([], t')
        | Some ws \<Rightarrow> (map (\<lambda>w. (w, c)) ws, t'\<lparr>waiters := AList.delete sid (waiters t')\<rparr>))"

datatype upgrade_answer = Refused nat string | Upgraded string

definition handle_upgrade ::
  "(string \<Rightarrow> string) \<Rightarrow> string list \<Rightarrow> upgrade_request \<Rightarrow> nat \<Rightarrow> tunnel
   \<Rightarrow> upgrade_answer \<times> (nat \<times> nat) list \<times> tunnel" where
  "handle_upgrade digest tokens r c t =
    (if rq_url r \<noteq> TUNNEL_PATH then (Refused 404 ''not found'', [], t)
     else case parse_hello r of
       None \<Rightarrow> (Refused 400 ''malformed handshake'', [], t)
     | Some (sid, token) \<Rightarrow>
        if \<not> list_ex (\<lambda>d. d = digest token) (map digest tokens)
        then (Refused 401 ''invalid registration token'', [], t)
        else if live_registration sid t \<noteq> None
        then (Refused 409 ''sandbox is already registered'', [], t)
        else (Upgraded sid, register sid c t))"

text \<open>\<open>waitFor\<close>: the client at once, or a waiter \<open>w\<close> with a timer of its own.\<close>

definition wait_for :: "string \<Rightarrow> nat \<Rightarrow> tunnel \<Rightarrow> nat option \<times> tunnel" where
  "wait_for sid w t =
    (case live_registration sid t of
       Some c \<Rightarrow> (Some c, t)
     | None \<Rightarrow>
        (let ws = (case map_of (waiters t) sid of None \<Rightarrow> [] | Some ws \<Rightarrow> ws)
         in (None, t\<lparr>waiters := AList.update sid (ws @ [w]) (waiters t)\<rparr>)))"

text \<open>The timer of a waiter fires; the caller's promise is rejected.\<close>

definition waiter_timed_out :: "string \<Rightarrow> nat \<Rightarrow> tunnel \<Rightarrow> tunnel" where
  "waiter_timed_out sid w t =
    (let ws = remove1 w (case map_of (waiters t) sid of None \<Rightarrow> [] | Some ws \<Rightarrow> ws)
     in t\<lparr>waiters := (if ws = [] then AList.delete sid (waiters t) else AList.update sid ws (waiters t))\<rparr>)"

definition timeout_message :: "string \<Rightarrow> nat \<Rightarrow> string" where
  "timeout_message sid ms = ''runner '' @ sid @ '' did not register within '' @ show_nat ms @ ''ms''"

definition destroy_stream :: "nat \<Rightarrow> tunnel \<Rightarrow> tunnel" where
  "destroy_stream c t = t\<lparr>destroyed := c # destroyed t\<rparr>"

definition drop_registration :: "string \<Rightarrow> tunnel \<Rightarrow> tunnel" where
  "drop_registration sid t =
    (case map_of (registrations t) sid of
       None \<Rightarrow> t
     | Some c \<Rightarrow> destroy_stream c (t\<lparr>registrations := AList.delete sid (registrations t)\<rparr>))"

text \<open>A stream is closed: it is destroyed, and the listener \<open>register\<close> left on it runs. A failed health
  probe only destroys the stream.\<close>

definition stream_closed :: "string \<Rightarrow> nat \<Rightarrow> tunnel \<Rightarrow> tunnel" where
  "stream_closed sid c t =
    (let t' = destroy_stream c t
     in if map_of (registrations t') sid = Some c
        then t'\<lparr>registrations := AList.delete sid (registrations t')\<rparr> else t')"

definition close_tunnel :: "tunnel \<Rightarrow> tunnel" where
  "close_tunnel t = t\<lparr>waiters := [], destroyed := map snd (registrations t) @ destroyed t, registrations := []\<rparr>"

section \<open>Events in any order\<close>

text \<open>Ghosts: who asked for which sandbox, how each waiter was answered (\<open>None\<close>: its timer), and which
  connections were admitted for which sandbox, with the token each had presented.\<close>

record tunnel_world =
  tw_tunnel :: tunnel
  tw_asked :: "(nat \<times> string) list"
  tw_answers :: "(nat \<times> nat option) list"
  tw_admitted :: "(nat \<times> string) list"
  tw_tokens :: "(nat \<times> string) list"

inductive tunnel_step ::
  "(string \<Rightarrow> string) \<Rightarrow> string list \<Rightarrow> tunnel_world \<Rightarrow> tunnel_world \<Rightarrow> bool"
  for digest tokens
where
  upgrades: "handle_upgrade digest tokens r c (tw_tunnel w) = (Upgraded sid, resolved, t)
     \<Longrightarrow> c \<notin> fst ` set (tw_admitted w) \<Longrightarrow> c \<notin> set (destroyed (tw_tunnel w))
     \<Longrightarrow> parse_hello r = Some (sid, token)
     \<Longrightarrow> tunnel_step digest tokens w (w\<lparr>tw_tunnel := t, tw_admitted := (c, sid) # tw_admitted w,
           tw_tokens := (c, token) # tw_tokens w,
           tw_answers := map (\<lambda>(x, y). (x, Some y)) resolved @ tw_answers w\<rparr>)"
| refuses: "handle_upgrade digest tokens r c (tw_tunnel w) = (Refused n m, resolved, t)
     \<Longrightarrow> tunnel_step digest tokens w (w\<lparr>tw_tunnel := t\<rparr>)"
| waits: "x \<notin> fst ` set (tw_asked w) \<Longrightarrow> wait_for sid x (tw_tunnel w) = (answer, t)
     \<Longrightarrow> tunnel_step digest tokens w (w\<lparr>tw_tunnel := t, tw_asked := (x, sid) # tw_asked w,
           tw_answers := (case answer of None \<Rightarrow> tw_answers w | Some c \<Rightarrow> (x, Some c) # tw_answers w)\<rparr>)"
| times_out: "map_of (waiters (tw_tunnel w)) sid = Some ws \<Longrightarrow> x \<in> set ws
     \<Longrightarrow> tunnel_step digest tokens w (w\<lparr>tw_tunnel := waiter_timed_out sid x (tw_tunnel w),
           tw_answers := (x, None) # tw_answers w\<rparr>)"
| drops: "tunnel_step digest tokens w (w\<lparr>tw_tunnel := drop_registration sid (tw_tunnel w)\<rparr>)"
| closes: "(c, sid) \<in> set (tw_admitted w)
     \<Longrightarrow> tunnel_step digest tokens w (w\<lparr>tw_tunnel := stream_closed sid c (tw_tunnel w)\<rparr>)"
| probe_fails: "(c, sid) \<in> set (tw_admitted w)
     \<Longrightarrow> tunnel_step digest tokens w (w\<lparr>tw_tunnel := destroy_stream c (tw_tunnel w)\<rparr>)"

inductive tunnel_reachable :: "(string \<Rightarrow> string) \<Rightarrow> string list \<Rightarrow> tunnel_world \<Rightarrow> bool"
  for digest tokens
where
  start: "new_tunnel tokens = Inr t \<Longrightarrow> tunnel_reachable digest tokens
     \<lparr>tw_tunnel = t, tw_asked = [], tw_answers = [], tw_admitted = [], tw_tokens = []\<rparr>"
| step: "tunnel_reachable digest tokens w \<Longrightarrow> tunnel_step digest tokens w w' \<Longrightarrow> tunnel_reachable digest tokens w'"

section \<open>Invariants\<close>

definition admission_ok :: "(string \<Rightarrow> string) \<Rightarrow> string list \<Rightarrow> tunnel_world \<Rightarrow> bool" where
  "admission_ok digest tokens w \<longleftrightarrow>
     (\<forall>sid c. map_of (registrations (tw_tunnel w)) sid = Some c \<longrightarrow> (c, sid) \<in> set (tw_admitted w))
   \<and> (\<forall>c sid. (c, sid) \<in> set (tw_admitted w) \<longrightarrow> c \<notin> set (destroyed (tw_tunnel w))
        \<longrightarrow> map_of (registrations (tw_tunnel w)) sid = Some c)
   \<and> (\<forall>c sid. (c, sid) \<in> set (tw_admitted w) \<longrightarrow>
        (\<exists>token. (c, token) \<in> set (tw_tokens w) \<and> digest token \<in> digest ` set tokens))"

definition waiting_for :: "tunnel_world \<Rightarrow> string \<Rightarrow> nat list" where
  "waiting_for w sid = (case map_of (waiters (tw_tunnel w)) sid of None \<Rightarrow> [] | Some ws \<Rightarrow> ws)"

definition answered :: "tunnel_world \<Rightarrow> nat set" where
  "answered w = fst ` set (tw_answers w)"

definition waiting_ok :: "tunnel_world \<Rightarrow> bool" where
  "waiting_ok w \<longleftrightarrow>
     (\<forall>sid. map_of (waiters (tw_tunnel w)) sid \<noteq> Some [])
   \<and> (\<forall>sid. distinct (waiting_for w sid))
   \<and> (\<forall>sid. waiting_for w sid \<noteq> [] \<longrightarrow> live_registration sid (tw_tunnel w) = None)
   \<and> (\<forall>x sid. x \<in> set (waiting_for w sid) \<longleftrightarrow> (x, sid) \<in> set (tw_asked w) \<and> x \<notin> answered w)
   \<and> distinct (map fst (tw_asked w)) \<and> distinct (map fst (tw_answers w))
   \<and> answered w \<subseteq> fst ` set (tw_asked w)
   \<and> (\<forall>x c. (x, Some c) \<in> set (tw_answers w) \<longrightarrow> (\<exists>sid. (x, sid) \<in> set (tw_asked w) \<and> (c, sid) \<in> set (tw_admitted w)))"

lemma handle_upgrade_Upgraded:
  assumes "handle_upgrade digest tokens r c t = (Upgraded sid, resolved, t')"
  shows "\<exists>token. parse_hello r = Some (sid, token) \<and> digest token \<in> digest ` set tokens
    \<and> live_registration sid t = None \<and> resolved = fst (register sid c t) \<and> t' = snd (register sid c t)"
  using assms by (auto simp: handle_upgrade_def list_ex_iff prod_eq_iff split: if_splits option.splits)

lemma handle_upgrade_Refused: "handle_upgrade digest tokens r c t = (Refused n m, resolved, t') \<Longrightarrow> t' = t \<and> resolved = []"
  by (auto simp: handle_upgrade_def split: if_splits option.splits prod.splits)

lemma register_simps [simp]:
  "registrations (snd (register sid c t)) = AList.update sid c (registrations t)"
  "destroyed (snd (register sid c t)) = destroyed t"
  "map_of (waiters (snd (register sid c t))) = (map_of (waiters t))(sid := None)"
  "fst (register sid c t) = map (\<lambda>w. (w, c)) (case map_of (waiters t) sid of None \<Rightarrow> [] | Some ws \<Rightarrow> ws)"
  by (auto simp: register_def Let_def fun_eq_iff split: option.splits)

lemma drop_registration_simps [simp]:
  "map_of (registrations (drop_registration sid t)) = (map_of (registrations t))(sid := None)"
  "set (destroyed (drop_registration sid t)) = set (destroyed t) \<union> set_option (map_of (registrations t) sid)"
  "waiters (drop_registration sid t) = waiters t"
  by (auto simp: drop_registration_def destroy_stream_def fun_eq_iff split: option.splits)

lemma stream_closed_simps [simp]:
  "map_of (registrations (stream_closed sid c t)) =
     (if map_of (registrations t) sid = Some c then (map_of (registrations t))(sid := None) else map_of (registrations t))"
  "destroyed (stream_closed sid c t) = c # destroyed t"
  "waiters (stream_closed sid c t) = waiters t"
  by (auto simp: stream_closed_def destroy_stream_def Let_def)

lemma destroy_stream_simps [simp]:
  "registrations (destroy_stream c t) = registrations t" "destroyed (destroy_stream c t) = c # destroyed t"
  "waiters (destroy_stream c t) = waiters t"
  by (simp_all add: destroy_stream_def)

lemma wait_for_frame:
  "registrations (snd (wait_for sid x t)) = registrations t" "destroyed (snd (wait_for sid x t)) = destroyed t"
  by (auto simp: wait_for_def Let_def split: option.splits)

lemma timed_out_frame [simp]:
  "registrations (waiter_timed_out sid x t) = registrations t" "destroyed (waiter_timed_out sid x t) = destroyed t"
  by (auto simp: waiter_timed_out_def Let_def)

lemma live_registration_None:
  "live_registration sid t = None \<longleftrightarrow> (\<forall>c. map_of (registrations t) sid = Some c \<longrightarrow> c \<in> set (destroyed t))"
  by (auto simp: live_registration_def split: option.splits)

lemma admissionI:
  assumes "\<And>sid c. map_of (registrations (tw_tunnel w)) sid = Some c \<Longrightarrow> (c, sid) \<in> set (tw_admitted w)"
    and "\<And>c sid. (c, sid) \<in> set (tw_admitted w) \<Longrightarrow> c \<notin> set (destroyed (tw_tunnel w))
           \<Longrightarrow> map_of (registrations (tw_tunnel w)) sid = Some c"
    and "\<And>c sid. (c, sid) \<in> set (tw_admitted w)
           \<Longrightarrow> \<exists>token. (c, token) \<in> set (tw_tokens w) \<and> digest token \<in> digest ` set tokens"
  shows "admission_ok digest tokens w"
  using assms unfolding admission_ok_def by blast

lemma admissionD:
  assumes "admission_ok digest tokens w"
  shows "map_of (registrations (tw_tunnel w)) sid = Some c \<Longrightarrow> (c, sid) \<in> set (tw_admitted w)"
    and "(c, sid) \<in> set (tw_admitted w) \<Longrightarrow> c \<notin> set (destroyed (tw_tunnel w))
           \<Longrightarrow> map_of (registrations (tw_tunnel w)) sid = Some c"
    and "(c, sid) \<in> set (tw_admitted w)
           \<Longrightarrow> \<exists>token. (c, token) \<in> set (tw_tokens w) \<and> digest token \<in> digest ` set tokens"
  using assms unfolding admission_ok_def by blast+

lemma admission_frame:
  assumes "admission_ok digest tokens w" and "registrations (tw_tunnel w') = registrations (tw_tunnel w)"
    and "destroyed (tw_tunnel w') = destroyed (tw_tunnel w)"
    and "tw_admitted w' = tw_admitted w" and "tw_tokens w' = tw_tokens w"
  shows "admission_ok digest tokens w'"
  using assms(1) unfolding admission_ok_def assms(2-5) .

lemma admission_step:
  assumes "tunnel_step digest tokens w w'" and "admission_ok digest tokens w"
  shows "admission_ok digest tokens w'"
  using assms
proof (induction rule: tunnel_step.induct)
  case (upgrades r c w sid resolved t token)
  note ok = admissionD [OF upgrades(5)]
  from handle_upgrade_Upgraded [OF upgrades(1)] upgrades(4)
  have u: "digest token \<in> digest ` set tokens" "live_registration sid (tw_tunnel w) = None"
    "t = snd (register sid c (tw_tunnel w))" by auto
  show ?case
  proof (rule admissionI, goal_cases)
    case (1 sid' c')
    with ok(1) [of sid' c'] show ?case by (auto simp: u(3) split: if_splits)
  next
    case (2 c' sid')
    show ?case
    proof (cases "c' = c")
      case True
      with 2(1) upgrades(2) have "sid' = sid" by force
      with True show ?thesis by (simp add: u(3))
    next
      case False
      with 2 ok(2) [of c' sid'] have "map_of (registrations (tw_tunnel w)) sid' = Some c'" by (simp add: u(3))
      moreover from this 2(2) u(2) have "sid' \<noteq> sid" by (auto simp: live_registration_None u(3))
      ultimately show ?thesis by (simp add: u(3))
    qed
  next
    case (3 c' sid')
    show ?case
    proof (cases "c' = c \<and> sid' = sid")
      case True
      with u(1) show ?thesis by (intro exI [of _ token]) simp
    next
      case False
      with 3 have "(c', sid') \<in> set (tw_admitted w)" by auto
      from ok(3) [OF this] obtain token' where "(c', token') \<in> set (tw_tokens w)" "digest token' \<in> digest ` set tokens"
        by blast
      then show ?thesis by (intro exI [of _ token']) simp
    qed
  qed
next
  case (refuses r c w n m resolved t)
  then show ?case by (auto dest: handle_upgrade_Refused)
next
  case (waits x w sid answer t)
  show ?case
    by (rule admission_frame [OF waits(3)]) (use wait_for_frame [of sid x "tw_tunnel w"] waits(2) in simp_all)
next
  case (times_out w sid ws x)
  show ?case by (rule admission_frame [OF times_out(3)]) simp_all
next
  case (drops w sid)
  note ok = admissionD [OF drops]
  show ?case
  proof (rule admissionI, goal_cases)
    case (2 c' sid')
    with ok(2) [of c' sid'] have "map_of (registrations (tw_tunnel w)) sid' = Some c'" "sid' \<noteq> sid" by auto
    then show ?case by simp
  qed (use ok(1,3) in \<open>auto split: if_splits\<close>)
next
  case (closes c sid w)
  note ok = admissionD [OF closes(2)]
  show ?case
  proof (rule admissionI, goal_cases)
    case (2 c' sid')
    with ok(2) [of c' sid'] have "map_of (registrations (tw_tunnel w)) sid' = Some c'" "c' \<noteq> c" by auto
    then show ?case by auto
  qed (use ok(1,3) in \<open>auto split: if_splits\<close>)
next
  case (probe_fails c sid w)
  note ok = admissionD [OF probe_fails(2)]
  show ?case
  proof (rule admissionI, goal_cases)
    case (1 sid' c')
    with ok(1) [of sid' c'] show ?case by simp
  next
    case (2 c' sid')
    with ok(2) [of c' sid'] show ?case by simp
  next
    case (3 c' sid')
    with ok(3) [of c' sid'] show ?case by simp
  qed
qed

lemma waitingI:
  assumes "\<And>sid. map_of (waiters (tw_tunnel w)) sid \<noteq> Some []"
    and "\<And>sid. distinct (waiting_for w sid)"
    and "\<And>sid. waiting_for w sid \<noteq> [] \<Longrightarrow> live_registration sid (tw_tunnel w) = None"
    and "\<And>x sid. x \<in> set (waiting_for w sid) \<longleftrightarrow> (x, sid) \<in> set (tw_asked w) \<and> x \<notin> answered w"
    and "distinct (map fst (tw_asked w))" and "distinct (map fst (tw_answers w))"
    and "answered w \<subseteq> fst ` set (tw_asked w)"
    and "\<And>x c. (x, Some c) \<in> set (tw_answers w) \<Longrightarrow> \<exists>sid. (x, sid) \<in> set (tw_asked w) \<and> (c, sid) \<in> set (tw_admitted w)"
  shows "waiting_ok w"
  unfolding waiting_ok_def by (intro conjI allI impI) (rule assms; assumption)+

lemma waitingD:
  assumes "waiting_ok w"
  shows "map_of (waiters (tw_tunnel w)) sid \<noteq> Some []"
    and "distinct (waiting_for w sid)"
    and "waiting_for w sid \<noteq> [] \<Longrightarrow> live_registration sid (tw_tunnel w) = None"
    and "x \<in> set (waiting_for w sid) \<longleftrightarrow> (x, sid) \<in> set (tw_asked w) \<and> x \<notin> answered w"
    and "distinct (map fst (tw_asked w))" and "distinct (map fst (tw_answers w))"
    and "answered w \<subseteq> fst ` set (tw_asked w)"
    and "(x, Some c) \<in> set (tw_answers w) \<Longrightarrow> \<exists>sid. (x, sid) \<in> set (tw_asked w) \<and> (c, sid) \<in> set (tw_admitted w)"
  using assms unfolding waiting_ok_def by metis+

text \<open>A step that only closes connections, and moves no waiter.\<close>

lemma waiting_frame:
  assumes "waiting_ok w" and "waiters (tw_tunnel w') = waiters (tw_tunnel w)"
    and "tw_asked w' = tw_asked w" and "tw_answers w' = tw_answers w" and "tw_admitted w' = tw_admitted w"
    and "\<And>sid. live_registration sid (tw_tunnel w) = None \<Longrightarrow> live_registration sid (tw_tunnel w') = None"
  shows "waiting_ok w'"
proof (rule waitingI)
  note ok = waitingD [OF assms(1)]
  have wf: "waiting_for w' = waiting_for w" and an: "answered w' = answered w"
    by (simp_all add: fun_eq_iff waiting_for_def answered_def assms(2,4))
  show "map_of (waiters (tw_tunnel w')) sid \<noteq> Some []" for sid
    unfolding assms(2) by (rule ok(1))
  show "distinct (waiting_for w' sid)" for sid unfolding wf by (rule ok(2))
  show "waiting_for w' sid \<noteq> [] \<Longrightarrow> live_registration sid (tw_tunnel w') = None" for sid
    unfolding wf using ok(3) assms(6) by blast
  show "x \<in> set (waiting_for w' sid) \<longleftrightarrow> (x, sid) \<in> set (tw_asked w') \<and> x \<notin> answered w'" for x sid
    unfolding wf an assms(3) by (rule ok(4))
  show "\<exists>sid. (x, sid) \<in> set (tw_asked w') \<and> (c, sid) \<in> set (tw_admitted w')"
    if "(x, Some c) \<in> set (tw_answers w')" for x c
    using that unfolding assms(3-5) by (rule ok(8))
qed (use waitingD(5-7) [OF assms(1)] assms(3,4) in \<open>simp_all add: answered_def\<close>)

text \<open>A waiter asks for one sandbox only.\<close>

lemma asked_once: "distinct (map fst asked) \<Longrightarrow> (x, a) \<in> set asked \<Longrightarrow> (x, b) \<in> set asked \<Longrightarrow> a = b"
  by (metis eq_key_imp_eq_value)

lemma waiting_upgrade:
  assumes ok: "waiting_ok w" and live: "live_registration sid (tw_tunnel w) = None"
    and w': "tw_tunnel w' = snd (register sid c (tw_tunnel w))" "tw_asked w' = tw_asked w"
      "tw_admitted w' = (c, sid) # tw_admitted w"
      "tw_answers w' = map (\<lambda>x. (x, Some c)) (waiting_for w sid) @ tw_answers w"
  shows "waiting_ok w'"
proof (rule waitingI)
  note d = waitingD [OF ok]
  have wf: "waiting_for w' s = (if s = sid then [] else waiting_for w s)" for s
    by (simp add: waiting_for_def w'(1))
  have an: "answered w' = set (waiting_for w sid) \<union> answered w"
    by (simp add: answered_def w'(4) image_Un image_image)
  show "map_of (waiters (tw_tunnel w')) s \<noteq> Some []" for s
    using d(1) [of s] by (simp add: w'(1))
  show "distinct (waiting_for w' s)" for s using d(2) [of s] by (simp add: wf)
  show "waiting_for w' s \<noteq> [] \<Longrightarrow> live_registration s (tw_tunnel w') = None" for s
    using d(3) [of s] by (auto simp: wf live_registration_None w'(1) split: if_splits)
  show "x \<in> set (waiting_for w' s) \<longleftrightarrow> (x, s) \<in> set (tw_asked w') \<and> x \<notin> answered w'" for x s
  proof (cases "s = sid")
    case True
    with d(4) [of x sid] show ?thesis by (auto simp: wf an w'(2))
  next
    case False
    have "x \<notin> set (waiting_for w sid)" if "(x, s) \<in> set (tw_asked w)"
      using d(4) [of x sid] asked_once [OF d(5) that, of sid] False by blast
    with False d(4) [of x s] show ?thesis by (auto simp: wf an w'(2))
  qed
  show "distinct (map fst (tw_asked w'))" using d(5) by (simp add: w'(2))
  have "set (waiting_for w sid) \<inter> answered w = {}" using d(4) by blast
  with d(2,6) show "distinct (map fst (tw_answers w'))" by (simp add: w'(4) comp_def answered_def)
  show "answered w' \<subseteq> fst ` set (tw_asked w')" using d(7) d(4) by (force simp: an w'(2))
  show "\<exists>s. (x, s) \<in> set (tw_asked w') \<and> (e, s) \<in> set (tw_admitted w')" if "(x, Some e) \<in> set (tw_answers w')" for x e
    using that d(8) [of x e] d(4) [of x sid] by (auto simp: w'(2-4))
qed

lemma waiting_wait:
  assumes ok: "waiting_ok w" and adm: "admission_ok digest tokens w" and fresh: "x \<notin> fst ` set (tw_asked w)"
    and answer: "wait_for sid x (tw_tunnel w) = (answer, t)"
    and w': "tw_tunnel w' = t" "tw_asked w' = (x, sid) # tw_asked w" "tw_admitted w' = tw_admitted w"
      "tw_answers w' = (case answer of None \<Rightarrow> tw_answers w | Some c \<Rightarrow> (x, Some c) # tw_answers w)"
  shows "waiting_ok w'"
proof (rule waitingI)
  note d = waitingD [OF ok]
  have regs: "registrations t = registrations (tw_tunnel w)" "destroyed t = destroyed (tw_tunnel w)"
    using wait_for_frame [of sid x "tw_tunnel w"] answer by simp_all
  have lives: "live_registration s t = live_registration s (tw_tunnel w)" for s
    by (simp add: live_registration_def regs split: option.split)
  have new: "x \<notin> answered w" using d(7) fresh by blast
  have none: "waiting_for w sid = []" if "answer = Some c" for c
    using answer that d(3) [of sid] by (auto simp: wait_for_def split: option.splits)
  have a: "answer = live_registration sid (tw_tunnel w)"
    using answer by (auto simp: wait_for_def split: option.splits)
  have wf: "waiting_for w' s = (if s = sid \<and> answer = None then waiting_for w s @ [x] else waiting_for w s)" for s
  proof (cases "live_registration sid (tw_tunnel w)")
    case None
    with answer a show ?thesis by (auto simp: waiting_for_def w'(1) wait_for_def split: option.split)
  next
    case (Some c)
    with answer have "answer = Some c" "t = tw_tunnel w" by (simp_all add: wait_for_def)
    then show ?thesis by (simp add: waiting_for_def w'(1))
  qed
  have an: "answered w' = (if answer = None then answered w else insert x (answered w))"
    by (auto simp: answered_def w'(4) split: option.splits)
  show "map_of (waiters (tw_tunnel w')) s \<noteq> Some []" for s
    using answer d(1) [of s] by (auto simp: w'(1) wait_for_def split: option.splits if_splits)
  show "distinct (waiting_for w' s)" for s
    using d(2) [of s] d(4) [of x s] fresh by (force simp: wf)
  show "waiting_for w' s \<noteq> [] \<Longrightarrow> live_registration s (tw_tunnel w') = None" for s
    using d(3) [of s] a by (auto simp: wf w'(1) lives split: if_splits)
  show "y \<in> set (waiting_for w' s) \<longleftrightarrow> (y, s) \<in> set (tw_asked w') \<and> y \<notin> answered w'" for y s
    using d(4) [of y s] fresh new none by (force simp: wf an w'(2))
  show "distinct (map fst (tw_asked w'))" using d(5) fresh by (simp add: w'(2))
  show "distinct (map fst (tw_answers w'))" using d(6) new by (simp add: w'(4) answered_def split: option.split)
  show "answered w' \<subseteq> fst ` set (tw_asked w')" using d(7) by (auto simp: an w'(2))
  show "\<exists>s. (y, s) \<in> set (tw_asked w') \<and> (e, s) \<in> set (tw_admitted w')" if "(y, Some e) \<in> set (tw_answers w')" for y e
  proof (cases "answer = Some e \<and> y = x")
    case True
    with a have "map_of (registrations (tw_tunnel w)) sid = Some e"
      by (auto simp: live_registration_def split: option.splits if_splits)
    from admissionD(1) [OF adm this] True show ?thesis by (auto simp: w'(2,3))
  next
    case False
    with that have "(y, Some e) \<in> set (tw_answers w)" by (auto simp: w'(4) split: option.splits)
    with d(8) show ?thesis by (force simp: w'(2,3))
  qed
qed

lemma waiting_timeout:
  assumes ok: "waiting_ok w" and x: "x \<in> set (waiting_for w sid)"
    and w': "tw_tunnel w' = waiter_timed_out sid x (tw_tunnel w)" "tw_asked w' = tw_asked w"
      "tw_admitted w' = tw_admitted w" "tw_answers w' = (x, None) # tw_answers w"
  shows "waiting_ok w'"
proof (rule waitingI)
  note d = waitingD [OF ok]
  have wf: "waiting_for w' s = (if s = sid then remove1 x (waiting_for w s) else waiting_for w s)" for s
    by (auto simp: waiting_for_def w'(1) waiter_timed_out_def Let_def)
  have an: "answered w' = insert x (answered w)" by (simp add: answered_def w'(4))
  have mine: "(x, sid) \<in> set (tw_asked w)" "x \<notin> answered w" using d(4) x by blast+
  show "map_of (waiters (tw_tunnel w')) s \<noteq> Some []" for s
    using d(1) [of s] by (auto simp: w'(1) waiter_timed_out_def Let_def)
  show "distinct (waiting_for w' s)" for s using d(2) by (simp add: wf distinct_remove1)
  show "waiting_for w' s \<noteq> [] \<Longrightarrow> live_registration s (tw_tunnel w') = None" for s
    using d(3) [of s] x by (cases "s = sid"; cases "waiting_for w sid") (auto simp: wf w'(1) live_registration_None)
  show "y \<in> set (waiting_for w' s) \<longleftrightarrow> (y, s) \<in> set (tw_asked w') \<and> y \<notin> answered w'" for y s
    using d(4) [of y s] asked_once [OF d(5) mine(1), of s] d(2) [of s] by (auto simp: wf an w'(2))
  show "distinct (map fst (tw_asked w'))" using d(5) by (simp add: w'(2))
  show "distinct (map fst (tw_answers w'))" using d(6) mine(2) by (simp add: w'(4) answered_def)
  show "answered w' \<subseteq> fst ` set (tw_asked w')" using d(7) mine(1) by (force simp: an w'(2))
  show "\<exists>s. (y, s) \<in> set (tw_asked w') \<and> (e, s) \<in> set (tw_admitted w')" if "(y, Some e) \<in> set (tw_answers w')" for y e
    using that d(8) by (simp add: w'(2-4))
qed

lemma waiting_step:
  assumes "tunnel_step digest tokens w w'" and "waiting_ok w" and "admission_ok digest tokens w"
  shows "waiting_ok w'"
  using assms
proof (induction rule: tunnel_step.induct)
  case (upgrades r c w sid resolved t token)
  from handle_upgrade_Upgraded [OF upgrades(1)]
  have u: "live_registration sid (tw_tunnel w) = None" "resolved = fst (register sid c (tw_tunnel w))"
    "t = snd (register sid c (tw_tunnel w))" by blast+
  show ?case
    by (rule waiting_upgrade [OF upgrades(5) u(1), where c = c])
      (simp_all add: u(2,3) waiting_for_def comp_def)
next
  case (refuses r c w n m resolved t)
  then show ?case by (auto dest: handle_upgrade_Refused)
next
  case (waits x w sid answer t)
  show ?case by (rule waiting_wait [OF waits(3,4,1,2)]) simp_all
next
  case (times_out w sid ws x)
  show ?case
    by (rule waiting_timeout [OF times_out(3), where x = x and sid = sid])
      (use times_out(1,2) in \<open>simp_all add: waiting_for_def\<close>)
next
  case (drops w sid)
  show ?case by (rule waiting_frame [OF drops(1)]) (auto simp: live_registration_None split: if_splits)
next
  case (closes c sid w)
  show ?case by (rule waiting_frame [OF closes(2)]) (auto simp: live_registration_None split: if_splits)
next
  case (probe_fails c sid w)
  show ?case by (rule waiting_frame [OF probe_fails(2)]) (auto simp: live_registration_None)
qed

lemma tunnel_reachable_ok: "tunnel_reachable digest tokens w \<Longrightarrow> admission_ok digest tokens w \<and> waiting_ok w"
proof (induction rule: tunnel_reachable.induct)
  case (start t)
  then have "t = \<lparr>registrations = [], waiters = [], destroyed = []\<rparr>" by (simp add: new_tunnel_def split: if_splits)
  then show ?case
    by (simp add: admission_ok_def waiting_ok_def waiting_for_def answered_def)
next
  case (step w w')
  then show ?case using admission_step waiting_step by blast
qed

section \<open>Properties\<close>

text \<open>C15: A caller is only ever given a runner admitted for the sandbox it asked for: its connection had
  presented a token with an accepted digest and the sandbox's id; and a sandbox has at most one
  live connection, so nothing can take the place of a connected runner.\<close>

theorem tunnel_admits_one_runner:
  assumes "tunnel_reachable digest tokens w"
  shows "((x, Some c) \<in> set (tw_answers w) \<longrightarrow>
       (\<exists>sid token. (x, sid) \<in> set (tw_asked w) \<and> (c, sid) \<in> set (tw_admitted w)
          \<and> (c, token) \<in> set (tw_tokens w) \<and> digest token \<in> digest ` set tokens))
    \<and> ((c1, sid) \<in> set (tw_admitted w) \<longrightarrow> (c2, sid) \<in> set (tw_admitted w)
         \<longrightarrow> c1 \<notin> set (destroyed (tw_tunnel w)) \<longrightarrow> c2 \<notin> set (destroyed (tw_tunnel w)) \<longrightarrow> c1 = c2)"
proof -
  from tunnel_reachable_ok [OF assms] have ok: "admission_ok digest tokens w" "waiting_ok w" by simp_all
  show ?thesis
    using waitingD(8) [OF ok(2)] admissionD(3) [OF ok(1)] admissionD(2) [OF ok(1), of _ sid]
    by (metis option.inject)
qed


text \<open>A caller waits; a runner with the right token dials; the caller has it.\<close>

definition demo_request :: upgrade_request where
  "demo_request = \<lparr>rq_url = TUNNEL_PATH, rq_authorization = Some ''Bearer t'', rq_sandbox_id = Some ''box''\<rparr>"

definition demo_tunnel_start :: tunnel_world where
  "demo_tunnel_start = \<lparr>tw_tunnel = \<lparr>registrations = [], waiters = [], destroyed = []\<rparr>, tw_asked = [], tw_answers = [],
     tw_admitted = [], tw_tokens = []\<rparr>"

definition demo_waiting :: tunnel_world where
  "demo_waiting = demo_tunnel_start\<lparr>tw_tunnel := \<lparr>registrations = [], waiters = [(''box'', [1])], destroyed = []\<rparr>,
     tw_asked := [(1, ''box'')]\<rparr>"

definition demo_served :: tunnel_world where
  "demo_served = \<lparr>tw_tunnel = \<lparr>registrations = [(''box'', 5)], waiters = [], destroyed = []\<rparr>, tw_asked = [(1, ''box'')],
     tw_answers = [(1, Some 5)], tw_admitted = [(5, ''box'')], tw_tokens = [(5, ''t'')]\<rparr>"

lemma demo_start_reachable: "tunnel_reachable id [''t''] demo_tunnel_start"
  unfolding demo_tunnel_start_def by (rule tunnel_reachable.start) (simp add: new_tunnel_def)

lemma demo_waiting_reachable: "tunnel_reachable id [''t''] demo_waiting"
proof (rule tunnel_reachable.step [OF demo_start_reachable])
  have "wait_for ''box'' 1 (tw_tunnel demo_tunnel_start)
      = (None, \<lparr>registrations = [], waiters = [(''box'', [1])], destroyed = []\<rparr>)"
    by (simp add: wait_for_def live_registration_def demo_tunnel_start_def)
  from tunnel_step.waits [OF _ this] show "tunnel_step id [''t''] demo_tunnel_start demo_waiting"
    by (simp add: demo_waiting_def demo_tunnel_start_def)
qed

lemma demo_hello: "parse_hello demo_request = Some (''box'', ''t'')"
  by (simp add: parse_hello_def demo_request_def trim_def is_space_def)

lemma demo_served_reachable: "tunnel_reachable id [''t''] demo_served"
proof (rule tunnel_reachable.step [OF demo_waiting_reachable])
  have "handle_upgrade id [''t''] demo_request 5 (tw_tunnel demo_waiting)
      = (Upgraded ''box'', [(1, 5)], \<lparr>registrations = [(''box'', 5)], waiters = [], destroyed = []\<rparr>)"
    by (simp add: handle_upgrade_def demo_hello)
      (simp add: demo_request_def demo_waiting_def live_registration_def register_def)
  from tunnel_step.upgrades [OF this _ _ demo_hello] show "tunnel_step id [''t''] demo_waiting demo_served"
    by (simp add: demo_waiting_def demo_served_def demo_tunnel_start_def)
qed

theorem tunnel_admits_one_runner_witness:
  "\<exists>sid token. (1, sid) \<in> set (tw_asked demo_served) \<and> (5, sid) \<in> set (tw_admitted demo_served)
     \<and> (5, token) \<in> set (tw_tokens demo_served) \<and> id token \<in> id ` {''t''}"
  using tunnel_admits_one_runner [OF demo_served_reachable, of 1 5] by (simp add: demo_served_def)


end
