(* ===== verification/Video_Media.thy ===== *)
theory Video_Media
  imports Js_Values
begin

text \<open>
  \<open>media/video-media.ts\<close>: which files are videos, and the one byte range a request may ask for. A
  number read from digits is exact here; JavaScript rounds it above 2^53, where the code's check
  for a safe integer refuses it either way.
\<close>

definition VIDEO_ROUTE :: string where "VIDEO_ROUTE = ''/api/yawn-video''"

definition VIDEO_EXTENSIONS :: "string list" where
  "VIDEO_EXTENSIONS = [''mp4'', ''m4v'', ''mov'', ''webm'', ''ogv'', ''ogg'']"

text \<open>\<open>path.split(/[\\/]/u).pop()\<close>: what follows the last slash of either kind.\<close>

definition file_name :: "string \<Rightarrow> string" where
  "file_name path = rev (takeWhile (\<lambda>c. c \<noteq> CHR ''/'' \<and> c \<noteq> CHR 0x5C) (rev path))"

definition suffix_of :: "string \<Rightarrow> string option" where
  "suffix_of path =
    (let n = file_name path; after = rev (takeWhile (\<lambda>c. c \<noteq> CHR ''.'') (rev n))
     in if CHR ''.'' \<notin> set n \<or> after = '''' then None else Some (to_lower after))"

definition video_media_type :: "string \<Rightarrow> string option" where
  "video_media_type path =
    (case suffix_of path of
       None \<Rightarrow> None
     | Some s \<Rightarrow>
        if s = ''mp4'' \<or> s = ''m4v'' then Some ''video/mp4''
        else if s = ''mov'' then Some ''video/quicktime''
        else if s = ''webm'' then Some ''video/webm''
        else if s = ''ogv'' \<or> s = ''ogg'' then Some ''video/ogg''
        else None)"

record byte_range =
  range_start :: int
  range_end :: int

datatype range_answer = WholeFile | InvalidRange | Range byte_range

text \<open>\<open>/^bytes=(\d*)-(\d*)$/u.exec\<close>: the two groups.\<close>

definition range_groups :: "string \<Rightarrow> (string \<times> string) option" where
  "range_groups s =
    (let rest = drop (length ''bytes='') s
     in case index_of CHR ''-'' rest of
          None \<Rightarrow> None
        | Some i \<Rightarrow>
           if starts_with ''bytes='' s \<and> list_all is_digit (take i rest) \<and> list_all is_digit (drop (Suc i) rest)
           then Some (take i rest, drop (Suc i) rest) else None)"

definition MAX_SAFE_INTEGER :: int where "MAX_SAFE_INTEGER = 9007199254740991"

definition safe :: "int \<Rightarrow> bool" where "safe i \<longleftrightarrow> \<bar>i\<bar> \<le> MAX_SAFE_INTEGER"

definition parse_byte_range :: "string option \<Rightarrow> int \<Rightarrow> range_answer" where
  "parse_byte_range header file_size =
    (case header of
       None \<Rightarrow> WholeFile
     | Some h \<Rightarrow>
        (case range_groups (trim h) of
           None \<Rightarrow> InvalidRange
         | Some (start_text, end_text) \<Rightarrow>
            if start_text = '''' \<and> end_text = '''' then InvalidRange
            else if start_text = '''' then
              (let suffix = int (read_nat end_text)
               in if \<not> safe suffix \<or> suffix \<le> 0 \<or> file_size = 0 then InvalidRange
                  else Range \<lparr>range_start = max 0 (file_size - suffix), range_end = file_size - 1\<rparr>)
            else
              (let first = int (read_nat start_text)
               in if \<not> safe first \<or> first \<ge> file_size then InvalidRange
                  else (let final = (if end_text = '''' then file_size - 1
                              else min (int (read_nat end_text)) (max (file_size - 1) 0))
                        in if \<not> safe final \<or> final < first then InvalidRange
                           else Range \<lparr>range_start = first, range_end = final\<rparr>))))"

section \<open>Properties\<close>

text \<open>A range that is answered lies inside the file.\<close>

lemma byte_range_in_file:
  assumes "0 \<le> file_size" and "parse_byte_range header file_size = Range r"
  shows "0 \<le> range_start r \<and> range_start r \<le> range_end r \<and> range_end r < file_size"
  using assms by (auto simp: parse_byte_range_def Let_def split: option.splits if_splits)

text \<open>A request for the bytes \<open>a\<close> to \<open>b\<close> is answered with exactly those the file has.\<close>

definition range_header :: "nat \<Rightarrow> nat \<Rightarrow> string" where
  "range_header a b = ''bytes='' @ show_nat a @ ''-'' @ show_nat b"

lemma digits_plain: "is_digit c \<Longrightarrow> \<not> is_space c \<and> c \<noteq> CHR ''-''"
  by (auto simp: is_digit_def is_space_def)

lemma range_groups_header: "range_groups (trim (range_header a b)) = Some (show_nat a, show_nat b)"
proof -
  have "\<not> is_space c" if "c \<in> set (range_header a b)" for c
    using that show_nat_digits digits_plain by (fastforce simp: range_header_def is_space_def)
  then have t: "trim (range_header a b) = range_header a b" by (rule trim_id)
  have "CHR ''-'' \<notin> set (show_nat a)" using show_nat_digits digits_plain by blast
  then have "index_of CHR ''-'' (show_nat a @ CHR ''-'' # show_nat b) = Some (length (show_nat a))"
    by (rule index_of_append)
  then show ?thesis
    unfolding t by (simp add: range_groups_def range_header_def list_all_iff show_nat_digits)
qed

text \<open>A response never reads past a file's end nor before its start: whatever header a request sends, a
  range that is answered lies inside the file, and a request for the bytes from \<open>a\<close> to \<open>b\<close> is answered
  with exactly those of them the file has, and refused exactly when it has none of them.\<close>

lemma byte_range_exact:
  assumes "0 \<le> file_size" and "file_size \<le> MAX_SAFE_INTEGER"
  shows "(\<forall>header r. parse_byte_range header file_size = Range r \<longrightarrow>
      0 \<le> range_start r \<and> range_start r \<le> range_end r \<and> range_end r < file_size) \<and>
    parse_byte_range (Some (range_header a b)) file_size =
    (if int a < file_size \<and> a \<le> b then Range \<lparr>range_start = int a, range_end = min (int b) (file_size - 1)\<rparr> else InvalidRange)"
proof -
  have "parse_byte_range (Some (range_header a b)) file_size =
    (if \<not> safe (int a) \<or> int a \<ge> file_size then InvalidRange
     else let final = min (int b) (max (file_size - 1) 0)
          in if \<not> safe final \<or> final < int a then InvalidRange else Range \<lparr>range_start = int a, range_end = final\<rparr>)"
    by (simp add: parse_byte_range_def range_groups_header Let_def)
  then have "parse_byte_range (Some (range_header a b)) file_size =
    (if int a < file_size \<and> a \<le> b then Range \<lparr>range_start = int a, range_end = min (int b) (file_size - 1)\<rparr> else InvalidRange)"
    using assms by (auto simp: safe_def Let_def min_def max_def)
  then show ?thesis using byte_range_in_file [OF assms(1)] by blast
qed

text \<open>The last five bytes.\<close>

lemma suffix_range_example: "parse_byte_range (Some ''bytes=-5'') 10 = Range \<lparr>range_start = 5, range_end = 9\<rparr>"
  by (simp add: parse_byte_range_def range_groups_def trim_def is_space_def is_digit_def read_nat_def
      digit_val_def safe_def MAX_SAFE_INTEGER_def)

lemma byte_range_exact_witness:
  "parse_byte_range (Some (range_header 2 400)) 10 = Range \<lparr>range_start = 2, range_end = 9\<rparr>"
  using byte_range_exact [of 10 2 400] by (simp add: MAX_SAFE_INTEGER_def)

end
