(* ===== verification/Preview.thy ===== *)
theory Preview
  imports Profile_Config
begin

text \<open>
  \<open>previews/preview.ts\<close> and the address part of \<open>previews/preview-server.ts\<close>: the host name that
  names one sandbox and one port, and the way back.
\<close>

definition DEFAULT_PREVIEW_PORT :: nat where "DEFAULT_PREVIEW_PORT = 8082"
definition PLACEHOLDER_PREVIEW_PORT :: nat where "PLACEHOLDER_PREVIEW_PORT = 3000"
definition PREVIEW_HEALTH_PATH :: string where "PREVIEW_HEALTH_PATH = ''/healthz''"

record preview_target =
  target_sandbox_id :: string
  target_port :: nat

definition label_char :: "char \<Rightarrow> bool" where
  "label_char c \<longleftrightarrow> is_lower c \<or> is_digit c \<or> c = CHR ''-''"

definition sanitize_label :: "string \<Rightarrow> string" where
  "sanitize_label sid =
    (let lowered = to_lower sid
     in if lowered \<noteq> [] \<and> list_all label_char lowered then lowered
        else map (\<lambda>c. if label_char c then c else CHR ''-'') lowered)"

definition preview_label :: "string \<Rightarrow> string \<Rightarrow> string" where
  "preview_label sid port = sanitize_label sid @ ''-p'' @ port"

definition preview_host :: "string \<Rightarrow> string \<Rightarrow> nat \<Rightarrow> string" where
  "preview_host domain sid port = preview_label sid (show_nat port) @ ''.'' @ domain"

text \<open>\<open>s.replace(/:[0-9]+$/, "")\<close>.\<close>

definition strip_port :: "string \<Rightarrow> string" where
  "strip_port s =
    (let body = rev (dropWhile is_digit (rev s))
     in if body \<noteq> s \<and> body \<noteq> [] \<and> last body = CHR '':'' then butlast body else s)"

text \<open>\<open>s.lastIndexOf(p)\<close>.\<close>

fun last_index_of :: "string \<Rightarrow> string \<Rightarrow> nat option" where
  "last_index_of p [] = (if p = [] then Some 0 else None)"
| "last_index_of p (x # xs) =
    (case last_index_of p xs of
       Some i \<Rightarrow> Some (Suc i)
     | None \<Rightarrow> if starts_with p (x # xs) then Some 0 else None)"

definition parse_preview_host :: "string \<Rightarrow> string option \<Rightarrow> preview_target option" where
  "parse_preview_host domain host =
    (case host of
       None \<Rightarrow> None
     | Some h \<Rightarrow>
        (let without_port = strip_port (to_lower h);
             suffix = ''.'' @ to_lower domain
         in if \<not> ends_with suffix without_port then None
            else
              (let label = take (length without_port - length suffix) without_port
               in if label = '''' then None
                  else
                    (case last_index_of ''-p'' label of
                       None \<Rightarrow> None
                     | Some mark \<Rightarrow>
                        if mark = 0 then None
                        else
                          (let sid = take mark label; port_text = drop (mark + 2) label
                           in if port_text = '''' \<or> length port_text > 5 \<or> \<not> list_all is_digit port_text then None
                              else
                                (let port = read_nat port_text
                                 in if port < 1 \<or> port > 65535 then None
                                    else Some \<lparr>target_sandbox_id = sid, target_port = port\<rparr>))))))"

text \<open>\<open>PreviewServer.handleRequest\<close>: what a request is answered, or the sandbox it is relayed to.\<close>

datatype preview_answer = Answered nat string | Relayed preview_target

definition handle_preview :: "string \<Rightarrow> string \<Rightarrow> string option \<Rightarrow> preview_answer" where
  "handle_preview domain url host =
    (if url = PREVIEW_HEALTH_PATH then Answered 200 (''ok'' @ [CHR 0x0A])
     else case parse_preview_host domain host of
            None \<Rightarrow> Answered 404 (''not found'' @ [CHR 0x0A])
          | Some t \<Rightarrow> Relayed t)"

section \<open>Facts\<close>

lemma char_lower_facts:
  "is_digit c \<Longrightarrow> \<not> is_upper c" "is_lower c \<Longrightarrow> \<not> is_upper c" "label_char c \<Longrightarrow> \<not> is_upper c"
  by (auto simp: is_digit_def is_upper_def is_lower_def label_char_def)

lemma sanitize_label_chars: "c \<in> set (sanitize_label sid) \<Longrightarrow> label_char c"
  by (auto simp: sanitize_label_def Let_def list_all_iff label_char_def split: if_splits)

lemma sanitize_label_empty [simp]: "sanitize_label sid = [] \<longleftrightarrow> sid = []"
  by (simp add: sanitize_label_def Let_def to_lower_def)

lemma last_index_of_None: "p \<noteq> [] \<Longrightarrow> last_index_of p s = None \<longleftrightarrow> \<not> contains p s"
  by (induction s) (auto split: option.splits)

lemma last_index_of_append:
  "\<not> contains p (tl p @ s) \<Longrightarrow> p \<noteq> [] \<Longrightarrow> last_index_of p (t @ p @ s) = Some (length t)"
proof (induction t)
  case Nil
  then show ?case
    by (cases p) (auto simp: last_index_of_None split: option.splits)
qed simp

lemma contains_pair_digits: "(\<And>c. c \<in> set s \<Longrightarrow> is_digit c) \<Longrightarrow> \<not> contains ''-p'' (CHR ''p'' # s)"
proof -
  assume d: "\<And>c. c \<in> set s \<Longrightarrow> is_digit c"
  have *: "\<not> contains ''-p'' t" if "CHR ''-'' \<notin> set t" for t
    using that by (induction t) (auto simp: starts_with_prefix)
  have "CHR ''-'' \<notin> set s" using d by (auto simp: is_digit_def dest: d)
  then show ?thesis by (intro *) simp
qed

text \<open>A number of at most five digits is at most 99999; a port has at most five.\<close>

lemma show_nat_length: "n < 100000 \<Longrightarrow> length (show_nat n) \<le> 5"
proof -
  have e: "length (show_nat n) = (if n < 10 then 1 else Suc (length (show_nat (n div 10))))" for n
    by (subst show_nat.simps) simp
  assume "n < 100000"
  then show ?thesis
    by (subst e, subst e, subst e, subst e, subst e) auto
qed

lemma strip_port_plain: "CHR '':'' \<notin> set s \<Longrightarrow> strip_port s = s"
proof -
  assume *: "CHR '':'' \<notin> set s"
  have "last b \<noteq> CHR '':''" if "b = rev (dropWhile is_digit (rev s))" "b \<noteq> []" for b
    using that * by (metis last_in_set set_dropWhileD set_rev)
  from this [OF refl] show ?thesis unfolding strip_port_def Let_def by (intro if_not_P) blast
qed

lemma strip_port_digits:
  assumes "d \<noteq> []" and "\<And>c. c \<in> set d \<Longrightarrow> is_digit c"
  shows "strip_port (s @ CHR '':'' # d) = s"
proof -
  have "dropWhile is_digit (rev d @ CHR '':'' # rev s) = CHR '':'' # rev s"
    using assms(2) by (simp add: dropWhile_append3 is_digit_def)
  then show ?thesis using assms(1) by (simp add: strip_port_def Let_def)
qed

text \<open>What a browser sends in \<open>Host\<close>: the host, with the port it reached it on when that is not the
  default one.\<close>

definition host_header :: "string \<Rightarrow> nat option \<Rightarrow> string" where
  "host_header h p = (case p of None \<Rightarrow> h | Some n \<Rightarrow> h @ '':'' @ show_nat n)"

lemma strip_host_header: "CHR '':'' \<notin> set h \<Longrightarrow> strip_port (host_header h p) = h"
  by (auto simp: host_header_def strip_port_plain strip_port_digits show_nat_digits split: option.split)

lemma colon_plain: "\<not> is_upper CHR '':''" "\<not> is_upper CHR ''.''"
  by (simp_all add: is_upper_def)

lemma host_header_lower: "(\<And>c. c \<in> set h \<Longrightarrow> \<not> is_upper c) \<Longrightarrow> to_lower (host_header h p) = host_header h p"
  by (rule to_lower_id)
    (auto simp: host_header_def colon_plain dest: show_nat_digits char_lower_facts split: option.splits)

lemma configured_domain:
  assumes "check_preview_domain d = Inr (Some domain)"
  shows "list_all domain_char domain"
  using assms by (auto simp: check_preview_domain_def Let_def split: option.splits if_splits)

lemma domain_char_plain: "domain_char c \<Longrightarrow> \<not> is_upper c \<and> c \<noteq> CHR '':''"
  by (auto simp: domain_char_def is_upper_def is_lower_def is_digit_def)

lemma label_char_plain: "label_char c \<Longrightarrow> \<not> is_upper c \<and> c \<noteq> CHR '':'' \<and> c \<noteq> CHR ''.''"
  by (auto simp: label_char_def is_upper_def is_lower_def is_digit_def)

lemma digit_label_char: "is_digit c \<Longrightarrow> label_char c"
  by (simp add: label_char_def)

lemma preview_label_chars: "c \<in> set (preview_label sid (show_nat port)) \<Longrightarrow> label_char c"
  by (auto simp: preview_label_def dest: sanitize_label_chars show_nat_digits digit_label_char)
     (simp_all add: label_char_def is_lower_def)

lemma preview_host_chars:
  "list_all domain_char domain \<Longrightarrow> c \<in> set (preview_host domain sid port) \<Longrightarrow> \<not> is_upper c \<and> c \<noteq> CHR '':''"
  unfolding preview_host_def set_append list_all_iff
  using preview_label_chars label_char_plain domain_char_plain colon_plain by fastforce

section \<open>Properties\<close>

text \<open>Every preview the control plane names is reachable under that name: in the domain it booted with,
  the host made for a sandbox and a port is read back as that sandbox (its label) and that port,
  whichever port the browser reached the listener on.\<close>

lemma preview_host_roundtrip:
  assumes "check_preview_domain configured = Inr (Some domain)" and "sid \<noteq> ''''" and "1 \<le> port" and "port \<le> 65535"
  shows "parse_preview_host domain (Some (host_header (preview_host domain sid port) via)) =
    Some \<lparr>target_sandbox_id = sanitize_label sid, target_port = port\<rparr>"
proof -
  have d: "list_all domain_char domain" by (rule configured_domain [OF assms(1)])
  have h: "strip_port (to_lower (host_header (preview_host domain sid port) via)) = preview_host domain sid port"
  proof (subst host_header_lower)
    show "strip_port (host_header (preview_host domain sid port) via) = preview_host domain sid port"
      by (rule strip_host_header) (use preview_host_chars [OF d] in blast)
  qed (use preview_host_chars [OF d] in blast)
  have low: "to_lower domain = domain"
    using d by (intro to_lower_id) (auto simp: list_all_iff dest: domain_char_plain)
  have mark: "last_index_of ''-p'' (preview_label sid (show_nat port)) = Some (length (sanitize_label sid))"
    unfolding preview_label_def
    by (rule last_index_of_append) (use contains_pair_digits [OF show_nat_digits] in simp_all)
  have digits: "list_all is_digit (show_nat port)" by (simp add: list_all_iff show_nat_digits)
  have few: "\<not> 5 < length (show_nat port)" using show_nat_length [of port] assms(4) by simp
  have label: "drop (length (sanitize_label sid) + 2) (preview_label sid (show_nat port)) = show_nat port"
    "take (length (sanitize_label sid)) (preview_label sid (show_nat port)) = sanitize_label sid"
    by (simp_all add: preview_label_def)
  have ends: "ends_with (''.'' @ domain) (preview_host domain sid port)"
    by (auto simp: ends_with_suffix preview_host_def)
  have cut: "take (length (preview_host domain sid port) - length (''.'' @ domain)) (preview_host domain sid port) =
    preview_label sid (show_nat port)" by (simp add: preview_host_def)
  have nonempty: "preview_label sid (show_nat port) \<noteq> ''''" by (simp add: preview_label_def)
  show ?thesis
    unfolding parse_preview_host_def option.case h Let_def low cut mark label
    using assms ends nonempty digits few by simp
qed

text \<open>Whatever host and path a request names, it is relayed only to a port a server can listen on and to
  a sandbox named in a host of the configured domain; every other request is answered here.\<close>

lemma preview_answers_bounded:
  assumes "handle_preview domain url host = Relayed t"
  shows "1 \<le> target_port t \<and> target_port t \<le> 65535 \<and> target_sandbox_id t \<noteq> '''' \<and>
    (\<exists>h rest. host = Some h \<and>
       strip_port (to_lower h) = target_sandbox_id t @ rest @ ''.'' @ to_lower domain)"
proof -
  from assms obtain h where h: "host = Some h" and p: "parse_preview_host domain (Some h) = Some t"
    by (auto simp: handle_preview_def parse_preview_host_def split: if_splits option.splits)
  define w where "w = strip_port (to_lower h)"
  define suffix where "suffix = ''.'' @ to_lower domain"
  from p obtain mark where ends: "ends_with suffix w" and mark: "0 < mark"
    and label: "take (length w - length suffix) w \<noteq> ''''"
    and sid: "target_sandbox_id t = take mark (take (length w - length suffix) w)"
    and port: "1 \<le> target_port t \<and> target_port t \<le> 65535"
    unfolding parse_preview_host_def option.case Let_def w_def [symmetric] suffix_def [symmetric]
    by (auto split: if_splits option.splits)
  from ends obtain l where w: "w = l @ suffix" by (auto simp: ends_with_suffix)
  then have "target_sandbox_id t = take mark l" using sid by simp
  then have "w = target_sandbox_id t @ drop mark l @ suffix" by (simp add: w)
  moreover have "target_sandbox_id t \<noteq> ''''" using sid mark label w by simp
  ultimately show ?thesis using port h unfolding w_def suffix_def by blast
qed

text \<open>A domain spelled in upper case does not fail the boot: it is lowered.\<close>

lemma uppercase_domain_accepted:
  "check_preview_domain (Some ''Sandbox.Example'') = Inr (Some ''sandbox.example'')"
  by code_simp

lemma preview_host_roundtrip_witness:
  "parse_preview_host ''sandbox.example'' (Some (host_header (preview_host ''sandbox.example'' ''Box-p9'' 8080) (Some 8082))) =
    Some \<lparr>target_sandbox_id = sanitize_label ''Box-p9'', target_port = 8080\<rparr>"
  using preview_host_roundtrip [OF uppercase_domain_accepted, of "''Box-p9''" 8080 "Some 8082"] by simp

lemma preview_answers_bounded_witness:
  "handle_preview ''x'' ''/'' (Some ''a-p80.x'') = Relayed \<lparr>target_sandbox_id = ''a'', target_port = 80\<rparr> \<and> (80 :: nat) \<le> 65535"
proof -
  have "handle_preview ''x'' ''/'' (Some ''a-p80.x'') = Relayed \<lparr>target_sandbox_id = ''a'', target_port = 80\<rparr>"
    by (simp add: handle_preview_def PREVIEW_HEALTH_PATH_def parse_preview_host_def strip_port_def
        to_lower_def is_upper_def is_digit_def ends_with_def read_nat_def digit_val_def)
  with preview_answers_bounded [OF this] show ?thesis by simp
qed

end
