(* ===== verification/Sandbox_Path.thy ===== *)
theory Sandbox_Path
  imports Posix_Path Prelude "HOL-Library.Sublist"
begin

text \<open>
  \<open>sandbox/sandbox-path.ts\<close> and the wrapped methods of \<open>sandbox/working-directory.ts\<close>: a path of the
  host's session workspace becomes the matching path inside the sandbox. Host paths are POSIX
  paths, and both workspaces are absolute.
\<close>

definition is_inside_sandbox_workspace :: "string \<Rightarrow> string \<Rightarrow> bool" where
  "is_inside_sandbox_workspace path sandbox =
    (if \<not> is_absolute path then False
     else let child = relative sandbox path
          in child = '''' \<or> (child \<noteq> ''..'' \<and> \<not> starts_with ''../'' child \<and> \<not> is_absolute child))"

definition path_in_sandbox :: "string \<Rightarrow> string option \<Rightarrow> string \<Rightarrow> string" where
  "path_in_sandbox path session sandbox =
    (case session of
       None \<Rightarrow> path
     | Some workspace \<Rightarrow>
        if \<not> is_absolute path \<or> is_inside_sandbox_workspace path sandbox then path
        else
          (let child = relative workspace path
           in if child = '''' then sandbox
              else if child = ''..'' \<or> starts_with ''../'' child \<or> is_absolute child then path
              else join_path (sandbox # split_on slash child)))"

text \<open>
  \<open>useSandboxFrame\<close>: \<open>get\<close>, \<open>ensure\<close> and \<open>set\<close> over the stock methods, which are dsh's and so are
  parameters, as is \<open>withInitiator\<close>. \<open>cwd\<close> is the session header's directory.
\<close>

definition frame_get :: "string \<Rightarrow> string \<Rightarrow> string \<Rightarrow> string" where
  "frame_get stock_get cwd sandbox = path_in_sandbox stock_get (Some cwd) sandbox"

definition frame_ensure ::
  "('a \<Rightarrow> ('w, string) comp \<Rightarrow> ('w, string) comp) \<Rightarrow> ('w \<Rightarrow> 'a option) \<Rightarrow> ('w \<Rightarrow> string) \<Rightarrow> ('a \<Rightarrow> ('w, string) comp) \<Rightarrow>
   'a \<Rightarrow> string \<Rightarrow> string \<Rightarrow> ('w, string) comp" where
  "frame_ensure with_initiator current stock_get stock_ensure agent cwd sandbox =
    bindE (gets current) (\<lambda>initiator.
      if initiator = None then gets (\<lambda>w. frame_get (stock_get w) cwd sandbox)
      else with_initiator agent (stock_ensure agent))"

definition frame_set ::
  "('a \<Rightarrow> ('w, string) comp \<Rightarrow> ('w, string) comp) \<Rightarrow> ('a \<Rightarrow> string \<Rightarrow> ('w, string) comp) \<Rightarrow>
   'a \<Rightarrow> string \<Rightarrow> ('w, string) comp" where
  "frame_set with_initiator stock_set agent path = with_initiator agent (stock_set agent path)"

section \<open>Segments of a path\<close>

definition clean_segment :: "string \<Rightarrow> bool" where
  "clean_segment w \<longleftrightarrow> w \<noteq> '''' \<and> w \<noteq> ''.'' \<and> w \<noteq> ''..'' \<and> slash \<notin> set w"

lemma resolve_clean:
  assumes "list_all clean_segment acc" and "list_all (\<lambda>w. slash \<notin> set w) ws"
  shows "list_all clean_segment (resolve_segments False acc ws)"
  using assms
proof (induction "False" acc ws rule: resolve_segments.induct)
  case (2 acc w ws)
  then show ?case by (cases acc) (auto simp: clean_segment_def)
qed simp

lemma resolve_append:
  "resolve_segments up acc (xs @ ys) = resolve_segments up (rev (resolve_segments up acc xs)) ys"
  by (induction up acc xs rule: resolve_segments.induct) (auto split: list.split)

lemma resolve_clean_id: "list_all clean_segment ws \<Longrightarrow> resolve_segments up acc ws = rev acc @ ws"
  by (induction ws arbitrary: acc) (auto simp: clean_segment_def)

lemma split_no_sep: "list_all (\<lambda>w. c \<notin> set w) (split_on c s)"
  using split_on_parts by (auto simp: list_all_iff)

lemma split_on_join2: "split_on c (s @ c # t) = split_on c s @ split_on c t"
proof (induction s)
  case (Cons x s)
  then show ?case by (cases "split_on c s") auto
qed simp

lemma segments_clean: "is_absolute p \<Longrightarrow> list_all clean_segment (segments p)"
  by (simp add: segments_def resolve_clean split_no_sep)

lemma split_clean_join: "list_all clean_segment ws \<Longrightarrow> ws \<noteq> [] \<Longrightarrow> split_on slash (join_with ''/'' ws) = ws"
  by (rule split_join) (auto simp: list_all_iff clean_segment_def)

lemma absolute_append: "is_absolute p \<Longrightarrow> is_absolute (p @ q)"
  by (cases p) auto

lemma segments_rooted:
  assumes "list_all clean_segment ws" and "t = '''' \<or> t = ''/''"
  shows "segments (''/'' @ join_with ''/'' ws @ t) = ws"
proof -
  have s: "resolve_segments False [] (split_on slash (join_with ''/'' ws)) = ws"
    by (cases "ws = []") (simp_all add: split_clean_join resolve_clean_id assms(1))
  have "resolve_segments False [] (split_on slash (join_with ''/'' ws @ t)) = ws"
    using assms(2) s by (auto simp: split_on_join2 resolve_append)
  then show ?thesis by (simp add: segments_def)
qed

lemma segments_normalize: "is_absolute p \<Longrightarrow> segments (normalize_path p) = segments p"
proof -
  assume a: "is_absolute p"
  then have c: "list_all clean_segment (segments p)" by (rule segments_clean)
  have "segments (''/'' @ join_with ''/'' (segments p)) = segments p"
    using segments_rooted [OF c, of "''''"] by simp
  moreover have "join_with ''/'' (segments p) = [] \<Longrightarrow> segments p = []"
    using c split_clean_join [OF c] by (cases "segments p") (auto simp: clean_segment_def)
  ultimately show ?thesis
    using a segments_rooted [OF c, of "''/''"] segments_rooted [of "[]" "''''"]
    by (auto simp: normalize_path_def Let_def)
qed

lemma segments_join:
  assumes "is_absolute p" and "list_all clean_segment ws"
  shows "is_absolute (join_path (p # ws)) \<and> segments (join_path (p # ws)) = segments p @ ws"
proof -
  have f: "filter (\<lambda>w. w \<noteq> []) (p # ws) = p # ws"
    using assms by (cases p) (auto simp: list_all_iff clean_segment_def filter_id_conv)
  define j where "j = join_with ''/'' (p # ws)"
  have j: "is_absolute j"
    using assms(1) by (cases ws) (simp_all add: j_def absolute_append)
  have "segments j = segments p @ ws"
  proof (cases ws)
    case Nil
    then show ?thesis by (simp add: j_def)
  next
    case (Cons v vs)
    then have "split_on slash j = split_on slash p @ ws"
      using split_clean_join [OF assms(2)] by (simp add: j_def split_on_join2)
    then show ?thesis
      using j assms by (simp add: segments_def resolve_append resolve_clean_id)
  qed
  moreover have "join_path (p # ws) = normalize_path j"
    unfolding join_path_def f using j by (cases j) (auto simp: j_def Let_def)
  moreover have "is_absolute (normalize_path j)"
    using j by (auto simp: normalize_path_def Let_def)
  ultimately show ?thesis using j by (simp add: segments_normalize)
qed

section \<open>Children\<close>

lemma relative_inside:
  assumes "segments p = segments w @ ds"
  shows "relative w p = join_with ''/'' ds"
proof -
  have "drop_common cs (cs @ ds) = ([], ds)" for cs
    by (induction cs) (cases ds; simp)+
  then show ?thesis by (simp add: relative_def assms)
qed

lemma clean_child:
  assumes "list_all clean_segment ds"
  shows "join_with ''/'' ds \<noteq> ''..'' \<and> \<not> starts_with ''../'' (join_with ''/'' ds) \<and> \<not> is_absolute (join_with ''/'' ds) \<and>
    (join_with ''/'' ds = '''' \<longleftrightarrow> ds = [])"
proof (cases ds)
  case (Cons d es)
  have s: "split_on slash (join_with ''/'' ds) = ds" by (rule split_clean_join [OF assms]) (simp add: Cons)
  have d: "clean_segment d" using assms Cons by simp
  have "join_with ''/'' ds \<noteq> ''..''" "join_with ''/'' ds \<noteq> ''''"
    using s d Cons by (auto simp: clean_segment_def)
  moreover have "\<not> starts_with ''../'' (join_with ''/'' ds)"
    using s d Cons by (auto simp: starts_with_prefix clean_segment_def)
  moreover have "\<not> is_absolute (join_with ''/'' ds)"
    using s d Cons by (cases "join_with ''/'' ds") (auto simp: clean_segment_def)
  ultimately show ?thesis using Cons by simp
qed simp

lemma relative_outside:
  assumes "is_absolute w" and "is_absolute p" and "\<not> prefix (segments w) (segments p)"
  shows "relative w p = ''..'' \<or> starts_with ''../'' (relative w p)"
proof -
  obtain us ds where d: "drop_common (segments w) (segments p) = (us, ds)" by fastforce
  obtain cs where cs: "segments w = cs @ us" "segments p = cs @ ds" using drop_common_eq [OF d] by auto
  with assms(3) obtain u us' where "us = u # us'" by (cases us) auto
  then have r: "relative w p = join_with ''/'' (''..'' # replicate (length us') ''..'' @ ds)"
    by (simp add: relative_def d)
  show ?thesis by (cases "replicate (length us') ''..'' @ ds") (simp_all add: r)
qed

lemma inside_iff:
  assumes "is_absolute sandbox" and "is_absolute p"
  shows "is_inside_sandbox_workspace p sandbox \<longleftrightarrow> prefix (segments sandbox) (segments p)"
proof (cases "prefix (segments sandbox) (segments p)")
  case True
  then obtain ds where ds: "segments p = segments sandbox @ ds" by (auto simp: prefix_def)
  have "list_all clean_segment ds" using segments_clean [OF assms(2)] by (simp add: ds)
  then show ?thesis
    using True clean_child assms(2) by (simp add: is_inside_sandbox_workspace_def Let_def relative_inside [OF ds])
next
  case False
  from relative_outside [OF assms False] show ?thesis
    using False by (auto simp: is_inside_sandbox_workspace_def Let_def)
qed

lemma path_kept:
  assumes "is_absolute path" and "is_absolute workspace" and "is_absolute sandbox"
    and "prefix (segments sandbox) (segments path) \<or> \<not> prefix (segments workspace) (segments path)"
  shows "path_in_sandbox path (Some workspace) sandbox = path"
  using assms relative_outside [OF assms(2,1)] by (auto simp: path_in_sandbox_def inside_iff Let_def)

lemma path_moved:
  assumes "is_absolute path" and "is_absolute workspace" and "is_absolute sandbox"
    and out: "\<not> prefix (segments sandbox) (segments path)" and ds: "segments path = segments workspace @ ds"
  shows "is_absolute (path_in_sandbox path (Some workspace) sandbox) \<and>
    segments (path_in_sandbox path (Some workspace) sandbox) = segments sandbox @ ds"
proof -
  have c: "list_all clean_segment ds" using segments_clean [OF assms(1)] by (simp add: ds)
  have i: "\<not> is_inside_sandbox_workspace path sandbox" using out by (simp add: inside_iff assms(1,3))
  show ?thesis
    using clean_child [OF c] segments_join [OF assms(3) c] split_clean_join [OF c]
    by (auto simp: path_in_sandbox_def i assms(1,3) relative_inside [OF ds] Let_def)
qed

section \<open>Properties\<close>

text \<open>Translation moves a path by whole directories: a path inside the sandbox workspace stays where it is,
  a path inside the session workspace becomes the sandbox workspace followed by the same
  directories, and any other path stays, however the paths are spelled.\<close>

lemma path_in_sandbox_exact:
  assumes "is_absolute path" and "is_absolute workspace" and "is_absolute sandbox"
  shows "segments (path_in_sandbox path (Some workspace) sandbox) =
    (if prefix (segments sandbox) (segments path) then segments path
     else if prefix (segments workspace) (segments path)
       then segments sandbox @ drop (length (segments workspace)) (segments path)
     else segments path)"
proof -
  have "segments path = segments workspace @ drop (length (segments workspace)) (segments path)"
    if "prefix (segments workspace) (segments path)" using that by (auto simp: prefix_def)
  then show ?thesis using path_kept [OF assms] path_moved [OF assms] by simp
qed

text \<open>The working directory told to a session is never a directory of the control plane's session
  workspace, where the two workspaces lie apart: it is outside it, and reading it again changes
  nothing.\<close>

lemma working_directory_in_sandbox:
  assumes "is_absolute dir" and "is_absolute cwd" and "is_absolute sandbox"
    and "\<not> prefix (segments cwd) (segments sandbox)" and "\<not> prefix (segments sandbox) (segments cwd)"
  shows "\<not> prefix (segments cwd) (segments (frame_get dir cwd sandbox)) \<and>
    frame_get (frame_get dir cwd sandbox) cwd sandbox = frame_get dir cwd sandbox"
proof (cases "\<not> prefix (segments sandbox) (segments dir) \<and> prefix (segments cwd) (segments dir)")
  case True
  then obtain ds where "segments dir = segments cwd @ ds" by (auto simp: prefix_def)
  from path_moved [OF assms(1,2,3) _ this] True
  have m: "is_absolute (frame_get dir cwd sandbox)" "segments (frame_get dir cwd sandbox) = segments sandbox @ ds"
    by (simp_all add: frame_get_def)
  then have "prefix (segments sandbox) (segments (frame_get dir cwd sandbox))" by simp
  then show ?thesis
    using m(1) assms path_kept [OF m(1) assms(2,3)] prefix_same_cases by (metis frame_get_def)
next
  case False
  then have "frame_get dir cwd sandbox = dir" using path_kept [OF assms(1,2,3)] by (auto simp: frame_get_def)
  then show ?thesis using False assms(4,5) prefix_same_cases by metis
qed

lemma path_in_sandbox_exact_witness:
  "segments (path_in_sandbox ''/state/s1/../s1/src/'' (Some ''/state/s1'') ''/workspace/repository'') =
     [''workspace'', ''repository'', ''src'']"
  using path_in_sandbox_exact [of "''/state/s1/../s1/src/''" "''/state/s1''" "''/workspace/repository''"]
  by (simp add: segments_def prefix_def)

lemma working_directory_in_sandbox_witness:
  "\<not> prefix [''state'', ''s1''] (segments (frame_get ''/state/s1/src'' ''/state/s1'' ''/workspace''))"
  using working_directory_in_sandbox [of "''/state/s1/src''" "''/state/s1''" "''/workspace''"]
  by (simp add: segments_def)

end
