(* ===== verification/Profile_Choice.thy ===== *)
theory Profile_Choice
  imports Lifecycle_Witnesses Profile_Config
begin

text \<open>
  \<open>sandbox/manager/profile-choice.ts\<close>: the profile a session runs under, what the page shows of it
  and what a session without a sandbox is provisioned with. The settings are read when a method
  runs; the choice is in the session store.
\<close>

record profile_view =
  pv_profiles :: "(string \<times> string) list"
  pv_selected :: string
  pv_locked :: bool

definition pending_name :: "resolved_runtime \<Rightarrow> string \<Rightarrow> state_file \<Rightarrow> string option" where
  "pending_name settings sid f = or_option (pending_profile sid f) (rr_default_profile settings)"

definition profile_choices :: "resolved_runtime \<Rightarrow> string \<Rightarrow> state_file \<Rightarrow> profile_view" where
  "profile_choices settings sid f =
    (let rec = get_record sid f in
     \<lparr>pv_profiles = map (\<lambda>(_, p). (profile_name p, profile_backend p)) (rr_profiles settings),
      pv_selected = (case rec of Some r \<Rightarrow> record_profile r | None \<Rightarrow> or_else (pending_name settings sid f) ''''),
      pv_locked = (rec \<noteq> None)\<rparr>)"

definition choice_pending :: "resolved_runtime \<Rightarrow> string \<Rightarrow> state_file \<Rightarrow> error + sandbox_profile" where
  "choice_pending settings sid f =
    (case pending_name settings sid f of
       None \<Rightarrow> Inl (Plain ''no sandbox profile is configured; add one to the sandbox-manager settings'')
     | Some n \<Rightarrow>
        (case map_of (rr_profiles settings) n of
           None \<Rightarrow> Inl (Plain (''sandbox profile '' @ n @ '' is no longer configured; pick another profile''))
         | Some p \<Rightarrow> Inr p))"

definition choice_current :: "resolved_runtime \<Rightarrow> string \<Rightarrow> state_file \<Rightarrow> sandbox_profile option" where
  "choice_current settings sid f =
    (case (case get_record sid f of Some r \<Rightarrow> Some (record_profile r) | None \<Rightarrow> pending_name settings sid f) of
       None \<Rightarrow> None | Some n \<Rightarrow> map_of (rr_profiles settings) n)"

definition choose_profile ::
  "('e, unit) comp \<Rightarrow> ('e \<Rightarrow> resolved_runtime) \<Rightarrow> string \<Rightarrow> string \<Rightarrow> (session_store \<times> 'e, profile_view) comp" where
  "choose_profile flush settings sid n =
    bindE (gets (\<lambda>(d, e). map_of (rr_profiles (settings e)) n)) (\<lambda>known.
      if known = None then throw (Plain (''unknown sandbox profile: '' @ n))
      else bindE (gets (\<lambda>(d, e). get_record sid (mem d))) (\<lambda>rec.
        if rec \<noteq> None then throw (Plain ''this session already has a sandbox'')
        else thenE (set_pending_profile flush sid n)
          (gets (\<lambda>(d, e). profile_choices (settings e) sid (mem d)))))"

section \<open>Facts\<close>

text \<open>A resolved profile carries the name it is listed under.\<close>

lemma resolved_name: "resolve_profile pf n p port d = Inr q \<Longrightarrow> profile_name q = n"
  by (auto simp: resolve_profile_def Let_def split: sum.splits profile_config.splits)

lemma degrading_names:
  assumes "resolve_degrading_runtime pf config port base = (settings, ws)"
    and "map_of (rr_profiles settings) n = Some q"
  shows "profile_name q = n"
proof -
  obtain ready port' ps w where "degrade_profiles pf port' ready [] ps = (rr_profiles settings, w)"
    using assms(1) by (auto simp: resolve_degrading_runtime_def Let_def split: prod.splits)
  from degrade_profiles_from [OF this map_of_SomeD [OF assms(2)]] show ?thesis
    by (auto dest: resolved_name)
qed

lemma provision_fresh_profile:
  "wp (provision_fresh d sid repo)
     (\<lambda>_ t. \<exists>r p. record_of sid t = Some r \<and> ld_pending_profile d sid (mem (w_store w)) = Inr p
        \<and> record_profile r = profile_name p) (\<lambda>_ _. True) w"
  by (auto simp: provision_fresh_def provision_session_def wp_simps fresh_record_def store_reads
      intro!: wp_intro split: sum.split)

lemma ensure_fresh_profile:
  assumes "record_of sid w = None"
  shows "wp (ensure_running d sid repo)
     (\<lambda>_ t. \<exists>r p. record_of sid t = Some r \<and> ld_pending_profile d sid (mem (w_store w)) = Inr p
        \<and> record_profile r = profile_name p) (\<lambda>_ _. True) w"
proof -
  have "ensure_running d sid repo w = answering (provision_fresh d sid repo) w"
    unfolding ensure_running_def react_fuel_Suc using assms by (simp add: react_dispatch dispatch_def)
  then show ?thesis using provision_fresh_profile [of d sid repo w]
    by (simp add: wp_eq [of "ensure_running d sid repo"] wp_simps)
qed

section \<open>Properties\<close>

text \<open>What the page shows is what the session gets: where the settings the host resolved are the ones the
  lifecycle asks, a session without a sandbox is provisioned under exactly the profile shown as
  selected, the page shows the same profile afterwards, and it is locked.\<close>

lemma shown_profile_is_provisioned:
  assumes "resolve_degrading_runtime pf config port base = (settings, warnings)"
    and "ld_pending_profile d = choice_pending settings"
    and "record_of sid w = None" and "ensure_running d sid repo w = (Inr res, w')"
  shows "pv_selected (profile_choices settings sid (mem (w_store w')))
      = pv_selected (profile_choices settings sid (mem (w_store w)))
    \<and> pv_locked (profile_choices settings sid (mem (w_store w')))
    \<and> \<not> pv_locked (profile_choices settings sid (mem (w_store w)))"
proof -
  from wp_resultD [OF ensure_fresh_profile [OF assms(3), of d repo] assms(4)]
  obtain r p where r: "record_of sid w' = Some r" "choice_pending settings sid (mem (w_store w)) = Inr p"
    "record_profile r = profile_name p" using assms(2) by auto
  from r(2) obtain n where n: "pending_name settings sid (mem (w_store w)) = Some n" "map_of (rr_profiles settings) n = Some p"
    by (auto simp: choice_pending_def split: option.splits)
  then have "record_profile r = n" using r(3) degrading_names [OF assms(1)] by simp
  moreover have "get_record sid (mem (w_store w')) = Some r" "get_record sid (mem (w_store w)) = None"
    using r(1) assms(3) unfolding record_of_def by this+
  ultimately show ?thesis using n(1) by (simp add: profile_choices_def Let_def or_else_def)
qed

text \<open>A choice is accepted exactly when its profile is configured and the session has no sandbox; a
  refused one changes nothing, and an accepted one is what the session would be provisioned with
  from then on, even when writing it fails.\<close>

lemma choose_profile_exact:
  assumes "choose_profile flush settings sid n (d, e) = (res, d', e')"
  shows "if map_of (rr_profiles (settings e)) n = None then
       res = Inl (Plain (''unknown sandbox profile: '' @ n)) \<and> d' = d \<and> e' = e
     else if get_record sid (mem d) \<noteq> None then
       res = Inl (Plain ''this session already has a sandbox'') \<and> d' = d \<and> e' = e
     else mem d' = put_pending sid n (mem d) \<and>
       (\<forall>v. res = Inr v \<longrightarrow> disk d' = Some (mem d') \<and> pv_selected v = n) \<and>
       (\<forall>known. rr_profiles known = rr_profiles (settings e) \<longrightarrow>
          choice_pending known sid (mem d') = Inr (the (map_of (rr_profiles (settings e)) n)))"
proof -
  have pend: "choice_pending known sid (put_pending sid n (mem d)) = Inr p"
    if "map_of (rr_profiles known) n = Some p" for known p
    using that by (simp add: choice_pending_def pending_name_def pending_profile_def put_pending_def or_option_def)
  have shown: "pv_selected (profile_choices known sid (put_pending sid n (mem d))) = n" if "get_record sid (mem d) = None" for known
    using that by (simp add: profile_choices_def Let_def pending_name_def pending_profile_def put_pending_def
        get_record_def or_option_def or_else_def)
  show ?thesis
    using assms pend shown
    by (auto simp: choose_profile_def set_pending_profile_def comp_defs change_def
        split: prod.splits sum.splits dest!: persist_Inr persist_Inl)
qed

section \<open>Witnesses\<close>

definition demo_small :: runtime_config where
  "demo_small = \<lparr>rc_profiles = Some [(''small'', demo_docker_config (Some ''ws://h/tunnel''))],
     rc_default_profile = None, rc_idle_ms = None, rc_expires_after_ms = None, rc_ready_timeout_ms = None\<rparr>"

definition demo_settings :: resolved_runtime where
  "demo_settings = fst (resolve_degrading_runtime demo_platform demo_small 8081 no_settings)"

lemmas resolve_defs = resolve_degrading_runtime_def no_settings_def with_deployment_base_def or_else_def
  or_option_def degrade_ready_def demo_docker_config_def resolve_profile_def profile_idle_check_def
  check_control_plane_url_def demo_platform_def degrade_default_def chosen_default_def first_name_def
  known_default_def boot_timer_def

lemma demo_settings_profile:
  "choice_pending demo_settings ''s1'' empty_state = Inr (DockerP \<lparr>dk_name = ''small'', dk_image = ''runner:1'',
     dk_binary = None, dk_control_plane_url = ''ws://h/tunnel'', dk_idle_ms = None\<rparr>)"
  by (simp add: demo_settings_def demo_small_def resolve_defs choice_pending_def pending_name_def
      pending_profile_def empty_state_def)

definition demo_choice_deps :: "int lifecycle_deps" where
  "demo_choice_deps = (demo_deps True)\<lparr>ld_pending_profile := choice_pending demo_settings\<rparr>"

lemma demo_choice_ensure:
  "ensure_running demo_choice_deps ''s1'' (ret ''https://github.com/o/r'') demo_start = (Inr (Some 7), demo_live)"
  using demo_settings_profile
  by (simp add: demo_choice_deps_def lifecycle_defs demo_defs comp_defs demo_attach empty_state_def)

lemma shown_profile_is_provisioned_witness:
  "pv_locked (profile_choices demo_settings ''s1'' (mem (w_store demo_live))) \<and>
   \<not> pv_locked (profile_choices demo_settings ''s1'' (mem (w_store demo_start)))"
proof -
  have "record_of ''s1'' demo_start = None" by (simp add: record_of_def get_record_def first_world_def empty_state_def)
  with shown_profile_is_provisioned [where settings = demo_settings and pf = demo_platform and config = demo_small
        and port = 8081 and base = no_settings, OF _ _ _ demo_choice_ensure]
  show ?thesis
    by (simp add: demo_choice_deps_def demo_settings_def prod_eq_iff)
qed

lemma choose_profile_exact_witness:
  "choose_profile (ret ()) (\<lambda>e. demo_settings) ''s1'' ''huge'' (\<lparr>mem = empty_state, disk = None, chain = None\<rparr>, 0 :: nat) =
     (Inl (Plain ''unknown sandbox profile: huge''), \<lparr>mem = empty_state, disk = None, chain = None\<rparr>, 0)"
proof -
  define s :: "session_store \<times> nat" where "s = (\<lparr>mem = empty_state, disk = None, chain = None\<rparr>, 0)"
  have n: "map_of (rr_profiles demo_settings) ''huge'' = None"
    by (simp add: demo_settings_def demo_small_def resolve_defs)
  obtain res d' e' where c: "choose_profile (ret ()) (\<lambda>e. demo_settings) ''s1'' ''huge'' s = (res, d', e')"
    by (metis prod.exhaust)
  then show ?thesis unfolding s_def using choose_profile_exact [OF c [unfolded s_def]] n by simp
qed

end
