(* ===== verification/Sandbox_Status.thy ===== *)
theory Sandbox_Status
  imports Lifecycle_Witnesses Preview "HOL-Library.Word"
begin

text \<open>
  \<open>sandbox/manager/sandbox-status.ts\<close>, what the Sandbox tab is told, and the check of
  \<open>sandbox/sandbox-status-remote.ts\<close> that every answer to the page must pass. The numbers a runner
  reports keep the widths of the protocol. \<open>stamp\<close> is the text of a timestamp.
\<close>

section \<open>The view\<close>

datatype sandbox_phase = Starting | Setup

record host_facts =
  hf_backend :: string
  hf_profile :: string
  hf_image :: "string option"
  hf_sandbox_id :: "string option"
  hf_state :: string
  hf_repository_url :: string
  hf_started_at :: timestamp
  hf_expires_at :: "timestamp option"
  hf_preview_host :: "string option"

record live_facts =
  lf_texts :: "string \<times> string \<times> string \<times> string"
  lf_cpu_count :: js_number
  lf_memory_total :: js_number
  lf_workspace_used :: js_number
  lf_workspace_total :: js_number
  lf_filesystem_used :: js_number
  lf_filesystem_total :: js_number
  lf_uptime :: js_number
  lf_ports :: "js_number list"

record status_view =
  vw_sandbox :: "host_facts option"
  vw_live :: "live_facts option"
  vw_phase :: "sandbox_phase option"
  vw_preview_domain :: "string option"

text \<open>\<open>SandboxStatusResponse\<close> of the protocol: \<open>int32\<close> and \<open>int64\<close> fields.\<close>

record machine_status =
  ms_hostname :: string
  ms_os_name :: string
  ms_kernel_version :: string
  ms_architecture :: string
  ms_cpu_count :: "32 word"
  ms_memory_total_bytes :: "64 word"
  ms_workspace_used_bytes :: "64 word"
  ms_workspace_total_bytes :: "64 word"
  ms_filesystem_used_bytes :: "64 word"
  ms_filesystem_total_bytes :: "64 word"
  ms_uptime_seconds :: "64 word"
  ms_listening_ports :: "32 word list"

text \<open>\<open>Number(n)\<close> of a \<open>bigint\<close>: the nearest number of 53 bits, ties to the even one.\<close>

fun excess_bits :: "nat \<Rightarrow> nat" where
  "excess_bits n = (if n < 2 ^ 53 then 0 else Suc (excess_bits (n div 2)))"

declare excess_bits.simps [simp del]

definition round_bits :: "nat \<Rightarrow> nat" where
  "round_bits n =
    (let e = excess_bits n; q = n div 2 ^ e; r = n mod 2 ^ e
     in if 2 * r > 2 ^ e \<or> (2 * r = 2 ^ e \<and> odd q) then Suc q * 2 ^ e else q * 2 ^ e)"

definition number_of_int :: "int \<Rightarrow> js_number" where
  "number_of_int i = js_int (if i < 0 then - int (round_bits (nat (- i))) else int (round_bits (nat i)))"

section \<open>Reading a status\<close>

fun profile_image :: "sandbox_profile \<Rightarrow> string option" where
  "profile_image (DockerP p) = Some (dk_image p)"
| "profile_image (KasP p) = None"
| "profile_image (BuildkiteP p) = Some (bk_image p)"

fun state_text :: "session_state \<Rightarrow> string" where
  "state_text (Running _ _) = ''running''"
| "state_text (Hibernated _ _ _) = ''hibernated''"
| "state_text (Checkpointed _ _) = ''checkpointed''"

fun state_sandbox_id :: "session_state \<Rightarrow> string option" where
  "state_sandbox_id (Running sid _) = Some sid"
| "state_sandbox_id (Hibernated sid _ _) = Some sid"
| "state_sandbox_id (Checkpointed _ _) = None"

fun state_expires_at :: "session_state \<Rightarrow> timestamp option" where
  "state_expires_at (Running _ _) = None"
| "state_expires_at (Hibernated _ _ t) = Some t"
| "state_expires_at (Checkpointed _ t) = Some t"

record 'e status_deps =
  sd_profiles :: "'e \<Rightarrow> (string \<times> sandbox_profile) list"
  sd_turn_live :: "string \<Rightarrow> 'e \<Rightarrow> bool"
  sd_preview_domain :: "string option"
  sd_status_rpc :: "client \<Rightarrow> ('e, machine_status) comp"

definition sandbox_phase_of :: "session_record option \<Rightarrow> bool \<Rightarrow> bool \<Rightarrow> sandbox_phase option" where
  "sandbox_phase_of rec turn_live runner_ready =
    (if \<not> turn_live then None
     else if rec = None then Some Starting
     else if runner_ready then None else Some Setup)"

definition host_facts_of :: "(string \<times> sandbox_profile) list \<Rightarrow> string option \<Rightarrow> session_record \<Rightarrow> host_facts" where
  "host_facts_of profiles domain r =
    (let sandbox = state_sandbox_id (record_state r) in
     \<lparr>hf_backend = record_backend r, hf_profile = record_profile r,
      hf_image = (case map_of profiles (record_profile r) of
        None \<Rightarrow> None | Some p \<Rightarrow> if provisions_from_image p then profile_image p else None),
      hf_sandbox_id = sandbox, hf_state = state_text (record_state r), hf_repository_url = repository_url r,
      hf_started_at = created_at r, hf_expires_at = state_expires_at (record_state r),
      hf_preview_host = (case (sandbox, domain) of
        (Some sid, Some d) \<Rightarrow> Some (preview_host d sid PLACEHOLDER_PREVIEW_PORT) | _ \<Rightarrow> None)\<rparr>)"

definition live_facts_of :: "machine_status \<Rightarrow> live_facts" where
  "live_facts_of m =
    \<lparr>lf_texts = (ms_hostname m, ms_os_name m, ms_kernel_version m, ms_architecture m),
     lf_cpu_count = js_int (sint (ms_cpu_count m)),
     lf_memory_total = number_of_int (sint (ms_memory_total_bytes m)),
     lf_workspace_used = number_of_int (sint (ms_workspace_used_bytes m)),
     lf_workspace_total = number_of_int (sint (ms_workspace_total_bytes m)),
     lf_filesystem_used = number_of_int (sint (ms_filesystem_used_bytes m)),
     lf_filesystem_total = number_of_int (sint (ms_filesystem_total_bytes m)),
     lf_uptime = number_of_int (sint (ms_uptime_seconds m)),
     lf_ports = map (\<lambda>p. js_int (sint p)) (ms_listening_ports m)\<rparr>"

text \<open>A runner that does not answer is not an error.\<close>

definition fetch_live_facts :: "'e status_deps \<Rightarrow> client \<Rightarrow> ('e, live_facts option) comp" where
  "fetch_live_facts deps c =
    catchE (bindE (sd_status_rpc deps c) (\<lambda>m. ret (Some (live_facts_of m)))) (\<lambda>_. ret None)"

definition status_view_of :: "'e status_deps \<Rightarrow> string \<Rightarrow> ('e world, status_view) comp" where
  "status_view_of deps sid =
    bindE (gets (\<lambda>w. (record_of sid w, client_for sid (w_clients w), sd_turn_live deps sid (w_env w), sd_profiles deps (w_env w))))
      (\<lambda>(rec, cached, live, profiles).
       let client = (case rec of Some r \<Rightarrow> if is_running (record_state r) then cached else None | None \<Rightarrow> None);
           view = \<lparr>vw_sandbox = map_option (host_facts_of profiles (sd_preview_domain deps)) rec, vw_live = None,
             vw_phase = sandbox_phase_of rec live (client \<noteq> None), vw_preview_domain = sd_preview_domain deps\<rparr>
       in case client of
            None \<Rightarrow> ret view
          | Some c \<Rightarrow> bindE (outside (fetch_live_facts deps c)) (\<lambda>l. ret (view\<lparr>vw_live := l\<rparr>)))"

section \<open>The answer on the wire\<close>

definition opt_field :: "string \<Rightarrow> json option \<Rightarrow> (string \<times> json) list" where
  "opt_field k v = (case v of None \<Rightarrow> [] | Some j \<Rightarrow> [(k, j)])"

definition host_json :: "(timestamp \<Rightarrow> string) \<Rightarrow> host_facts \<Rightarrow> json" where
  "host_json stamp h = JObj
    ([(''backend'', JStr (hf_backend h)), (''profile'', JStr (hf_profile h)), (''state'', JStr (hf_state h)),
      (''repositoryUrl'', JStr (hf_repository_url h)), (''startedAt'', JStr (stamp (hf_started_at h)))]
     @ opt_field ''image'' (map_option JStr (hf_image h))
     @ opt_field ''sandboxId'' (map_option JStr (hf_sandbox_id h))
     @ opt_field ''expiresAt'' (map_option (\<lambda>t. JStr (stamp t)) (hf_expires_at h))
     @ opt_field ''previewHost'' (map_option JStr (hf_preview_host h)))"

definition live_json :: "live_facts \<Rightarrow> json" where
  "live_json l = (case lf_texts l of (h, os, k, a) \<Rightarrow> JObj
    [(''hostname'', JStr h), (''osName'', JStr os), (''kernelVersion'', JStr k), (''architecture'', JStr a),
     (''cpuCount'', JNum (lf_cpu_count l)), (''memoryTotalBytes'', JNum (lf_memory_total l)),
     (''workspaceDiskUsedBytes'', JNum (lf_workspace_used l)), (''workspaceDiskTotalBytes'', JNum (lf_workspace_total l)),
     (''filesystemDiskUsedBytes'', JNum (lf_filesystem_used l)), (''filesystemDiskTotalBytes'', JNum (lf_filesystem_total l)),
     (''uptimeSeconds'', JNum (lf_uptime l)), (''listeningPorts'', JArr (map JNum (lf_ports l)))])"

fun phase_text :: "sandbox_phase \<Rightarrow> string" where
  "phase_text Starting = ''starting''"
| "phase_text Setup = ''setup''"

definition view_json :: "(timestamp \<Rightarrow> string) \<Rightarrow> status_view \<Rightarrow> json" where
  "view_json stamp v = JObj
    (opt_field ''previewDomain'' (map_option JStr (vw_preview_domain v))
     @ opt_field ''phase'' (map_option (\<lambda>p. JStr (phase_text p)) (vw_phase v))
     @ opt_field ''sandbox'' (map_option (host_json stamp) (vw_sandbox v))
     @ opt_field ''live'' (map_option live_json (vw_live v)))"

definition text_field :: "string \<Rightarrow> json \<Rightarrow> bool" where
  "text_field k v = (case field k v of Some (JStr _) \<Rightarrow> True | _ \<Rightarrow> False)"

definition opt_text_field :: "string \<Rightarrow> json \<Rightarrow> bool" where
  "opt_text_field k v = (field k v = None \<or> text_field k v)"

definition host_facts_schema :: "json \<Rightarrow> error + json" where
  "host_facts_schema v =
    (if object_fields v = None \<or> \<not> text_field ''backend'' v \<or> \<not> text_field ''profile'' v
       \<or> \<not> opt_text_field ''image'' v \<or> \<not> opt_text_field ''sandboxId'' v
       \<or> field ''state'' v \<notin> {Some (JStr ''running''), Some (JStr ''hibernated''), Some (JStr ''checkpointed'')}
       \<or> \<not> text_field ''repositoryUrl'' v \<or> \<not> text_field ''startedAt'' v
       \<or> \<not> opt_text_field ''expiresAt'' v \<or> \<not> opt_text_field ''previewHost'' v
     then Inl (Plain ''expected sandbox host facts'') else Inr v)"

fun is_non_negative_number :: "json option \<Rightarrow> bool" where
  "is_non_negative_number (Some (JNum x)) = (is_finite x \<and> num_le (js_int 0) x)"
| "is_non_negative_number _ = False"

fun is_port :: "json \<Rightarrow> bool" where
  "is_port (JNum x) = (is_integer x \<and> num_le (js_int 1) x \<and> num_le x (js_int 65535))"
| "is_port _ = False"

definition live_facts_schema :: "json \<Rightarrow> error + json" where
  "live_facts_schema v =
    (if object_fields v = None \<or> \<not> text_field ''hostname'' v \<or> \<not> text_field ''osName'' v
       \<or> \<not> text_field ''kernelVersion'' v \<or> \<not> text_field ''architecture'' v
       \<or> \<not> is_non_negative_number (field ''cpuCount'' v) \<or> \<not> is_non_negative_number (field ''memoryTotalBytes'' v)
       \<or> \<not> is_non_negative_number (field ''workspaceDiskUsedBytes'' v)
       \<or> \<not> is_non_negative_number (field ''workspaceDiskTotalBytes'' v)
       \<or> \<not> is_non_negative_number (field ''filesystemDiskUsedBytes'' v)
       \<or> \<not> is_non_negative_number (field ''filesystemDiskTotalBytes'' v)
       \<or> \<not> is_non_negative_number (field ''uptimeSeconds'' v)
       \<or> \<not> (case field ''listeningPorts'' v of Some (JArr ps) \<Rightarrow> list_all is_port ps | _ \<Rightarrow> False)
     then Inl (Plain ''expected sandbox live facts'') else Inr v)"

definition checked_part :: "(json \<Rightarrow> error + json) \<Rightarrow> json option \<Rightarrow> error option" where
  "checked_part schema part =
    (case part of None \<Rightarrow> None | Some v \<Rightarrow> (case schema v of Inl e \<Rightarrow> Some e | Inr _ \<Rightarrow> None))"

definition view_schema :: "json \<Rightarrow> error + json" where
  "view_schema v =
    (if object_fields v = None \<or> field ''phase'' v \<notin> {None, Some (JStr ''starting''), Some (JStr ''setup'')}
       \<or> \<not> opt_text_field ''previewDomain'' v
     then Inl (Plain ''expected a sandbox status view'')
     else case checked_part host_facts_schema (field ''sandbox'' v) of
            Some e \<Rightarrow> Inl e
          | None \<Rightarrow> (case checked_part live_facts_schema (field ''live'' v) of
              Some e \<Rightarrow> Inl e | None \<Rightarrow> Inr v))"

section \<open>Facts\<close>

lemma excess_bits_small: "n < 2 ^ 53 \<Longrightarrow> round_bits n = n"
  by (simp add: round_bits_def excess_bits.simps [of n])

lemma opt_field_map: "map_of (opt_field k v) j = (if j = k then v else None)"
  by (cases v) (simp_all add: opt_field_def)

lemma text_fieldI: "field k v = Some (JStr s) \<Longrightarrow> text_field k v"
  by (simp add: text_field_def)

lemma opt_text_fieldI: "field k v = map_option (\<lambda>x. JStr (f x)) y \<Longrightarrow> opt_text_field k v"
  by (cases y) (simp_all add: opt_text_field_def text_field_def)

lemma host_json_fields:
  "object_fields (host_json stamp h) \<noteq> None"
  "field ''backend'' (host_json stamp h) = Some (JStr (hf_backend h))"
  "field ''profile'' (host_json stamp h) = Some (JStr (hf_profile h))"
  "field ''image'' (host_json stamp h) = map_option (\<lambda>x. JStr x) (hf_image h)"
  "field ''sandboxId'' (host_json stamp h) = map_option (\<lambda>x. JStr x) (hf_sandbox_id h)"
  "field ''state'' (host_json stamp h) = Some (JStr (hf_state h))"
  "field ''repositoryUrl'' (host_json stamp h) = Some (JStr (hf_repository_url h))"
  "field ''startedAt'' (host_json stamp h) = Some (JStr (stamp (hf_started_at h)))"
  "field ''expiresAt'' (host_json stamp h) = map_option (\<lambda>t. JStr (stamp t)) (hf_expires_at h)"
  "field ''previewHost'' (host_json stamp h) = map_option (\<lambda>x. JStr x) (hf_preview_host h)"
  by (simp_all add: host_json_def map_add_def opt_field_map split: option.split)

lemma state_text_known: "state_text s = ''running'' \<or> state_text s = ''hibernated'' \<or> state_text s = ''checkpointed''"
  by (cases s) auto

lemma host_json_accepted:
  "host_facts_schema (host_json stamp (host_facts_of ps domain r)) = Inr (host_json stamp (host_facts_of ps domain r))"
proof -
  define h where "h = host_facts_of ps domain r"
  have "hf_state h = state_text (record_state r)" by (simp add: h_def host_facts_of_def Let_def)
  with state_text_known [of "record_state r"]
  have "field ''state'' (host_json stamp h) \<in> {Some (JStr ''running''), Some (JStr ''hibernated''), Some (JStr ''checkpointed'')}"
    unfolding host_json_fields by auto
  then show ?thesis
    unfolding h_def [symmetric] host_facts_schema_def
    by (simp add: text_fieldI [OF host_json_fields(2)] text_fieldI [OF host_json_fields(3)]
        text_fieldI [OF host_json_fields(7)] text_fieldI [OF host_json_fields(8)]
        opt_text_fieldI [OF host_json_fields(4)] opt_text_fieldI [OF host_json_fields(5)]
        opt_text_fieldI [OF host_json_fields(9)] opt_text_fieldI [OF host_json_fields(10)] host_json_fields(1))
qed

definition machine_ok :: "machine_status \<Rightarrow> bool" where
  "machine_ok m \<longleftrightarrow> 0 \<le> sint (ms_cpu_count m) \<and>
     list_all (\<lambda>w. 0 \<le> sint w) [ms_memory_total_bytes m, ms_workspace_used_bytes m, ms_workspace_total_bytes m,
       ms_filesystem_used_bytes m, ms_filesystem_total_bytes m, ms_uptime_seconds m] \<and>
     list_all (\<lambda>p. 1 \<le> sint p \<and> sint p \<le> 65535) (ms_listening_ports m)"

lemma js_int_le [simp]: "num_le (js_int a) (js_int b) \<longleftrightarrow> a \<le> b"
  by (simp add: js_int_def)

lemma number_accepted [simp]: "0 \<le> i \<Longrightarrow> is_non_negative_number (Some (JNum (number_of_int i)))"
  "0 \<le> i \<Longrightarrow> is_non_negative_number (Some (JNum (js_int i)))"
  by (simp_all add: number_of_int_def) (simp_all add: js_int_def)

lemma port_accepted: "is_port (JNum (js_int i)) \<longleftrightarrow> 1 \<le> i \<and> i \<le> 65535"
  by simp (simp add: js_int_def)

lemma live_json_accepted:
  "machine_ok m \<Longrightarrow> live_facts_schema (live_json (live_facts_of m)) = Inr (live_json (live_facts_of m))"
  by (simp add: live_facts_schema_def live_json_def live_facts_of_def text_field_def machine_ok_def list_all_iff
      port_accepted del: is_port.simps is_non_negative_number.simps)

lemma view_json_fields:
  "object_fields (view_json stamp v) \<noteq> None"
  "field ''previewDomain'' (view_json stamp v) = map_option (\<lambda>x. JStr x) (vw_preview_domain v)"
  "field ''phase'' (view_json stamp v) = map_option (\<lambda>p. JStr (phase_text p)) (vw_phase v)"
  "field ''sandbox'' (view_json stamp v) = map_option (host_json stamp) (vw_sandbox v)"
  "field ''live'' (view_json stamp v) = map_option live_json (vw_live v)"
  by (simp_all add: view_json_def map_add_def opt_field_map split: option.split)

lemma view_accepted:
  assumes "\<And>h. vw_sandbox v = Some h \<Longrightarrow> host_facts_schema (host_json stamp h) = Inr (host_json stamp h)"
    and "\<And>l. vw_live v = Some l \<Longrightarrow> live_facts_schema (live_json l) = Inr (live_json l)"
  shows "view_schema (view_json stamp v) = Inr (view_json stamp v)"
proof -
  have "field ''phase'' (view_json stamp v) \<in> {None, Some (JStr ''starting''), Some (JStr ''setup'')}"
    unfolding view_json_fields by (cases "vw_phase v"; cases "the (vw_phase v)") auto
  then show ?thesis
    using assms by (simp add: view_schema_def opt_text_fieldI [OF view_json_fields(2)] view_json_fields(1,4,5)
        checked_part_def split: option.split)
qed

text \<open>A status in one equation.\<close>

definition attached_client :: "string \<Rightarrow> 'e world \<Rightarrow> client option" where
  "attached_client sid w =
    (case record_of sid w of
       Some r \<Rightarrow> if is_running (record_state r) then client_for sid (w_clients w) else None
     | None \<Rightarrow> None)"

lemma attached_running:
  assumes "attached_client sid w = Some c"
  obtains r where "record_of sid w = Some r" and "state_text (record_state r) = ''running''"
proof -
  from assms obtain r where r: "record_of sid w = Some r" "is_running (record_state r)"
    by (auto simp: attached_client_def split: option.splits if_splits)
  from r(2) have "state_text (record_state r) = ''running''" by (cases "record_state r") simp_all
  with r(1) show thesis by (rule that)
qed

lemma fetch_live_facts_total:
  obtains l e' where "fetch_live_facts deps c e = (Inr l, e')"
    and "\<And>f. l = Some f \<Longrightarrow> \<exists>m. sd_status_rpc deps c e = (Inr m, e') \<and> f = live_facts_of m"
  by (cases "sd_status_rpc deps c e"; cases "fst (sd_status_rpc deps c e)")
    (auto simp: fetch_live_facts_def comp_defs)

definition known_view :: "'e status_deps \<Rightarrow> string \<Rightarrow> 'e world \<Rightarrow> status_view" where
  "known_view deps sid w =
    \<lparr>vw_sandbox = map_option (host_facts_of (sd_profiles deps (w_env w)) (sd_preview_domain deps)) (record_of sid w),
     vw_live = None, vw_phase = sandbox_phase_of (record_of sid w) (sd_turn_live deps sid (w_env w)) (attached_client sid w \<noteq> None),
     vw_preview_domain = sd_preview_domain deps\<rparr>"

lemma status_view_known:
  "attached_client sid w = None \<Longrightarrow> status_view_of deps sid w = (Inr (known_view deps sid w), w)"
  by (auto simp: status_view_of_def attached_client_def known_view_def Let_def comp_defs split: option.split if_split)

lemma status_view_live:
  "attached_client sid w = Some c \<Longrightarrow> fetch_live_facts deps c (w_env w) = (Inr l, e') \<Longrightarrow>
     status_view_of deps sid w = (Inr ((known_view deps sid w)\<lparr>vw_live := l\<rparr>), w\<lparr>w_env := e'\<rparr>)"
  by (auto simp: status_view_of_def attached_client_def known_view_def Let_def comp_defs outside_def
      split: option.splits if_splits)

lemma status_view_cases:
  assumes "status_view_of deps sid w = (res, w')"
  obtains v e' where "res = Inr v" and "w' = w\<lparr>w_env := e'\<rparr>" and "attached_client sid w = None \<Longrightarrow> w' = w"
    and "vw_sandbox v = map_option (host_facts_of (sd_profiles deps (w_env w)) (sd_preview_domain deps)) (record_of sid w)"
    and "vw_phase v = sandbox_phase_of (record_of sid w) (sd_turn_live deps sid (w_env w)) (attached_client sid w \<noteq> None)"
    and "\<And>l. vw_live v = Some l \<Longrightarrow>
      \<exists>c m. attached_client sid w = Some c \<and> sd_status_rpc deps c (w_env w) = (Inr m, e') \<and> l = live_facts_of m"
proof (cases "attached_client sid w")
  case None
  then show ?thesis
    using assms status_view_known [OF None, of deps]
    by (intro that [of "known_view deps sid w" "w_env w"]) (auto simp: known_view_def)
next
  case (Some c)
  obtain l e' where l: "fetch_live_facts deps c (w_env w) = (Inr l, e')"
    "\<And>f. l = Some f \<Longrightarrow> \<exists>m. sd_status_rpc deps c (w_env w) = (Inr m, e') \<and> f = live_facts_of m"
    by (rule fetch_live_facts_total [of deps c "w_env w"]) blast
  show ?thesis
    using assms status_view_live [OF Some l(1)] l(2) Some
    by (intro that [of "(known_view deps sid w)\<lparr>vw_live := l\<rparr>" e']) (auto simp: known_view_def)
qed

section \<open>Properties\<close>

text \<open>Reading a status is inert: it always answers, it changes neither a record nor a file nor a cached
  client and writes nothing, and it calls a runner only when the session runs with one attached;
  the page sees no waiting phase outside an open turn.\<close>

lemma status_is_inert:
  assumes "status_view_of deps sid w = (res, w')"
  shows "(\<exists>v. res = Inr v \<and> (vw_phase v \<noteq> None \<longrightarrow> sd_turn_live deps sid (w_env w))) \<and>
    w' = w\<lparr>w_env := w_env w'\<rparr> \<and>
    ((\<forall>r. record_of sid w = Some r \<longrightarrow> is_running (record_state r) \<longrightarrow> client_for sid (w_clients w) = None) \<longrightarrow> w' = w)"
  using assms
  by (rule status_view_cases) (auto simp: sandbox_phase_of_def attached_client_def split: option.splits if_splits)

text \<open>C40: Every status the host answers passes the page's check, where runners report sizes that are not
  negative and ports a server can have: no session's tab ends in an error because of its record, its
  profile or its machine, and a machine's own account is only told of a running session.\<close>

theorem status_view_accepted:
  assumes "status_view_of deps sid w = (Inr v, w')"
    and "\<And>c e m e'. sd_status_rpc deps c e = (Inr m, e') \<Longrightarrow> machine_ok m"
  shows "view_schema (view_json stamp v) = Inr (view_json stamp v) \<and>
    (vw_live v \<noteq> None \<longrightarrow> (\<exists>h. vw_sandbox v = Some h \<and> hf_state h = ''running''))"
  using assms(1)
proof (rule status_view_cases)
  fix v' e'
  assume v: "Inr v = (Inr v' :: error + status_view)"
    and sandbox: "vw_sandbox v' = map_option (host_facts_of (sd_profiles deps (w_env w)) (sd_preview_domain deps)) (record_of sid w)"
    and live: "\<And>l. vw_live v' = Some l \<Longrightarrow>
      \<exists>c m. attached_client sid w = Some c \<and> sd_status_rpc deps c (w_env w) = (Inr m, e') \<and> l = live_facts_of m"
  have "view_schema (view_json stamp v) = Inr (view_json stamp v)"
  proof (rule view_accepted)
    fix l assume "vw_live v = Some l"
    then show "live_facts_schema (live_json l) = Inr (live_json l)"
      using live assms(2) live_json_accepted v by blast
  qed (use sandbox v host_json_accepted in auto)
  moreover have "\<exists>h. vw_sandbox v = Some h \<and> hf_state h = ''running''" if l: "vw_live v \<noteq> None"
  proof -
    from l live v obtain c where "attached_client sid w = Some c" by auto
    then obtain r where "record_of sid w = Some r" "state_text (record_state r) = ''running''"
      by (rule attached_running)
    then show ?thesis using sandbox v by (simp add: host_facts_of_def Let_def)
  qed
  ultimately show ?thesis by blast
qed

definition demo_machine :: machine_status where
  "demo_machine = \<lparr>ms_hostname = ''box'', ms_os_name = ''linux'', ms_kernel_version = ''6'', ms_architecture = ''arm64'',
     ms_cpu_count = 4, ms_memory_total_bytes = 8, ms_workspace_used_bytes = 1, ms_workspace_total_bytes = 2,
     ms_filesystem_used_bytes = 1, ms_filesystem_total_bytes = 2, ms_uptime_seconds = 5, ms_listening_ports = [3000]\<rparr>"

definition demo_status :: "int status_deps" where
  "demo_status = \<lparr>sd_profiles = \<lambda>e. [(''small'', demo_profile)], sd_turn_live = \<lambda>sid e. True,
     sd_preview_domain = Some ''x'', sd_status_rpc = \<lambda>c e. (Inr demo_machine, e + 1)\<rparr>"

definition demo_view :: status_view where
  "demo_view = \<lparr>vw_sandbox = Some (host_facts_of [(''small'', demo_profile)] (Some ''x'') demo_running),
     vw_live = Some (live_facts_of demo_machine), vw_phase = None, vw_preview_domain = Some ''x''\<rparr>"

lemma demo_status_view: "status_view_of demo_status ''s1'' demo_live = (Inr demo_view, demo_live\<lparr>w_env := 11\<rparr>)"
  by (simp add: status_view_of_def comp_defs demo_status_def demo_view_def demo_live_def demo_state_def record_of_def
      get_record_def client_for_def demo_running_def demo_record_def Let_def outside_def fetch_live_facts_def sandbox_phase_of_def)

lemma status_is_inert_witness:
  "snd (status_view_of demo_status ''s1'' demo_start) = demo_start \<and>
   (\<exists>v. fst (status_view_of demo_status ''s1'' demo_start) = Inr v)"
proof -
  have "record_of ''s1'' demo_start = None" by (simp add: record_of_def get_record_def first_world_def empty_state_def)
  with status_is_inert [of demo_status "''s1''" demo_start, OF prod.collapse [symmetric]] show ?thesis by auto
qed

theorem status_view_accepted_witness:
  "view_schema (view_json (\<lambda>t. ''t'') demo_view) = Inr (view_json (\<lambda>t. ''t'') demo_view)"
  by (rule status_view_accepted [OF demo_status_view, THEN conjunct1])
    (auto simp: demo_status_def machine_ok_def demo_machine_def)

end
