(* ===== verification/Mcp_Exclusion.thy ===== *)
theory Mcp_Exclusion
  imports Mcp_Choice
begin

text \<open>
  \<open>mcp/mcp-tool-exclusion.ts\<close>: what is hidden from an agent whose preset excludes MCP or whose session
  turned servers off: tool names and sections of the prompt. Installing the masks in dsh's tool
  registry is not modelled. \<open>json_parse\<close> stands for \<open>JSON.parse\<close>, \<open>None\<close> when it throws.
\<close>

definition DEFAULT_EXCLUDED_PRESETS :: "string list" where
  "DEFAULT_EXCLUDED_PRESETS = [''minimal'']"

definition MCP_RESOURCE_TOOL_NAMES :: "string list" where
  "MCP_RESOURCE_TOOL_NAMES = [''list_mcp_resources'', ''list_mcp_resource_templates'', ''read_mcp_resource'']"

definition is_mcp_tool_name :: "string \<Rightarrow> bool" where
  "is_mcp_tool_name n \<longleftrightarrow> starts_with ''mcp__'' n \<or> n \<in> set MCP_RESOURCE_TOOL_NAMES"

definition mcp_tool_names :: "string list \<Rightarrow> string list" where
  "mcp_tool_names names = sort (filter is_mcp_tool_name names)"

datatype hidden = HideAll | HideServers "string list" bool

definition hidden_mcp_tool_names :: "string list \<Rightarrow> hidden \<Rightarrow> string list" where
  "hidden_mcp_tool_names names h =
    (case h of
       HideAll \<Rightarrow> mcp_tool_names names
     | HideServers servers every \<Rightarrow>
        filter (\<lambda>n. if n \<in> set MCP_RESOURCE_TOOL_NAMES then every else list_ex (is_tool_of_server n) servers)
          (mcp_tool_names names))"

section \<open>Prompt sections\<close>

record prompt_section =
  sec_name :: string
  sec_text :: string
  sec_rest :: json

definition RESOURCE_SECTION :: string where "RESOURCE_SECTION = ''mcp-resource-servers''"

text \<open>\<open>/(\[[^\]]*\])\.$/\<close>: what precedes the list, and the list with its brackets.\<close>

definition split_server_list :: "string \<Rightarrow> (string \<times> string) option" where
  "split_server_list s =
    (if \<not> ends_with ''].'' s then None
     else let body = take (length s - 2) s;
              inner = rev (takeWhile (\<lambda>c. c \<noteq> CHR '']'') (rev body))
          in case index_of CHR ''['' inner of
               None \<Rightarrow> None
             | Some i \<Rightarrow> Some (take (length body - length inner + i) body, drop i inner @ '']''))"

definition json_texts :: "json \<Rightarrow> string list option" where
  "json_texts v =
    (case v of
       JArr vs \<Rightarrow> if list_all (\<lambda>v. as_string v \<noteq> None) vs then Some (map (\<lambda>v. the (as_string v)) vs) else None
     | _ \<Rightarrow> None)"

definition remaining_resource_servers :: "(string \<Rightarrow> json option) \<Rightarrow> string \<Rightarrow> string list \<Rightarrow> string list option" where
  "remaining_resource_servers json_parse s servers =
    (case split_server_list s of
       None \<Rightarrow> None
     | Some (before, found) \<Rightarrow>
        (case json_parse found of
           None \<Rightarrow> None
         | Some v \<Rightarrow> map_option (filter (\<lambda>n. n \<notin> set servers)) (json_texts v)))"

text \<open>\<open>JSON.stringify\<close> of a list of texts.\<close>

definition json_list :: "string list \<Rightarrow> string" where
  "json_list ns = ''['' @ join_with '','' (map json_quote ns) @ '']''"

text \<open>\<open>s.replace(RESOURCE_SERVER_LIST, t)\<close>, where \<open>t\<close> has no \<open>$\<close>.\<close>

definition replace_server_list :: "string \<Rightarrow> string \<Rightarrow> string" where
  "replace_server_list s t = (case split_server_list s of None \<Rightarrow> s | Some (before, found) \<Rightarrow> before @ t)"

definition unreadable_section :: string where
  "unreadable_section = ''mcp-tool-exclusion: cannot read the mcp-resource-servers prompt section; hidden MCP server names stay in it''"

text \<open>One section: what replaces it, and whether it is reported.\<close>

definition filter_section ::
  "(string \<Rightarrow> json option) \<Rightarrow> string list \<Rightarrow> bool \<Rightarrow> prompt_section \<Rightarrow> prompt_section list \<times> string list" where
  "filter_section json_parse servers every sec =
    (if starts_with ''mcp:'' (sec_name sec) \<and> drop (length ''mcp:'') (sec_name sec) \<in> set servers then ([], [])
     else if sec_name sec \<noteq> RESOURCE_SECTION then ([sec], [])
     else if every then ([], [])
     else case remaining_resource_servers json_parse (sec_text sec) servers of
            None \<Rightarrow> ([sec], [unreadable_section])
          | Some ns \<Rightarrow>
             (if ns = [] then ([], [])
              else ([sec\<lparr>sec_text := replace_server_list (sec_text sec) (json_list ns @ ''.'')\<rparr>], [])))"

fun without_hidden_mcp_sections ::
  "(string \<Rightarrow> json option) \<Rightarrow> string list \<Rightarrow> bool \<Rightarrow> prompt_section list \<Rightarrow> prompt_section list \<times> string list" where
  "without_hidden_mcp_sections json_parse servers every [] = ([], [])"
| "without_hidden_mcp_sections json_parse servers every (sec # secs) =
    (let (kept, warned) = filter_section json_parse servers every sec;
         (kept', warned') = without_hidden_mcp_sections json_parse servers every secs
     in (kept @ kept', warned @ warned'))"

section \<open>One agent's policy\<close>

text \<open>\<open>preset\<close> is the agent's live preset, \<open>session_hidden\<close> what its session turned off.\<close>

definition excluded_preset :: "string list \<Rightarrow> string option \<Rightarrow> bool" where
  "excluded_preset excluded preset \<longleftrightarrow>
    (if excluded = [] then False else case preset of None \<Rightarrow> False | Some p \<Rightarrow> p \<in> set excluded)"

definition hidden_for :: "string list \<Rightarrow> string option \<Rightarrow> string list \<times> bool \<Rightarrow> hidden option" where
  "hidden_for excluded preset session_hidden =
    (if excluded_preset excluded preset then Some HideAll
     else case session_hidden of (servers, every) \<Rightarrow>
       if servers = [] then None else Some (HideServers servers every))"

definition hidden_names :: "string list \<Rightarrow> string option \<Rightarrow> string list \<times> bool \<Rightarrow> string list \<Rightarrow> string list" where
  "hidden_names excluded preset session_hidden names =
    (case hidden_for excluded preset session_hidden of None \<Rightarrow> [] | Some h \<Rightarrow> hidden_mcp_tool_names names h)"

definition same_names :: "string list option \<Rightarrow> string list \<Rightarrow> bool" where
  "same_names left right \<longleftrightarrow> left = Some right"

text \<open>The sections of an assembled prompt, of an agent or of none.\<close>

definition assembled_sections ::
  "(string \<Rightarrow> json option) \<Rightarrow> hidden option \<Rightarrow> prompt_section list \<Rightarrow> prompt_section list \<times> string list" where
  "assembled_sections json_parse h secs =
    (case h of
       Some (HideServers servers every) \<Rightarrow> without_hidden_mcp_sections json_parse servers every secs
     | _ \<Rightarrow> (secs, []))"

section \<open>Facts\<close>

lemma resource_tools_unprefixed: "n \<in> set MCP_RESOURCE_TOOL_NAMES \<Longrightarrow> \<not> is_tool_of_server n s"
  by (auto simp: MCP_RESOURCE_TOOL_NAMES_def is_tool_of_server_def tool_prefix_def)

lemma tool_is_mcp: "is_tool_of_server n s \<Longrightarrow> is_mcp_tool_name n"
  by (auto simp: is_tool_of_server_def is_mcp_tool_name_def tool_prefix_def starts_with_prefix)

lemma hidden_names_member:
  assumes "\<not> excluded_preset excluded preset"
  shows "n \<in> set (hidden_names excluded preset (servers, every) names) \<longleftrightarrow>
    servers \<noteq> [] \<and> n \<in> set names \<and>
    (n \<in> set MCP_RESOURCE_TOOL_NAMES \<and> every \<or>
     n \<notin> set MCP_RESOURCE_TOOL_NAMES \<and> (\<exists>s \<in> set servers. is_tool_of_server n s))"
  using assms tool_is_mcp
  by (auto simp: hidden_names_def hidden_for_def hidden_mcp_tool_names_def mcp_tool_names_def list_ex_iff
      is_mcp_tool_name_def)

lemma server_of_tool:
  assumes "list_all good_server_name servers" and "good_server_name s" and "is_tool_of_server n s"
  shows "(\<exists>t \<in> set servers. is_tool_of_server n t) \<longleftrightarrow> s \<in> set servers"
  using assms good_names_apart by (metis list_all_iff)

lemma without_hidden_concat:
  "fst (without_hidden_mcp_sections json_parse servers every secs) =
     concat (map (\<lambda>sec. fst (filter_section json_parse servers every sec)) secs)"
  by (induction secs) (auto split: prod.splits)

text \<open>A readable resource section, and what is left of it.\<close>

lemma takeWhile_rev_plain:
  "CHR '']'' \<notin> set xs \<Longrightarrow> rev (takeWhile (\<lambda>c. c \<noteq> CHR '']'') (rev (pre @ xs))) =
     rev (takeWhile (\<lambda>c. c \<noteq> CHR '']'') (rev pre)) @ xs"
  by (simp add: takeWhile_append)

lemma split_server_list_found:
  assumes "CHR ''['' \<notin> set pre" and "CHR '']'' \<notin> set b"
  shows "split_server_list (pre @ ''['' @ b @ ''].'') = Some (pre, ''['' @ b @ '']'')"
proof -
  define after where "after = rev (takeWhile (\<lambda>c. c \<noteq> CHR '']'') (rev pre))"
  have pre: "pre = take (length pre - length after) pre @ after"
  proof -
    have "rev pre = takeWhile (\<lambda>c. c \<noteq> CHR '']'') (rev pre) @ dropWhile (\<lambda>c. c \<noteq> CHR '']'') (rev pre)" by simp
    then have "pre = rev (dropWhile (\<lambda>c. c \<noteq> CHR '']'') (rev pre)) @ after"
      unfolding after_def by (metis rev_append rev_rev_ident)
    then show ?thesis by (metis append_eq_conv_conj length_append diff_add_inverse2 append_take_drop_id)
  qed
  have none: "CHR ''['' \<notin> set after" using assms(1) by (auto simp: after_def dest: set_takeWhileD)
  have le: "length after \<le> length pre" by (simp add: after_def) (metis length_rev length_takeWhile_le)
  have inner: "rev (takeWhile (\<lambda>c. c \<noteq> CHR '']'') (rev (pre @ CHR ''['' # b))) = after @ CHR ''['' # b"
    unfolding after_def by (rule takeWhile_rev_plain) (use assms(2) in simp)
  have body: "take (length (pre @ ''['' @ b @ ''].'') - 2) (pre @ ''['' @ b @ ''].'') = pre @ CHR ''['' # b" by simp
  have ends: "ends_with ''].'' (pre @ ''['' @ b @ ''].'')"
    unfolding ends_with_suffix by (metis append.assoc)
  show ?thesis
    unfolding split_server_list_def body Let_def inner
    using ends le by (simp add: index_of_append [OF none] )
qed

definition plain_name :: "string \<Rightarrow> bool" where
  "plain_name n \<longleftrightarrow> list_all name_char n"

lemma name_char_plain:
  assumes "name_char c"
  shows "c \<notin> {CHR 0x22, CHR 0x5C, CHR 0x08, CHR 0x09, CHR 0x0A, CHR 0x0C, CHR 0x0D, CHR '']''}"
    and "\<not> (of_char c :: nat) < 32"
  using assms by (auto simp: name_char_def is_upper_def is_lower_def is_digit_def)

lemma json_quote_plain: "plain_name n \<Longrightarrow> json_quote n = CHR 0x22 # n @ [CHR 0x22]"
proof -
  have "json_escape c = [c]" if "name_char c" for c
    using name_char_plain [OF that] by (simp add: json_escape_def)
  then have "plain_name n \<Longrightarrow> concat (map json_escape n) = n"
    by (induction n) (auto simp: plain_name_def)
  then show "plain_name n \<Longrightarrow> json_quote n = CHR 0x22 # n @ [CHR 0x22]" by (simp add: json_quote_def)
qed

lemma join_with_member: "c \<in> set (join_with s ws) \<Longrightarrow> c \<in> set s \<or> (\<exists>w \<in> set ws. c \<in> set w)"
  by (induction s ws rule: join_with.induct) auto

lemma json_list_plain:
  "list_all plain_name ns \<Longrightarrow> CHR '']'' \<notin> set (join_with '','' (map json_quote ns))"
proof -
  have q: "CHR '']'' \<notin> set (json_quote n)" if "plain_name n" for n
    using that name_char_plain(1) by (auto simp: json_quote_plain plain_name_def list_all_iff)
  show "list_all plain_name ns \<Longrightarrow> CHR '']'' \<notin> set (join_with '','' (map json_quote ns))"
    using q by (auto simp: list_all_iff dest!: join_with_member)
qed

lemma json_texts_map [simp]: "json_texts (JArr (map JStr ns)) = Some ns"
  by (simp add: json_texts_def list_all_iff o_def)

lemma resource_section_filtered:
  assumes "json_parse (json_list ns) = Some (JArr (map JStr ns))" and "list_all plain_name ns"
    and "CHR ''['' \<notin> set pre" and "sec_name sec = RESOURCE_SECTION" and "sec_text sec = pre @ json_list ns @ ''.''"
  shows "filter_section json_parse servers every sec =
    (let visible = filter (\<lambda>n. n \<notin> set servers) ns
     in if every \<or> visible = [] then ([], []) else ([sec\<lparr>sec_text := pre @ json_list visible @ ''.''\<rparr>], []))"
proof -
  have split: "split_server_list (sec_text sec) = Some (pre, json_list ns)"
    using split_server_list_found [OF assms(3) json_list_plain [OF assms(2)]] by (simp add: assms(5) json_list_def)
  show ?thesis
    using assms(1,4) split
    by (simp add: filter_section_def remaining_resource_servers_def replace_server_list_def RESOURCE_SECTION_def Let_def)
qed

section \<open>Properties\<close>

text \<open>Turning a server off hides exactly its tools: a registered tool is denied to an agent whose preset is
  not excluded exactly when it belongs to a server its session hides, or is a shared resource tool and
  the session hides every server; a tool of a server the session sees is never denied.\<close>

lemma hidden_tools_exact:
  assumes "list_all good_server_name (hidden_servers sid st)" and "\<not> excluded_preset excluded preset"
    and "good_server_name s" and "is_tool_of_server n s" and "r \<in> set MCP_RESOURCE_TOOL_NAMES"
    and "denied = set (hidden_names excluded preset (hidden_servers sid st, hides_every_server sid st) names)"
  shows "(n \<in> denied \<longleftrightarrow> n \<in> set names \<and> s \<in> set (hidden_servers sid st)) \<and>
    (r \<in> denied \<longleftrightarrow> r \<in> set names \<and> hides_every_server sid st) \<and>
    (\<forall>m \<in> denied. m \<in> set names \<and> is_mcp_tool_name m)"
proof -
  note member = hidden_names_member [OF assms(2), of _ "hidden_servers sid st" "hides_every_server sid st" names,
      folded assms(6)]
  have "n \<notin> set MCP_RESOURCE_TOOL_NAMES" using assms(4) resource_tools_unprefixed by blast
  then have n: "n \<in> denied \<longleftrightarrow> n \<in> set names \<and> s \<in> set (hidden_servers sid st)"
    unfolding member server_of_tool [OF assms(1,3,4)] by auto
  have r: "r \<in> denied \<longleftrightarrow> r \<in> set names \<and> hides_every_server sid st"
    unfolding member using assms(5) by (auto simp: hides_every_server_def)
  have "m \<in> set names \<and> is_mcp_tool_name m" if "m \<in> denied" for m
    using that tool_is_mcp unfolding member by (auto simp: is_mcp_tool_name_def)
  with n r show ?thesis by blast
qed

text \<open>Turning a server off hides exactly its text: where one section lists the servers, an assembled
  prompt keeps every other section in order except the hidden servers' own, and the list names
  exactly the servers the session sees, or is gone when there is none or every server is hidden.\<close>

lemma hidden_sections_exact:
  assumes "sec_name r = RESOURCE_SECTION" and "sec_text r = pre @ json_list names @ ''.''" and "CHR ''['' \<notin> set pre"
    and "json_parse (json_list names) = Some (JArr (map JStr names))" and "list_all plain_name names"
    and "\<forall>sec \<in> set (before @ after). sec_name sec \<noteq> RESOURCE_SECTION"
  shows "assembled_sections json_parse (Some (HideServers servers every)) (before @ r # after) =
    (let shown = filter (\<lambda>sec. \<nexists>s. s \<in> set servers \<and> sec_name sec = ''mcp:'' @ s);
         visible = filter (\<lambda>n. n \<notin> set servers) names
     in (shown before @ (if every \<or> visible = [] then [] else [r\<lparr>sec_text := pre @ json_list visible @ ''.''\<rparr>])
           @ shown after, []))"
proof -
  have others: "without_hidden_mcp_sections json_parse servers every (secs @ rest) =
      (filter (\<lambda>sec. \<nexists>s. s \<in> set servers \<and> sec_name sec = ''mcp:'' @ s) secs
         @ fst (without_hidden_mcp_sections json_parse servers every rest),
       snd (without_hidden_mcp_sections json_parse servers every rest))"
    if "\<forall>sec \<in> set secs. sec_name sec \<noteq> RESOURCE_SECTION" for secs rest
    using that by (induction secs) (auto simp: filter_section_def starts_with_prefix split: prod.splits)
  show ?thesis
    using assms(6) others [of before "r # after"] others [of after "[]"]
    by (simp add: assembled_sections_def resource_section_filtered [where json_parse = json_parse and ns = names, OF assms(4,5,3,1,2)] Let_def
        split: prod.splits)
qed

section \<open>Witnesses\<close>

definition demo_hiding :: "unit choice_state" where
  "demo_hiding = \<lparr>cs_live = [], cs_store = \<lparr>mem = put_disabled ''s'' [''gh''] empty_state, disk = None, chain = None\<rparr>,
     cs_idle = new_idle, cs_servers = [demo_entry ''none''], cs_notices = 0, cs_env = ()\<rparr>"

lemma demo_hiding_servers: "hidden_servers ''s'' demo_hiding = [''gh'']"
  by (simp add: hidden_servers_def demo_hiding_def turn_live_def is_turn_live_def new_idle_def chosen_def or_else_def
      disabled_servers_def put_disabled_def empty_state_def)

lemma demo_hidden_names: "good_server_name ''gh''"
  by (simp add: good_server_name_def ends_with_def)

lemma hidden_tools_exact_witness:
  "''mcp__gh__search'' \<in> set (hidden_names [''minimal''] (Some ''standard'')
     (hidden_servers ''s'' demo_hiding, hides_every_server ''s'' demo_hiding) [''bash'', ''mcp__gh__search''])"
  using hidden_tools_exact [of "''s''" demo_hiding "[''minimal'']" "Some ''standard''" "''gh''" "''mcp__gh__search''"
      "''read_mcp_resource''", OF _ _ _ _ _ refl]
  by (simp add: demo_hiding_servers demo_hidden_names excluded_preset_def is_tool_of_server_def tool_prefix_def
      MCP_RESOURCE_TOOL_NAMES_def)

definition demo_resources :: prompt_section where
  "demo_resources = \<lparr>sec_name = RESOURCE_SECTION, sec_text = ''as '' @ json_list [''gh'', ''db''] @ ''.'', sec_rest = JNull\<rparr>"

definition demo_parse :: "string \<Rightarrow> json option" where
  "demo_parse s = (if s = json_list [''gh'', ''db''] then Some (JArr [JStr ''gh'', JStr ''db'']) else None)"

lemma hidden_sections_exact_witness:
  "fst (assembled_sections demo_parse (Some (HideServers [''gh''] False))
     [\<lparr>sec_name = ''mcp:gh'', sec_text = ''use it'', sec_rest = JNull\<rparr>, demo_resources]) =
   [demo_resources\<lparr>sec_text := ''as '' @ json_list [''db''] @ ''.''\<rparr>]"
  using hidden_sections_exact [of demo_resources "''as ''" "[''gh'', ''db'']" demo_parse
      "[\<lparr>sec_name = ''mcp:gh'', sec_text = ''use it'', sec_rest = JNull\<rparr>]" "[]" "[''gh'']" False]
  by (simp add: demo_resources_def demo_parse_def plain_name_def name_char_def is_lower_def RESOURCE_SECTION_def)

end
