(* ===== verification/Auth_Core.thy ===== *)
theory Auth_Core
  imports Prelude Js_Strings
begin

text \<open>
  \<open>auth/auth-core.ts\<close>: what the sign-in rows share in front of dsh's browser authentication. A handler
  is a function from the request to the response it writes. dsh's connection is a parameter: its
  fence over the headers (\<open>requestRejection\<close>), its exchange (\<open>authorizeIndex\<close>), and its launch token;
  so are the URL standard and \<open>encodeURIComponent\<close>.
\<close>

section \<open>Requests and responses\<close>

datatype header_value = HText string | HMany "string list"

record http_request =
  hr_method :: string
  hr_url :: "string option"
  hr_headers :: "(string \<times> header_value) list"
  hr_peer :: "string option"
  hr_chunks :: "bytes list"
  hr_broken :: bool

record http_response =
  rs_status :: nat
  rs_headers :: "(string \<times> string) list"
  rs_body :: string

text \<open>\<open>new URL(url, "http://dsh.invalid")\<close>, by what is read of it.\<close>

record url_view =
  uv_pathname :: string
  uv_search :: string
  uv_has_token :: bool

text \<open>\<open>cn_authorize\<close> is asked with a method, a URL and headers; it answers whether the index may be
  served and the status (0 when none was written) and headers it wrote.\<close>

record connection =
  cn_rejection :: "(string \<times> header_value) list \<Rightarrow> nat option"
  cn_authorize :: "string \<Rightarrow> string option \<Rightarrow> (string \<times> header_value) list \<Rightarrow> bool \<times> nat \<times> (string \<times> string) list"
  cn_launch_token :: "string option"
  cn_url :: "string \<Rightarrow> url_view option"
  cn_encode :: "string \<Rightarrow> string"

definition LOGIN_PATH :: string where "LOGIN_PATH = ''/login''"
definition LOGOUT_PATH :: string where "LOGOUT_PATH = ''/logout''"

definition header_text :: "http_request \<Rightarrow> string \<Rightarrow> string" where
  "header_text r n =
    (case map_of (hr_headers r) n of
       Some (HText s) \<Rightarrow> s
     | Some (HMany (s # _)) \<Rightarrow> s
     | _ \<Rightarrow> '''')"

definition request_url :: "connection \<Rightarrow> http_request \<Rightarrow> url_view option" where
  "request_url cn r = cn_url cn (case hr_url r of None \<Rightarrow> ''/'' | Some u \<Rightarrow> u)"

definition has_launch_token :: "connection \<Rightarrow> http_request \<Rightarrow> bool" where
  "has_launch_token cn r = (case request_url cn r of None \<Rightarrow> False | Some v \<Rightarrow> uv_has_token v)"

definition security_headers :: "string \<Rightarrow> (string \<times> string) list" where
  "security_headers content_type =
    [(''content-type'', content_type), (''cache-control'', ''no-store''),
     (''x-content-type-options'', ''nosniff''), (''x-frame-options'', ''DENY''),
     (''content-security-policy'', ''default-src 'none'; style-src 'unsafe-inline'; form-action 'self'; base-uri 'none'; frame-ancestors 'none'' @ [CHR 0x27])]"

definition send_html :: "nat \<Rightarrow> string \<Rightarrow> (string \<times> string) list \<Rightarrow> http_response" where
  "send_html status body extra =
    \<lparr>rs_status = status, rs_headers = spread (security_headers ''text/html; charset=utf-8'') extra, rs_body = body\<rparr>"

definition send_text :: "nat \<Rightarrow> string \<Rightarrow> (string \<times> string) list \<Rightarrow> http_response" where
  "send_text status body extra =
    \<lparr>rs_status = status, rs_headers = spread (security_headers ''text/plain; charset=utf-8'') extra, rs_body = body\<rparr>"

definition redirect :: "string \<Rightarrow> (string \<times> string) list \<Rightarrow> http_response" where
  "redirect location extra =
    \<lparr>rs_status = 303,
     rs_headers = spread [(''location'', location), (''cache-control'', ''no-store''), (''referrer-policy'', ''no-referrer'')] extra,
     rs_body = ''''\<rparr>"

abbreviation line :: "string \<Rightarrow> string" where "line s \<equiv> s @ [CHR 0x0A]"

section \<open>dsh's cookie and fence\<close>

definition mint_dsh_cookie :: "connection \<Rightarrow> http_request \<Rightarrow> string option" where
  "mint_dsh_cookie cn r =
    (case cn_launch_token cn of
       None \<Rightarrow> None
     | Some token \<Rightarrow>
        (case cn_authorize cn ''GET'' (Some (''/?token='' @ cn_encode cn token)) (hr_headers r) of
           (_, _, headers) \<Rightarrow> map_of headers ''set-cookie''))"

definition cookie_name :: "string \<Rightarrow> string option" where
  "cookie_name cookie =
    (case index_of CHR ''='' cookie of None \<Rightarrow> None | Some i \<Rightarrow> if i = 0 then None else Some (take i cookie))"

definition untrusted :: "connection \<Rightarrow> http_request \<Rightarrow> http_response option" where
  "untrusted cn r =
    (if cn_rejection cn (hr_headers r) = Some 403 then Some (send_text 403 (line ''forbidden'') []) else None)"

definition logged_in :: "connection \<Rightarrow> http_request \<Rightarrow> bool" where
  "logged_in cn r = (cn_rejection cn (hr_headers r) = None)"

section \<open>A link from another site\<close>

definition replace_all :: "char \<Rightarrow> string \<Rightarrow> string \<Rightarrow> string" where
  "replace_all c t s = concat (map (\<lambda>x. if x = c then t else [x]) s)"

definition escape_html :: "string \<Rightarrow> string" where
  "escape_html s =
    replace_all CHR ''>'' ''&gt;'' (replace_all CHR ''<'' ''&lt;''
      (replace_all CHR 0x22 ''&quot;'' (replace_all CHR ''&'' ''&amp;'' s)))"

definition reopen_page :: "string \<Rightarrow> string" where
  \<open>reopen_page href = concat (map line
    [''<!doctype html>'', ''<html lang="en">'', ''<head>'', ''<meta charset="utf-8">'',
     ''<title>DeepSeek Harness</title>'',
     ''<meta http-equiv="refresh" content="0;url='' @ href @ ''">'', ''</head>'', ''<body>'',
     ''<p><a href="'' @ href @ ''">Continue to DeepSeek Harness</a></p>'', ''</body>'', ''</html>''])\<close>

definition reopen_target :: "connection \<Rightarrow> http_request \<Rightarrow> string option" where
  "reopen_target cn r =
    (if hr_method r \<noteq> ''GET'' then None
     else if header_text r ''sec-fetch-site'' \<noteq> ''cross-site'' then None
     else if header_text r ''sec-fetch-mode'' \<noteq> ''navigate'' then None
     else if cn_rejection cn (AList.delete ''sec-fetch-site'' (hr_headers r)) = Some 403 then None
     else case request_url cn r of
            None \<Rightarrow> None
          | Some v \<Rightarrow>
             (let target = uv_pathname v @ uv_search v
              in if starts_with ''//'' target then None else Some target))"

definition reopen_cross_site_navigation :: "connection \<Rightarrow> http_request \<Rightarrow> http_response option" where
  "reopen_cross_site_navigation cn r =
    map_option (\<lambda>target. send_html 200 (reopen_page (escape_html target)) []) (reopen_target cn r)"

section \<open>The routes of every sign-in row\<close>

text \<open>The gate in front of dsh's index: whether dsh serves the index, else the response.\<close>

definition index_gate :: "connection \<Rightarrow> string \<Rightarrow> http_request \<Rightarrow> http_response option" where
  "index_gate cn login_path r =
    (if hr_method r = ''GET'' \<or> hr_method r = ''HEAD'' then
       (if has_launch_token cn r then Some (redirect login_path [])
        else case cn_authorize cn (hr_method r) (hr_url r) (hr_headers r) of
          (ok, status, headers) \<Rightarrow>
            if ok then None
            else if status = 401 then
              (case reopen_cross_site_navigation cn r of
                 Some page \<Rightarrow> Some page
               | None \<Rightarrow> Some (redirect login_path []))
            else Some \<lparr>rs_status = (if status = 0 then 500 else status), rs_headers = headers, rs_body = ''''\<rparr>)
     else case cn_authorize cn (hr_method r) (hr_url r) (hr_headers r) of
       (ok, status, headers) \<Rightarrow>
         if ok then None
         else Some \<lparr>rs_status = (if status = 0 then 401 else status), rs_headers = headers, rs_body = ''''\<rparr>)"

definition health :: "bool \<Rightarrow> http_response" where
  "health ready =
    send_text (if ready then 200 else 503) (if ready then line ''ok'' else line ''sign-in configuration invalid'') []"

definition logout :: "connection \<Rightarrow> string \<Rightarrow> http_request \<Rightarrow> http_response" where
  "logout cn login_path r =
    (case untrusted cn r of
       Some refused \<Rightarrow> refused
     | None \<Rightarrow>
        if hr_method r \<noteq> ''GET'' \<and> hr_method r \<noteq> ''HEAD''
        then send_text 405 (line ''method not allowed'') [(''allow'', ''GET, HEAD'')]
        else if \<not> logged_in cn r then redirect login_path []
        else case Option.bind (mint_dsh_cookie cn r) cookie_name of
               None \<Rightarrow> redirect login_path []
             | Some n \<Rightarrow> redirect login_path
                 [(''set-cookie'', n @ ''=; Max-Age=0; Path=/; HttpOnly; SameSite=Strict; Expires=Thu, 01 Jan 1970 00:00:00 GMT'')])"

section \<open>Facts\<close>

definition response_cookie :: "http_response \<Rightarrow> string option" where
  "response_cookie p = map_of (rs_headers p) ''set-cookie''"

lemma plain_responses [simp]:
  "response_cookie (send_html status body []) = None"
  "response_cookie (send_text status body []) = None"
  "response_cookie (redirect l []) = None"
  "response_cookie (send_text status body [(''allow'', a)]) = None"
  "response_cookie (send_text status body [(''retry-after'', a)]) = None"
  "response_cookie (redirect l [(''set-cookie'', v)]) = Some v"
  by (simp_all add: response_cookie_def send_html_def send_text_def redirect_def map_of_spread security_headers_def)

lemma reopen_no_cookie [simp]:
  "reopen_cross_site_navigation cn r = Some p \<Longrightarrow> response_cookie p = None"
  "untrusted cn r = Some p \<Longrightarrow> response_cookie p = None"
  by (auto simp: reopen_cross_site_navigation_def untrusted_def split: if_splits)

lemma set_replace_all: "set (replace_all c t s) = (set s - {c}) \<union> (if c \<in> set s then set t else {})"
  by (auto simp: replace_all_def split: if_splits)

lemma escape_html_plain: "c \<in> {CHR 0x22, CHR ''<'', CHR ''>''} \<Longrightarrow> c \<notin> set (escape_html s)"
  by (auto simp: escape_html_def set_replace_all)

section \<open>Properties\<close>

text \<open>The gate never lets a launch token through and never strands a browser: a GET or HEAD with dsh's
  token is sent to the login page without asking dsh, the index is served exactly when dsh admits the
  request, a request dsh does not know goes to the login page or reopens the same path on this site,
  and the page that reopens it holds no character that could end its quoted link.\<close>

lemma index_gate_exact:
  assumes "hr_method r = ''GET'' \<or> hr_method r = ''HEAD''"
    and "cn_authorize cn (hr_method r) (hr_url r) (hr_headers r) = (ok, status, headers)"
  shows "(index_gate cn login_path r = None \<longleftrightarrow> ok \<and> \<not> has_launch_token cn r) \<and>
    (has_launch_token cn r \<longrightarrow> index_gate cn login_path r = Some (redirect login_path [])) \<and>
    (\<not> has_launch_token cn r \<and> \<not> ok \<and> status = 401 \<longrightarrow>
       index_gate cn login_path r = Some (redirect login_path []) \<or>
       (\<exists>target. reopen_target cn r = Some target \<and> \<not> starts_with ''//'' target \<and>
          CHR 0x22 \<notin> set (escape_html target) \<and>
          index_gate cn login_path r = Some (send_html 200 (reopen_page (escape_html target)) [])))"
proof -
  have "\<not> starts_with ''//'' target" if "reopen_target cn r = Some target" for target
    using that by (auto simp: reopen_target_def Let_def split: if_splits option.splits)
  then show ?thesis
    using assms escape_html_plain [of "CHR 0x22"]
    by (auto simp: index_gate_def reopen_cross_site_navigation_def split: option.split)
qed

section \<open>Witness\<close>

definition demo_connection :: connection where
  "demo_connection = \<lparr>cn_rejection = \<lambda>h. Some 401,
     cn_authorize = \<lambda>m u h. if u = Some ''/?token=tok'' then (False, 303, [(''set-cookie'', ''dsh=1'')]) else (False, 401, []),
     cn_launch_token = Some ''tok'',
     cn_url = \<lambda>u. Some \<lparr>uv_pathname = u, uv_search = '''', uv_has_token = starts_with ''/?token='' u\<rparr>,
     cn_encode = \<lambda>s. s\<rparr>"

definition demo_request :: "string \<Rightarrow> string \<Rightarrow> bytes \<Rightarrow> http_request" where
  "demo_request m u body = \<lparr>hr_method = m, hr_url = Some u,
     hr_headers = [(''content-type'', HText ''application/x-www-form-urlencoded'')],
     hr_peer = Some ''10.0.0.1'', hr_chunks = [body], hr_broken = False\<rparr>"

lemma index_gate_exact_witness:
  "index_gate demo_connection LOGIN_PATH (demo_request ''GET'' ''/?token=tok'' []) = Some (redirect LOGIN_PATH [])"
  using index_gate_exact [of "demo_request ''GET'' ''/?token=tok'' []" demo_connection False 303 "[(''set-cookie'', ''dsh=1'')]"]
  by (simp add: demo_request_def demo_connection_def has_launch_token_def request_url_def)

end
