(* ===== verification/Passcode_Auth.thy ===== *)
theory Passcode_Auth
  imports Auth_Core
begin

text \<open>
  \<open>auth/passcode-auth.ts\<close>: the passcode form in front of dsh's cookie, and the budget of failed
  attempts per peer address. The digest and the form's parser are parameters; a comparison in
  constant time is equality.
\<close>

definition PASSCODE_ENV :: string where "PASSCODE_ENV = ''DSH_YAWN_PASSCODE''"
definition MIN_PASSCODE_LENGTH :: nat where "MIN_PASSCODE_LENGTH = 8"
definition MAX_ATTEMPTS :: nat where "MAX_ATTEMPTS = 10"
definition ATTEMPT_WINDOW_MS :: int where "ATTEMPT_WINDOW_MS = 15 * 60 * 1000"
definition MAX_TRACKED_PEERS :: nat where "MAX_TRACKED_PEERS = 1024"
definition MAX_FORM_BYTES :: nat where "MAX_FORM_BYTES = 4096"

definition passcode_matches :: "(string \<Rightarrow> bytes) \<Rightarrow> string \<Rightarrow> string \<Rightarrow> bool" where
  "passcode_matches digest given expected = (digest given = digest expected)"

definition is_form :: "http_request \<Rightarrow> bool" where
  "is_form r = starts_with ''application/x-www-form-urlencoded'' (header_text r ''content-type'')"

section \<open>Reading the form\<close>

datatype form_error = TooLarge | Broken

fun read_chunks :: "bytes \<Rightarrow> bytes list \<Rightarrow> bool \<Rightarrow> form_error + bytes" where
  "read_chunks acc [] broken = (if broken then Inl Broken else Inr acc)"
| "read_chunks acc (c # cs) broken =
    (if length acc + length c > MAX_FORM_BYTES then Inl TooLarge else read_chunks (acc @ c) cs broken)"

definition read_form :: "http_request \<Rightarrow> form_error + bytes" where
  "read_form r = read_chunks [] (hr_chunks r) (hr_broken r)"

section \<open>Failed attempts\<close>

record attempt =
  at_count :: nat
  at_reset_at :: int

type_synonym attempts = "(string \<times> attempt) list"

definition prune :: "int \<Rightarrow> attempts \<Rightarrow> attempts" where
  "prune now peers =
    (if length peers < MAX_TRACKED_PEERS then peers
     else let live = filter (\<lambda>(_, e). \<not> at_reset_at e \<le> now) peers
          in if length live \<ge> MAX_TRACKED_PEERS then tl live else live)"

definition next_attempt :: "int \<Rightarrow> attempt option \<Rightarrow> attempt" where
  "next_attempt now previous =
    (case previous of
       Some e \<Rightarrow> if at_reset_at e > now then \<lparr>at_count = at_count e + 1, at_reset_at = at_reset_at e\<rparr>
                 else \<lparr>at_count = 1, at_reset_at = now + ATTEMPT_WINDOW_MS\<rparr>
     | None \<Rightarrow> \<lparr>at_count = 1, at_reset_at = now + ATTEMPT_WINDOW_MS\<rparr>)"

text \<open>\<open>Math.ceil(ms / 1000)\<close>.\<close>

definition ceil_seconds :: "int \<Rightarrow> int" where
  "ceil_seconds ms = - ((- ms) div 1000)"

definition fail_attempt :: "string \<Rightarrow> int \<Rightarrow> attempts \<Rightarrow> int \<times> attempts" where
  "fail_attempt peer now peers =
    (let kept = prune now peers; e = next_attempt now (map_of kept peer)
     in (if at_count e \<ge> MAX_ATTEMPTS then ceil_seconds (at_reset_at e - now) else 0, AList.update peer e kept))"

definition clear_attempts :: "string \<Rightarrow> attempts \<Rightarrow> attempts" where
  "clear_attempts peer peers = AList.delete peer peers"

definition peer_of :: "http_request \<Rightarrow> string" where
  "peer_of r = (case hr_peer r of None \<Rightarrow> ''unknown'' | Some p \<Rightarrow> p)"

section \<open>The login route\<close>

definition login_page :: "string option \<Rightarrow> string" where
  \<open>login_page failed = concat (map line
    [''<!doctype html>'', ''<html lang="en">'', ''<head>'', ''<meta charset="utf-8">'',
     ''<meta name="viewport" content="width=device-width, initial-scale=1">'',
     ''<title>Sign in</title>'', ''<style>'',
     ''  :root { color-scheme: light dark; }'',
     ''  body { font: 16px/1.5 system-ui, sans-serif; display: grid; place-items: center; min-height: 100vh; margin: 0; }'',
     ''  main { width: min(22rem, calc(100vw - 3rem)); }'',
     ''  h1 { font-size: 1.25rem; margin: 0 0 1.5rem; }'',
     ''  label { display: block; margin-bottom: 1rem; }'',
     ''  input { box-sizing: border-box; width: 100%; margin-top: .25rem; padding: .6rem; font: inherit; }'',
     ''  button { padding: .6rem 1rem; font: inherit; }'',
     ''  p[role="alert"] { color: #b3261e; margin: 0 0 1rem; }'',
     ''</style>'', ''</head>'', ''<body>'', ''<main>'', ''<h1>DeepSeek Harness</h1>'',
     (case failed of None \<Rightarrow> '''' | Some e \<Rightarrow> ''<p role="alert">'' @ e @ ''</p>''),
     ''<form method="post" action="'' @ LOGIN_PATH @ ''">'', ''  <label>Passcode'',
     ''    <input type="password" name="passcode" autocomplete="current-password" required autofocus>'',
     ''  </label>'', ''  <button type="submit">Sign in</button>'', ''</form>'', ''</main>'', ''</body>'', ''</html>''])\<close>

definition sign_in_answer :: "connection \<Rightarrow> http_request \<Rightarrow> http_response" where
  "sign_in_answer cn r =
    (case mint_dsh_cookie cn r of
       None \<Rightarrow> send_text 500 (line ''sign-in failed'') []
     | Some cookie \<Rightarrow> redirect ''/'' [(''set-cookie'', cookie)])"

definition wrong_passcode :: "int \<Rightarrow> http_response" where
  "wrong_passcode wait =
    (if wait > 0 then send_text 429 (line ''too many attempts'') [(''retry-after'', show_int wait)]
     else send_html 401 (login_page (Some ''Wrong passcode.'')) [])"

definition submitted ::
  "(string \<Rightarrow> bytes) \<Rightarrow> (bytes \<Rightarrow> string option) \<Rightarrow> string \<Rightarrow> connection \<Rightarrow> int \<Rightarrow> http_request \<Rightarrow> attempts
   \<Rightarrow> http_response \<times> attempts" where
  "submitted digest form_passcode passcode cn now r peers =
    (case read_form r of
       Inl TooLarge \<Rightarrow> (send_text 413 (line ''form body too large'') [], peers)
     | Inl Broken \<Rightarrow> (send_text 500 (line ''sign-in failed'') [], peers)
     | Inr body \<Rightarrow>
        (let given = (case form_passcode body of None \<Rightarrow> '''' | Some g \<Rightarrow> g)
         in if \<not> passcode_matches digest given passcode
            then (case fail_attempt (peer_of r) now peers of (wait, peers') \<Rightarrow> (wrong_passcode wait, peers'))
            else (sign_in_answer cn r, clear_attempts (peer_of r) peers)))"

definition handle_login ::
  "(string \<Rightarrow> bytes) \<Rightarrow> (bytes \<Rightarrow> string option) \<Rightarrow> string \<Rightarrow> connection \<Rightarrow> int \<Rightarrow> http_request \<Rightarrow> attempts
   \<Rightarrow> http_response \<times> attempts" where
  "handle_login digest form_passcode passcode cn now r peers =
    (case reopen_cross_site_navigation cn r of
       Some page \<Rightarrow> (page, peers)
     | None \<Rightarrow>
       (case untrusted cn r of
          Some refused \<Rightarrow> (refused, peers)
        | None \<Rightarrow>
            if logged_in cn r then (redirect ''/'' [], peers)
            else if hr_method r = ''GET'' \<or> hr_method r = ''HEAD''
            then (send_html 200 (if hr_method r = ''HEAD'' then '''' else login_page None) [], peers)
            else if hr_method r \<noteq> ''POST''
            then (send_text 405 (line ''method not allowed'') [(''allow'', ''GET, HEAD, POST'')], peers)
            else if \<not> is_form r then (send_text 415 (line ''expected a form submission'') [], peers)
            else submitted digest form_passcode passcode cn now r peers))"

text \<open>\<open>apply\<close>: the row refuses to start with a short passcode.\<close>

definition configured_passcode :: "string option \<Rightarrow> string option \<Rightarrow> error + string" where
  "configured_passcode configured environment =
    (let passcode = (case configured of Some p \<Rightarrow> p | None \<Rightarrow> (case environment of Some p \<Rightarrow> p | None \<Rightarrow> ''''))
     in if length passcode < MIN_PASSCODE_LENGTH
        then Inl (Plain (PASSCODE_ENV @ '' must be set to at least '' @ show_nat MIN_PASSCODE_LENGTH @ '' characters''))
        else Inr passcode)"

section \<open>Facts\<close>

lemma sign_in_cookie: "response_cookie (sign_in_answer cn r) = mint_dsh_cookie cn r"
  by (simp add: sign_in_answer_def split: option.split)

lemma wrong_passcode_cookie [simp]: "response_cookie (wrong_passcode wait) = None"
  by (simp add: wrong_passcode_def)

lemma read_chunks_bound: "read_chunks acc cs broken = Inr body \<Longrightarrow> length acc \<le> MAX_FORM_BYTES \<Longrightarrow> length body \<le> MAX_FORM_BYTES"
  by (induction acc cs broken rule: read_chunks.induct) (auto split: if_splits)

text \<open>A wrong guess, at a time.\<close>

lemma submitted_wrong:
  assumes "read_form r = Inr body" and "form_passcode body = Some given" and "digest given \<noteq> digest passcode"
  shows "submitted digest form_passcode passcode cn now r peers =
    (wrong_passcode (fst (fail_attempt (peer_of r) now peers)), snd (fail_attempt (peer_of r) now peers))"
  using assms by (simp add: submitted_def passcode_matches_def split: prod.split)

lemma ceil_seconds_pos: "0 < ms \<Longrightarrow> 0 < ceil_seconds ms"
  by (simp add: ceil_seconds_def) 

text \<open>Requests one after the other, each with the time it is answered.\<close>

fun login_run ::
  "(string \<Rightarrow> bytes) \<Rightarrow> (bytes \<Rightarrow> string option) \<Rightarrow> string \<Rightarrow> connection \<Rightarrow> (int \<times> http_request) list \<Rightarrow> attempts
   \<Rightarrow> http_response list \<times> attempts" where
  "login_run digest form_passcode passcode cn [] peers = ([], peers)"
| "login_run digest form_passcode passcode cn ((now, r) # rest) peers =
    (let (p, peers') = handle_login digest form_passcode passcode cn now r peers;
         (ps, peers'') = login_run digest form_passcode passcode cn rest peers'
     in (p # ps, peers''))"

lemma login_run_fst:
  "fst (login_run digest form_passcode passcode cn ((now, r) # rest) peers) =
     fst (handle_login digest form_passcode passcode cn now r peers) #
     fst (login_run digest form_passcode passcode cn rest (snd (handle_login digest form_passcode passcode cn now r peers)))"
  by (simp add: case_prod_beta Let_def)

lemma login_run_append:
  "login_run digest form_passcode passcode cn (xs @ ys) peers =
    (let (ps, peers') = login_run digest form_passcode passcode cn xs peers;
         (qs, peers'') = login_run digest form_passcode passcode cn ys peers' in (ps @ qs, peers''))"
  by (induction xs arbitrary: peers) (auto split: prod.splits)

text \<open>A logged-out browser of this site submits the form with a passcode.\<close>

definition submits :: "(bytes \<Rightarrow> string option) \<Rightarrow> connection \<Rightarrow> http_request \<Rightarrow> string \<Rightarrow> bool" where
  "submits form_passcode cn r given \<longleftrightarrow>
     reopen_cross_site_navigation cn r = None \<and> untrusted cn r = None \<and> \<not> logged_in cn r \<and>
     hr_method r = ''POST'' \<and> is_form r \<and> (\<exists>body. read_form r = Inr body \<and> form_passcode body = Some given)"

lemma handle_submits:
  assumes "submits form_passcode cn r given"
  shows "handle_login digest form_passcode passcode cn now r peers =
    (if digest given = digest passcode then (sign_in_answer cn r, clear_attempts (peer_of r) peers)
     else (wrong_passcode (fst (fail_attempt (peer_of r) now peers)), snd (fail_attempt (peer_of r) now peers)))"
proof -
  from assms obtain body where "read_form r = Inr body" "form_passcode body = Some given"
    by (auto simp: submits_def)
  then have "submitted digest form_passcode passcode cn now r peers =
      (if digest given = digest passcode then (sign_in_answer cn r, clear_attempts (peer_of r) peers)
       else (wrong_passcode (fst (fail_attempt (peer_of r) now peers)), snd (fail_attempt (peer_of r) now peers)))"
    by (simp add: submitted_def passcode_matches_def split: prod.split)
  then show ?thesis using assms by (simp add: handle_login_def submits_def)
qed

lemma wrong_status: "rs_status (wrong_passcode wait) = (if wait > 0 then 429 else 401)"
  by (simp add: wrong_passcode_def send_text_def send_html_def)

lemma fail_within:
  assumes "length peers < MAX_TRACKED_PEERS" and "map_of peers peer = Some \<lparr>at_count = n, at_reset_at = reset\<rparr>" and "now < reset"
  shows "fail_attempt peer now peers =
    (if Suc n \<ge> MAX_ATTEMPTS then ceil_seconds (reset - now) else 0, AList.update peer \<lparr>at_count = Suc n, at_reset_at = reset\<rparr> peers)"
  using assms by (simp add: fail_attempt_def prune_def next_attempt_def Let_def)

lemma length_update_known: "map_of al k \<noteq> None \<Longrightarrow> length (AList.update k v al) = length al"
  by (induction al) (auto split: if_splits)

lemma length_update_le: "length (AList.update k v al) \<le> Suc (length al)"
  by (induction al) auto

text \<open>The wrong guesses of one peer after the first \<open>n\<close> of a window.\<close>

lemma wrong_guesses:
  assumes "submits form_passcode cn r given" and "digest given \<noteq> digest passcode"
  shows "length peers < MAX_TRACKED_PEERS \<Longrightarrow>
    map_of peers (peer_of r) = Some \<lparr>at_count = n, at_reset_at = reset\<rparr> \<Longrightarrow> \<forall>t \<in> set ts. t < reset \<Longrightarrow>
    map rs_status (fst (login_run digest form_passcode passcode cn (map (\<lambda>t. (t, r)) ts) peers)) =
      map (\<lambda>i. if n + i + 1 \<ge> MAX_ATTEMPTS then 429 else 401) [0..<length ts]"
proof (induction ts arbitrary: peers n)
  case (Cons t ts)
  let ?e = "\<lparr>at_count = Suc n, at_reset_at = reset\<rparr>"
  have f: "fail_attempt (peer_of r) t peers =
      (if Suc n \<ge> MAX_ATTEMPTS then ceil_seconds (reset - t) else 0, AList.update (peer_of r) ?e peers)"
    by (rule fail_within) (use Cons.prems in auto)
  have "length (AList.update (peer_of r) ?e peers) < MAX_TRACKED_PEERS"
    using Cons.prems by (simp add: length_update_known)
  from Cons.IH [OF this, of "Suc n"]
  have ih: "map rs_status (fst (login_run digest form_passcode passcode cn (map (\<lambda>t. (t, r)) ts) (AList.update (peer_of r) ?e peers))) =
      map (\<lambda>i. if Suc n + i + 1 \<ge> MAX_ATTEMPTS then 429 else 401) [0..<length ts]"
    using Cons.prems by simp
  have up: "[0..<length (t # ts)] = 0 # map Suc [0..<length ts]" by (simp only: length_Cons upt_conv_Cons map_Suc_upt)
  have pos: "0 < ceil_seconds (reset - t)" using Cons.prems by (intro ceil_seconds_pos) simp
  show ?case
    unfolding up list.map login_run_fst handle_submits [OF assms(1)]
    using ih pos by (simp add: assms(2) f wrong_status o_def del: login_run.simps)
qed simp

section \<open>Properties\<close>

text \<open>C18: dsh's cookie is only handed to who knows the passcode: whatever a request is and whatever attempts
  came before, an answer that carries a cookie answers a form posted by a logged-out browser of an
  address dsh trusts, at most 4096 bytes long, whose passcode has the digest of the configured one; and
  that one has eight characters or more.\<close>

theorem cookie_needs_passcode:
  assumes "configured_passcode configured environment = Inr passcode"
    and "handle_login digest form_passcode passcode cn now r peers = (p, peers')" and "response_cookie p = Some cookie"
  shows "mint_dsh_cookie cn r = Some cookie \<and> hr_method r = ''POST'' \<and> cn_rejection cn (hr_headers r) \<notin> {None, Some 403}
    \<and> (\<exists>body. read_form r = Inr body \<and> length body \<le> MAX_FORM_BYTES \<and>
         digest (case form_passcode body of None \<Rightarrow> '''' | Some g \<Rightarrow> g) = digest passcode)
    \<and> MIN_PASSCODE_LENGTH \<le> length passcode"
proof -
  have long: "MIN_PASSCODE_LENGTH \<le> length passcode"
    using assms(1) by (auto simp: configured_passcode_def Let_def split: if_splits)
  from assms(2,3) have s: "submitted digest form_passcode passcode cn now r peers = (p, peers')"
    and gate: "untrusted cn r = None" "\<not> logged_in cn r" "hr_method r = ''POST''"
    by (auto simp: handle_login_def split: option.splits if_splits)
  from s assms(3) obtain body where body: "read_form r = Inr body"
    and match: "digest (case form_passcode body of None \<Rightarrow> '''' | Some g \<Rightarrow> g) = digest passcode"
    and p: "p = sign_in_answer cn r"
    by (auto simp: submitted_def passcode_matches_def Let_def split: sum.splits form_error.splits if_splits prod.splits)
  show ?thesis
    using long gate body match p assms(3) read_chunks_bound [of "[]" "hr_chunks r" "hr_broken r" body]
    by (auto simp: sign_in_cookie read_form_def untrusted_def logged_in_def split: if_splits)
qed

text \<open>The budget of failed attempts decides how a wrong passcode is answered and nothing else: of the
  wrong guesses one peer makes within a window, the first nine are answered 401 and all later ones
  429, and the right passcode signs in however many came before it.\<close>

lemma failed_attempts_budget:
  assumes "submits form_passcode cn wrong given" and "digest given \<noteq> digest passcode"
    and "submits form_passcode cn right passcode" and "mint_dsh_cookie cn right = Some cookie"
    and "Suc (length peers) < MAX_TRACKED_PEERS" and "map_of peers (peer_of wrong) = None"
    and "\<forall>t \<in> set ts. t < t0 + ATTEMPT_WINDOW_MS"
  shows "\<exists>answers. fst (login_run digest form_passcode passcode cn
      ((t0, wrong) # map (\<lambda>t. (t, wrong)) ts @ [(now, right)]) peers) = answers @ [redirect ''/'' [(''set-cookie'', cookie)]] \<and>
    map rs_status answers = map (\<lambda>i. if i + 1 \<ge> MAX_ATTEMPTS then 429 else 401) [0..<Suc (length ts)]"
proof -
  let ?e = "\<lparr>at_count = 1, at_reset_at = t0 + ATTEMPT_WINDOW_MS\<rparr>"
  let ?peers = "AList.update (peer_of wrong) ?e peers"
  let ?guesses = "login_run digest form_passcode passcode cn (map (\<lambda>t. (t, wrong)) ts) ?peers"
  have first: "fail_attempt (peer_of wrong) t0 peers = (0, ?peers)"
    using assms(5,6) by (simp add: fail_attempt_def prune_def next_attempt_def Let_def MAX_ATTEMPTS_def)
  have "length ?peers < MAX_TRACKED_PEERS"
    using length_update_le [of "peer_of wrong" ?e peers] assms(5) by simp
  then have later: "map rs_status (fst ?guesses) =
      map (\<lambda>i. if 1 + i + 1 \<ge> MAX_ATTEMPTS then 429 else 401) [0..<length ts]"
    by (intro wrong_guesses [OF assms(1,2)]) (use assms(7) in simp_all)
  have up: "[0..<Suc (length ts)] = 0 # map Suc [0..<length ts]" by (simp only: upt_conv_Cons map_Suc_upt zero_less_Suc)
  have cookie: "sign_in_answer cn right = redirect ''/'' [(''set-cookie'', cookie)]"
    by (simp add: sign_in_answer_def assms(4))
  have run: "fst (login_run digest form_passcode passcode cn
      ((t0, wrong) # map (\<lambda>t. (t, wrong)) ts @ [(now, right)]) peers) =
      (wrong_passcode 0 # fst ?guesses) @ [redirect ''/'' [(''set-cookie'', cookie)]]"
    unfolding login_run_fst handle_submits [OF assms(1)]
    by (simp add: assms(2) first login_run_append handle_submits [OF assms(3)] cookie case_prod_beta)
  have "map rs_status (wrong_passcode 0 # fst ?guesses) =
      map (\<lambda>i. if i + 1 \<ge> MAX_ATTEMPTS then 429 else 401) [0..<Suc (length ts)]"
    unfolding up using later by (simp add: wrong_status o_def MAX_ATTEMPTS_def)
  with run show ?thesis by blast
qed

text \<open>However many addresses fail, the host remembers the budgets of at most 1024.\<close>

lemma prune_room:
  assumes "length peers \<le> MAX_TRACKED_PEERS"
  shows "length (prune now peers) < MAX_TRACKED_PEERS"
proof -
  define live where "live = filter (\<lambda>(_, e). \<not> at_reset_at e \<le> now) peers"
  have "length live \<le> MAX_TRACKED_PEERS"
    using assms length_filter_le by (metis live_def le_trans)
  then have "length (tl live) < MAX_TRACKED_PEERS" by (simp add: MAX_TRACKED_PEERS_def)
  then show ?thesis by (simp add: prune_def live_def [symmetric])
qed

lemma attempts_bounded:
  assumes "length peers \<le> MAX_TRACKED_PEERS"
  shows "length (snd (handle_login digest form_passcode passcode cn now r peers)) \<le> MAX_TRACKED_PEERS"
proof -
  have f: "length (snd (fail_attempt peer now peers)) \<le> MAX_TRACKED_PEERS" for peer
    using prune_room [OF assms] by (simp add: fail_attempt_def Let_def) (meson Suc_leI length_update_le le_trans)
  have "length (AList.delete (peer_of r) peers) \<le> MAX_TRACKED_PEERS"
    using assms unfolding AList.delete_eq by (meson length_filter_le le_trans)
  then show ?thesis
    using assms f by (auto simp: handle_login_def submitted_def clear_attempts_def Let_def case_prod_beta
        split: option.split sum.split form_error.split)
qed

section \<open>Witnesses\<close>

lemma demo_submits: "submits Some demo_connection (demo_request ''POST'' LOGIN_PATH given) given" if "length given \<le> MAX_FORM_BYTES"
  using that by (simp add: submits_def demo_connection_def demo_request_def reopen_cross_site_navigation_def reopen_target_def
      untrusted_def logged_in_def is_form_def header_text_def read_form_def)

lemma demo_cookie: "mint_dsh_cookie demo_connection (demo_request m u b) = Some ''dsh=1''"
  by (simp add: mint_dsh_cookie_def demo_connection_def)

theorem cookie_needs_passcode_witness:
  "\<exists>body. read_form (demo_request ''POST'' LOGIN_PATH ''correct horse'') = Inr body \<and> body = ''correct horse''"
proof -
  let ?r = "demo_request ''POST'' LOGIN_PATH ''correct horse''"
  have s: "submits Some demo_connection ?r ''correct horse''" by (rule demo_submits) (simp add: MAX_FORM_BYTES_def)
  have h: "handle_login (\<lambda>s. s) Some ''correct horse'' demo_connection 0 ?r [] =
      (redirect ''/'' [(''set-cookie'', ''dsh=1'')], clear_attempts (peer_of ?r) [])"
    by (simp add: handle_submits [OF s] sign_in_answer_def demo_cookie)
  have c: "configured_passcode (Some ''correct horse'') None = Inr ''correct horse''"
    by (simp add: configured_passcode_def MIN_PASSCODE_LENGTH_def)
  show ?thesis using cookie_needs_passcode [OF c h, of "''dsh=1''"] by auto
qed

lemma failed_attempts_budget_witness:
  "\<exists>answers. fst (login_run (\<lambda>s. s) Some ''correct horse'' demo_connection
      ((0, demo_request ''POST'' LOGIN_PATH ''guess'') # map (\<lambda>t. (t, demo_request ''POST'' LOGIN_PATH ''guess'')) (replicate 11 5)
        @ [(6, demo_request ''POST'' LOGIN_PATH ''correct horse'')]) []) = answers @ [redirect ''/'' [(''set-cookie'', ''dsh=1'')]] \<and>
    map rs_status answers = replicate 9 401 @ replicate 3 429"
proof -
  have "map (\<lambda>i. if i + 1 \<ge> MAX_ATTEMPTS then 429 else 401 :: nat) [0..<Suc (length (replicate 11 (5 :: int)))] =
      replicate 9 401 @ replicate 3 429"
    by (simp add: MAX_ATTEMPTS_def upt_rec numeral_eq_Suc)
  then show ?thesis
    using failed_attempts_budget [OF demo_submits _ demo_submits demo_cookie, of "''guess''" "\<lambda>s. s" "''correct horse''" "[]"
        "replicate 11 5" 0 6]
    by (simp add: MAX_FORM_BYTES_def MAX_TRACKED_PEERS_def ATTEMPT_WINDOW_MS_def)
qed

end
