(* ===== verification/Oidc_Auth.thy ===== *)
theory Oidc_Auth
  imports Auth_Core Js_Values
begin

text \<open>
  \<open>auth/oidc-auth.ts\<close>: sign-in through an identity provider, with PKCE, a state and a nonce. The
  OpenID library, the URL standard and the clock are parameters over the world \<open>'e\<close>. \<open>od_log\<close> is
  not in the code: it records which states were given out and which signed somebody in.
\<close>

definition DEFAULT_SCOPE :: string where "DEFAULT_SCOPE = ''openid email profile''"
definition STATE_TTL_MS :: int where "STATE_TTL_MS = 10 * 60 * 1000"
definition MAX_PENDING_STATES :: nat where "MAX_PENDING_STATES = 1024"

section \<open>Settings\<close>

record oidc_config =
  oc_issuer :: "string option"
  oc_client_id :: "string option"
  oc_client_secret :: "string option"
  oc_redirect_url :: "string option"
  oc_allowed_emails :: "string list option"
  oc_allowed_domains :: "string list option"
  oc_scope :: "string option"
  oc_allow_unverified :: "bool option"

record web_url =
  wu_protocol :: string
  wu_hostname :: string
  wu_href :: string

record oidc_settings =
  st_issuer :: web_url
  st_client_id :: string
  st_client_secret :: "string option"
  st_redirect_url :: web_url
  st_allowed_emails :: "string list"
  st_allowed_domains :: "string list"
  st_scope :: string
  st_allow_unverified :: bool

definition text_list :: "string option \<Rightarrow> string list" where
  "text_list v =
    filter (\<lambda>e. length e > 0)
      (map (\<lambda>e. to_lower (trim e)) (split_on CHR '','' (case v of None \<Rightarrow> '''' | Some s \<Rightarrow> s)))"

definition parse_boolean :: "string option \<Rightarrow> bool \<Rightarrow> bool" where
  "parse_boolean v fallback =
    (case v of None \<Rightarrow> fallback | Some s \<Rightarrow> if s = '''' then fallback else s \<noteq> ''false'')"

text \<open>\<open>fromEnvironment\<close>: \<open>env\<close> reads one variable, by its name after \<open>DSH_YAWN_OIDC_\<close>.\<close>

definition from_environment :: "(string \<Rightarrow> string option) \<Rightarrow> oidc_config" where
  "from_environment env =
    \<lparr>oc_issuer = env ''ISSUER'', oc_client_id = env ''CLIENT_ID'', oc_client_secret = env ''CLIENT_SECRET'',
     oc_redirect_url = env ''REDIRECT_URL'', oc_allowed_emails = Some (text_list (env ''ALLOWED_EMAILS'')),
     oc_allowed_domains = Some (text_list (env ''ALLOWED_DOMAINS'')), oc_scope = env ''SCOPE'',
     oc_allow_unverified = Some (parse_boolean (env ''ALLOW_UNVERIFIED_EMAIL'') True)\<rparr>"

definition require_http_url :: "(string \<Rightarrow> web_url option) \<Rightarrow> string \<Rightarrow> string option \<Rightarrow> error + web_url" where
  "require_http_url parse n v =
    (case parse (case v of None \<Rightarrow> '''' | Some s \<Rightarrow> s) of
       None \<Rightarrow> Inl (Plain (n @ '' must be an absolute URL''))
     | Some u \<Rightarrow>
        (let loopback = (wu_hostname u \<in> {''localhost'', ''127.0.0.1'', ''::1'', ''[::1]''})
         in if wu_protocol u \<noteq> ''https:'' \<and> \<not> (wu_protocol u = ''http:'' \<and> loopback)
            then Inl (Plain (n @ '' must use https (http is allowed only on loopback)''))
            else Inr u))"

definition resolved :: "(string \<Rightarrow> web_url option) \<Rightarrow> oidc_config \<Rightarrow> error + oidc_settings" where
  "resolved parse c =
    (case require_http_url parse ''DSH_YAWN_OIDC_ISSUER'' (oc_issuer c) of
       Inl e \<Rightarrow> Inl e
     | Inr issuer \<Rightarrow>
    (case require_http_url parse ''DSH_YAWN_OIDC_REDIRECT_URL'' (oc_redirect_url c) of
       Inl e \<Rightarrow> Inl e
     | Inr redirect_url \<Rightarrow>
        (let client_id = (case oc_client_id c of None \<Rightarrow> '''' | Some i \<Rightarrow> trim i);
             emails = map to_lower (case oc_allowed_emails c of None \<Rightarrow> [] | Some es \<Rightarrow> es);
             domains = map to_lower (case oc_allowed_domains c of None \<Rightarrow> [] | Some ds \<Rightarrow> ds);
             scope = (case oc_scope c of None \<Rightarrow> '''' | Some s \<Rightarrow> trim s)
         in if length client_id = 0 then Inl (Plain ''DSH_YAWN_OIDC_CLIENT_ID must be set'')
            else if emails = [] \<and> domains = []
            then Inl (Plain ''DSH_YAWN_OIDC_ALLOWED_EMAILS or DSH_YAWN_OIDC_ALLOWED_DOMAINS must allow at least one email or domain'')
            else Inr \<lparr>st_issuer = issuer, st_client_id = client_id,
              st_client_secret = (if oc_client_secret c = Some '''' then None else oc_client_secret c),
              st_redirect_url = redirect_url, st_allowed_emails = emails, st_allowed_domains = domains,
              st_scope = (if scope = '''' then DEFAULT_SCOPE else scope),
              st_allow_unverified = (case oc_allow_unverified c of None \<Rightarrow> True | Some b \<Rightarrow> b)\<rparr>)))"

definition email_allowed :: "json option \<Rightarrow> string list \<Rightarrow> string list \<Rightarrow> bool \<Rightarrow> bool" where
  "email_allowed claims emails domains allow_unverified =
    (case Option.bind claims object_fields of
       None \<Rightarrow> False
     | Some fs \<Rightarrow>
        (case map_of fs ''email'' of
           Some (JStr given) \<Rightarrow>
             if \<not> allow_unverified \<and> map_of fs ''email_verified'' \<noteq> Some (JBool True) then False
             else (let email = to_lower given
                   in email \<in> set emails \<or> list_ex (\<lambda>d. ends_with (''@'' @ d) email) domains)
         | _ \<Rightarrow> False))"

section \<open>Pending logins\<close>

record pending_login =
  pl_verifier :: string
  pl_nonce :: string
  pl_created_at :: int

type_synonym pending_logins = "(string \<times> pending_login) list"

definition prune_logins :: "int \<Rightarrow> pending_logins \<Rightarrow> pending_logins" where
  "prune_logins now ps = filter (\<lambda>(_, l). \<not> now - pl_created_at l > STATE_TTL_MS) ps"

definition remember :: "string \<Rightarrow> pending_login \<Rightarrow> int \<Rightarrow> pending_logins \<Rightarrow> pending_logins" where
  "remember s l now ps =
    (let kept = prune_logins now ps;
         room = (if length kept \<ge> MAX_PENDING_STATES then tl kept else kept)
     in AList.update s l room)"

definition take_login :: "string \<Rightarrow> int \<Rightarrow> pending_logins \<Rightarrow> pending_login option \<times> pending_logins" where
  "take_login s now ps =
    ((case map_of ps s of
        None \<Rightarrow> None | Some l \<Rightarrow> if now - pl_created_at l > STATE_TTL_MS then None else Some l),
     AList.delete s ps)"

section \<open>The routes\<close>

datatype oidc_note = Issued string pending_login | SignedIn string pending_login "json option"

record 'e oidc_state =
  od_pending :: pending_logins
  od_configuration :: "nat option"
  od_env :: 'e
  od_log :: "oidc_note list"

text \<open>What the callback reads of its URL.\<close>

record callback_url =
  cu_href :: string
  cu_state :: "string option"

text \<open>A discovered configuration is a handle; \<open>ol_grant\<close> answers the claims, \<open>None\<close> when there are none.\<close>

record 'e oidc_library =
  ol_discover :: "oidc_settings \<Rightarrow> ('e, nat) comp"
  ol_verifier :: "'e \<Rightarrow> string \<times> 'e"
  ol_challenge :: "string \<Rightarrow> ('e, string) comp"
  ol_state :: "'e \<Rightarrow> string \<times> 'e"
  ol_nonce :: "'e \<Rightarrow> string \<times> 'e"
  ol_authorize_url :: "nat \<Rightarrow> (string \<times> string) list \<Rightarrow> error + string"
  ol_grant :: "nat \<Rightarrow> callback_url \<Rightarrow> string \<Rightarrow> string \<Rightarrow> string \<Rightarrow> ('e, json option) comp"
  ol_now :: "'e \<Rightarrow> int"
  ol_callback_url :: "string \<Rightarrow> web_url \<Rightarrow> callback_url option"

definition on_world :: "('e, 'a) comp \<Rightarrow> ('e oidc_state, 'a) comp" where
  "on_world m s = (case m (od_env s) of (r, e) \<Rightarrow> (r, s\<lparr>od_env := e\<rparr>))"

definition drawn :: "('e \<Rightarrow> 'a \<times> 'e) \<Rightarrow> ('e oidc_state, 'a) comp" where
  "drawn f = on_world (\<lambda>e. case f e of (a, e') \<Rightarrow> (Inr a, e'))"

text \<open>\<open>configurationFor\<close>: one discovery is kept, a failed one is tried again.\<close>

definition configuration_for :: "'e oidc_library \<Rightarrow> oidc_settings \<Rightarrow> ('e oidc_state, nat) comp" where
  "configuration_for lib settings =
    bindE (gets od_configuration) (\<lambda>known.
      case known of
        Some c \<Rightarrow> ret c
      | None \<Rightarrow> bindE (on_world (ol_discover lib settings)) (\<lambda>c.
          thenE (modify (\<lambda>s. s\<lparr>od_configuration := Some c\<rparr>)) (ret c)))"

definition failure :: "string \<Rightarrow> http_response" where
  "failure message = send_text 401 (line message) []"

definition start_sign_in :: "'e oidc_library \<Rightarrow> oidc_settings \<Rightarrow> ('e oidc_state, http_response) comp" where
  "start_sign_in lib settings =
    bindE (configuration_for lib settings) (\<lambda>configuration.
    bindE (drawn (ol_verifier lib)) (\<lambda>verifier.
    bindE (on_world (ol_challenge lib verifier)) (\<lambda>challenge.
    bindE (drawn (ol_state lib)) (\<lambda>state.
    bindE (drawn (ol_nonce lib)) (\<lambda>nonce.
    bindE (gets (\<lambda>s. ol_now lib (od_env s))) (\<lambda>now.
    bindE (ret \<lparr>pl_verifier = verifier, pl_nonce = nonce, pl_created_at = now\<rparr>) (\<lambda>login.
    thenE (modify (\<lambda>s. s\<lparr>od_pending := remember state login now (od_pending s),
                         od_log := od_log s @ [Issued state login]\<rparr>))
   (bindE (liftE (ol_authorize_url lib configuration
             [(''redirect_uri'', wu_href (st_redirect_url settings)), (''scope'', st_scope settings),
              (''code_challenge'', challenge), (''code_challenge_method'', ''S256''),
              (''state'', state), (''nonce'', nonce)])) (\<lambda>target.
      ret (redirect target []))))))))))"

definition oidc_login ::
  "'e oidc_library \<Rightarrow> oidc_settings option \<Rightarrow> connection \<Rightarrow> http_request \<Rightarrow> ('e oidc_state, http_response) comp" where
  "oidc_login lib settings cn r =
    (case reopen_cross_site_navigation cn r of
       Some page \<Rightarrow> ret page
     | None \<Rightarrow>
       (case untrusted cn r of
          Some refused \<Rightarrow> ret refused
        | None \<Rightarrow>
            if logged_in cn r then ret (redirect ''/'' [])
            else if hr_method r \<noteq> ''GET'' \<and> hr_method r \<noteq> ''HEAD''
            then ret (send_text 405 (line ''method not allowed'') [(''allow'', ''GET, HEAD'')])
            else case settings of
                   None \<Rightarrow> ret (send_text 503 (line ''sign-in is unavailable'') [])
                 | Some current \<Rightarrow>
                     catchE (start_sign_in lib current) (\<lambda>_. ret (send_text 503 (line ''sign-in is unavailable'') []))))"

definition exchange ::
  "'e oidc_library \<Rightarrow> oidc_settings \<Rightarrow> connection \<Rightarrow> http_request \<Rightarrow> callback_url \<Rightarrow> string \<Rightarrow> pending_login
   \<Rightarrow> ('e oidc_state, http_response) comp" where
  "exchange lib settings cn r url state login =
    bindE (configuration_for lib settings) (\<lambda>configuration.
    bindE (on_world (ol_grant lib configuration url (pl_verifier login) state (pl_nonce login))) (\<lambda>claims.
      if \<not> email_allowed claims (st_allowed_emails settings) (st_allowed_domains settings) (st_allow_unverified settings)
      then ret (failure ''this account is not allowed'')
      else case mint_dsh_cookie cn r of
             None \<Rightarrow> ret (send_text 500 (line ''sign-in failed'') [])
           | Some cookie \<Rightarrow>
               thenE (modify (\<lambda>s. s\<lparr>od_log := od_log s @ [SignedIn state login claims]\<rparr>))
                 (ret (redirect ''/'' [(''set-cookie'', cookie)]))))"

definition oidc_callback ::
  "'e oidc_library \<Rightarrow> oidc_settings option \<Rightarrow> connection \<Rightarrow> http_request \<Rightarrow> ('e oidc_state, http_response) comp" where
  "oidc_callback lib settings cn r =
    (case reopen_cross_site_navigation cn r of
       Some page \<Rightarrow> ret page
     | None \<Rightarrow>
       (case untrusted cn r of
          Some refused \<Rightarrow> ret refused
        | None \<Rightarrow>
            if hr_method r \<noteq> ''GET'' then ret (send_text 405 (line ''method not allowed'') [(''allow'', ''GET'')])
            else case settings of
              None \<Rightarrow> ret (send_text 503 (line ''sign-in is unavailable'') [])
            | Some current \<Rightarrow>
               (case ol_callback_url lib (case hr_url r of None \<Rightarrow> ''/'' | Some u \<Rightarrow> u) (st_redirect_url current) of
                  None \<Rightarrow> ret (failure ''sign-in failed'')
                | Some url \<Rightarrow>
                   (case cu_state url of
                      None \<Rightarrow> ret (failure ''sign-in failed'')
                    | Some state \<Rightarrow>
                       bindE (gets (\<lambda>s. take_login state (ol_now lib (od_env s)) (od_pending s))) (\<lambda>(taken, left).
                       thenE (modify (\<lambda>s. s\<lparr>od_pending := left\<rparr>))
                        (case taken of
                           None \<Rightarrow> ret (failure ''sign-in expired; try again'')
                         | Some login \<Rightarrow>
                             catchE (exchange lib current cn r url state login)
                               (\<lambda>_. ret (failure ''sign-in failed''))))))))"

section \<open>What the routes change\<close>

definition issued :: "string \<Rightarrow> oidc_note list \<Rightarrow> nat" where
  "issued s notes = length (filter (\<lambda>n. case n of Issued t _ \<Rightarrow> t = s | _ \<Rightarrow> False) notes)"

definition signed_in :: "string \<Rightarrow> oidc_note list \<Rightarrow> nat" where
  "signed_in s notes = length (filter (\<lambda>n. case n of SignedIn t _ _ \<Rightarrow> t = s | _ \<Rightarrow> False) notes)"

lemma counts [simp]:
  "issued s (notes @ [Issued t l]) = issued s notes + (if t = s then 1 else 0)"
  "issued s (notes @ [SignedIn t l c]) = issued s notes"
  "signed_in s (notes @ [SignedIn t l c]) = signed_in s notes + (if t = s then 1 else 0)"
  "signed_in s (notes @ [Issued t l]) = signed_in s notes"
  by (simp_all add: issued_def signed_in_def)

text \<open>A pending state was given out, and signed in less often than that; no state signs in more often.\<close>

definition oidc_ok :: "'e oidc_state \<Rightarrow> bool" where
  "oidc_ok st \<longleftrightarrow> distinct (map fst (od_pending st)) \<and> length (od_pending st) \<le> MAX_PENDING_STATES \<and>
     (\<forall>k l. map_of (od_pending st) k = Some l \<longrightarrow>
        Issued k l \<in> set (od_log st) \<and> signed_in k (od_log st) < issued k (od_log st)) \<and>
     (\<forall>k. signed_in k (od_log st) \<le> issued k (od_log st))"

lemma oidc_okD:
  assumes "oidc_ok st"
  shows "distinct (map fst (od_pending st))" and "length (od_pending st) \<le> MAX_PENDING_STATES"
    and "map_of (od_pending st) k = Some l \<Longrightarrow> Issued k l \<in> set (od_log st)"
    and "map_of (od_pending st) k = Some l \<Longrightarrow> signed_in k (od_log st) < issued k (od_log st)"
    and "signed_in k (od_log st) \<le> issued k (od_log st)"
  using assms unfolding oidc_ok_def by blast+

lemma wp_on_world:
  "(\<And>a e. m (od_env s) = (Inr a, e) \<Longrightarrow> Q a (s\<lparr>od_env := e\<rparr>)) \<Longrightarrow>
   (\<And>er e. E er (s\<lparr>od_env := e\<rparr>)) \<Longrightarrow> wp (on_world m) Q E s"
  by (simp add: wp_def on_world_def split: prod.split sum.split)

lemma wp_drawn: "(\<And>a e. Q a (s\<lparr>od_env := e\<rparr>)) \<Longrightarrow> wp (drawn f) Q E s"
  by (simp add: wp_def drawn_def on_world_def split: prod.split)

definition same_logins :: "'e oidc_state \<Rightarrow> 'e oidc_state \<Rightarrow> bool" where
  "same_logins s t \<longleftrightarrow> od_pending t = od_pending s \<and> od_log t = od_log s"

lemma wp_configuration_for:
  "(\<And>c t. same_logins s t \<Longrightarrow> Q c t) \<Longrightarrow> (\<And>er t. same_logins s t \<Longrightarrow> E er t) \<Longrightarrow> wp (configuration_for lib settings) Q E s"
  by (auto simp: configuration_for_def wp_simps same_logins_def split: option.split intro!: wp_on_world)

text \<open>A login changes nothing, or gives out one state.\<close>

definition login_step :: "'e oidc_state \<Rightarrow> 'e oidc_state \<Rightarrow> bool" where
  "login_step s t \<longleftrightarrow> same_logins s t \<or>
     (\<exists>state l now. od_pending t = remember state l now (od_pending s) \<and> od_log t = od_log s @ [Issued state l])"

lemma start_sign_in_step: "wp (start_sign_in lib settings) (\<lambda>_. login_step s) (\<lambda>_. login_step s) s"
  unfolding start_sign_in_def
  by (auto simp: wp_simps login_step_def same_logins_def intro!: wp_configuration_for wp_on_world wp_drawn split: sum.split)

lemma login_steps: "wp (oidc_login lib settings cn r) (\<lambda>p t. login_step s t) (\<lambda>_ t. login_step s t) s"
  unfolding oidc_login_def
  by (auto simp: wp_simps login_step_def [of s s] same_logins_def intro!: wp_mono [OF start_sign_in_step] split: option.split)

text \<open>A callback changes nothing, takes a state, or takes one and signs in with it.\<close>

definition sign_in_step ::
  "'e oidc_library \<Rightarrow> oidc_settings \<Rightarrow> 'e oidc_state \<Rightarrow> 'e oidc_state \<Rightarrow> bool" where
  "sign_in_step lib settings s t \<longleftrightarrow>
     (\<exists>url state login claims configuration e e'. cu_state url = Some state \<and> map_of (od_pending s) state = Some login \<and>
        ol_now lib (od_env s) - pl_created_at login \<le> STATE_TTL_MS \<and>
        ol_grant lib configuration url (pl_verifier login) state (pl_nonce login) e = (Inr claims, e') \<and>
        email_allowed claims (st_allowed_emails settings) (st_allowed_domains settings) (st_allow_unverified settings) \<and>
        od_pending t = AList.delete state (od_pending s) \<and> od_log t = od_log s @ [SignedIn state login claims])"

definition take_step :: "'e oidc_state \<Rightarrow> 'e oidc_state \<Rightarrow> bool" where
  "take_step s t \<longleftrightarrow> od_log t = od_log s \<and> (od_pending t = od_pending s \<or> (\<exists>k. od_pending t = AList.delete k (od_pending s)))"

lemma exchange_step:
  "wp (exchange lib settings cn r url state login)
     (\<lambda>p t. (response_cookie p = None \<and> same_logins s t) \<or>
        (\<exists>claims configuration e e'.
          ol_grant lib configuration url (pl_verifier login) state (pl_nonce login) e = (Inr claims, e') \<and>
          email_allowed claims (st_allowed_emails settings) (st_allowed_domains settings) (st_allow_unverified settings) \<and>
          od_pending t = od_pending s \<and> od_log t = od_log s @ [SignedIn state login claims]))
     (\<lambda>_ t. same_logins s t) s"
  unfolding exchange_def
  by (auto simp: wp_simps same_logins_def failure_def intro!: wp_configuration_for wp_on_world split: option.split) blast

lemma take_loginD:
  "take_login k now ps = (Some l, left) \<Longrightarrow> map_of ps k = Some l \<and> now - pl_created_at l \<le> STATE_TTL_MS \<and> left = AList.delete k ps"
  "take_login k now ps = (None, left) \<Longrightarrow> left = AList.delete k ps"
  by (auto simp: take_login_def split: option.splits if_splits)

lemma exchange_wp:
  assumes "cu_state url = Some state" and "map_of (od_pending s) state = Some login"
    and "ol_now lib (od_env s) - pl_created_at login \<le> STATE_TTL_MS"
  shows "wp (exchange lib settings cn r url state login)
     (\<lambda>p t. (response_cookie p = None \<and> take_step s t) \<or> sign_in_step lib settings s t) (\<lambda>_. take_step s)
     (s\<lparr>od_pending := AList.delete state (od_pending s)\<rparr>)"
proof (rule wp_mono [OF exchange_step])
  fix p t
  assume "(response_cookie p = None \<and> same_logins (s\<lparr>od_pending := AList.delete state (od_pending s)\<rparr>) t) \<or>
    (\<exists>claims configuration e e'.
      ol_grant lib configuration url (pl_verifier login) state (pl_nonce login) e = (Inr claims, e') \<and>
      email_allowed claims (st_allowed_emails settings) (st_allowed_domains settings) (st_allow_unverified settings) \<and>
      od_pending t = od_pending (s\<lparr>od_pending := AList.delete state (od_pending s)\<rparr>) \<and>
      od_log t = od_log (s\<lparr>od_pending := AList.delete state (od_pending s)\<rparr>) @ [SignedIn state login claims])"
  then show "(response_cookie p = None \<and> take_step s t) \<or> sign_in_step lib settings s t"
  proof
    assume "response_cookie p = None \<and> same_logins (s\<lparr>od_pending := AList.delete state (od_pending s)\<rparr>) t"
    then show ?thesis by (auto simp: take_step_def same_logins_def)
  next
    assume "\<exists>claims configuration e e'.
      ol_grant lib configuration url (pl_verifier login) state (pl_nonce login) e = (Inr claims, e') \<and>
      email_allowed claims (st_allowed_emails settings) (st_allowed_domains settings) (st_allow_unverified settings) \<and>
      od_pending t = od_pending (s\<lparr>od_pending := AList.delete state (od_pending s)\<rparr>) \<and>
      od_log t = od_log (s\<lparr>od_pending := AList.delete state (od_pending s)\<rparr>) @ [SignedIn state login claims]"
    then have "sign_in_step lib settings s t" using assms unfolding sign_in_step_def by auto blast
    then show ?thesis by blast
  qed
qed (auto simp: take_step_def same_logins_def)

lemma callback_steps:
  "wp (oidc_callback lib settings cn r)
     (\<lambda>p t. (response_cookie p = None \<and> take_step s t) \<or> (\<exists>current. settings = Some current \<and> sign_in_step lib current s t))
     (\<lambda>_ t. False) s"
proof -
  have same: "take_step s s" by (simp add: take_step_def)
  have taken: "take_step s (s\<lparr>od_pending := AList.delete k (od_pending s)\<rparr>)" for k by (auto simp: take_step_def)
  show ?thesis
    unfolding oidc_callback_def
    by (auto simp: wp_simps same failure_def taken split: option.split prod.split
        dest!: take_loginD intro!: wp_mono [OF exchange_wp])
qed

section \<open>Any order of requests\<close>

text \<open>Logins and callbacks of any browsers, with the world moving on in between.\<close>

inductive oidc_reachable ::
  "'e oidc_library \<Rightarrow> oidc_settings option \<Rightarrow> connection \<Rightarrow> 'e oidc_state \<Rightarrow> bool" for lib settings cn where
  boot: "oidc_reachable lib settings cn \<lparr>od_pending = [], od_configuration = None, od_env = e, od_log = []\<rparr>"
| login: "oidc_reachable lib settings cn s \<Longrightarrow> oidc_reachable lib settings cn (snd (oidc_login lib settings cn r s))"
| callback: "oidc_reachable lib settings cn s \<Longrightarrow> oidc_reachable lib settings cn (snd (oidc_callback lib settings cn r s))"
| time: "oidc_reachable lib settings cn s \<Longrightarrow> oidc_reachable lib settings cn (s\<lparr>od_env := e\<rparr>)"

lemma sub_map_of:
  assumes "distinct (map fst ps)" and "set qs \<subseteq> set ps" and "map_of qs k = Some l"
  shows "map_of ps k = Some l"
  using assms by (meson map_of_SomeD map_of_is_SomeI subsetD)

lemma distinct_filtered: "distinct (map fst ps) \<Longrightarrow> distinct (map fst (filter P ps))"
  by (induction ps) auto

text \<open>What is left of the pending logins when one is remembered.\<close>

lemma remember_room:
  assumes "distinct (map fst ps)" and "length ps \<le> MAX_PENDING_STATES"
  obtains room where "remember s l now ps = AList.update s l room" and "distinct (map fst room)"
    and "set room \<subseteq> set ps" and "length room < MAX_PENDING_STATES"
proof -
  define kept where "kept = prune_logins now ps"
  define room where "room = (if length kept \<ge> MAX_PENDING_STATES then tl kept else kept)"
  have d: "distinct (map fst kept)" using assms(1) by (simp add: kept_def prune_logins_def distinct_filtered)
  have sub: "set kept \<subseteq> set ps" by (auto simp: kept_def prune_logins_def)
  have len: "length kept \<le> MAX_PENDING_STATES"
    using assms(2) unfolding kept_def prune_logins_def by (meson length_filter_le le_trans)
  show thesis
  proof (rule that [of room])
    show "remember s l now ps = AList.update s l room" by (simp add: remember_def kept_def room_def Let_def)
    show "distinct (map fst room)" using d by (cases kept) (auto simp: room_def)
    show "set room \<subseteq> set ps" using sub by (cases kept) (auto simp: room_def)
    show "length room < MAX_PENDING_STATES" using len by (auto simp: room_def MAX_PENDING_STATES_def)
  qed
qed

lemma length_update_Suc: "length (AList.update k v al) \<le> Suc (length al)"
  by (induction al) auto

lemma oidc_ok_login: "oidc_ok s \<Longrightarrow> login_step s t \<Longrightarrow> oidc_ok t"
  unfolding login_step_def
proof (elim disjE exE conjE)
  fix state l now
  assume ok: "oidc_ok s" and p: "od_pending t = remember state l now (od_pending s)"
    and g: "od_log t = od_log s @ [Issued state l]"
  from ok have d: "distinct (map fst (od_pending s))" and len: "length (od_pending s) \<le> MAX_PENDING_STATES"
    by (simp_all add: oidc_ok_def)
  obtain room where room: "remember state l now (od_pending s) = AList.update state l room" "distinct (map fst room)"
    "set room \<subseteq> set (od_pending s)" "length room < MAX_PENDING_STATES" by (rule remember_room [OF d len])
  have sub: "map_of room k = Some x \<Longrightarrow> map_of (od_pending s) k = Some x" for k x
    by (rule sub_map_of [OF d room(3)])
  have "length (AList.update state l room) \<le> MAX_PENDING_STATES"
    using room(4) by (meson Suc_leI length_update_Suc le_trans)
  moreover have "signed_in k (od_log s) < Suc (issued k (od_log s))" and "signed_in k (od_log s) \<le> Suc (issued k (od_log s))" for k
    using oidc_okD(5) [OF ok, of k] by simp_all
  ultimately show "oidc_ok t"
    using oidc_okD(3-5) [OF ok] sub room(1,2) p g unfolding oidc_ok_def
    by (auto simp del: map_of_eq_Some_iff)
qed (simp add: oidc_ok_def same_logins_def)

lemma oidc_ok_deleted: "oidc_ok s \<Longrightarrow> od_log t = od_log s \<Longrightarrow> od_pending t = AList.delete k (od_pending s) \<Longrightarrow> oidc_ok t"
proof -
  assume ok: "oidc_ok s" and g: "od_log t = od_log s" and p: "od_pending t = AList.delete k (od_pending s)"
  have "length (AList.delete k (od_pending s)) \<le> MAX_PENDING_STATES"
    using ok unfolding oidc_ok_def AList.delete_eq by (meson length_filter_le le_trans)
  then show ?thesis using oidc_okD [OF ok] unfolding oidc_ok_def g p by (auto simp del: map_of_eq_Some_iff)
qed

lemma oidc_ok_take: "oidc_ok s \<Longrightarrow> take_step s t \<Longrightarrow> oidc_ok t"
  unfolding take_step_def by (auto intro: oidc_ok_deleted) (simp add: oidc_ok_def)

lemma oidc_ok_sign_in: "oidc_ok s \<Longrightarrow> sign_in_step lib settings s t \<Longrightarrow> oidc_ok t"
  unfolding sign_in_step_def
proof (elim exE conjE)
  fix url state login claims configuration e e'
  assume ok: "oidc_ok s" and found: "map_of (od_pending s) state = Some login"
    and p: "od_pending t = AList.delete state (od_pending s)" and g: "od_log t = od_log s @ [SignedIn state login claims]"
  have "oidc_ok (s\<lparr>od_pending := AList.delete state (od_pending s)\<rparr>)" by (rule oidc_ok_deleted [OF ok]) simp_all
  then show "oidc_ok t"
    using oidc_okD(4) [OF ok found] unfolding oidc_ok_def p g by (auto simp del: map_of_eq_Some_iff)
qed

lemma oidc_reachable_ok: "oidc_reachable lib settings cn s \<Longrightarrow> oidc_ok s"
proof (induction rule: oidc_reachable.induct)
  case (login s r)
  then show ?case using wp_finalD [OF login_steps] oidc_ok_login by blast
next
  case (callback s r)
  have "wp (oidc_callback lib settings cn r) (\<lambda>_. oidc_ok) (\<lambda>_. oidc_ok) s"
    by (rule wp_mono [OF callback_steps]) (use callback.IH oidc_ok_take oidc_ok_sign_in in blast)+
  then show ?case by (rule wp_finalD)
qed (simp_all add: oidc_ok_def issued_def signed_in_def)

section \<open>Properties\<close>

text \<open>C17: An identity provider's answer signs in only the login it belongs to, and once: whatever requests came
  before, a callback that sets dsh's cookie carries a state this host gave out within ten minutes and
  that is spent with it, so no state signs in more often than it was given out; the provider granted
  it for that login's own verifier and nonce, and the claims name an allowed email. At most 1024
  logins wait.\<close>

theorem oidc_sign_in_sound:
  assumes "oidc_reachable lib settings cn s" and "oidc_callback lib settings cn r s = (Inr p, t)"
    and "response_cookie p = Some cookie"
  shows "\<exists>current url state login claims configuration e e'. settings = Some current \<and>
    cu_state url = Some state \<and> Issued state login \<in> set (od_log s) \<and>
    ol_now lib (od_env s) - pl_created_at login \<le> STATE_TTL_MS \<and>
    signed_in state (od_log s) < issued state (od_log s) \<and> map_of (od_pending t) state = None \<and>
    ol_grant lib configuration url (pl_verifier login) state (pl_nonce login) e = (Inr claims, e') \<and>
    email_allowed claims (st_allowed_emails current) (st_allowed_domains current) (st_allow_unverified current) \<and>
    length (od_pending t) \<le> MAX_PENDING_STATES"
proof -
  have ok: "oidc_ok s" by (rule oidc_reachable_ok [OF assms(1)])
  from wp_resultD [OF callback_steps assms(2)] assms(3) obtain current where
    c: "settings = Some current" and step: "sign_in_step lib current s t" by auto
  have okt: "oidc_ok t" by (rule oidc_ok_sign_in [OF ok step])
  from step obtain url state login claims configuration e e' where
    url: "cu_state url = Some state" and found: "map_of (od_pending s) state = Some login"
    and rest: "ol_now lib (od_env s) - pl_created_at login \<le> STATE_TTL_MS"
      "ol_grant lib configuration url (pl_verifier login) state (pl_nonce login) e = (Inr claims, e')"
      "email_allowed claims (st_allowed_emails current) (st_allowed_domains current) (st_allow_unverified current)"
    and p: "od_pending t = AList.delete state (od_pending s)"
    unfolding sign_in_step_def by blast
  have "Issued state login \<in> set (od_log s)" "signed_in state (od_log s) < issued state (od_log s)"
    using oidc_okD(3,4) [OF ok found] by blast+
  moreover have "map_of (od_pending t) state = None" "length (od_pending t) \<le> MAX_PENDING_STATES"
    using okt by (simp_all add: p oidc_ok_def)
  ultimately show ?thesis using c url rest by blast
qed

section \<open>Witness\<close>

definition demo_library :: "nat oidc_library" where
  "demo_library = \<lparr>ol_discover = \<lambda>_ e. (Inr 7, e), ol_verifier = \<lambda>e. (''verifier'', e),
     ol_challenge = \<lambda>v e. (Inr (''S256 of '' @ v), e), ol_state = \<lambda>e. (''state'', e), ol_nonce = \<lambda>e. (''nonce'', e),
     ol_authorize_url = \<lambda>_ _. Inr ''https://idp/authorize'',
     ol_grant = \<lambda>_ _ v s n e. (if v = ''verifier'' \<and> n = ''nonce'' then Inr (Some (JObj [(''email'', JStr ''Ada@Example.com'')])) else Inl (Plain ''denied''), e),
     ol_now = int, ol_callback_url = \<lambda>u _. Some \<lparr>cu_href = u, cu_state = Some ''state''\<rparr>\<rparr>"

definition demo_settings :: oidc_settings where
  "demo_settings = \<lparr>st_issuer = \<lparr>wu_protocol = ''https:'', wu_hostname = ''idp'', wu_href = ''https://idp/''\<rparr>,
     st_client_id = ''dsh'', st_client_secret = None,
     st_redirect_url = \<lparr>wu_protocol = ''https:'', wu_hostname = ''dsh'', wu_href = ''https://dsh/callback''\<rparr>,
     st_allowed_emails = [], st_allowed_domains = [''example.com''], st_scope = DEFAULT_SCOPE, st_allow_unverified = True\<rparr>"

definition demo_pending :: "nat oidc_state" where
  "demo_pending = snd (oidc_login demo_library (Some demo_settings) demo_connection (demo_request ''GET'' LOGIN_PATH [])
     \<lparr>od_pending = [], od_configuration = None, od_env = 0, od_log = []\<rparr>)"

lemma demo_pending_reachable: "oidc_reachable demo_library (Some demo_settings) demo_connection demo_pending"
  unfolding demo_pending_def by (intro oidc_reachable.intros)

lemma demo_callback:
  "oidc_callback demo_library (Some demo_settings) demo_connection (demo_request ''GET'' ''/callback'' []) demo_pending =
     (Inr (redirect ''/'' [(''set-cookie'', ''dsh=1'')]),
      \<lparr>od_pending = [], od_configuration = Some 7, od_env = 0,
       od_log = [Issued ''state'' \<lparr>pl_verifier = ''verifier'', pl_nonce = ''nonce'', pl_created_at = 0\<rparr>,
         SignedIn ''state'' \<lparr>pl_verifier = ''verifier'', pl_nonce = ''nonce'', pl_created_at = 0\<rparr>
           (Some (JObj [(''email'', JStr ''Ada@Example.com'')]))]\<rparr>)"
  by code_simp

theorem oidc_sign_in_sound_witness:
  "\<exists>state. signed_in state (od_log demo_pending) < issued state (od_log demo_pending)"
  using oidc_sign_in_sound [OF demo_pending_reachable demo_callback] by (auto simp: redirect_def response_cookie_def spread_def)

end
