(* ===== verification/Remote_Api.thy ===== *)
theory Remote_Api
  imports Sandbox_Types
begin

text \<open>
  What the three backends share: calls to a service outside the repository, the clock and \<open>setTimeout\<close>,
  \<open>createHash("sha256")\<close> as the function from a text to its hexadecimal digest, and the loop \<open>poll\<close> of
  \<open>sandbox/backends/kas.ts\<close>.
\<close>

section \<open>Calls\<close>

text \<open>A service answers, refuses with a status, or fails otherwise; it never throws the repository's own
  \<open>SandboxNotFoundError\<close>.\<close>

datatype api_error = Status nat string | Failed string

type_synonym ('e, 'a) call = "'e \<Rightarrow> (api_error + 'a) \<times> 'e"

fun thrown :: "api_error \<Rightarrow> error" where
  "thrown (Status n m) = ApiStatus n m"
| "thrown (Failed m) = Plain m"

definition api :: "('e, 'a) call \<Rightarrow> ('e, 'a) comp" where
  "api m e = (case m e of (Inl er, e') \<Rightarrow> (Inl (thrown er), e') | (Inr a, e') \<Rightarrow> (Inr a, e'))"

fun is_status :: "nat \<Rightarrow> error \<Rightarrow> bool" where
  "is_status n (ApiStatus k _) = (k = n)"
| "is_status n _ = False"

text \<open>\<open>answered m n\<close>: some time the call was refused with status \<open>n\<close>.\<close>

definition refused_with :: "('e, 'a) call \<Rightarrow> nat \<Rightarrow> bool" where
  "refused_with m n \<longleftrightarrow> (\<exists>e text e'. m e = (Inl (Status n text), e'))"

lemma wp_api:
  assumes "\<And>a e'. m e = (Inr a, e') \<Longrightarrow> Q a e'"
    and "\<And>er e'. m e = (Inl er, e') \<Longrightarrow> E (thrown er) e'"
  shows "wp (api m) Q E e"
  using assms by (auto simp: wp_def api_def split: prod.split sum.split)

lemma thrown_simps [simp]:
  "\<not> is_not_found (thrown er)" "thrown er \<noteq> OutOfFuel"
  "is_status n (thrown er) \<longleftrightarrow> (\<exists>text. er = Status n text)"
  by (cases er; auto)+

lemma raises_api [raises_rules]:
  "(\<And>er. (\<exists>e e'. m e = (Inl er, e')) \<Longrightarrow> P (thrown er)) \<Longrightarrow> raises P (api m)"
  unfolding raises_def api_def by (auto split: prod.splits sum.splits)

section \<open>Waiting\<close>

record 'e clock =
  cl_now :: "'e \<Rightarrow> int"
  cl_sleep :: "int \<Rightarrow> 'e \<Rightarrow> 'e"

definition clock_runs :: "'e clock \<Rightarrow> bool" where
  "clock_runs c \<longleftrightarrow> (\<forall>ms e. cl_now c e + ms \<le> cl_now c (cl_sleep c ms e))"

definition keeps_time :: "'e clock \<Rightarrow> ('e, 'a) comp \<Rightarrow> bool" where
  "keeps_time c m \<longleftrightarrow> (\<forall>e. cl_now c e \<le> cl_now c (snd (m e)))"

text \<open>\<open>poll\<close>: asks every half second until there is a value or the deadline has passed. A deadline is
  a JavaScript number, as the profile's timeout is.\<close>

fun poll_loop ::
  "'e clock \<Rightarrow> ('e, 'a option) comp \<Rightarrow> js_number \<Rightarrow> string \<Rightarrow> nat \<Rightarrow> ('e, 'a) comp" where
  "poll_loop c op deadline message 0 e = (Inl OutOfFuel, e)"
| "poll_loop c op deadline message (Suc fuel) e =
    (if num_lt (js_int (cl_now c e)) deadline
     then (case op e of
             (Inl er, e') \<Rightarrow> (Inl er, e')
           | (Inr (Some v), e') \<Rightarrow> (Inr v, e')
           | (Inr None, e') \<Rightarrow> poll_loop c op deadline message fuel (cl_sleep c 500 e'))
     else (Inl (Plain message), e))"

text \<open>How often a loop that sleeps \<open>period\<close> milliseconds can turn before \<open>timeout\<close> has passed.\<close>

definition turns :: "int \<Rightarrow> js_number \<Rightarrow> nat" where
  "turns period timeout = (case timeout of Finite q \<Rightarrow> nat (\<lceil>q\<rceil> div period) + 2 | _ \<Rightarrow> 1)"

definition poll :: "'e clock \<Rightarrow> ('e, 'a option) comp \<Rightarrow> js_number \<Rightarrow> string \<Rightarrow> ('e, 'a) comp" where
  "poll c op timeout message e =
    poll_loop c op (num_add (js_int (cl_now c e)) timeout) message (turns 500 timeout) e"

text \<open>The delay of \<open>setTimeout\<close>: Node turns one below 1 or above \<open>2 ^ 31 - 1\<close> milliseconds into 1.\<close>

definition node_delay :: "int \<Rightarrow> int" where
  "node_delay ms = (if 1 \<le> ms \<and> ms \<le> 2147483647 then ms else 1)"

section \<open>Facts\<close>

lemma num_lt_js_int_Finite [simp]: "num_lt (js_int i) (Finite q) \<longleftrightarrow> of_int i < q"
  by (auto simp: num_lt_def js_int_def)

text \<open>A deadline that is \<open>period\<close> times the fuel away is reached.\<close>

lemma poll_loop_ends:
  assumes "clock_runs c" and "keeps_time c op" and "raises (\<lambda>er. er \<noteq> OutOfFuel) op"
  shows "d \<le> of_int (cl_now c e + 500 * int fuel) \<Longrightarrow>
    fst (poll_loop c op (Finite d) message (Suc fuel) e) \<noteq> Inl OutOfFuel"
proof (induction fuel arbitrary: e)
  case 0
  then show ?case by simp
next
  case (Suc fuel)
  obtain r e' where op: "op e = (r, e')" by (rule prod.exhaust)
  show ?case
  proof (cases "\<exists>er. r = Inl er")
    case True
    then obtain er where "op e = (Inl er, e')" using op by auto
    moreover from raisesD [OF assms(3) this] have "er \<noteq> OutOfFuel" .
    ultimately show ?thesis by (simp add: poll_loop.simps(2) [of _ _ _ _ "Suc fuel"] del: poll_loop.simps)
  next
    case False
    then obtain v where r: "r = Inr v" by (cases r) auto
    have "cl_now c e + 500 \<le> cl_now c (cl_sleep c 500 e')"
      using assms(1,2) op unfolding clock_runs_def keeps_time_def by (metis add_right_mono order_trans snd_conv)
    then have "d \<le> of_int (cl_now c (cl_sleep c 500 e') + 500 * int fuel)"
      using Suc.prems by (smt (verit) of_int_le_iff of_nat_Suc order_trans)
    from Suc.IH [OF this] op r show ?thesis
      by (cases v) (simp_all add: poll_loop.simps(2) [of _ _ _ _ "Suc fuel"] del: poll_loop.simps)
  qed
qed

lemma turns_enough:
  assumes "0 < period"
  shows "q \<le> of_int (period * int (turns period (Finite q) - 1))"
proof -
  have "\<lceil>q\<rceil> \<le> period * (\<lceil>q\<rceil> div period + 1)"
    using assms by (smt (verit) mult_div_mod_eq pos_mod_bound distrib_left mult_cancel_left2)
  also have "\<dots> \<le> period * int (turns period (Finite q) - 1)"
    using assms by (intro mult_left_mono) (auto simp: turns_def)
  finally show ?thesis by (metis ceiling_le_iff)
qed

lemma poll_ends:
  assumes "clock_runs c" and "keeps_time c op" and "raises (\<lambda>er. er \<noteq> OutOfFuel) op" and "is_finite timeout"
  shows "raises (\<lambda>er. er \<noteq> OutOfFuel) (poll c op timeout message)"
proof -
  from assms(4) obtain q where q: "timeout = Finite q" by (cases timeout) auto
  have t: "turns 500 timeout = Suc (turns 500 timeout - 1)" by (simp add: turns_def q)
  have "fst (poll c op timeout message e) \<noteq> Inl OutOfFuel" for e
  proof -
    have "of_int (cl_now c e) + q \<le> of_int (cl_now c e + 500 * int (turns 500 (Finite q) - 1))"
      using turns_enough [of 500 q] by simp
    from poll_loop_ends [OF assms(1-3) this] show ?thesis
      unfolding poll_def by (subst t) (simp add: q js_int_def del: poll_loop.simps)
  qed
  then show ?thesis unfolding raises_def by (metis fst_conv)
qed

lemma raises_poll [raises_rules]:
  assumes "raises P op" and "P (Plain message)" and "P OutOfFuel"
  shows "raises P (poll c op timeout message)"
proof -
  have "poll_loop c op d message fuel e = (Inl er, t) \<Longrightarrow> P er" for d fuel e er t
  proof (induction fuel arbitrary: e)
    case (Suc fuel)
    then show ?case
      using raisesD [OF assms(1)] assms(2)
      by (auto split: prod.splits sum.splits option.splits if_splits)
  qed (use assms(3) in simp)
  then show ?thesis unfolding raises_def poll_def by blast
qed

text \<open>How a poll throws: as its operation does, for being late, or out of fuel.\<close>

lemma poll_wp:
  assumes "\<And>e. wp op (\<lambda>_ _. True) E e" and "\<And>e. E (Plain message) e" and "\<And>e. E OutOfFuel e"
  shows "wp (poll c op timeout message) (\<lambda>_ _. True) E e"
proof -
  have "poll_loop c op d message fuel e = (Inl er, t) \<Longrightarrow> E er t" for d fuel e er t
  proof (induction fuel arbitrary: e)
    case (Suc fuel)
    then show ?case
      using wp_errorD [OF assms(1)] assms(2)
      by (auto split: prod.splits sum.splits option.splits if_splits)
  qed (use assms(3) in simp)
  then show ?thesis unfolding wp_def poll_def by (auto split: prod.split sum.split)
qed

lemma keeps_time_rules:
  "keeps_time c (ret a)" "keeps_time c (throw er)" "keeps_time c (liftE r)"
  "(\<And>e. cl_now c e \<le> cl_now c (snd (m e))) \<Longrightarrow> keeps_time c (api m)"
  by (auto simp: keeps_time_def comp_defs api_def split: prod.split sum.split) (metis snd_conv)+

lemma keeps_time_bindE:
  assumes "keeps_time c m" and "\<And>a. keeps_time c (f a)"
  shows "keeps_time c (bindE m f)"
  unfolding keeps_time_def
proof
  fix e
  obtain r e' where m: "m e = (r, e')" by (rule prod.exhaust)
  have "cl_now c e \<le> cl_now c e'" using assms(1) m unfolding keeps_time_def by (metis snd_conv)
  moreover have "cl_now c e' \<le> cl_now c (snd (f a e'))" for a using assms(2) by (simp add: keeps_time_def)
  ultimately show "cl_now c e \<le> cl_now c (snd (bindE m f e))"
    by (cases r) (auto simp: bindE_def m intro: order_trans)
qed

section \<open>How calls fail\<close>

text \<open>\<open>fails F m\<close>: what \<open>m\<close> throws, and where it leaves the world then, is in \<open>F\<close>.\<close>

definition fails :: "(error \<Rightarrow> 's \<Rightarrow> bool) \<Rightarrow> ('s, 'a) comp \<Rightarrow> bool" where
  "fails F m \<longleftrightarrow> (\<forall>s. wp m (\<lambda>_ _. True) F s)"

named_theorems fails_rules "one rule per combinator for fails"

lemma failsD: "fails F m \<Longrightarrow> m s = (Inl er, t) \<Longrightarrow> F er t"
  by (auto simp: fails_def dest: wp_errorD)

lemma fails_mono: "fails G m \<Longrightarrow> (\<And>er t. G er t \<Longrightarrow> F er t) \<Longrightarrow> fails F m"
  by (auto simp: fails_def intro: wp_mono)

lemma fails_ret [fails_rules]: "fails F (ret a)"
  by (simp add: fails_def wp_simps)

lemma fails_gets [fails_rules]: "fails F (gets f)"
  by (simp add: fails_def wp_simps)

lemma fails_bindE [fails_rules]: "fails F m \<Longrightarrow> (\<And>a. fails F (f a)) \<Longrightarrow> fails F (bindE m f)"
  unfolding fails_def by (auto simp: wp_simps intro: wp_mono)

lemma fails_thenE [fails_rules]: "fails F m \<Longrightarrow> fails F n \<Longrightarrow> fails F (thenE m n)"
  by (simp add: thenE_def fails_bindE)

lemma fails_catchE:
  "fails G m \<Longrightarrow> (\<And>er s. G er s \<Longrightarrow> wp (h er) (\<lambda>_ _. True) F s) \<Longrightarrow> fails F (catchE m h)"
  unfolding fails_def by (auto simp: wp_simps intro: wp_mono)

lemma fails_if [fails_rules]: "(b \<Longrightarrow> fails F m) \<Longrightarrow> (\<not> b \<Longrightarrow> fails F n) \<Longrightarrow> fails F (if b then m else n)"
  by simp

lemma fails_option [fails_rules]:
  "(x = None \<Longrightarrow> fails F m) \<Longrightarrow> (\<And>a. x = Some a \<Longrightarrow> fails F (f a)) \<Longrightarrow> fails F (case x of None \<Rightarrow> m | Some a \<Rightarrow> f a)"
  by (cases x) simp_all

lemma fails_throw [fails_rules]: "(\<And>s. F er s) \<Longrightarrow> fails F (throw er)"
  by (simp add: fails_def wp_simps)

lemma fails_liftE [fails_rules]: "(\<And>er s. r = Inl er \<Longrightarrow> F er s) \<Longrightarrow> fails F (liftE r)"
  by (simp add: fails_def wp_simps split: sum.split)

lemma fails_api [fails_rules]: "(\<And>e er e'. m e = (Inl er, e') \<Longrightarrow> F (thrown er) e') \<Longrightarrow> fails F (api m)"
  unfolding fails_def by (intro allI wp_api) auto

lemma fails_poll [fails_rules]:
  "fails F op \<Longrightarrow> (\<And>e. F (Plain message) e) \<Longrightarrow> (\<And>e. F OutOfFuel e) \<Longrightarrow> fails F (poll c op timeout message)"
  unfolding fails_def by (intro allI poll_wp) auto

lemma fails_any: "(\<And>er s. F er s) \<Longrightarrow> fails F m"
  by (auto simp: fails_def wp_def split: prod.split sum.split)

lemma fails_wp: "fails F m \<Longrightarrow> wp m (\<lambda>_ _. True) F s"
  by (simp add: fails_def)

end
