(* ===== verification/Kas_Backend.thy ===== *)
theory Kas_Backend
  imports Remote_Api
begin

text \<open>
  \<open>sandbox/backends/kas.ts\<close>: sandboxes as Kubernetes agent-sandbox claims. The Kubernetes API is a
  parameter, one call per request the code makes; so are the clock and SHA-256 (its hexadecimal digest).
  A JSON patch is the operation it holds.
\<close>

definition REGISTRATION_TOKEN_SECRET :: string where
  "REGISTRATION_TOKEN_SECRET = ''dsh-yawn-registration-token''"

type_synonym conditions = "(string option \<times> string option) list"

text \<open>What is read of a claim and of a sandbox; a missing \<open>status\<close> is \<open>None\<close>.\<close>

record claim_object =
  co_lifecycle :: bool
  co_sandbox_name :: "string option"
  co_conditions :: "conditions option"

datatype claim_patch = SetExpiry timestamp | RemoveExpiry

record 'e kube =
  kb_clock :: "'e clock"
  kb_sha256 :: "string \<Rightarrow> string"
  kb_patch_secret :: "string \<Rightarrow> string \<Rightarrow> string \<Rightarrow> ('e, unit) call"
  kb_create_secret :: "string \<Rightarrow> string \<Rightarrow> string \<Rightarrow> ('e, unit) call"
  kb_create_claim :: "string \<Rightarrow> string \<Rightarrow> string \<Rightarrow> string \<Rightarrow> ('e, unit) call"
  kb_get_claim :: "string \<Rightarrow> string \<Rightarrow> ('e, claim_object) call"
  kb_patch_claim :: "string \<Rightarrow> string \<Rightarrow> claim_patch \<Rightarrow> ('e, unit) call"
  kb_delete_claim :: "string \<Rightarrow> string \<Rightarrow> ('e, unit) call"
  kb_get_sandbox :: "string \<Rightarrow> string \<Rightarrow> ('e, conditions option) call"
  kb_patch_sandbox :: "string \<Rightarrow> string \<Rightarrow> string \<Rightarrow> ('e, unit) call"

record kas_options =
  ko_namespace :: string
  ko_warm_pool :: string
  ko_ready_timeout_ms :: "js_number option"
  ko_registration_token :: string

section \<open>Names and references\<close>

definition claim_name_for :: "'e kube \<Rightarrow> string \<Rightarrow> string" where
  "claim_name_for k session = ''dsh-'' @ take 20 (kb_sha256 k session)"

definition alphanumeric :: "char \<Rightarrow> bool" where
  "alphanumeric c \<longleftrightarrow> is_upper c \<or> is_lower c \<or> is_digit c"

text \<open>\<open>/^[A-Za-z0-9]([-A-Za-z0-9_.]*[A-Za-z0-9])?$/\<close>.\<close>

definition label_pattern :: "string \<Rightarrow> bool" where
  "label_pattern s \<longleftrightarrow> s \<noteq> '''' \<and> alphanumeric (hd s) \<and> alphanumeric (last s) \<and>
     list_all (\<lambda>c. alphanumeric c \<or> c \<in> {CHR ''-'', CHR ''_'', CHR ''.''}) s"

definition safe_label :: "'e kube \<Rightarrow> string \<Rightarrow> string" where
  "safe_label k v = (if length v \<le> 63 \<and> label_pattern v then v else take 32 (kb_sha256 k v))"

definition condition_is_true :: "conditions option \<Rightarrow> string \<Rightarrow> bool" where
  "condition_is_true cs type =
    (case cs of None \<Rightarrow> False
     | Some items \<Rightarrow> list_ex (\<lambda>(t, status). t = Some type \<and> status = Some ''True'') items)"

record kas_ref =
  kr_claim_name :: string
  kr_sandbox_id :: string

definition kas_reference :: "backend_reference \<Rightarrow> error + kas_ref" where
  "kas_reference v =
    (case (map_of v ''claimName'', map_of v ''sandboxId'') of
       (Some (JStr c), Some (JStr s)) \<Rightarrow> Inr \<lparr>kr_claim_name = c, kr_sandbox_id = s\<rparr>
     | _ \<Rightarrow> Inl (Plain ''invalid Kubernetes agent-sandbox reference''))"

section \<open>The runner token\<close>

definition ready_timeout :: "kas_options \<Rightarrow> js_number" where
  "ready_timeout o1 = (case ko_ready_timeout_ms o1 of None \<Rightarrow> js_int 180000 | Some t \<Rightarrow> t)"

definition write_registration_token :: "'e kube \<Rightarrow> kas_options \<Rightarrow> string \<Rightarrow> string \<Rightarrow> ('e, unit) comp" where
  "write_registration_token k o1 n namespace =
    bindE (catchE (thenE (api (kb_patch_secret k namespace n (ko_registration_token o1))) (ret True))
             (\<lambda>er. if \<not> is_status 404 er then throw er else ret False)) (\<lambda>patched.
      if patched then ret ()
      else catchE (api (kb_create_secret k namespace n (ko_registration_token o1)))
             (\<lambda>er. if \<not> is_status 409 er then throw er
                   else api (kb_patch_secret k namespace n (ko_registration_token o1))))"

definition kas_store_token :: "'e kube \<Rightarrow> kas_options \<Rightarrow> ('e, unit) comp" where
  "kas_store_token k o1 =
    catchE (write_registration_token k o1 REGISTRATION_TOKEN_SECRET (ko_namespace o1))
      (\<lambda>er. throw (Plain (''could not store the runner token in Secret '' @ ko_namespace o1 @ ''/'' @
         REGISTRATION_TOKEN_SECRET @ '': '' @ error_message er)))"

section \<open>The backend's methods\<close>

definition wait_for_claim :: "'e kube \<Rightarrow> kas_options \<Rightarrow> string \<Rightarrow> ('e, claim_object) comp" where
  "wait_for_claim k o1 n =
    poll (kb_clock k)
      (bindE (api (kb_get_claim k (ko_namespace o1) n)) (\<lambda>claim.
         ret (if condition_is_true (co_conditions claim) ''Ready'' \<and> co_sandbox_name claim \<noteq> None
              then Some claim else None)))
      (ready_timeout o1) (''SandboxClaim '' @ n @ '' did not become ready'')"

definition wait_for_sandbox_condition :: "'e kube \<Rightarrow> kas_options \<Rightarrow> string \<Rightarrow> string \<Rightarrow> ('e, conditions option) comp" where
  "wait_for_sandbox_condition k o1 n condition =
    poll (kb_clock k)
      (bindE (api (kb_get_sandbox k (ko_namespace o1) n)) (\<lambda>sandbox.
         ret (if condition_is_true sandbox condition then Some sandbox else None)))
      (ready_timeout o1) (''Sandbox '' @ n @ '' did not become '' @ to_lower condition)"

definition kas_provision :: "'e kube \<Rightarrow> kas_options \<Rightarrow> sandbox_spec \<Rightarrow> ('e, sandbox_handle) comp" where
  "kas_provision k o1 spec =
    thenE (kas_store_token k o1)
   (bindE (ret (claim_name_for k (spec_session_id spec))) (\<lambda>claim_name.
    thenE (catchE (api (kb_create_claim k (ko_namespace o1) claim_name
                     (safe_label k (spec_session_id spec)) (ko_warm_pool o1)))
             (\<lambda>er. if \<not> is_status 409 er then throw er else ret ()))
   (bindE (wait_for_claim k o1 claim_name) (\<lambda>claim.
      case co_sandbox_name claim of
        None \<Rightarrow> throw (Plain (''SandboxClaim '' @ claim_name @ '' became ready unassigned''))
      | Some sandbox \<Rightarrow>
          thenE (wait_for_sandbox_condition k o1 sandbox ''Ready'')
            (ret \<lparr>handle_sandbox_id = sandbox,
                  handle_reference = [(''claimName'', JStr claim_name), (''sandboxId'', JStr sandbox)]\<rparr>)))))"

text \<open>A 404 is reported as \<open>SandboxNotFoundError\<close>.\<close>

definition gone_on_404 :: "string \<Rightarrow> ('e, 'a) comp \<Rightarrow> ('e, 'a) comp" where
  "gone_on_404 message m =
    catchE m (\<lambda>er. if is_status 404 er then throw (SandboxNotFound message) else throw er)"

definition kas_hibernate :: "'e kube \<Rightarrow> kas_options \<Rightarrow> backend_reference \<Rightarrow> ('e, unit) comp" where
  "kas_hibernate k o1 reference =
    bindE (liftE (kas_reference reference)) (\<lambda>ref.
      gone_on_404 (''Sandbox '' @ kr_sandbox_id ref @ '' no longer exists'')
        (thenE (api (kb_patch_sandbox k (ko_namespace o1) (kr_sandbox_id ref) ''Suspended''))
        (thenE (wait_for_sandbox_condition k o1 (kr_sandbox_id ref) ''Suspended'') (ret ()))))"

definition clear_expiry :: "'e kube \<Rightarrow> kas_options \<Rightarrow> string \<Rightarrow> ('e, unit) comp" where
  "clear_expiry k o1 n =
    bindE (api (kb_get_claim k (ko_namespace o1) n)) (\<lambda>claim.
      if \<not> co_lifecycle claim then ret ()
      else api (kb_patch_claim k (ko_namespace o1) n RemoveExpiry))"

definition kas_wake :: "'e kube \<Rightarrow> kas_options \<Rightarrow> backend_reference \<Rightarrow> ('e, sandbox_handle) comp" where
  "kas_wake k o1 reference =
    bindE (liftE (kas_reference reference)) (\<lambda>ref.
    thenE (kas_store_token k o1)
     (gone_on_404 (''SandboxClaim '' @ kr_claim_name ref @ '' no longer exists'')
        (thenE (clear_expiry k o1 (kr_claim_name ref))
        (thenE (api (kb_patch_sandbox k (ko_namespace o1) (kr_sandbox_id ref) ''Running''))
        (thenE (wait_for_sandbox_condition k o1 (kr_sandbox_id ref) ''Ready'')
           (ret \<lparr>handle_sandbox_id = kr_sandbox_id ref, handle_reference = reference\<rparr>))))))"

definition kas_destroy :: "'e kube \<Rightarrow> kas_options \<Rightarrow> backend_reference \<Rightarrow> ('e, unit) comp" where
  "kas_destroy k o1 reference =
    bindE (liftE (kas_reference reference)) (\<lambda>ref.
      catchE (api (kb_delete_claim k (ko_namespace o1) (kr_claim_name ref)))
        (\<lambda>er. if \<not> is_status 404 er then throw er else ret ()))"

definition kas_expire_at :: "'e kube \<Rightarrow> kas_options \<Rightarrow> backend_reference \<Rightarrow> int \<Rightarrow> ('e, unit) comp" where
  "kas_expire_at k o1 reference deadline =
    bindE (liftE (kas_reference reference)) (\<lambda>ref.
      gone_on_404 (''SandboxClaim '' @ kr_claim_name ref @ '' no longer exists'')
        (bindE (liftE (to_iso_string deadline)) (\<lambda>shutdown.
           api (kb_patch_claim k (ko_namespace o1) (kr_claim_name ref) (SetExpiry shutdown)))))"

definition kas_health :: "'e kube \<Rightarrow> kas_options \<Rightarrow> backend_reference \<Rightarrow> ('e, bool) comp" where
  "kas_health k o1 reference =
    bindE (liftE (kas_reference reference)) (\<lambda>ref.
      catchE (bindE (api (kb_get_sandbox k (ko_namespace o1) (kr_sandbox_id ref)))
                (\<lambda>sandbox. ret (condition_is_true sandbox ''Ready'')))
        (\<lambda>er. if is_status 404 er then ret False else throw er))"

definition kas_backend :: "'e kube \<Rightarrow> kas_options \<Rightarrow> 'e backend" where
  "kas_backend k o1 =
    \<lparr>b_name = ''kas'', b_capabilities = \<lparr>supports_hibernate = True, wake_keeps_filesystem = Some False\<rparr>,
     b_provision = kas_provision k o1, b_hibernate = kas_hibernate k o1, b_wake = kas_wake k o1,
     b_destroy = kas_destroy k o1, b_expire_at = kas_expire_at k o1, b_health = kas_health k o1\<rparr>"

end
