(* ===== verification/Docker_Backend.thy ===== *)
theory Docker_Backend
  imports Remote_Api
begin

text \<open>
  \<open>sandbox/backends/docker.ts\<close>: sandboxes as containers. The Docker command line is a parameter (what a
  command prints, or the error \<open>execFile\<close> rejects with), and so are the clock, SHA-256 and JSON's text layer.
  The state is the map of expiry timers beside the world, with the time each is due. A timer is in the map exactly while it can
  fire: whoever clears it deletes it, and one that fires destroys its container, which deletes it.
\<close>

record docker_ref =
  dr_container_id :: string
  dr_sandbox_id :: string

record docker_options =
  do_image :: string
  do_control_plane_url :: string
  do_registration_token :: string

record expiry_timer =
  et_ref :: docker_ref
  et_due :: int

type_synonym expiry_timers = "(string \<times> expiry_timer) list"

text \<open>\<open>dc_command\<close> runs the configured binary.\<close>

record 'e docker =
  dc_command :: "string list \<Rightarrow> ('e, string) call"
  dc_now :: "'e \<Rightarrow> int"
  dc_sha256 :: "string \<Rightarrow> string"
  dc_parse :: "string \<Rightarrow> json option"

definition docker_reference :: "backend_reference \<Rightarrow> error + docker_ref" where
  "docker_reference v =
    (case (map_of v ''containerId'', map_of v ''sandboxId'') of
       (Some (JStr c), Some (JStr s)) \<Rightarrow> Inr \<lparr>dr_container_id = c, dr_sandbox_id = s\<rparr>
     | _ \<Rightarrow> Inl (Plain ''invalid Docker sandbox reference''))"

definition docker_sandbox_name :: "'e docker \<Rightarrow> string \<Rightarrow> string" where
  "docker_sandbox_name d session = ''dsh-'' @ take 16 (dc_sha256 d session)"

definition is_missing_container :: "error \<Rightarrow> bool" where
  "is_missing_container er \<longleftrightarrow> contains ''No such container'' (error_text er)"

section \<open>Inspecting\<close>

record inspected =
  in_container_id :: string
  in_session_id :: string
  in_status :: string

text \<open>A member of a value that is not an object is \<open>undefined\<close>; of \<open>null\<close> it is a \<open>TypeError\<close>.\<close>

definition parse_inspect :: "'e docker \<Rightarrow> string \<Rightarrow> error + inspected" where
  "parse_inspect d v =
    (case dc_parse d v of
       None \<Rightarrow> Inl (Plain ''Unexpected token in JSON'')
     | Some (JArr [container]) \<Rightarrow>
         (if container = JNull then Inl (Plain ''Cannot read properties of null'')
          else case (field ''Id'' container,
                 Option.bind (Option.bind (field ''Config'' container) (field ''Labels'')) (field ''dsh.session''),
                 Option.bind (field ''State'' container) (field ''Status'')) of
            (Some (JStr c), Some (JStr session), Some (JStr status)) \<Rightarrow>
              Inr \<lparr>in_container_id = c, in_session_id = session, in_status = status\<rparr>
          | _ \<Rightarrow> Inl (Plain ''Docker inspect result is missing sandbox metadata''))
     | Some _ \<Rightarrow> Inl (Plain ''Docker returned an invalid inspect result''))"

section \<open>The backend's methods\<close>

definition dcommand :: "'e docker \<Rightarrow> string list \<Rightarrow> (expiry_timers \<times> 'e, string) comp" where
  "dcommand d args s = (case api (dc_command d args) (snd s) of (r, e) \<Rightarrow> (r, (fst s, e)))"

definition docker_run_args :: "docker_options \<Rightarrow> string \<Rightarrow> string \<Rightarrow> string list" where
  "docker_run_args o1 session sandbox =
    [''run'', ''--detach'', ''--user'', ''1000:1000'', ''--name'', sandbox,
     ''--label'', ''dsh.session='' @ session, ''--add-host'', ''host.docker.internal:host-gateway'',
     ''--env'', ''DSH_YAWN_SANDBOX_ID='' @ sandbox,
     ''--env'', ''DSH_YAWN_CONTROL_PLANE_URL='' @ do_control_plane_url o1,
     ''--env'', ''DSH_YAWN_REGISTRATION_TOKEN='' @ do_registration_token o1, do_image o1]"

definition docker_handle :: "string \<Rightarrow> string \<Rightarrow> sandbox_handle" where
  "docker_handle sandbox container =
    \<lparr>handle_sandbox_id = sandbox,
     handle_reference = [(''containerId'', JStr container), (''sandboxId'', JStr sandbox)]\<rparr>"

text \<open>The recovery of a container an earlier control plane left: \<open>None\<close> when it is another session's.\<close>

definition docker_recover ::
  "'e docker \<Rightarrow> string \<Rightarrow> string \<Rightarrow> (expiry_timers \<times> 'e, sandbox_handle option) comp" where
  "docker_recover d session sandbox =
    bindE (dcommand d [''inspect'', sandbox]) (\<lambda>stdout.
    bindE (liftE (parse_inspect d stdout)) (\<lambda>existing.
      if in_session_id existing \<noteq> session then ret None
      else thenE (if in_status existing \<noteq> ''running''
                  then thenE (dcommand d [''start'', in_container_id existing]) (ret ()) else ret ())
             (ret (Some (docker_handle sandbox (in_container_id existing))))))"

definition docker_provision ::
  "'e docker \<Rightarrow> docker_options \<Rightarrow> sandbox_spec \<Rightarrow> (expiry_timers \<times> 'e, sandbox_handle) comp" where
  "docker_provision d o1 spec =
    bindE (ret (docker_sandbox_name d (spec_session_id spec))) (\<lambda>sandbox.
      catchE (bindE (dcommand d (docker_run_args o1 (spec_session_id spec) sandbox)) (\<lambda>stdout.
                ret (docker_handle sandbox (trim stdout))))
        (\<lambda>provision_error.
           bindE (catchE (docker_recover d (spec_session_id spec) sandbox)
                    (\<lambda>_. throw (Plain (''could not create Docker sandbox '' @ sandbox)))) (\<lambda>recovered.
             case recovered of None \<Rightarrow> throw provision_error | Some handle \<Rightarrow> ret handle)))"

definition gone_when_missing :: "string \<Rightarrow> (expiry_timers \<times> 'e, 'a) comp \<Rightarrow> (expiry_timers \<times> 'e, 'a) comp" where
  "gone_when_missing container m =
    catchE m (\<lambda>er. if is_missing_container er
        then throw (SandboxNotFound (''Docker container '' @ container @ '' no longer exists'')) else throw er)"

definition docker_hibernate :: "'e docker \<Rightarrow> backend_reference \<Rightarrow> (expiry_timers \<times> 'e, unit) comp" where
  "docker_hibernate d reference =
    bindE (liftE (docker_reference reference)) (\<lambda>ref.
      gone_when_missing (dr_container_id ref)
        (thenE (dcommand d [''stop'', ''--time'', ''10'', dr_container_id ref]) (ret ())))"

text \<open>\<open>clearTimeout\<close> and \<open>expiryTimers.delete\<close>.\<close>

definition clear_timer :: "string \<Rightarrow> (expiry_timers \<times> 'e, unit) comp" where
  "clear_timer container = modify (\<lambda>s. (AList.delete container (fst s), snd s))"

definition docker_wake :: "'e docker \<Rightarrow> backend_reference \<Rightarrow> (expiry_timers \<times> 'e, sandbox_handle) comp" where
  "docker_wake d reference =
    bindE (liftE (docker_reference reference)) (\<lambda>ref.
    thenE (clear_timer (dr_container_id ref))
   (thenE (gone_when_missing (dr_container_id ref) (thenE (dcommand d [''start'', dr_container_id ref]) (ret ())))
      (ret \<lparr>handle_sandbox_id = dr_sandbox_id ref, handle_reference = reference\<rparr>)))"

definition destroy_container :: "'e docker \<Rightarrow> docker_ref \<Rightarrow> (expiry_timers \<times> 'e, unit) comp" where
  "destroy_container d ref =
    thenE (clear_timer (dr_container_id ref))
      (catchE (thenE (dcommand d [''rm'', ''--force'', ''--volumes'', dr_container_id ref]) (ret ()))
         (\<lambda>er. if \<not> contains ''No such container'' (error_text er) then throw er else ret ()))"

definition docker_destroy :: "'e docker \<Rightarrow> backend_reference \<Rightarrow> (expiry_timers \<times> 'e, unit) comp" where
  "docker_destroy d reference = bindE (liftE (docker_reference reference)) (destroy_container d)"

definition docker_expire_at :: "'e docker \<Rightarrow> backend_reference \<Rightarrow> int \<Rightarrow> (expiry_timers \<times> 'e, unit) comp" where
  "docker_expire_at d reference deadline =
    bindE (liftE (docker_reference reference)) (\<lambda>ref.
      modify (\<lambda>s. (AList.update (dr_container_id ref)
          \<lparr>et_ref = ref, et_due = dc_now d (snd s) + node_delay (max 0 (deadline - dc_now d (snd s)))\<rparr> (fst s), snd s)))"

text \<open>The callback of \<open>setTimeout\<close>.\<close>

definition timer_fires :: "'e docker \<Rightarrow> expiry_timer \<Rightarrow> (expiry_timers \<times> 'e, unit) comp" where
  "timer_fires d t = catchE (destroy_container d (et_ref t)) (\<lambda>_. ret ())"

definition docker_health :: "'e docker \<Rightarrow> backend_reference \<Rightarrow> (expiry_timers \<times> 'e, bool) comp" where
  "docker_health d reference =
    bindE (liftE (docker_reference reference)) (\<lambda>ref.
      catchE (bindE (dcommand d [''inspect'', ''--format'', ''{{.State.Status}}'', dr_container_id ref])
                (\<lambda>stdout. ret (trim stdout = ''running'')))
        (\<lambda>er. if is_missing_container er then ret False else throw er))"

definition docker_backend :: "'e docker \<Rightarrow> docker_options \<Rightarrow> (expiry_timers \<times> 'e) backend" where
  "docker_backend d o1 =
    \<lparr>b_name = ''docker'', b_capabilities = \<lparr>supports_hibernate = True, wake_keeps_filesystem = Some True\<rparr>,
     b_provision = docker_provision d o1, b_hibernate = docker_hibernate d, b_wake = docker_wake d,
     b_destroy = docker_destroy d, b_expire_at = docker_expire_at d, b_health = docker_health d\<rparr>"

section \<open>Timers\<close>

lemma wp_dcommand [wp_simps]:
  "wp (dcommand d args) Q E = (\<lambda>s. wp (api (dc_command d args)) (\<lambda>a e. Q a (fst s, e)) (\<lambda>er e. E er (fst s, e)) (snd s))"
  by (auto simp: wp_def dcommand_def fun_eq_iff split: prod.splits sum.splits)

lemma wp_clear_timer [wp_simps]: "wp (clear_timer c) Q E = (\<lambda>s. Q () (AList.delete c (fst s), snd s))"
  by (simp add: clear_timer_def wp_simps)

lemma wp_api_any: "(\<And>a e'. Q a e') \<Longrightarrow> (\<And>er e'. E er e') \<Longrightarrow> wp (api m) Q E e"
  by (rule wp_api) simp_all

text \<open>The map after each method: expiring sets one timer, waking and destroying clear one, the others
  leave the map alone, whatever the commands answer.\<close>

lemma keeps_dcommand [keeps_rules]: "keeps fst (dcommand d args)"
  by (simp add: keeps_def dcommand_def split: prod.split)

lemma docker_timers_kept:
  "fst (snd (docker_provision d o1 spec s)) = fst s" "fst (snd (docker_hibernate d reference s)) = fst s"
  "fst (snd (docker_health d reference s)) = fst s"
proof -
  have "keeps fst (docker_provision d o1 spec)" "keeps fst (docker_hibernate d reference)" "keeps fst (docker_health d reference)"
    by (simp_all add: docker_provision_def docker_recover_def docker_hibernate_def docker_health_def gone_when_missing_def keeps_rules)
  then show "fst (snd (docker_provision d o1 spec s)) = fst s" "fst (snd (docker_hibernate d reference s)) = fst s"
    "fst (snd (docker_health d reference s)) = fst s" unfolding keeps_def by blast+
qed

text \<open>What starts by clearing a timer and then leaves the map alone.\<close>

lemma cleared_then: "keeps fst m \<Longrightarrow> fst (snd (thenE (clear_timer c) m s)) = AList.delete c (fst s)"
  by (simp add: thenE_def bindE_def clear_timer_def modify_def keeps_def)

lemma destroy_container_timers: "fst (snd (destroy_container d ref s)) = AList.delete (dr_container_id ref) (fst s)"
  unfolding destroy_container_def by (rule cleared_then) (simp add: keeps_rules)

lemma timer_fires_timers: "fst (snd (timer_fires d t s)) = AList.delete (dr_container_id (et_ref t)) (fst s)"
proof -
  have "snd (timer_fires d t s) = snd (destroy_container d (et_ref t) s)"
    by (simp add: timer_fires_def catchE_def ret_def split: prod.split sum.split)
  then show ?thesis by (simp add: destroy_container_timers)
qed

lemma docker_cleared_timers:
  assumes "docker_reference reference = Inr ref"
  shows "fst (snd (docker_wake d reference s)) = AList.delete (dr_container_id ref) (fst s)"
    and "fst (snd (docker_destroy d reference s)) = AList.delete (dr_container_id ref) (fst s)"
proof -
  have "docker_wake d reference s = thenE (clear_timer (dr_container_id ref))
      (thenE (gone_when_missing (dr_container_id ref) (thenE (dcommand d [''start'', dr_container_id ref]) (ret ())))
        (ret \<lparr>handle_sandbox_id = dr_sandbox_id ref, handle_reference = reference\<rparr>)) s"
    by (simp add: docker_wake_def assms comp_defs)
  then show "fst (snd (docker_wake d reference s)) = AList.delete (dr_container_id ref) (fst s)"
    by (simp add: cleared_then keeps_rules gone_when_missing_def)
  show "fst (snd (docker_destroy d reference s)) = AList.delete (dr_container_id ref) (fst s)"
    using destroy_container_timers by (simp add: docker_destroy_def assms bindE_def liftE_def)
qed

lemma docker_expiry_timers:
  assumes "docker_reference reference = Inr ref"
  shows "docker_expire_at d reference deadline s =
    (Inr (), (AList.update (dr_container_id ref)
      \<lparr>et_ref = ref, et_due = dc_now d (snd s) + node_delay (max 0 (deadline - dc_now d (snd s)))\<rparr> (fst s), snd s))"
  using assms by (simp add: docker_expire_at_def comp_defs)

section \<open>Any order of requests\<close>

datatype docker_note = Expires string | Wakes string | Destroys string

text \<open>What was last asked about a container.\<close>

fun note_container :: "docker_note \<Rightarrow> string" where
  "note_container (Expires c) = c"
| "note_container (Wakes c) = c"
| "note_container (Destroys c) = c"

definition last_note :: "string \<Rightarrow> docker_note list \<Rightarrow> docker_note option" where
  "last_note c notes = find (\<lambda>n. note_container n = c) notes"

inductive docker_run :: "'e docker \<Rightarrow> docker_options \<Rightarrow> docker_note list \<Rightarrow> expiry_timers \<times> 'e \<Rightarrow> bool" for d o1 where
  boot: "docker_run d o1 [] ([], e)"
| provision: "docker_run d o1 ns s \<Longrightarrow> docker_run d o1 ns (snd (docker_provision d o1 spec s))"
| hibernate: "docker_run d o1 ns s \<Longrightarrow> docker_run d o1 ns (snd (docker_hibernate d reference s))"
| health: "docker_run d o1 ns s \<Longrightarrow> docker_run d o1 ns (snd (docker_health d reference s))"
| expire: "docker_run d o1 ns s \<Longrightarrow> docker_reference reference = Inr ref \<Longrightarrow>
    docker_run d o1 (Expires (dr_container_id ref) # ns) (snd (docker_expire_at d reference deadline s))"
| wake: "docker_run d o1 ns s \<Longrightarrow> docker_reference reference = Inr ref \<Longrightarrow>
    docker_run d o1 (Wakes (dr_container_id ref) # ns) (snd (docker_wake d reference s))"
| destroy: "docker_run d o1 ns s \<Longrightarrow> docker_reference reference = Inr ref \<Longrightarrow>
    docker_run d o1 (Destroys (dr_container_id ref) # ns) (snd (docker_destroy d reference s))"
| fires: "docker_run d o1 ns s \<Longrightarrow> map_of (fst s) c = Some t \<Longrightarrow> et_due t \<le> dc_now d (snd s) \<Longrightarrow>
    docker_run d o1 (Destroys (dr_container_id (et_ref t)) # ns) (snd (timer_fires d t s))"
| time: "docker_run d o1 ns s \<Longrightarrow> docker_run d o1 ns (fst s, e)"

definition timers_ok :: "docker_note list \<Rightarrow> expiry_timers \<Rightarrow> bool" where
  "timers_ok ns ts \<longleftrightarrow>
     (\<forall>c. map_of ts c \<noteq> None \<longleftrightarrow> last_note c ns = Some (Expires c)) \<and>
     (\<forall>c t. map_of ts c = Some t \<longrightarrow> dr_container_id (et_ref t) = c)"

lemma timers_ok_delete: "timers_ok ns ts \<Longrightarrow> n = Wakes c \<or> n = Destroys c \<Longrightarrow> timers_ok (n # ns) (AList.delete c ts)"
  by (auto simp: timers_ok_def last_note_def)

lemma timers_ok_update:
  "timers_ok ns ts \<Longrightarrow> dr_container_id (et_ref t) = c \<Longrightarrow> timers_ok (Expires c # ns) (AList.update c t ts)"
  by (auto simp: timers_ok_def last_note_def)

lemma docker_run_timers: "docker_run d o1 ns s \<Longrightarrow> timers_ok ns (fst s)"
proof (induction rule: docker_run.induct)
  case (boot e)
  show ?case by (simp add: timers_ok_def last_note_def)
qed (auto simp: docker_timers_kept docker_cleared_timers docker_expiry_timers timer_fires_timers
    intro!: timers_ok_delete timers_ok_update)

section \<open>Properties\<close>


text \<open>A hibernated container is kept until its deadline only when that is at most 2147483647
  milliseconds (less than 25 days) away: a later one makes the timer due after a millisecond.\<close>

lemma docker_expiry_due:
  assumes "docker_reference reference = Inr ref" and "docker_expire_at d reference deadline s = (r, t)"
  shows "map_option et_due (map_of (fst t) (dr_container_id ref)) =
    Some (if dc_now d (snd s) < deadline \<and> deadline - dc_now d (snd s) \<le> 2147483647 then deadline else dc_now d (snd s) + 1)"
  using assms by (auto simp: docker_expiry_timers node_delay_def)

section \<open>Witnesses\<close>

definition demo_docker :: "int docker" where
  "demo_docker = \<lparr>dc_command = \<lambda>args e. (Inr ''abc'', e), dc_now = \<lambda>e. e, dc_sha256 = \<lambda>s. replicate 64 CHR ''0'',
     dc_parse = \<lambda>s. None\<rparr>"

definition demo_docker_ref :: backend_reference where
  "demo_docker_ref = [(''containerId'', JStr ''abc''), (''sandboxId'', JStr ''dsh-1'')]"

lemma demo_docker_reference: "docker_reference demo_docker_ref = Inr \<lparr>dr_container_id = ''abc'', dr_sandbox_id = ''dsh-1''\<rparr>"
  by (simp add: docker_reference_def demo_docker_ref_def)


lemma docker_expiry_due_witness:
  "map_option et_due (map_of (fst (snd (docker_expire_at demo_docker demo_docker_ref (30 * 24 * 60 * 60 * 1000) ([], 0)))) ''abc'') = Some 1"
  using docker_expiry_due [OF demo_docker_reference, of demo_docker "30 * 24 * 60 * 60 * 1000" "([], 0)"]
  by (cases "docker_expire_at demo_docker demo_docker_ref (30 * 24 * 60 * 60 * 1000) ([], 0)")
    (auto simp: demo_docker_def)

end
