(* ===== verification/Buildkite_Backend.thy ===== *)
theory Buildkite_Backend
  imports Remote_Api
begin

text \<open>
  \<open>sandbox/backends/buildkite.ts\<close>: one sandbox is one build. The Buildkite API is a parameter, one call
  per endpoint the code asks (\<open>organizationRequest\<close>: a token, a \<open>fetch\<close> and the check of its status,
  whose refusal is a \<open>BuildkiteApiError\<close>); so are the clock, SHA-256 and random bytes. Provisions do not
  overlap here, so the write of the secret they share is a plain call.
\<close>

definition BUILD_BRANCH :: string where "BUILD_BRANCH = ''main''"

definition DEFAULT_REGISTRATION_TOKEN_SECRET :: string where
  "DEFAULT_REGISTRATION_TOKEN_SECRET = ''DSH_YAWN_REGISTRATION_TOKEN''"

definition FINISHED_STATES :: "string list" where
  "FINISHED_STATES = [''passed'', ''failed'', ''canceled'', ''canceling'', ''skipped'', ''not_run'', ''waiting_failed'']"

text \<open>\<open>bd_sandbox\<close> is \<open>env?.DSH_YAWN_SANDBOX_ID\<close>; \<open>pp_cluster_id\<close> is \<open>None\<close> for \<open>null\<close> too.\<close>

record build =
  bd_number :: js_number
  bd_state :: string
  bd_web_url :: string
  bd_sandbox :: "string option"

record pipeline =
  pp_id :: string
  pp_cluster_id :: "string option"

record cluster_secret =
  sr_id :: string
  sr_key :: string

record new_build =
  nb_branch :: string
  nb_message :: string
  nb_sandbox_id :: string
  nb_control_plane_url :: string
  nb_runner_image :: string
  nb_session :: string

record new_secret =
  ns_key :: string
  ns_value :: string
  ns_description :: string
  ns_policy :: string

text \<open>\<open>by_show\<close> is \<open>String(n)\<close>; the builds of a session are its scheduled and running ones.\<close>

record 'e buildkite =
  by_clock :: "'e clock"
  by_sha256 :: "string \<Rightarrow> string"
  by_random :: "'e \<Rightarrow> string \<times> 'e"
  by_show :: "js_number \<Rightarrow> string"
  by_live_builds :: "string \<Rightarrow> ('e, build list) call"
  by_create_build :: "new_build \<Rightarrow> ('e, build) call"
  by_get_build :: "js_number \<Rightarrow> ('e, build) call"
  by_cancel :: "js_number \<Rightarrow> ('e, unit) call"
  by_pipeline :: "('e, pipeline) call"
  by_secrets :: "string \<Rightarrow> nat \<Rightarrow> ('e, cluster_secret list) call"
  by_create_secret :: "string \<Rightarrow> new_secret \<Rightarrow> ('e, unit) call"
  by_put_secret :: "string \<Rightarrow> string \<Rightarrow> string \<Rightarrow> ('e, unit) call"

record buildkite_options =
  bo_pipeline :: string
  bo_image :: string
  bo_control_plane_url :: string
  bo_ready_timeout_ms :: js_number
  bo_registration_token :: string
  bo_secret_key :: "string option"

record buildkite_ref =
  br_build_number :: js_number
  br_sandbox_id :: string

definition buildkite_reference :: "backend_reference \<Rightarrow> error + buildkite_ref" where
  "buildkite_reference v =
    (case (map_of v ''buildNumber'', map_of v ''sandboxId'') of
       (Some (JNum n), Some (JStr s)) \<Rightarrow> Inr \<lparr>br_build_number = n, br_sandbox_id = s\<rparr>
     | _ \<Rightarrow> Inl (Plain ''invalid Buildkite sandbox reference''))"

definition buildkite_sandbox_name :: "'e buildkite \<Rightarrow> string \<Rightarrow> ('e, string) comp" where
  "buildkite_sandbox_name k session e =
    (case by_random k e of (r, e') \<Rightarrow> (Inr (''dsh-'' @ take 16 (by_sha256 k session) @ ''-'' @ r), e'))"

section \<open>Requests\<close>

definition cancel_build :: "'e buildkite \<Rightarrow> js_number \<Rightarrow> ('e, unit) comp" where
  "cancel_build k n =
    catchE (api (by_cancel k n)) (\<lambda>er. if \<not> is_status 404 er \<and> \<not> is_status 422 er then throw er else ret ())"

definition find_live_build :: "'e buildkite \<Rightarrow> string \<Rightarrow> ('e, build option) comp" where
  "find_live_build k session =
    bindE (api (by_live_builds k session)) (\<lambda>builds. ret (case builds of [] \<Rightarrow> None | b # _ \<Rightarrow> Some b))"

definition get_build :: "'e buildkite \<Rightarrow> js_number \<Rightarrow> ('e, build option) comp" where
  "get_build k n =
    catchE (bindE (api (by_get_build k n)) (\<lambda>b. ret (Some b)))
      (\<lambda>er. if is_status 404 er then ret None else throw er)"

text \<open>The loop of \<open>waitForRunning\<close>.\<close>

fun wait_running :: "'e buildkite \<Rightarrow> buildkite_options \<Rightarrow> js_number \<Rightarrow> nat \<Rightarrow> build \<Rightarrow> ('e, unit) comp" where
  "wait_running k o1 deadline 0 b e = (Inl OutOfFuel, e)"
| "wait_running k o1 deadline (Suc fuel) b e =
    (if bd_state b = ''running'' then (Inr (), e)
     else if bd_state b \<in> set FINISHED_STATES
     then (Inl (Plain (''Buildkite build '' @ bd_web_url b @ '' '' @ bd_state b @ '' before its runner started'')), e)
     else if num_le deadline (js_int (cl_now (by_clock k) e))
     then (Inl (Plain (''Buildkite build '' @ bd_web_url b @ '' did not start within ''
               @ by_show k (bo_ready_timeout_ms o1) @ ''ms'')),
           snd (catchE (cancel_build k (bd_number b)) (\<lambda>_. ret ()) e))
     else (case get_build k (bd_number b) (cl_sleep (by_clock k) 2000 e) of
             (Inl er, e') \<Rightarrow> (Inl er, e')
           | (Inr None, e') \<Rightarrow> (Inl (Plain (''Buildkite build '' @ bd_web_url b @ '' disappeared'')), e')
           | (Inr (Some current), e') \<Rightarrow> wait_running k o1 deadline fuel current e'))"

definition wait_for_running :: "'e buildkite \<Rightarrow> buildkite_options \<Rightarrow> build \<Rightarrow> ('e, unit) comp" where
  "wait_for_running k o1 b e =
    wait_running k o1 (num_add (js_int (cl_now (by_clock k) e)) (bo_ready_timeout_ms o1))
      (turns 2000 (bo_ready_timeout_ms o1)) b e"

section \<open>The runner token\<close>

text \<open>The loop over pages of a hundred; \<open>secret_pages\<close> bounds it.\<close>

definition secret_pages :: nat where "secret_pages = 1000"

fun find_secret :: "'e buildkite \<Rightarrow> string \<Rightarrow> string \<Rightarrow> nat \<Rightarrow> nat \<Rightarrow> ('e, cluster_secret option) comp" where
  "find_secret k cluster key page 0 e = (Inl OutOfFuel, e)"
| "find_secret k cluster key page (Suc fuel) e =
    (case api (by_secrets k cluster page) e of
       (Inl er, e') \<Rightarrow> (Inl er, e')
     | (Inr secrets, e') \<Rightarrow>
        (case find (\<lambda>s. sr_key s = key) secrets of
           Some s \<Rightarrow> (Inr (Some s), e')
         | None \<Rightarrow> if length secrets < 100 then (Inr None, e') else find_secret k cluster key (Suc page) fuel e'))"

definition buildkite_write_token :: "'e buildkite \<Rightarrow> buildkite_options \<Rightarrow> ('e, unit) comp" where
  "buildkite_write_token k o1 =
    bindE (ret (case bo_secret_key o1 of None \<Rightarrow> DEFAULT_REGISTRATION_TOKEN_SECRET | Some s \<Rightarrow> s)) (\<lambda>key.
    bindE (api (by_pipeline k)) (\<lambda>p.
      if pp_cluster_id p = None \<or> pp_cluster_id p = Some ''''
      then throw (Plain (''Buildkite pipeline '' @ bo_pipeline o1 @
             '' is not in a cluster, so it cannot read a Buildkite secret; move it to a cluster first''))
      else bindE (find_secret k (the (pp_cluster_id p)) key 1 secret_pages) (\<lambda>secret.
        case secret of
          None \<Rightarrow> api (by_create_secret k (the (pp_cluster_id p))
                    \<lparr>ns_key = key, ns_value = bo_registration_token o1,
                     ns_description = ''dsh-yawn runner token for '' @ bo_pipeline o1,
                     ns_policy = ''- pipeline_id: '' @ pp_id p\<rparr>)
        | Some s \<Rightarrow> api (by_put_secret k (the (pp_cluster_id p)) (sr_id s) (bo_registration_token o1)))))"

section \<open>The backend's methods\<close>

definition buildkite_provision :: "'e buildkite \<Rightarrow> buildkite_options \<Rightarrow> sandbox_spec \<Rightarrow> ('e, sandbox_handle) comp" where
  "buildkite_provision k o1 spec =
    bindE (find_live_build k (spec_session_id spec)) (\<lambda>live.
    bindE (case (live, Option.bind live bd_sandbox) of
             (Some b, Some sandbox) \<Rightarrow> ret (b, sandbox)
           | _ \<Rightarrow>
               thenE (buildkite_write_token k o1)
              (bindE (buildkite_sandbox_name k (spec_session_id spec)) (\<lambda>sandbox.
               bindE (api (by_create_build k
                 \<lparr>nb_branch = BUILD_BRANCH, nb_message = ''dsh sandbox '' @ sandbox, nb_sandbox_id = sandbox,
                  nb_control_plane_url = bo_control_plane_url o1, nb_runner_image = bo_image o1,
                  nb_session = spec_session_id spec\<rparr>)) (\<lambda>b. ret (b, sandbox)))))
     (\<lambda>(b, sandbox).
      thenE (wait_for_running k o1 b)
        (ret \<lparr>handle_sandbox_id = sandbox,
              handle_reference = [(''buildNumber'', JNum (bd_number b)), (''sandboxId'', JStr sandbox)]\<rparr>)))"

definition buildkite_hibernate :: "backend_reference \<Rightarrow> ('e, unit) comp" where
  "buildkite_hibernate reference = throw (Plain ''a Buildkite build cannot be suspended'')"

definition buildkite_wake :: "'e buildkite \<Rightarrow> buildkite_options \<Rightarrow> backend_reference \<Rightarrow> ('e, sandbox_handle) comp" where
  "buildkite_wake k o1 reference =
    bindE (liftE (buildkite_reference reference)) (\<lambda>ref.
    bindE (get_build k (br_build_number ref)) (\<lambda>found.
      case found of
        None \<Rightarrow> throw (SandboxNotFound (''Buildkite build '' @ by_show k (br_build_number ref) @ '' no longer exists''))
      | Some b \<Rightarrow>
          if bd_state b \<in> set FINISHED_STATES
          then throw (SandboxNotFound (''Buildkite build '' @ bd_web_url b @ '' has '' @ bd_state b))
          else thenE (wait_for_running k o1 b)
            (ret \<lparr>handle_sandbox_id = br_sandbox_id ref, handle_reference = reference\<rparr>)))"

definition buildkite_destroy :: "'e buildkite \<Rightarrow> backend_reference \<Rightarrow> ('e, unit) comp" where
  "buildkite_destroy k reference =
    bindE (liftE (buildkite_reference reference)) (\<lambda>ref. cancel_build k (br_build_number ref))"

definition buildkite_expire_at :: "backend_reference \<Rightarrow> int \<Rightarrow> ('e, unit) comp" where
  "buildkite_expire_at reference deadline = throw (Plain ''a Buildkite build cannot be suspended'')"

definition buildkite_health :: "'e buildkite \<Rightarrow> backend_reference \<Rightarrow> ('e, bool) comp" where
  "buildkite_health k reference =
    bindE (liftE (buildkite_reference reference)) (\<lambda>ref.
    bindE (get_build k (br_build_number ref)) (\<lambda>found.
      ret (case found of None \<Rightarrow> False | Some b \<Rightarrow> bd_state b = ''running'')))"

definition buildkite_backend :: "'e buildkite \<Rightarrow> buildkite_options \<Rightarrow> 'e backend" where
  "buildkite_backend k o1 =
    \<lparr>b_name = ''buildkite'', b_capabilities = \<lparr>supports_hibernate = False, wake_keeps_filesystem = None\<rparr>,
     b_provision = buildkite_provision k o1, b_hibernate = buildkite_hibernate, b_wake = buildkite_wake k o1,
     b_destroy = buildkite_destroy k, b_expire_at = buildkite_expire_at, b_health = buildkite_health k\<rparr>"

section \<open>Waiting for a build\<close>

definition still_waiting :: "build \<Rightarrow> bool" where
  "still_waiting b \<longleftrightarrow> bd_state b \<noteq> ''running'' \<and> bd_state b \<notin> set FINISHED_STATES"

text \<open>The calls leave the clock running.\<close>

definition buildkite_time :: "'e buildkite \<Rightarrow> bool" where
  "buildkite_time k \<longleftrightarrow> clock_runs (by_clock k) \<and>
     (\<forall>n e. cl_now (by_clock k) e \<le> cl_now (by_clock k) (snd (by_get_build k n e)))"

lemma get_build_time:
  assumes "buildkite_time k"
  shows "cl_now (by_clock k) e \<le> cl_now (by_clock k) (snd (get_build k n e))"
proof -
  obtain r e' where g: "by_get_build k n e = (r, e')" by (rule prod.exhaust)
  have "snd (get_build k n e) = e'"
    by (cases r) (simp_all add: get_build_def catchE_def bindE_def api_def ret_def throw_def g)
  then show ?thesis using assms g unfolding buildkite_time_def by (metis snd_conv)
qed

lemma get_build_errors: "raises (\<lambda>er. er \<noteq> OutOfFuel \<and> \<not> is_not_found er) (get_build k n)"
  unfolding get_build_def
  by (rule raises_catchE_through [where F = "\<lambda>er. er \<noteq> OutOfFuel \<and> \<not> is_not_found er"]) (auto intro!: raises_rules)

text \<open>How a wait ends well, and the ways it fails: Buildkite's answer, a build that ended or vanished, or the
  deadline, and then the last thing done is to cancel the build.\<close>

definition found_running :: "'e buildkite \<Rightarrow> build \<Rightarrow> 'e \<Rightarrow> 'e \<Rightarrow> bool" where
  "found_running k b e e' \<longleftrightarrow> (bd_state b = ''running'' \<and> e' = e) \<or>
     (\<exists>n c e1. get_build k n e1 = (Inr (Some c), e') \<and> bd_state c = ''running'')"

definition wait_failed :: "'e buildkite \<Rightarrow> rat \<Rightarrow> error \<Rightarrow> 'e \<Rightarrow> bool" where
  "wait_failed k d er e' \<longleftrightarrow>
     (\<exists>n e1. get_build k n e1 = (Inl er, e')) \<or>
     (\<exists>c :: build. bd_state c \<in> set FINISHED_STATES \<and>
        er = Plain (''Buildkite build '' @ bd_web_url c @ '' '' @ bd_state c @ '' before its runner started'')) \<or>
     (\<exists>url. er = Plain (''Buildkite build '' @ url @ '' disappeared'')) \<or>
     (\<exists>n e1 m. d \<le> of_int (cl_now (by_clock k) e1) \<and> er = Plain m \<and> e' = snd (catchE (cancel_build k n) (\<lambda>_. ret ()) e1))"

lemma wait_failed_error: "wait_failed k d er e' \<Longrightarrow> er \<noteq> OutOfFuel \<and> \<not> is_not_found er"
  unfolding wait_failed_def using raisesD [OF get_build_errors] by fastforce

lemma wait_running_step:
  "wait_running k o1 (Finite d) (Suc fuel) b e =
    (if bd_state b = ''running'' then (Inr (), e)
     else if bd_state b \<in> set FINISHED_STATES
     then (Inl (Plain (''Buildkite build '' @ bd_web_url b @ '' '' @ bd_state b @ '' before its runner started'')), e)
     else if d \<le> of_int (cl_now (by_clock k) e)
     then (Inl (Plain (''Buildkite build '' @ bd_web_url b @ '' did not start within ''
               @ by_show k (bo_ready_timeout_ms o1) @ ''ms'')),
           snd (catchE (cancel_build k (bd_number b)) (\<lambda>_. ret ()) e))
     else (case get_build k (bd_number b) (cl_sleep (by_clock k) 2000 e) of
             (Inl er, e') \<Rightarrow> (Inl er, e')
           | (Inr None, e') \<Rightarrow> (Inl (Plain (''Buildkite build '' @ bd_web_url b @ '' disappeared'')), e')
           | (Inr (Some current), e') \<Rightarrow> wait_running k o1 (Finite d) fuel current e'))"
  by (simp add: js_int_def)

lemma wait_running_wp:
  assumes "buildkite_time k"
  shows "d \<le> of_int (cl_now (by_clock k) e + 2000 * int fuel) \<Longrightarrow>
    wp (wait_running k o1 (Finite d) (Suc fuel) b) (\<lambda>_ e'. found_running k b e e') (wait_failed k d) e"
proof (induction fuel arbitrary: b e)
  case 0
  have late: "d \<le> of_int (cl_now (by_clock k) e)" using 0 by simp
  then show ?case
    unfolding wp_def wait_running_step by (auto simp: found_running_def wait_failed_def)
next
  case (Suc fuel)
  let ?e1 = "cl_sleep (by_clock k) 2000 e"
  obtain r e' where g: "get_build k (bd_number b) ?e1 = (r, e')" by (rule prod.exhaust)
  have "cl_now (by_clock k) e + 2000 \<le> cl_now (by_clock k) ?e1"
    using assms by (simp add: buildkite_time_def clock_runs_def)
  also have "\<dots> \<le> cl_now (by_clock k) e'" using get_build_time [OF assms, of ?e1 "bd_number b"] g by simp
  finally have "d \<le> of_int (cl_now (by_clock k) e' + 2000 * int fuel)"
    using Suc.prems by (smt (verit) of_int_le_iff of_nat_Suc order_trans)
  note ih = Suc.IH [OF this]
  consider (given) "\<not> still_waiting b \<or> d \<le> of_int (cl_now (by_clock k) e)"
    | (failed) er where "still_waiting b" "\<not> d \<le> of_int (cl_now (by_clock k) e)" "r = Inl er"
    | (gone) "still_waiting b" "\<not> d \<le> of_int (cl_now (by_clock k) e)" "r = Inr None"
    | (again) c where "still_waiting b" "\<not> d \<le> of_int (cl_now (by_clock k) e)" "r = Inr (Some c)"
    by (metis option.exhaust sum.exhaust)
  then show ?case
  proof cases
    case given
    then show ?thesis unfolding wp_def wait_running_step still_waiting_def found_running_def wait_failed_def by auto
  next
    case failed
    then show ?thesis using g unfolding wp_def wait_running_step [of _ _ _ "Suc fuel"] still_waiting_def wait_failed_def by auto
  next
    case gone
    then show ?thesis using g unfolding wp_def wait_running_step [of _ _ _ "Suc fuel"] still_waiting_def wait_failed_def by auto
  next
    case again
    then have eq: "wait_running k o1 (Finite d) (Suc (Suc fuel)) b e = wait_running k o1 (Finite d) (Suc fuel) c e'"
      using g unfolding wait_running_step [of _ _ _ "Suc fuel"] still_waiting_def by simp
    have "found_running k c e' t \<Longrightarrow> found_running k b e t" for t
      using g again unfolding found_running_def by blast
    then show ?thesis using ih [of c] unfolding wp_def eq by (auto split: prod.splits sum.splits)
  qed
qed

lemma wait_for_running_wp:
  assumes "buildkite_time k" and "bo_ready_timeout_ms o1 = Finite q"
  shows "wp (wait_for_running k o1 b) (\<lambda>_ e'. found_running k b e e')
    (wait_failed k (of_int (cl_now (by_clock k) e) + q)) e"
proof -
  have t: "turns 2000 (bo_ready_timeout_ms o1) = Suc (turns 2000 (Finite q) - 1)" by (simp add: turns_def assms(2))
  have "of_int (cl_now (by_clock k) e) + q \<le> of_int (cl_now (by_clock k) e + 2000 * int (turns 2000 (Finite q) - 1))"
    using turns_enough [of 2000 q] by simp
  from wait_running_wp [OF assms(1) this] show ?thesis
    unfolding wait_for_running_def wp_def by (subst t) (simp add: assms(2) js_int_def del: wait_running.simps)
qed

end
