(* ===== verification/Backends.thy ===== *)
theory Backends
  imports Kas_Backend Docker_Backend Buildkite_Backend Profile_Registry Checkpoints
begin

text \<open>
  \<open>createBackend\<close> of \<open>sandbox/manager/profile-registry.ts\<close>, and what the lifecycle relies on in every
  backend: it ends, and it says that a sandbox is gone only when its service did. The services are
  parameters; loading a kubeconfig may fail.
\<close>

record 'e services =
  sv_docker :: "string option \<Rightarrow> 'e docker"
  sv_kube :: "string option \<Rightarrow> error + 'e kube"
  sv_buildkite :: "buildkite_profile \<Rightarrow> 'e buildkite"

text \<open>A backend that keeps no timers, over the state of one that does.\<close>

definition without_timers :: "'e backend \<Rightarrow> (expiry_timers \<times> 'e) backend" where
  "without_timers b =
    \<lparr>b_name = b_name b, b_capabilities = b_capabilities b, b_provision = \<lambda>spec. on_env (b_provision b spec),
     b_hibernate = \<lambda>r. on_env (b_hibernate b r), b_wake = \<lambda>r. on_env (b_wake b r),
     b_destroy = \<lambda>r. on_env (b_destroy b r), b_expire_at = \<lambda>r t. on_env (b_expire_at b r t),
     b_health = \<lambda>r. on_env (b_health b r)\<rparr>"

definition create_docker :: "'e services \<Rightarrow> string \<Rightarrow> docker_profile \<Rightarrow> (expiry_timers \<times> 'e) backend" where
  "create_docker sv token p = docker_backend (sv_docker sv (dk_binary p))
     \<lparr>do_image = dk_image p, do_control_plane_url = dk_control_plane_url p, do_registration_token = token\<rparr>"

definition create_buildkite :: "'e services \<Rightarrow> string \<Rightarrow> buildkite_profile \<Rightarrow> 'e backend" where
  "create_buildkite sv token p = buildkite_backend (sv_buildkite sv p)
     \<lparr>bo_pipeline = bk_pipeline p, bo_image = bk_image p, bo_control_plane_url = bk_control_plane_url p,
      bo_ready_timeout_ms = bk_ready_timeout_ms p, bo_registration_token = token, bo_secret_key = bk_secret_key p\<rparr>"

definition create_kas :: "'e services \<Rightarrow> string \<Rightarrow> kas_profile \<Rightarrow> error + 'e backend" where
  "create_kas sv token p = map_sum id (\<lambda>k. kas_backend k
     \<lparr>ko_namespace = ks_namespace p, ko_warm_pool = ks_warm_pool p,
      ko_ready_timeout_ms = Some (ks_ready_timeout_ms p), ko_registration_token = token\<rparr>) (sv_kube sv (ks_kubeconfig p))"

definition create_backend :: "'e services \<Rightarrow> string \<Rightarrow> sandbox_profile \<Rightarrow> error + (expiry_timers \<times> 'e) backend" where
  "create_backend sv token profile =
    (case profile of
       DockerP p \<Rightarrow> Inr (create_docker sv token p)
     | BuildkiteP p \<Rightarrow> Inr (without_timers (create_buildkite sv token p))
     | KasP p \<Rightarrow> map_sum id without_timers (create_kas sv token p))"

section \<open>The methods of a backend\<close>

definition backend_calls :: "'e backend \<Rightarrow> ('e, unit) comp set" where
  "backend_calls b =
     {thenE (b_provision b spec) (ret ()) | spec. True} \<union> {b_hibernate b r | r. True} \<union>
     {thenE (b_wake b r) (ret ()) | r. True} \<union> {b_destroy b r | r. True} \<union>
     {b_expire_at b r t | r t. True} \<union> {thenE (b_health b r) (ret ()) | r. True}"

text \<open>The service said so: a 404 on the claim or the sandbox, no such container, no such build or a
  finished one; as the last thing before the backend threw.\<close>

definition kube_gone :: "'e kube \<Rightarrow> string \<Rightarrow> 'e \<Rightarrow> bool" where
  "kube_gone k ns e' \<longleftrightarrow> (\<exists>n e text.
     kb_get_claim k ns n e = (Inl (Status 404 text), e') \<or>
     (\<exists>p. kb_patch_claim k ns n p e = (Inl (Status 404 text), e')) \<or>
     kb_get_sandbox k ns n e = (Inl (Status 404 text), e') \<or>
     (\<exists>m. kb_patch_sandbox k ns n m e = (Inl (Status 404 text), e')))"

definition docker_gone :: "'e docker \<Rightarrow> 'e \<Rightarrow> bool" where
  "docker_gone d e' \<longleftrightarrow> (\<exists>args e er. dc_command d args e = (Inl er, e') \<and> contains ''No such container'' (error_text (thrown er)))"

definition buildkite_gone :: "'e buildkite \<Rightarrow> 'e \<Rightarrow> bool" where
  "buildkite_gone k e' \<longleftrightarrow> (\<exists>n e text. by_get_build k n e = (Inl (Status 404 text), e')) \<or>
     (\<exists>n e b. by_get_build k n e = (Inr b, e') \<and> bd_state b \<in> set FINISHED_STATES)"

definition reported_gone :: "'e services \<Rightarrow> sandbox_profile \<Rightarrow> 'e \<Rightarrow> bool" where
  "reported_gone sv profile e' =
    (case profile of
       DockerP p \<Rightarrow> docker_gone (sv_docker sv (dk_binary p)) e'
     | KasP p \<Rightarrow> (\<exists>k. sv_kube sv (ks_kubeconfig p) = Inr k \<and> kube_gone k (ks_namespace p) e')
     | BuildkiteP p \<Rightarrow> buildkite_gone (sv_buildkite sv p) e')"

section \<open>Who says that a sandbox is gone\<close>

definition says_gone :: "('e \<Rightarrow> bool) \<Rightarrow> error \<Rightarrow> 'e \<Rightarrow> bool" where
  "says_gone P er e' \<longleftrightarrow> (is_not_found er \<longrightarrow> P e')"

definition on_404 :: "('e \<Rightarrow> bool) \<Rightarrow> error \<Rightarrow> 'e \<Rightarrow> bool" where
  "on_404 P er e' \<longleftrightarrow> \<not> is_not_found er \<and> (is_status 404 er \<longrightarrow> P e')"

lemma fails_quiet: "fails (\<lambda>er _. \<not> is_not_found er) m \<Longrightarrow> fails (says_gone P) m"
  by (erule fails_mono) (simp add: says_gone_def)

lemma fails_gone_on_404: "fails (on_404 P) m \<Longrightarrow> fails (says_gone P) (gone_on_404 msg m)"
  unfolding gone_on_404_def
  by (erule fails_catchE) (auto simp: on_404_def says_gone_def wp_simps)

text \<open>Rethrowing an error, unless its status is one that means success.\<close>

lemma fails_unless: "fails F m \<Longrightarrow> fails F (catchE m (\<lambda>er. if \<not> c er then throw er else ret a))"
  by (erule fails_catchE) (simp add: wp_simps)

lemma kas_reference_quiet: "kas_reference r = Inl er \<Longrightarrow> \<not> is_not_found er"
  by (auto simp: kas_reference_def split: option.splits json.splits)

lemma kube_goneI:
  "kb_get_claim k ns n e = (Inl (Status 404 text), e') \<Longrightarrow> kube_gone k ns e'"
  "kb_patch_claim k ns n p e = (Inl (Status 404 text), e') \<Longrightarrow> kube_gone k ns e'"
  "kb_get_sandbox k ns n e = (Inl (Status 404 text), e') \<Longrightarrow> kube_gone k ns e'"
  "kb_patch_sandbox k ns n mode e = (Inl (Status 404 text), e') \<Longrightarrow> kube_gone k ns e'"
  unfolding kube_gone_def by blast+

lemma kas_token_quiet: "fails (\<lambda>er _. \<not> is_not_found er) (kas_store_token k o1)"
  unfolding kas_store_token_def by (rule fails_catchE [OF fails_any [where F = "\<lambda>_ _. True"]]) (auto simp: wp_simps)

lemma sandbox_wait_404: "fails (on_404 (kube_gone k (ko_namespace o1))) (wait_for_sandbox_condition k o1 n c)"
  unfolding wait_for_sandbox_condition_def
  by (intro fails_rules) (auto simp: on_404_def intro: kube_goneI)

lemma kas_says_gone:
  assumes "m \<in> backend_calls (kas_backend k o1)"
  shows "fails (says_gone (kube_gone k (ko_namespace o1))) m"
proof -
  let ?F = "says_gone (kube_gone k (ko_namespace o1))"
  note quiet = fails_quiet [OF kas_token_quiet]
  have wait: "fails ?F (wait_for_sandbox_condition k o1 n c)" for n c
    by (rule fails_mono [OF sandbox_wait_404]) (simp add: on_404_def says_gone_def)
  have "fails ?F (kas_provision k o1 spec)" for spec
    unfolding kas_provision_def wait_for_claim_def
    by (intro fails_rules quiet wait fails_unless) (auto simp: says_gone_def)
  moreover have "fails ?F (kas_hibernate k o1 r)" for r
    unfolding kas_hibernate_def
    by (intro fails_rules quiet fails_gone_on_404 sandbox_wait_404)
      (auto simp: on_404_def says_gone_def intro: kube_goneI dest: kas_reference_quiet)
  moreover have "fails ?F (kas_wake k o1 r)" for r
    unfolding kas_wake_def clear_expiry_def
    by (intro fails_rules quiet fails_gone_on_404 sandbox_wait_404)
      (auto simp: on_404_def says_gone_def intro: kube_goneI dest: kas_reference_quiet)
  moreover have "fails ?F (kas_destroy k o1 r)" for r
    unfolding kas_destroy_def by (intro fails_rules quiet fails_unless) (auto simp: says_gone_def dest: kas_reference_quiet)
  moreover have "fails ?F (kas_expire_at k o1 r t)" for r t
    unfolding kas_expire_at_def
    by (intro fails_rules quiet fails_gone_on_404) (auto simp: on_404_def says_gone_def to_iso_string_def intro: kube_goneI dest: kas_reference_quiet split: if_splits)
  moreover have "fails ?F (kas_health k o1 r)" for r
    unfolding kas_health_def
    by (intro fails_rules quiet fails_catchE [where G = "\<lambda>er _. \<not> is_not_found er"])
      (auto simp: says_gone_def wp_simps dest: kas_reference_quiet)
  ultimately show ?thesis
    using assms by (auto simp: backend_calls_def kas_backend_def intro!: fails_thenE fails_ret)
qed

section \<open>Docker\<close>

lemma docker_reference_quiet: "docker_reference r = Inl er \<Longrightarrow> \<not> is_not_found er"
  by (auto simp: docker_reference_def split: option.splits json.splits)

definition missing_is :: "('e \<Rightarrow> bool) \<Rightarrow> error \<Rightarrow> expiry_timers \<times> 'e \<Rightarrow> bool" where
  "missing_is P er s \<longleftrightarrow> \<not> is_not_found er \<and> (contains ''No such container'' (error_text er) \<longrightarrow> P (snd s))"

lemma dcommand_missing: "fails (missing_is (docker_gone d)) (dcommand d args)"
  by (auto simp: fails_def wp_simps missing_is_def docker_gone_def intro!: wp_api)

lemma fails_gone_when_missing: "fails (missing_is P) m \<Longrightarrow> fails (says_gone (\<lambda>s. P (snd s))) (gone_when_missing c m)"
  unfolding gone_when_missing_def
  by (erule fails_catchE) (auto simp: missing_is_def says_gone_def wp_simps is_missing_container_def)

lemma docker_says_gone:
  assumes "m \<in> backend_calls (docker_backend d o1)"
  shows "fails (says_gone (\<lambda>s. docker_gone d (snd s))) m"
proof -
  let ?F = "says_gone (\<lambda>s. docker_gone d (snd s))"
  have command: "fails ?F (dcommand d args)" for args
    by (rule fails_mono [OF dcommand_missing]) (auto simp: missing_is_def says_gone_def)
  have quiet_command: "fails (\<lambda>er _. \<not> is_not_found er) (dcommand d args)" for args
    by (rule fails_mono [OF dcommand_missing]) (simp add: missing_is_def)
  have clear: "fails ?F (clear_timer c)" for c by (simp add: fails_def wp_simps)
  have "fails ?F (docker_provision d o1 spec)" for spec
  proof -
    have recover: "fails (\<lambda>er _. \<not> is_not_found er) (catchE (docker_recover d s n) (\<lambda>_. throw (Plain w)))" for s n w
      by (rule fails_catchE [OF fails_any [where F = "\<lambda>_ _. True"]]) (auto simp: wp_simps)
    have "fails (\<lambda>er _. \<not> is_not_found er) (docker_provision d o1 spec)"
      unfolding docker_provision_def
      by (intro fails_rules fails_catchE [where G = "\<lambda>er _. \<not> is_not_found er"] quiet_command fails_wp recover)
    then show ?thesis by (rule fails_quiet)
  qed
  moreover have "fails ?F (docker_hibernate d r)" for r
    unfolding docker_hibernate_def by (intro fails_rules fails_gone_when_missing dcommand_missing) (auto simp: says_gone_def dest: docker_reference_quiet)
  moreover have "fails ?F (docker_wake d r)" for r
    unfolding docker_wake_def by (intro fails_rules clear fails_gone_when_missing dcommand_missing) (auto simp: says_gone_def dest: docker_reference_quiet)
  moreover have "fails ?F (docker_destroy d r)" for r
    unfolding docker_destroy_def destroy_container_def
    by (intro fails_rules clear fails_unless command) (auto simp: says_gone_def dest: docker_reference_quiet)
  moreover have "fails ?F (docker_expire_at d r t)" for r t
    unfolding docker_expire_at_def by (intro fails_rules) (auto simp: fails_def wp_simps says_gone_def dest: docker_reference_quiet)
  moreover have "fails ?F (docker_health d r)" for r
    unfolding docker_health_def
    by (intro fails_rules fails_catchE [where G = "\<lambda>er _. \<not> is_not_found er"] quiet_command)
      (auto simp: says_gone_def wp_simps dest: docker_reference_quiet)
  ultimately show ?thesis
    using assms by (auto simp: backend_calls_def docker_backend_def intro!: fails_thenE fails_ret)
qed

section \<open>Buildkite\<close>

lemma buildkite_reference_quiet: "buildkite_reference r = Inl er \<Longrightarrow> \<not> is_not_found er \<and> er \<noteq> OutOfFuel"
  by (auto simp: buildkite_reference_def split: option.splits json.splits)

lemma get_build_wp:
  "wp (get_build k n)
     (\<lambda>r e'. case r of None \<Rightarrow> \<exists>e text. by_get_build k n e = (Inl (Status 404 text), e')
        | Some b \<Rightarrow> \<exists>e. by_get_build k n e = (Inr b, e'))
     (\<lambda>er _. \<not> is_not_found er) e"
proof -
  obtain r e' where g: "by_get_build k n e = (r, e')" by (rule prod.exhaust)
  show ?thesis
  proof (cases r)
    case (Inl er)
    with g show ?thesis
      by (cases er) (auto simp: wp_def get_build_def catchE_def bindE_def api_def ret_def throw_def)
  next
    case (Inr b)
    with g show ?thesis
      by (auto simp: wp_def get_build_def catchE_def bindE_def api_def ret_def)
  qed
qed

lemma wait_running_quiet: "wait_running k o1 d fuel b e = (Inl er, t) \<Longrightarrow> \<not> is_not_found er"
proof (induction fuel arbitrary: b e)
  case (Suc fuel)
  obtain r e' where g: "get_build k (bd_number b) (cl_sleep (by_clock k) 2000 e) = (r, e')" by (rule prod.exhaust)
  consider x where "r = Inl x" | "r = Inr None" | c where "r = Inr (Some c)" by (metis option.exhaust sum.exhaust)
  then show ?case
  proof cases
    case 1
    have "\<not> is_not_found x" using raisesD [OF get_build_errors g [unfolded 1]] by simp
    with Suc.prems g 1 show ?thesis by (auto split: if_splits)
  next
    case 2
    with Suc.prems g show ?thesis by (auto split: if_splits)
  next
    case 3
    with Suc.prems g Suc.IH [of c e'] show ?thesis by (auto split: if_splits)
  qed
qed simp

lemma wait_for_running_quiet: "fails (\<lambda>er _. \<not> is_not_found er) (wait_for_running k o1 b)"
proof -
  have "wait_for_running k o1 b e = (Inl er, t) \<Longrightarrow> \<not> is_not_found er" for e er t
    unfolding wait_for_running_def by (rule wait_running_quiet)
  then show ?thesis unfolding fails_def wp_def by (auto split: prod.split sum.split)
qed

lemma find_secret_quiet: "fails (\<lambda>er _. \<not> is_not_found er) (find_secret k c key page fuel)"
proof (induction fuel arbitrary: page)
  case (Suc fuel)
  have "fails (\<lambda>er _. \<not> is_not_found er) (api (by_secrets k c page))" by (intro fails_rules) simp
  from failsD [OF this] failsD [OF Suc] show ?case
    unfolding fails_def wp_def by (auto split: prod.split sum.split option.split)
qed (simp add: fails_def wp_def)

lemma buildkite_token_quiet: "fails (\<lambda>er _. \<not> is_not_found er) (buildkite_write_token k o1)"
  unfolding buildkite_write_token_def by (intro fails_rules find_secret_quiet) auto

lemma cancel_build_quiet: "fails (\<lambda>er _. \<not> is_not_found er) (cancel_build k n)"
  unfolding cancel_build_def
  by (rule fails_catchE [where G = "\<lambda>er _. \<not> is_not_found er"]) (auto intro!: fails_rules simp: wp_simps)

lemma buildkite_name_fails: "fails F (buildkite_sandbox_name k s)"
  by (simp add: fails_def wp_def buildkite_sandbox_name_def split: prod.split)

lemma fails_pair: "(\<And>a b. fails F (f a b)) \<Longrightarrow> fails F (case x of (a, b) \<Rightarrow> f a b)"
  by (cases x) simp

lemma buildkite_says_gone:
  assumes "m \<in> backend_calls (buildkite_backend k o1)"
  shows "fails (says_gone (buildkite_gone k)) m"
proof -
  let ?F = "says_gone (buildkite_gone k)"
  note quiet = fails_quiet [OF buildkite_token_quiet] fails_quiet [OF wait_for_running_quiet] fails_quiet [OF cancel_build_quiet]
  have get: "fails ?F (get_build k n)" for n
    by (rule fails_quiet) (use raisesD [OF get_build_errors] in \<open>fastforce simp: fails_def wp_def split: prod.split sum.split\<close>)
  have "fails ?F (buildkite_provision k o1 spec)" for spec
    unfolding buildkite_provision_def find_live_build_def
    by (intro fails_rules quiet buildkite_name_fails fails_pair) (auto simp: says_gone_def intro!: fails_rules quiet buildkite_name_fails)
  moreover have "fails ?F (buildkite_wake k o1 r)" for r
  proof -
    have wake: "fails ?F (bindE (get_build k n) (\<lambda>found. case found of
          None \<Rightarrow> throw (SandboxNotFound w)
        | Some b \<Rightarrow> if bd_state b \<in> set FINISHED_STATES then throw (SandboxNotFound (w' b))
            else thenE (wait_for_running k o1 b) (ret h)))" for n w w' h
      unfolding fails_def wp_bindE
      by (intro allI wp_mono [OF get_build_wp])
        (auto simp: wp_simps says_gone_def buildkite_gone_def split: option.splits intro!: wp_mono [OF fails_wp [OF wait_for_running_quiet]])
    show ?thesis
      unfolding buildkite_wake_def
      by (rule fails_bindE, rule fails_liftE) (auto simp: says_gone_def dest: buildkite_reference_quiet intro!: wake)
  qed
  moreover have "fails ?F (buildkite_destroy k r)" for r
    unfolding buildkite_destroy_def by (intro fails_rules quiet) (auto simp: says_gone_def dest: buildkite_reference_quiet)
  moreover have "fails ?F (buildkite_health k r)" for r
    unfolding buildkite_health_def by (intro fails_rules get) (auto simp: says_gone_def dest: buildkite_reference_quiet)
  moreover have "fails ?F (buildkite_hibernate r)" "fails ?F (buildkite_expire_at r t)" for r t
    by (auto simp: buildkite_hibernate_def buildkite_expire_at_def fails_def wp_simps says_gone_def)
  ultimately show ?thesis
    using assms by (auto simp: backend_calls_def buildkite_backend_def intro!: fails_thenE fails_ret)
qed

section \<open>Every backend\<close>

lemma on_env_thenE: "thenE (on_env m) (ret ()) = on_env (thenE m (ret ()))"
  by (auto simp: on_env_def thenE_def bindE_def ret_def fun_eq_iff split: prod.split sum.split)

lemma backend_calls_without_timers:
  "m \<in> backend_calls (without_timers b) \<Longrightarrow> \<exists>n \<in> backend_calls b. m = on_env n"
  unfolding backend_calls_def without_timers_def by (auto simp: on_env_thenE)

lemma fails_on_env: "fails F m \<Longrightarrow> fails (\<lambda>er s. F er (snd s)) (on_env m)"
  by (auto simp: fails_def wp_def on_env_def split: prod.splits sum.splits)

section \<open>Every wait ends\<close>

text \<open>\<open>services_run\<close>: clocks do not run backwards while a service answers, and Buildkite's list of secrets ends.\<close>

definition kube_runs :: "'e kube \<Rightarrow> bool" where
  "kube_runs k \<longleftrightarrow> clock_runs (kb_clock k) \<and>
     (\<forall>ns n e. cl_now (kb_clock k) e \<le> cl_now (kb_clock k) (snd (kb_get_claim k ns n e)) \<and>
        cl_now (kb_clock k) e \<le> cl_now (kb_clock k) (snd (kb_get_sandbox k ns n e)))"

definition buildkite_runs :: "'e buildkite \<Rightarrow> bool" where
  "buildkite_runs k \<longleftrightarrow> buildkite_time k \<and>
     (\<forall>c page e secrets e'. by_secrets k c page e = (Inr secrets, e') \<and> secret_pages \<le> page \<longrightarrow> length secrets < 100)"

definition services_run :: "'e services \<Rightarrow> bool" where
  "services_run sv \<longleftrightarrow> (\<forall>c k. sv_kube sv c = Inr k \<longrightarrow> kube_runs k) \<and> (\<forall>p. buildkite_runs (sv_buildkite sv p))"

definition finite_wait :: "sandbox_profile \<Rightarrow> bool" where
  "finite_wait p = (case p of DockerP _ \<Rightarrow> True | BuildkiteP b \<Rightarrow> is_finite (bk_ready_timeout_ms b) | KasP k \<Rightarrow> is_finite (ks_ready_timeout_ms k))"

abbreviation ends :: "('s, 'a) comp \<Rightarrow> bool" where
  "ends \<equiv> fails (\<lambda>er _. er \<noteq> OutOfFuel)"

lemma fails_raises: "raises P m \<Longrightarrow> fails (\<lambda>er _. P er) m"
  unfolding fails_def wp_def by (auto dest: raisesD split: prod.split sum.split)

lemma raises_fails: "fails (\<lambda>er _. P er) m \<Longrightarrow> raises P m"
  unfolding raises_def by (auto dest: failsD)

lemma ends_unless: "ends m \<Longrightarrow> ends (catchE m (\<lambda>er. if c er then throw er else ret a))"
  by (erule fails_catchE) (simp add: wp_simps)

lemma ends_gone: "ends m \<Longrightarrow> ends (gone_on_404 w m)"
  unfolding gone_on_404_def by (erule fails_catchE) (simp add: wp_simps)

lemma ends_missing: "ends m \<Longrightarrow> ends (gone_when_missing w m)"
  unfolding gone_when_missing_def by (erule fails_catchE) (simp add: wp_simps)

lemma ends_dcommand: "ends (dcommand d args)"
  by (auto simp: fails_def wp_simps intro!: wp_api)

lemma references_end: "kas_reference r = Inl er \<Longrightarrow> er \<noteq> OutOfFuel" "docker_reference r = Inl er \<Longrightarrow> er \<noteq> OutOfFuel"
  by (auto simp: kas_reference_def docker_reference_def split: option.splits json.splits)

lemma kas_ends:
  assumes "kube_runs k" and "is_finite (ready_timeout o1)" and "m \<in> backend_calls (kas_backend k o1)"
  shows "ends m"
proof -
  have waits: "ends (poll (kb_clock k) (bindE (api q) (\<lambda>x. ret (if c x then Some x else None))) (ready_timeout o1) w)"
    if "\<And>e. cl_now (kb_clock k) e \<le> cl_now (kb_clock k) (snd (q e))" for q w and c :: "'b \<Rightarrow> bool"
    by (intro fails_raises poll_ends keeps_time_bindE keeps_time_rules that assms(2))
      (use assms(1) in \<open>auto simp: kube_runs_def intro!: raises_fails fails_rules\<close>)
  have claim: "ends (wait_for_claim k o1 n)" and sandbox: "ends (wait_for_sandbox_condition k o1 n c)" for n c
    unfolding wait_for_claim_def wait_for_sandbox_condition_def
    using assms(1) by (auto simp: kube_runs_def intro!: waits)
  have token: "ends (kas_store_token k o1)"
    unfolding kas_store_token_def by (rule fails_catchE [OF fails_any [where F = "\<lambda>_ _. True"]]) (auto simp: wp_simps)
  have "ends (kas_provision k o1 spec)" for spec
    unfolding kas_provision_def by (intro fails_rules token claim sandbox ends_unless) auto
  moreover have "ends (kas_hibernate k o1 r)" for r
    unfolding kas_hibernate_def by (intro fails_rules ends_gone sandbox) (auto dest: references_end)
  moreover have "ends (kas_wake k o1 r)" for r
    unfolding kas_wake_def clear_expiry_def by (intro fails_rules token ends_gone sandbox) (auto dest: references_end)
  moreover have "ends (kas_destroy k o1 r)" for r
    unfolding kas_destroy_def by (intro fails_rules ends_unless) (auto dest: references_end)
  moreover have "ends (kas_expire_at k o1 r t)" for r t
    unfolding kas_expire_at_def
    by (intro fails_rules ends_gone) (auto simp: to_iso_string_def dest: references_end split: if_splits)
  moreover have "ends (kas_health k o1 r)" for r
    unfolding kas_health_def
    by (intro fails_rules fails_catchE [where G = "\<lambda>er _. er \<noteq> OutOfFuel"]) (auto simp: wp_simps dest: references_end)
  ultimately show ?thesis
    using assms(3) by (auto simp: backend_calls_def kas_backend_def intro!: fails_thenE fails_ret)
qed

lemma docker_ends:
  assumes "m \<in> backend_calls (docker_backend d o1)"
  shows "ends m"
proof -
  have clear: "ends (clear_timer c)" for c by (simp add: fails_def wp_simps)
  have recover: "ends (catchE (docker_recover d s n) (\<lambda>_. throw (Plain w)))" for s n w
    by (rule fails_catchE [OF fails_any [where F = "\<lambda>_ _. True"]]) (auto simp: wp_simps)
  have "ends (docker_provision d o1 spec)" for spec
    unfolding docker_provision_def
    by (intro fails_rules fails_catchE [where G = "\<lambda>er _. er \<noteq> OutOfFuel"] ends_dcommand fails_wp recover)
  moreover have "ends (docker_hibernate d r)" for r
    unfolding docker_hibernate_def by (intro fails_rules ends_missing ends_dcommand) (auto dest: references_end)
  moreover have "ends (docker_wake d r)" for r
    unfolding docker_wake_def by (intro fails_rules clear ends_missing ends_dcommand) (auto dest: references_end)
  moreover have "ends (docker_destroy d r)" for r
    unfolding docker_destroy_def destroy_container_def
    by (intro fails_rules clear ends_unless ends_dcommand) (auto dest: references_end)
  moreover have "ends (docker_expire_at d r t)" for r t
    unfolding docker_expire_at_def by (intro fails_rules) (auto simp: fails_def wp_simps dest: references_end)
  moreover have "ends (docker_health d r)" for r
    unfolding docker_health_def
    by (intro fails_rules fails_catchE [where G = "\<lambda>er _. er \<noteq> OutOfFuel"] ends_dcommand) (auto simp: wp_simps dest: references_end)
  ultimately show ?thesis
    using assms by (auto simp: backend_calls_def docker_backend_def intro!: fails_thenE fails_ret)
qed

lemma find_secret_ends:
  assumes "\<And>page e secrets e'. by_secrets k c page e = (Inr secrets, e') \<Longrightarrow> secret_pages \<le> page \<Longrightarrow> length secrets < 100"
  shows "secret_pages < page + fuel \<Longrightarrow> 0 < fuel \<Longrightarrow> ends (find_secret k c key page fuel)"
proof (induction fuel arbitrary: page)
  case (Suc fuel)
  have next_page: "find_secret k c key page (Suc fuel) e \<noteq> (Inl OutOfFuel, t)" for e t
  proof -
    obtain r e' where s: "by_secrets k c page e = (r, e')" by (rule prod.exhaust)
    show ?thesis
    proof (cases r)
      case (Inl er)
      then show ?thesis using s by (simp add: api_def)
    next
      case (Inr secrets)
      have "length secrets < 100 \<or> 0 < fuel \<and> secret_pages < Suc page + fuel"
        using assms [OF s [unfolded Inr]] Suc.prems by (cases fuel) auto
      then show ?thesis
        using s Inr failsD [OF Suc.IH [of "Suc page"]] by (auto simp: api_def split: option.split)
    qed
  qed
  then show ?case unfolding fails_def wp_def by (auto split: prod.split sum.split simp del: find_secret.simps)
qed simp

lemma buildkite_ends:
  assumes "buildkite_runs k" and "is_finite (bo_ready_timeout_ms o1)" and "m \<in> backend_calls (buildkite_backend k o1)"
  shows "ends m"
proof -
  from assms(2) obtain q where q: "bo_ready_timeout_ms o1 = Finite q" by (cases "bo_ready_timeout_ms o1") auto
  have secret: "ends (find_secret k c key 1 secret_pages)" for c key
    by (rule find_secret_ends) (use assms(1) in \<open>unfold buildkite_runs_def, blast, simp_all add: secret_pages_def\<close>)
  have token: "ends (buildkite_write_token k o1)"
    unfolding buildkite_write_token_def by (intro fails_rules secret) auto
  have wait: "ends (wait_for_running k o1 b)" for b
    unfolding fails_def
    by (intro allI wp_mono [OF wait_for_running_wp [OF _ q]])
      (use assms(1) in \<open>auto simp: buildkite_runs_def dest: wait_failed_error\<close>)
  have get: "ends (get_build k n)" for n
    by (rule fails_mono [OF fails_raises [OF get_build_errors]]) simp
  have cancel: "ends (cancel_build k n)" for n
    unfolding cancel_build_def by (rule fails_catchE [where G = "\<lambda>er _. er \<noteq> OutOfFuel"]) (auto intro!: fails_rules simp: wp_simps)
  have "ends (buildkite_provision k o1 spec)" for spec
    unfolding buildkite_provision_def find_live_build_def
    by (intro fails_rules token wait buildkite_name_fails fails_pair) (auto intro!: fails_rules token wait buildkite_name_fails)
  moreover have "ends (buildkite_wake k o1 r)" for r
    unfolding buildkite_wake_def by (intro fails_rules get wait) (auto dest: buildkite_reference_quiet)
  moreover have "ends (buildkite_destroy k r)" for r
    unfolding buildkite_destroy_def by (intro fails_rules cancel) (auto dest: buildkite_reference_quiet)
  moreover have "ends (buildkite_health k r)" for r
    unfolding buildkite_health_def by (intro fails_rules get) (auto dest: buildkite_reference_quiet)
  moreover have "ends (buildkite_hibernate r)" "ends (buildkite_expire_at r t)" for r t
    by (auto simp: buildkite_hibernate_def buildkite_expire_at_def fails_def wp_simps)
  ultimately show ?thesis
    using assms(3) by (auto simp: backend_calls_def buildkite_backend_def intro!: fails_thenE fails_ret)
qed

section \<open>What holds of every backend\<close>

lemma create_backend_cases:
  assumes "create_backend sv token p = Inr b" and "m \<in> backend_calls b"
  obtains (docker) d o1 where "p = DockerP d" "m \<in> backend_calls (docker_backend (sv_docker sv (dk_binary d)) o1)"
  | (kas) c k o1 n where "p = KasP c" "sv_kube sv (ks_kubeconfig c) = Inr k" "m = on_env n"
      "n \<in> backend_calls (kas_backend k o1)" "ko_namespace o1 = ks_namespace c" "ready_timeout o1 = ks_ready_timeout_ms c"
  | (buildkite) c o1 n where "p = BuildkiteP c" "m = on_env n"
      "n \<in> backend_calls (buildkite_backend (sv_buildkite sv c) o1)" "bo_ready_timeout_ms o1 = bk_ready_timeout_ms c"
proof (cases p)
  case (DockerP d)
  with assms docker show ?thesis by (auto simp: create_backend_def create_docker_def)
next
  case (BuildkiteP c)
  then have "m \<in> backend_calls (without_timers (create_buildkite sv token c))"
    using assms by (simp add: create_backend_def)
  from backend_calls_without_timers [OF this] obtain n
    where "n \<in> backend_calls (create_buildkite sv token c)" "m = on_env n" by blast
  with BuildkiteP buildkite show ?thesis by (simp add: create_buildkite_def)
next
  case (KasP c)
  then obtain b' where b': "create_kas sv token c = Inr b'" "b = without_timers b'"
    using assms(1) by (cases "create_kas sv token c") (auto simp: create_backend_def)
  with backend_calls_without_timers assms(2) obtain n where "n \<in> backend_calls b'" "m = on_env n" by blast
  with KasP b' kas show ?thesis
    by (cases "sv_kube sv (ks_kubeconfig c)") (auto simp: create_kas_def ready_timeout_def)
qed

lemma create_backend_says_gone:
  assumes "create_backend sv token p = Inr b" and "m \<in> backend_calls b"
  shows "fails (says_gone (\<lambda>s. reported_gone sv p (snd s))) m"
  using assms
proof (cases rule: create_backend_cases)
  case (docker d o1)
  show ?thesis by (rule fails_mono [OF docker_says_gone [OF docker(2)]]) (simp add: docker(1) reported_gone_def)
next
  case (kas c k o1 n)
  from fails_on_env [OF kas_says_gone [OF kas(4)]] show ?thesis
    unfolding kas(3) by (rule fails_mono) (auto simp: kas says_gone_def reported_gone_def)
next
  case (buildkite c o1 n)
  from fails_on_env [OF buildkite_says_gone [OF buildkite(3)]] show ?thesis
    unfolding buildkite(2) by (rule fails_mono) (auto simp: buildkite says_gone_def reported_gone_def)
qed

lemma create_backend_ends:
  assumes "create_backend sv token p = Inr b" and "m \<in> backend_calls b" and "services_run sv" and "finite_wait p"
  shows "ends m"
  using assms(1,2)
proof (cases rule: create_backend_cases)
  case (docker d o1)
  from docker_ends [OF docker(2)] show ?thesis .
next
  case (kas c k o1 n)
  have "ends n"
    by (rule kas_ends [OF _ _ kas(4)]) (use assms(3,4) kas in \<open>auto simp: services_run_def finite_wait_def\<close>)
  from fails_on_env [OF this] show ?thesis by (simp add: kas(3))
next
  case (buildkite c o1 n)
  have "ends n"
    by (rule buildkite_ends [OF _ _ buildkite(3)]) (use assms(3,4) buildkite in \<open>auto simp: services_run_def finite_wait_def\<close>)
  from fails_on_env [OF this] show ?thesis by (simp add: buildkite(2))
qed

text \<open>C12: the lifecycle drops a sandbox from its records when a backend throws \<open>SandboxNotFoundError\<close>, so
  whichever backend a profile names and whichever of its methods is called, that error is thrown only
  when the last answer of the service was that the sandbox is gone: a 404 on the claim or the sandbox,
  Docker's \<open>No such container\<close>, or a build that is missing or finished. A refused secret, a timeout or
  any other failure is never reported so.\<close>

theorem backends_report_gone_soundly:
  assumes "create_backend sv token p = Inr b" and "m \<in> backend_calls b"
    and "m s = (Inl er, t)" and "is_not_found er"
  shows "reported_gone sv p (snd t)"
  using failsD [OF create_backend_says_gone [OF assms(1,2)] assms(3)] assms(4) by (simp add: says_gone_def)

text \<open>C13: while the clock runs, a profile's timeout is a finite number and Buildkite's list of secrets ends,
  every method of every backend comes back, with a result or an error: no wait for a claim, a sandbox or
  a build and no walk over secrets goes on for ever.\<close>

theorem backends_end:
  assumes "create_backend sv token p = Inr b" and "m \<in> backend_calls b" and "services_run sv" and "finite_wait p"
  shows "fst (m s) \<noteq> Inl OutOfFuel"
  using failsD [OF create_backend_ends [OF assms(1,2)], of s OutOfFuel "snd (m s)"] assms(3,4)
  by (metis prod.collapse)

section \<open>Names\<close>

definition hex_digest :: "string \<Rightarrow> bool" where
  "hex_digest s \<longleftrightarrow> length s = 64 \<and> list_all (\<lambda>c. c \<in> set ''0123456789abcdef'') s"

lemma hex_alphanumeric: "c \<in> set ''0123456789abcdef'' \<Longrightarrow> alphanumeric c"
  by (auto simp: alphanumeric_def is_digit_def is_lower_def)

lemma alphanumeric_label: "s \<noteq> '''' \<Longrightarrow> list_all alphanumeric s \<Longrightarrow> label_pattern s"
  by (auto simp: label_pattern_def list_all_iff)

text \<open>whatever the id of a session, the name of its claim is \<open>dsh-\<close> and twenty lower-case hexadecimal
  digits, so Kubernetes takes it as a name, and the label that names the session has at most 63
  characters and the form Kubernetes asks of a label value; an id that has that form is its own label.\<close>

lemma kas_names_valid:
  assumes "\<And>s. hex_digest (kb_sha256 k s)"
  shows "length (claim_name_for k session) = 24 \<and> take 4 (claim_name_for k session) = ''dsh-'' \<and>
    list_all (\<lambda>c. c \<in> set ''0123456789abcdef'') (drop 4 (claim_name_for k session)) \<and>
    length (safe_label k session) \<le> 63 \<and> label_pattern (safe_label k session) \<and>
    (length session \<le> 63 \<and> label_pattern session \<longrightarrow> safe_label k session = session)"
proof -
  have hex: "length (kb_sha256 k session) = 64" "list_all (\<lambda>c. c \<in> set ''0123456789abcdef'') (kb_sha256 k session)"
    using assms [of session] by (simp_all only: hex_digest_def)
  then have digits: "list_all (\<lambda>c. c \<in> set ''0123456789abcdef'') (take n (kb_sha256 k session))" for n
    unfolding list_all_iff by (meson in_set_takeD)
  then have "list_all alphanumeric (take 32 (kb_sha256 k session))"
    unfolding list_all_iff using hex_alphanumeric by blast
  then have "label_pattern (take 32 (kb_sha256 k session))"
    by (rule alphanumeric_label [rotated]) (use hex(1) in auto)
  then show ?thesis
    using hex(1) digits [of 20] by (simp add: claim_name_for_def safe_label_def)
qed

section \<open>Examples\<close>

text \<open>A cluster that answers every request with a 404, one second after the last.\<close>

definition lost_kube :: "int kube" where
  "lost_kube =
    \<lparr>kb_clock = \<lparr>cl_now = id, cl_sleep = \<lambda>ms e. e + max 0 ms\<rparr>, kb_sha256 = \<lambda>_. replicate 64 (CHR ''a''),
     kb_patch_secret = \<lambda>ns n v e. (Inr (), e + 1000), kb_create_secret = \<lambda>ns n v e. (Inr (), e + 1000),
     kb_create_claim = \<lambda>ns n l w e. (Inr (), e + 1000),
     kb_get_claim = \<lambda>ns n e. (Inl (Status 404 ''gone''), e + 1000),
     kb_patch_claim = \<lambda>ns n p e. (Inl (Status 404 ''gone''), e + 1000), kb_delete_claim = \<lambda>ns n e. (Inr (), e + 1000),
     kb_get_sandbox = \<lambda>ns n e. (Inl (Status 404 ''gone''), e + 1000),
     kb_patch_sandbox = \<lambda>ns n mode e. (Inl (Status 404 ''gone''), e + 1000)\<rparr>"

definition lost_buildkite :: "int buildkite" where
  "lost_buildkite =
    \<lparr>by_clock = \<lparr>cl_now = id, cl_sleep = \<lambda>ms e. e + max 0 ms\<rparr>, by_sha256 = \<lambda>_. replicate 64 (CHR ''a''),
     by_random = \<lambda>e. (''0a'', e), by_show = \<lambda>_. ''1'', by_live_builds = \<lambda>s e. (Inr [], e),
     by_create_build = \<lambda>b e. (Inl (Status 500 ''down''), e), by_get_build = \<lambda>n e. (Inl (Status 404 ''gone''), e),
     by_cancel = \<lambda>n e. (Inr (), e), by_pipeline = \<lambda>e. (Inl (Status 500 ''down''), e),
     by_secrets = \<lambda>c page e. (Inr [], e), by_create_secret = \<lambda>c s e. (Inr (), e), by_put_secret = \<lambda>c i v e. (Inr (), e)\<rparr>"

definition lost_services :: "int services" where
  "lost_services =
    \<lparr>sv_docker = \<lambda>_. \<lparr>dc_command = \<lambda>args e. (Inl (Failed ''No such container''), e), dc_now = id,
        dc_sha256 = \<lambda>_. replicate 64 (CHR ''a''), dc_parse = \<lambda>_. None\<rparr>,
     sv_kube = \<lambda>_. Inr lost_kube, sv_buildkite = \<lambda>_. lost_buildkite\<rparr>"

definition lost_profile :: sandbox_profile where
  "lost_profile = KasP \<lparr>ks_name = ''k'', ks_namespace = ''ns'', ks_warm_pool = ''pool'',
     ks_ready_timeout_ms = js_int 180000, ks_kubeconfig = None, ks_idle_ms = None\<rparr>"

definition lost_backend :: "(expiry_timers \<times> int) backend" where
  "lost_backend = (case create_backend lost_services ''t'' lost_profile of Inr b \<Rightarrow> b)"

definition lost_reference :: backend_reference where
  "lost_reference = [(''claimName'', JStr ''dsh-a''), (''sandboxId'', JStr ''sb'')]"

lemma lost_backend_created: "create_backend lost_services ''t'' lost_profile = Inr lost_backend"
  by (simp add: lost_backend_def create_backend_def create_kas_def lost_profile_def lost_services_def)

lemma lost_services_run: "services_run lost_services"
  by (simp add: services_run_def kube_runs_def buildkite_runs_def buildkite_time_def clock_runs_def lost_services_def
      lost_kube_def lost_buildkite_def)

lemma lost_hibernate:
  "b_hibernate lost_backend lost_reference ([], 0) = (Inl (SandboxNotFound ''Sandbox sb no longer exists''), ([], 1000))"
  by (simp add: lost_backend_def create_backend_def create_kas_def lost_profile_def lost_services_def without_timers_def
      kas_backend_def on_env_def kas_hibernate_def kas_reference_def lost_reference_def gone_on_404_def comp_defs api_def lost_kube_def)

lemma lost_call: "b_hibernate lost_backend lost_reference \<in> backend_calls lost_backend"
  unfolding backend_calls_def by blast

theorem backends_report_gone_soundly_witness: "reported_gone lost_services lost_profile 1000"
  using backends_report_gone_soundly [OF lost_backend_created lost_call lost_hibernate] by simp

theorem backends_end_witness: "fst (b_hibernate lost_backend lost_reference ([], 5)) \<noteq> Inl OutOfFuel"
  by (rule backends_end [OF lost_backend_created lost_call lost_services_run])
    (simp add: finite_wait_def lost_profile_def js_int_def)

lemma kas_names_valid_witness: "label_pattern (safe_label lost_kube ''a session'')"
  using kas_names_valid [of lost_kube "''a session''"]
  by (simp add: lost_kube_def hex_digest_def list_all_iff)

end
