(* ===== verification/Workspace_Anchor.thy ===== *)
theory Workspace_Anchor
  imports Credential_Broker Posix_Path
begin

text \<open>
  \<open>workspaces/workspace-anchor.ts\<close>: the host directories that stand for repositories. The URL standard,
  SHA-256 and the file system are parameters; a file call answers, does not find its file, or fails.
  \<open>readAnchorMetadata\<close> reads a file and parses it, which is one call here.
\<close>

section \<open>What is called\<close>

text \<open>\<open>ul_with_path u p\<close> is \<open>u.pathname = p; u.toString()\<close>.\<close>

record web_url =
  wu_parts :: url_parts
  wu_port :: string
  wu_username :: string
  wu_password :: string
  wu_search :: string
  wu_hash :: string

record url_library =
  ul_parse :: "string \<Rightarrow> web_url option"
  ul_with_path :: "web_url \<Rightarrow> string \<Rightarrow> string"

abbreviation ul_parts :: "url_library \<Rightarrow> url_parser" where
  "ul_parts ul \<equiv> \<lambda>s. map_option wu_parts (ul_parse ul s)"

datatype file_error = Enoent string | FileError string

type_synonym ('e, 'a) file_call = "'e \<Rightarrow> (file_error + 'a) \<times> 'e"

fun file_error_text :: "file_error \<Rightarrow> string" where
  "file_error_text (Enoent m) = m"
| "file_error_text (FileError m) = m"

definition must :: "('e, 'a) file_call \<Rightarrow> ('e, 'a) comp" where
  "must m e = (case m e of (Inl er, e') \<Rightarrow> (Inl (Plain (file_error_text er)), e') | (Inr a, e') \<Rightarrow> (Inr a, e'))"

text \<open>A call whose \<open>ENOENT\<close> is caught.\<close>

definition unless_missing :: "('e, 'a) file_call \<Rightarrow> ('e, 'a option) comp" where
  "unless_missing m e =
    (case m e of (Inl (Enoent _), e') \<Rightarrow> (Inr None, e') | (Inl (FileError w), e') \<Rightarrow> (Inl (Plain w), e')
     | (Inr a, e') \<Rightarrow> (Inr (Some a), e'))"

text \<open>\<open>try ... finally\<close>: an error of the last part wins.\<close>

definition finallyE :: "('e, 'a) comp \<Rightarrow> ('e, unit) comp \<Rightarrow> ('e, 'a) comp" where
  "finallyE m n e = (case m e of (r, e') \<Rightarrow> (case n e' of (Inl er, e'') \<Rightarrow> (Inl er, e'') | (Inr _, e'') \<Rightarrow> (r, e'')))"

record 'e anchors =
  an_urls :: url_library
  an_sha256 :: "string \<Rightarrow> string"
  an_state_dir :: string
  an_realpath :: "string \<Rightarrow> ('e, string) file_call"
  an_read_json :: "string \<Rightarrow> ('e, json) file_call"
  an_mkdir :: "string \<Rightarrow> ('e, unit) file_call"
  an_chmod :: "string \<Rightarrow> nat \<Rightarrow> ('e, unit) file_call"
  an_write :: "string \<Rightarrow> json \<Rightarrow> ('e, unit) file_call"
  an_rename :: "string \<Rightarrow> string \<Rightarrow> ('e, unit) file_call"
  an_rm :: "string \<Rightarrow> ('e, unit) file_call"
  an_suffix :: "'e \<Rightarrow> string \<times> 'e"

record repository_anchor =
  ra_path :: string
  ra_repository_url :: string
  ra_title :: string

definition ANCHORS_DIRECTORY :: string where "ANCHORS_DIRECTORY = ''workspace-anchors''"
definition METADATA_FILE :: string where "METADATA_FILE = ''repository.json''"

section \<open>Repository URLs\<close>

text \<open>\<open>/^([^@/:]+)@([^/:]+):(.+)$/\<close>.\<close>

definition parse_scp :: "string \<Rightarrow> (string \<times> string \<times> string) option" where
  "parse_scp s =
    (case index_of CHR ''@'' s of
       None \<Rightarrow> None
     | Some j \<Rightarrow>
        (case index_of CHR '':'' (drop (Suc j) s) of
           None \<Rightarrow> None
         | Some i \<Rightarrow>
            (let user = take j s; host = take i (drop (Suc j) s); path = drop (Suc i) (drop (Suc j) s)
             in if user = [] \<or> CHR ''/'' \<in> set user \<or> CHR '':'' \<in> set user \<or> host = [] \<or> CHR ''/'' \<in> set host
                  \<or> path = [] \<or> list_ex line_terminator path
                then None else Some (user, host, path))))"

definition strip_leading :: "string \<Rightarrow> string" where
  "strip_leading p = dropWhile (\<lambda>c. c = CHR ''/'') p"

definition normalize_repository_path :: "string \<Rightarrow> string" where
  "normalize_repository_path p = strip_git (strip_slashes (strip_leading p))"

definition query_or_fragment :: error where
  "query_or_fragment = Plain ''Repository URL must not contain a query or fragment''"

definition normalize_workspace_url :: "url_library \<Rightarrow> string \<Rightarrow> error + string" where
  "normalize_workspace_url ul input =
    (let url = normalize_repository_url (ul_parts ul) (trim input)
     in if url = [] \<or> list_ex is_space url then Inl (Plain ''Enter a repository URL'')
        else case parse_scp url of
          Some (user, host, p) \<Rightarrow>
            (let path = normalize_repository_path p
             in if CHR ''?'' \<in> set p \<or> CHR ''#'' \<in> set p then Inl query_or_fragment
                else if path = [] then Inl (Plain ''Repository URL has no path'')
                else Inr (user @ ''@'' @ to_lower host @ '':'' @ path))
        | None \<Rightarrow>
           (case ul_parse ul url of
              None \<Rightarrow> Inl (Plain ''Enter a valid repository URL'')
            | Some u \<Rightarrow>
               (let protocol = url_protocol (wu_parts u); path = normalize_repository_path (url_pathname (wu_parts u));
                    text = ul_with_path ul u (''/'' @ path)
                in if protocol \<notin> {''http:'', ''https:'', ''ssh:'', ''git:''}
                   then Inl (Plain ''Use an HTTPS repository URL (an SSH URL without a port is converted)'')
                   else if wu_password u \<noteq> [] then Inl (Plain ''Repository URL must not contain a password'')
                   else if wu_username u \<noteq> [] \<and> protocol \<in> {''http:'', ''https:'', ''git:''}
                   then Inl (Plain ''Repository URL must not contain credentials'')
                   else if wu_search u \<noteq> [] \<or> wu_hash u \<noteq> [] then Inl query_or_fragment
                   else if path = [] then Inl (Plain ''Repository URL has no path'')
                   else Inr (if ends_with ''/'' text then butlast text else text))))"

definition https_repository_url :: "url_library \<Rightarrow> string \<Rightarrow> error + string" where
  "https_repository_url ul input =
    (case parse_scp (trim input) of
       Some (user, host, p) \<Rightarrow> Inr (''https://'' @ to_lower host @ ''/'' @ strip_leading p)
     | None \<Rightarrow>
        (case ul_parse ul (trim input) of
           None \<Rightarrow> Inr input
         | Some u \<Rightarrow>
            (let protocol = url_protocol (wu_parts u)
             in if protocol = ''ssh:'' then
                  (if wu_password u \<noteq> [] then Inl (Plain ''Repository URL must not contain a password'')
                   else if wu_port u \<noteq> []
                   then Inl (Plain ''Use the HTTPS repository URL; an SSH URL with a port is ambiguous'')
                   else Inr (''https://'' @ url_host (wu_parts u) @ url_pathname (wu_parts u) @ wu_search u @ wu_hash u))
                else if protocol = ''git:''
                then Inl (Plain ''Use the HTTPS repository URL; git:// is not supported'')
                else if protocol = ''http:''
                then Inl (Plain ''Use the HTTPS repository URL; HTTP is not supported'')
                else Inr input)))"

text \<open>\<open>/^[^@]+@([^:]+):/\<close> and \<open>/^[^@]+@[^:]+:(.+)$/\<close>.\<close>

definition ssh_host :: "string \<Rightarrow> (string \<times> string) option" where
  "ssh_host s =
    (case index_of CHR ''@'' s of
       None \<Rightarrow> None
     | Some j \<Rightarrow>
        (case index_of CHR '':'' (drop (Suc j) s) of
           None \<Rightarrow> None
         | Some i \<Rightarrow> if j = 0 \<or> i = 0 then None
             else Some (take i (drop (Suc j) s), drop (Suc i) (drop (Suc j) s))))"

definition repository_title :: "url_library \<Rightarrow> string \<Rightarrow> string" where
  "repository_title ul url =
    (let path = (case ul_parse ul url of
           Some u \<Rightarrow> url_pathname (wu_parts u)
         | None \<Rightarrow> (case ssh_host url of
             Some (h, p) \<Rightarrow> if p = [] \<or> list_ex line_terminator p then url else p
           | None \<Rightarrow> url));
         parts = filter (\<lambda>w. w \<noteq> []) (split_on CHR ''/'' (map (\<lambda>c. if c = CHR 0x5C then CHR ''/'' else c) path))
     in case rev parts of
          [] \<Rightarrow> url
        | [r] \<Rightarrow> r
        | r # owner # _ \<Rightarrow> owner @ ''/'' @ r)"

section \<open>Anchors\<close>

definition anchor_root :: "'e anchors \<Rightarrow> string" where
  "anchor_root A = join_path [an_state_dir A, ANCHORS_DIRECTORY]"

text \<open>\<open>replace(/[^a-z0-9]+/g, "-")\<close>; \<open>dash\<close> says that the run before has its dash.\<close>

fun dashed :: "bool \<Rightarrow> string \<Rightarrow> string" where
  "dashed dash [] = []"
| "dashed dash (c # cs) =
    (if is_lower c \<or> is_digit c then c # dashed False cs
     else if dash then dashed True cs else CHR ''-'' # dashed True cs)"

definition trim_dash :: "string \<Rightarrow> string" where
  "trim_dash s =
    (let t = (case s of c # cs \<Rightarrow> if c = CHR ''-'' then cs else s | [] \<Rightarrow> [])
     in if t \<noteq> [] \<and> last t = CHR ''-'' then butlast t else t)"

definition anchor_path :: "'e anchors \<Rightarrow> string \<Rightarrow> string \<Rightarrow> string" where
  "anchor_path A url title =
    (let host = (case ul_parse (an_urls A) url of
           Some u \<Rightarrow> url_hostname (wu_parts u)
         | None \<Rightarrow> (case ssh_host url of Some (h, p) \<Rightarrow> h | None \<Rightarrow> ''repository''));
         slug = take 64 (trim_dash (dashed False (to_lower (host @ ''-'' @ title))))
     in join_path [anchor_root A,
          (if slug = [] then ''repository'' else slug) @ ''-'' @ take 32 (an_sha256 A url)])"

definition anchor_format :: string where
  "anchor_format = ''repository anchor metadata has an unsupported format''"

definition anchor_metadata :: "url_library \<Rightarrow> json \<Rightarrow> string option" where
  "anchor_metadata ul j =
    (case (field ''version'' j, field ''repositoryUrl'' j) of
       (Some (JNum v), Some (JStr url)) \<Rightarrow>
         if v = js_int 1 \<and> normalize_workspace_url ul url = Inr url then Some url else None
     | _ \<Rightarrow> None)"

text \<open>An invalid URL makes the normalization throw its own message; either way the read fails.\<close>

definition read_anchor_metadata :: "'e anchors \<Rightarrow> string \<Rightarrow> ('e, string) file_call" where
  "read_anchor_metadata A path e =
    (case an_read_json A path e of
       (Inl er, e') \<Rightarrow> (Inl er, e')
     | (Inr j, e') \<Rightarrow> (case anchor_metadata (an_urls A) j of
          Some url \<Rightarrow> (Inr url, e')
        | None \<Rightarrow> (Inl (FileError anchor_format), e')))"

definition write_anchor_metadata :: "'e anchors \<Rightarrow> string \<Rightarrow> string \<Rightarrow> ('e, string) comp" where
  "write_anchor_metadata A path url =
    bindE (\<lambda>e. case an_suffix A e of (s, e') \<Rightarrow> (Inr (path @ ''.'' @ s @ ''.tmp''), e')) (\<lambda>temporary.
    thenE (finallyE
        (thenE (must (an_write A temporary (JObj [(''version'', JNum (js_int 1)), (''repositoryUrl'', JStr url)])))
               (must (an_rename A temporary path)))
        (must (an_rm A temporary)))
      (must (read_anchor_metadata A path)))"

definition create_repository_anchor :: "'e anchors \<Rightarrow> string \<Rightarrow> ('e, repository_anchor) comp" where
  "create_repository_anchor A input =
    bindE (liftE (https_repository_url (an_urls A) input)) (\<lambda>https.
    bindE (liftE (normalize_workspace_url (an_urls A) https)) (\<lambda>url.
    bindE (ret (repository_title (an_urls A) url)) (\<lambda>title.
    bindE (ret (anchor_path A url title)) (\<lambda>path.
    thenE (must (an_mkdir A (anchor_root A)))
   (thenE (must (an_chmod A (anchor_root A) 448))
   (thenE (must (an_mkdir A path))
   (thenE (must (an_chmod A path 448))
   (bindE (unless_missing (read_anchor_metadata A (join_path [path, METADATA_FILE]))) (\<lambda>found.
    bindE (case found of Some url' \<Rightarrow> ret url' | None \<Rightarrow> write_anchor_metadata A (join_path [path, METADATA_FILE]) url)
      (\<lambda>existing.
      if existing \<noteq> url then throw (Plain ''repository anchor hash collision'')
      else thenE (must (an_chmod A (join_path [path, METADATA_FILE]) 384))
       (bindE (must (an_realpath A path)) (\<lambda>real.
          ret \<lparr>ra_path = real, ra_repository_url = url, ra_title = title\<rparr>))))))))))))"

text \<open>\<open>relative(root, path)\<close> is one name: below the root, not above or beside it, and not deeper.\<close>

definition direct_child :: "string \<Rightarrow> string \<Rightarrow> bool" where
  "direct_child base path \<longleftrightarrow>
     (let child = relative base path
      in child \<noteq> [] \<and> \<not> starts_with ''..'' child \<and> \<not> is_absolute child
         \<and> CHR ''/'' \<notin> set child \<and> CHR 0x5C \<notin> set child)"

definition repository_for_anchor :: "'e anchors \<Rightarrow> string \<Rightarrow> ('e, string option) comp" where
  "repository_for_anchor A dir =
    bindE (unless_missing (an_realpath A (anchor_root A))) (\<lambda>r.
    bindE (unless_missing (an_realpath A dir)) (\<lambda>p.
    case (r, p) of
      (Some base, Some path) \<Rightarrow>
        if \<not> direct_child base path then ret None
        else bindE (unless_missing (read_anchor_metadata A (join_path [path, METADATA_FILE]))) (\<lambda>m.
          case m of
            None \<Rightarrow> ret None
          | Some url \<Rightarrow>
             bindE (must (an_realpath A (anchor_path A url (repository_title (an_urls A) url)))) (\<lambda>expected.
               if expected \<noteq> path then throw (Plain ''repository anchor metadata is invalid'')
               else ret (Some url)))
    | _ \<Rightarrow> ret None))"

record workspace_scope =
  ws_repository_url :: string
  ws_title :: string

fun workspace_scopes :: "'e anchors \<Rightarrow> (string \<times> string) list \<Rightarrow> ('e, workspace_scope list) comp" where
  "workspace_scopes A [] = ret []"
| "workspace_scopes A ((path, title) # ws) =
    bindE (repository_for_anchor A path) (\<lambda>found.
    bindE (workspace_scopes A ws) (\<lambda>rest.
      ret (case found of None \<Rightarrow> rest | Some url \<Rightarrow> \<lparr>ws_repository_url = url, ws_title = title\<rparr> # rest)))"

section \<open>Facts\<close>

lemma wp_must [wp_simps]:
  "wp (must m) Q E = (\<lambda>e. case m e of (Inl er, e') \<Rightarrow> E (Plain (file_error_text er)) e' | (Inr a, e') \<Rightarrow> Q a e')"
  by (auto simp: wp_def must_def fun_eq_iff split: prod.split sum.split)

lemma wp_unless_missing [wp_simps]:
  "wp (unless_missing m) Q E = (\<lambda>e. case m e of (Inl (Enoent _), e') \<Rightarrow> Q None e'
     | (Inl (FileError w), e') \<Rightarrow> E (Plain w) e' | (Inr a, e') \<Rightarrow> Q (Some a) e')"
  by (auto simp: wp_def unless_missing_def fun_eq_iff split: prod.split sum.split file_error.split)

text \<open>\<open>answers m a\<close>: some time the call answered \<open>a\<close>.\<close>

definition answers :: "('e, 'a) file_call \<Rightarrow> 'a \<Rightarrow> bool" where
  "answers m a \<longleftrightarrow> (\<exists>e e'. m e = (Inr a, e'))"

lemma answersI: "m e = (Inr a, e') \<Longrightarrow> answers m a"
  unfolding answers_def by blast

lemma anchor_metadata_normal: "anchor_metadata ul j = Some url \<Longrightarrow> normalize_workspace_url ul url = Inr url"
  by (auto simp: anchor_metadata_def split: option.splits json.splits if_splits)

lemma read_metadata_normal:
  assumes "answers (read_anchor_metadata A path) url"
  shows "normalize_workspace_url (an_urls A) url = Inr url"
proof -
  from assms obtain e e' where read: "read_anchor_metadata A path e = (Inr url, e')" unfolding answers_def by blast
  obtain r e1 where j: "an_read_json A path e = (r, e1)" by (rule prod.exhaust)
  show ?thesis
  proof (cases r)
    case (Inl er)
    with j read show ?thesis by (simp add: read_anchor_metadata_def)
  next
    case (Inr v)
    with j read show ?thesis
      by (cases "anchor_metadata (an_urls A) v") (auto simp: read_anchor_metadata_def dest: anchor_metadata_normal)
  qed
qed

lemma repository_for_anchor_wp:
  "wp (repository_for_anchor A dir)
     (\<lambda>found _. found = None \<or> (\<exists>url base path. found = Some url
        \<and> answers (an_realpath A (anchor_root A)) base \<and> answers (an_realpath A dir) path \<and> direct_child base path
        \<and> answers (read_anchor_metadata A (join_path [path, METADATA_FILE])) url
        \<and> answers (an_realpath A (anchor_path A url (repository_title (an_urls A) url))) path))
     (\<lambda>_ _. True) e"
  unfolding repository_for_anchor_def
  by (auto simp: wp_simps dest!: answersI split: prod.split sum.split file_error.split option.split)

section \<open>New workspaces\<close>

text \<open>A URL of a workspace that clones over HTTPS: read by the URL standard as \<open>https:\<close>, without credentials,
  query or fragment, and with a path.\<close>

definition clean_https :: "url_library \<Rightarrow> string \<Rightarrow> bool" where
  "clean_https ul url \<longleftrightarrow> (\<exists>u p. url_protocol (wu_parts u) = ''https:'' \<and> wu_username u = [] \<and> wu_password u = []
     \<and> wu_search u = [] \<and> wu_hash u = [] \<and> p \<noteq> []
     \<and> url = (let text = ul_with_path ul u (''/'' @ p) in if ends_with ''/'' text then butlast text else text))"

text \<open>What the URL standard does with a text that starts so.\<close>

definition https_standard :: "url_library \<Rightarrow> bool" where
  "https_standard ul \<longleftrightarrow> (\<forall>s u. starts_with ''https://'' s \<longrightarrow> ul_parse ul s = Some u \<longrightarrow> url_protocol (wu_parts u) = ''https:'')"

lemma parse_scp_https: "starts_with ''https://'' s \<Longrightarrow> parse_scp s = None"
proof (cases "parse_scp s")
  case (Some x)
  assume "starts_with ''https://'' s"
  then obtain rest where s: "s = ''https://'' @ rest"
    by (auto simp: starts_with_prefix)
  then obtain j where j: "index_of CHR ''@'' s = Some j" "8 \<le> j"
    using Some by (auto simp: parse_scp_def split: option.splits)
  then have "CHR '':'' \<in> set (take j s)" using s by (cases j) (auto simp: numeral_eq_Suc)
  with Some j show ?thesis by (auto simp: parse_scp_def split: option.splits)
qed simp

lemma trim_https: "starts_with ''https://'' (trim (''https://'' @ x))"
proof -
  have "dropWhile is_space (''https://'' @ x) = ''https://'' @ x" by (simp add: is_space_def)
  moreover have "rev (dropWhile is_space (rev (''https://'' @ x))) =
      ''https://'' @ rev (dropWhile is_space (rev x))"
    by (cases "\<exists>c \<in> set (rev x). \<not> is_space c")
      (auto simp: dropWhile_append is_space_def dropWhile_eq_Nil_conv)
  ultimately show ?thesis unfolding trim_def by (metis starts_with_append)
qed

lemma github_scp_scp: "github_scp s = Some p \<Longrightarrow> parse_scp s \<noteq> None"
  by (auto simp: github_scp_def parse_scp_def starts_with_prefix Let_def split: if_splits)

text \<open>A text that is neither an SSH address nor read as SSH is normalized as it stands.\<close>

lemma clean_when_https:
  assumes "parse_scp (trim h) = None" and "normalize_workspace_url ul h = Inr url"
    and "\<And>u. ul_parse ul (trim h) = Some u \<Longrightarrow> url_protocol (wu_parts u) \<notin> {''http:'', ''ssh:'', ''git:''}"
  shows "clean_https ul url"
proof -
  have same: "normalize_repository_url (ul_parts ul) (trim h) = trim h"
    using github_scp_scp [of "trim h"] assms(1,3)
    by (auto simp: normalize_repository_url_def split: option.split)
  show ?thesis
  proof (cases "ul_parse ul (trim h)")
    case None
    then show ?thesis
      using assms(1,2) same by (simp add: normalize_workspace_url_def Let_def split: if_splits)
  next
    case (Some u)
    have "url_protocol (wu_parts u) \<in> {''http:'', ''https:'', ''ssh:'', ''git:''}"
      using assms(1,2) same Some by (simp add: normalize_workspace_url_def Let_def split: if_splits)
    then have "url_protocol (wu_parts u) = ''https:''" using assms(3) [OF Some] by blast
    then show ?thesis
      using assms(1,2) same Some unfolding clean_https_def normalize_workspace_url_def Let_def
      by (auto split: if_splits)
  qed
qed

lemma new_url_clean:
  assumes "https_standard ul" and "https_repository_url ul input = Inr h" and "normalize_workspace_url ul h = Inr url"
  shows "clean_https ul url"
proof -
  have made: "clean_https ul url" if "h = ''https://'' @ x" for x
  proof -
    from trim_https [of x] that have s: "starts_with ''https://'' (trim h)" by simp
    show ?thesis
      by (rule clean_when_https [OF parse_scp_https [OF s] assms(3)])
        (use assms(1) s in \<open>auto simp: https_standard_def\<close>)
  qed
  show ?thesis
  proof (cases "parse_scp (trim input)")
    case (Some x)
    then have "\<exists>y. h = ''https://'' @ y" using assms(2) by (cases x) (auto simp: https_repository_url_def)
    with made show ?thesis by blast
  next
    case None
    show ?thesis
    proof (cases "ul_parse ul (trim input)")
      case None': None
      then have "h = input" using assms(2) None by (simp add: https_repository_url_def)
      with None None' show ?thesis by (intro clean_when_https [OF _ assms(3)]) simp_all
    next
      case (Some u)
      show ?thesis
      proof (cases "url_protocol (wu_parts u) = ''ssh:''")
        case True
        then have "\<exists>y. h = ''https://'' @ y"
          using assms(2) None Some by (auto simp: https_repository_url_def split: if_splits)
        with made show ?thesis by blast
      next
        case False
        then have "h = input" "url_protocol (wu_parts u) \<notin> {''http:'', ''ssh:'', ''git:''}"
          using assms(2) None Some by (auto simp: https_repository_url_def Let_def split: if_splits)
        with None Some show ?thesis by (intro clean_when_https [OF _ assms(3)]) simp_all
      qed
    qed
  qed
qed

lemma wp_write_metadata:
  "wp (write_anchor_metadata A path url) (\<lambda>found _. answers (read_anchor_metadata A path) found) (\<lambda>_ _. True) e"
  unfolding write_anchor_metadata_def
  by (auto simp: wp_def bindE_def thenE_def must_def answers_def split: prod.splits sum.splits)

lemma create_anchor_wp:
  assumes "https_standard (an_urls A)"
  shows "wp (create_repository_anchor A input)
    (\<lambda>a _. clean_https (an_urls A) (ra_repository_url a) \<and> ra_title a = repository_title (an_urls A) (ra_repository_url a)
       \<and> answers (an_realpath A (anchor_path A (ra_repository_url a) (ra_title a))) (ra_path a)
       \<and> answers (read_anchor_metadata A (join_path [anchor_path A (ra_repository_url a) (ra_title a), METADATA_FILE]))
           (ra_repository_url a)) (\<lambda>_ _. True) e"
  unfolding create_repository_anchor_def
  by (auto simp: wp_simps dest: answersI intro!: wp_mono [OF wp_write_metadata] new_url_clean [OF assms]
      split: prod.split sum.split file_error.split option.split)

section \<open>Properties\<close>

text \<open>a directory stands for a repository only when it lies directly under the control plane's own
  root, its metadata names the repository by a URL in normal form, and the anchor of that URL is that
  very directory; so metadata copied elsewhere, a directory beside the root or a deeper one never
  names a repository.\<close>

lemma anchor_resolution_sound:
  assumes "repository_for_anchor A dir e = (Inr (Some url), e')"
  shows "normalize_workspace_url (an_urls A) url = Inr url \<and> (\<exists>base path.
    answers (an_realpath A (anchor_root A)) base \<and> answers (an_realpath A dir) path \<and> direct_child base path \<and>
    answers (read_anchor_metadata A (join_path [path, METADATA_FILE])) url \<and>
    answers (an_realpath A (anchor_path A url (repository_title (an_urls A) url))) path)"
  using wp_resultD [OF repository_for_anchor_wp assms] by (auto dest: read_metadata_normal)

text \<open>a workspace that is created names its repository by an HTTPS URL without credentials, query or
  fragment, whatever form the user typed (SSH forms are converted), in normal form and as the metadata
  in its directory reads; its title is the one of that URL.\<close>

lemma new_workspace_https:
  assumes "https_standard (an_urls A)" and "create_repository_anchor A input e = (Inr a, e')"
  shows "clean_https (an_urls A) (ra_repository_url a)
    \<and> normalize_workspace_url (an_urls A) (ra_repository_url a) = Inr (ra_repository_url a)
    \<and> ra_title a = repository_title (an_urls A) (ra_repository_url a)
    \<and> answers (an_realpath A (anchor_path A (ra_repository_url a) (ra_title a))) (ra_path a)"
  using wp_resultD [OF create_anchor_wp [OF assms(1)] assms(2)] by (auto dest: read_metadata_normal)

section \<open>Examples\<close>

text \<open>A URL parser for \<open>https://host/path\<close>, and files in memory.\<close>

definition demo_parse :: "string \<Rightarrow> web_url option" where
  "demo_parse s =
    (if \<not> starts_with ''https://'' s then None
     else let rest = drop 8 s; host = takeWhile (\<lambda>c. c \<noteq> CHR ''/'') rest
       in Some \<lparr>wu_parts = \<lparr>url_protocol = ''https:'', url_hostname = host, url_host = host,
                  url_pathname = dropWhile (\<lambda>c. c \<noteq> CHR ''/'') rest\<rparr>,
                wu_port = [], wu_username = [], wu_password = [], wu_search = [], wu_hash = []\<rparr>)"

definition demo_library :: url_library where
  "demo_library = \<lparr>ul_parse = demo_parse, ul_with_path = \<lambda>u p. ''https://'' @ url_host (wu_parts u) @ p\<rparr>"

definition demo_anchors :: "(string \<times> json) list anchors" where
  "demo_anchors =
    \<lparr>an_urls = demo_library, an_sha256 = \<lambda>_. replicate 64 CHR ''a'', an_state_dir = ''/s'', an_realpath = \<lambda>p e. (Inr p, e),
     an_read_json = \<lambda>p e. ((case map_of e p of None \<Rightarrow> Inl (Enoent p) | Some j \<Rightarrow> Inr j), e),
     an_mkdir = \<lambda>p e. (Inr (), e), an_chmod = \<lambda>p n e. (Inr (), e), an_write = \<lambda>p j e. (Inr (), AList.update p j e),
     an_rename = \<lambda>p q e. (case map_of e p of None \<Rightarrow> (Inl (Enoent p), e)
        | Some j \<Rightarrow> (Inr (), AList.update q j (AList.delete p e))),
     an_rm = \<lambda>p e. (Inr (), AList.delete p e), an_suffix = \<lambda>e. (''1'', e)\<rparr>"

lemma demo_https: "https_standard demo_library"
  by (auto simp: https_standard_def demo_library_def demo_parse_def Let_def split: if_splits)

definition demo_anchor :: repository_anchor where
  "demo_anchor = \<lparr>ra_path = ''/s/workspace-anchors/ex-com-o-r-aaaaaaaaaaaaaaaaaaaaaaaaaaaaaaaa'',
     ra_repository_url = ''https://ex.com/o/r'', ra_title = ''o/r''\<rparr>"

definition demo_metadata :: "(string \<times> json) list" where
  "demo_metadata = [(ra_path demo_anchor @ ''/repository.json'',
     JObj [(''version'', JNum (js_int 1)), (''repositoryUrl'', JStr ''https://ex.com/o/r'')])]"

lemma demo_created: "create_repository_anchor demo_anchors ''git@Ex.com:o/r.git'' [] = (Inr demo_anchor, demo_metadata)"
  by code_simp

lemma demo_resolved:
  "repository_for_anchor demo_anchors (ra_path demo_anchor) demo_metadata = (Inr (Some ''https://ex.com/o/r''), demo_metadata)"
  by code_simp

lemma anchor_resolution_sound_witness:
  "normalize_workspace_url demo_library ''https://ex.com/o/r'' = Inr ''https://ex.com/o/r''"
  using anchor_resolution_sound [OF demo_resolved] by (simp add: demo_anchors_def)

lemma new_workspace_https_witness: "clean_https demo_library ''https://ex.com/o/r''"
  using new_workspace_https [OF _ demo_created] demo_https by (simp add: demo_anchors_def demo_anchor_def)

text \<open>One suffix is stripped, so a repository whose own name ends in \<open>.git\<close> gets a URL that is not in normal
  form: its metadata is written and then refused.\<close>

lemma repeated_git_suffix:
  "fst (create_repository_anchor demo_anchors ''https://ex.com/o/r.git.git'' []) = Inl (Plain anchor_format)"
  "normalize_workspace_url demo_library ''https://ex.com/o/r.git.git'' = Inr ''https://ex.com/o/r.git''"
  by code_simp+

end
