(* ===== verification/Sandbox_Manager.thy ===== *)
theory Sandbox_Manager
  imports Lifecycle_Properties Mcp_Choice Root_Session Profile_Choice Preview Workspace_Anchor
begin

text \<open>
  \<open>sandbox/manager/sandbox-manager.ts\<close> and \<open>sandbox/manager/archive-release.ts\<close>: the facade that composes
  the lifecycle, the idle schedule, the profile registry, the MCP choice and the lineage of agents. Its
  state is the components' states; the agent registry, the settings and the archive set, which other
  packages own, are in it too and may change between any two steps. Events before the stores are
  loaded, the MCP mounts and the backends' early work, which nothing waits for, are left out.
\<close>

section \<open>State\<close>

record session_agent =
  sa_agent :: agent
  sa_cwd :: "string option"

record 'e manager =
  mg_world :: "'e world"
  mg_sched :: idle_world
  mg_roots :: "(string \<times> string) list"
  mg_registry :: "'e registry"
  mg_applied :: "(string \<times> sandbox_profile) list"
  mg_choice_live :: "(string \<times> string list) list"
  mg_notices :: nat
  mg_agents :: "(string \<times> session_agent) list"
  mg_runtime :: resolved_runtime
  mg_servers :: "mcp_server_entry list"
  mg_archived :: "string list"
  mg_serving :: "(string \<times> session_agent) list"
  mg_failed :: "string set"

text \<open>\<open>mg_serving\<close> holds the calls of \<open>ensureRunning\<close> that await the lifecycle; \<open>mg_failed\<close>, which is not in
  the code, the sessions whose last such call failed. \<open>mp_git_origin\<close> runs \<open>git remote get-url origin\<close>.\<close>

record 'e manager_parts =
  mp_deps :: "'e lifecycle_deps"
  mp_create_backend :: "sandbox_profile \<Rightarrow> error + 'e backend"
  mp_replacements :: "(string \<times> 'e backend) list"
  mp_anchors :: "'e anchors"
  mp_scratch :: string
  mp_resolve :: "string \<Rightarrow> string"
  mp_repository :: "string option"
  mp_preview_domain :: "string option"
  mp_git_origin :: "string \<Rightarrow> ('e, string) comp"

text \<open>A delay as a date's arithmetic uses it: the fraction is cut, and an infinite one is beyond every date.\<close>

definition whole_ms :: "js_number \<Rightarrow> int" where
  "whole_ms n = (case n of Finite q \<Rightarrow> \<lfloor>q\<rfloor> | _ \<Rightarrow> 10 ^ 18)"

text \<open>The engine reads the registry, the pending profile and the expiry when it needs them.\<close>

definition engine :: "'e manager_parts \<Rightarrow> 'e manager \<Rightarrow> 'e lifecycle_deps" where
  "engine M m = (mp_deps M)\<lparr>ld_registry := mg_registry m,
     ld_pending_profile := choice_pending (mg_runtime m),
     ld_expires_after_ms := whole_ms (rr_expires_after_ms (mg_runtime m))\<rparr>"

definition on_engine :: "'e manager_parts \<Rightarrow> ('e lifecycle_deps \<Rightarrow> ('e world, 'a) comp) \<Rightarrow> ('e manager, 'a) comp" where
  "on_engine M f m = (case f (engine M m) (mg_world m) of (r, w) \<Rightarrow> (r, m\<lparr>mg_world := w\<rparr>))"

definition log_warning :: "'e manager_parts \<Rightarrow> string \<Rightarrow> 'e manager \<Rightarrow> 'e manager" where
  "log_warning M text m = m\<lparr>mg_world := (mg_world m)\<lparr>w_env := ld_warn (mp_deps M) text (w_env (mg_world m))\<rparr>\<rparr>"

definition on_idle :: "idle_note \<Rightarrow> (idle \<Rightarrow> idle) \<Rightarrow> 'e manager \<Rightarrow> 'e manager" where
  "on_idle n f m = m\<lparr>mg_sched := act n f (mg_sched m)\<rparr>"

definition record_in :: "string \<Rightarrow> 'e manager \<Rightarrow> session_record option" where
  "record_in sid m = record_of sid (mg_world m)"

definition turn_open :: "string \<Rightarrow> 'e manager \<Rightarrow> bool" where
  "turn_open sid m = is_turn_live sid (sched (mg_sched m))"

text \<open>The hook \<open>idleMsFor\<close>.\<close>

definition idle_delay :: "'e manager \<Rightarrow> string \<Rightarrow> js_number" where
  "idle_delay m sid =
    (let profile = Option.bind (record_in sid m) (\<lambda>r. map_of (rr_profiles (mg_runtime m)) (record_profile r))
     in or_else (Option.bind profile profile_idle_ms) (rr_idle_ms (mg_runtime m)))"

definition arm :: "string \<Rightarrow> 'e manager \<Rightarrow> 'e manager" where
  "arm sid m = on_idle (Scheduled sid) (schedule (idle_delay m) sid) m"

definition touch :: "string \<Rightarrow> 'e manager \<Rightarrow> 'e manager" where
  "touch sid = on_idle (Marked sid) (mark_active sid)"

section \<open>Root sessions\<close>

definition plain_agents :: "'e manager \<Rightarrow> (string \<times> agent) list" where
  "plain_agents m = map (\<lambda>(k, a). (k, sa_agent a)) (mg_agents m)"

definition orphan_warning :: "string \<Rightarrow> string \<Rightarrow> string" where
  "orphan_warning sid parent = ''subagent session '' @ sid @ '' cannot resolve its parent session '' @ parent
     @ '' live; serving it from its own sandbox''"

text \<open>\<open>rootSessionId\<close>, memoized per session.\<close>

definition root_of :: "'e manager_parts \<Rightarrow> agent \<Rightarrow> ('e manager, string) comp" where
  "root_of M a m =
    (case map_of (mg_roots m) (agent_id a) of
       Some r \<Rightarrow> (Inr r, m)
     | None \<Rightarrow>
        (let r = root_session_id a (plain_agents m);
             m' = m\<lparr>mg_roots := AList.update (agent_id a) r (mg_roots m)\<rparr>
         in (Inr r,
             if r = agent_id a \<and> origin a = Some ''subagent'' \<and> parent_session a \<noteq> None
             then log_warning M (orphan_warning (agent_id a) (the (parent_session a))) m' else m')))"

definition root_of_session :: "'e manager_parts \<Rightarrow> string \<Rightarrow> ('e manager, string) comp" where
  "root_of_session M sid m =
    (case map_of (mg_roots m) sid of
       Some r \<Rightarrow> (Inr r, m)
     | None \<Rightarrow> (case map_of (mg_agents m) sid of
          None \<Rightarrow> (Inr sid, m)
        | Some a \<Rightarrow> root_of M (sa_agent a) m))"

section \<open>Settings\<close>

definition sync_runtime_settings :: "'e manager_parts \<Rightarrow> ('e manager, unit) comp" where
  "sync_runtime_settings M m =
    (let profiles = rr_profiles (mg_runtime m)
     in if profiles = mg_applied m then (Inr (), m)
        else case update_registry (mp_create_backend M) (mp_replacements M) profiles (mg_registry m) of
          (Inl er, _) \<Rightarrow> (Inr (), log_warning M
             (''keeping the previous sandbox profiles; one of the new profiles cannot start: '' @ error_message er) m)
        | (Inr _, reg) \<Rightarrow> (Inr (), m\<lparr>mg_registry := reg, mg_applied := profiles\<rparr>))"

section \<open>Repositories\<close>

text \<open>\<open>rec\<close> is what the engine has of the agent's root session.\<close>

definition in_scratch :: "'e manager_parts \<Rightarrow> session_record option \<Rightarrow> session_agent \<Rightarrow> bool" where
  "in_scratch M rec a =
    (case rec of
       Some r \<Rightarrow> \<not> has_repository (repository_url r)
     | None \<Rightarrow> (case sa_cwd a of None \<Rightarrow> False | Some dir \<Rightarrow> mp_resolve M dir = mp_scratch M))"

definition in_scratch_workspace :: "'e manager_parts \<Rightarrow> session_agent \<Rightarrow> ('e manager, bool) comp" where
  "in_scratch_workspace M a = bindE (root_of M (sa_agent a)) (\<lambda>sid. gets (\<lambda>m. in_scratch M (record_in sid m) a))"

definition origin_repository :: "'e manager_parts \<Rightarrow> string option \<Rightarrow> ('e, string) comp" where
  "origin_repository M dir =
    (case dir of
       None \<Rightarrow> throw (Plain ''sandbox repository is not configured and the dsh session has no cwd'')
     | Some d \<Rightarrow>
        catchE (bindE (mp_git_origin M d) (\<lambda>stdout.
                  if trim stdout = [] then throw (Plain ''origin is empty'') else ret (trim stdout)))
          (\<lambda>_. throw (Plain (''cannot resolve a repository from '' @ d @ ''; configure repository explicitly''))))"

definition repository_for :: "'e manager_parts \<Rightarrow> session_record option \<Rightarrow> session_agent \<Rightarrow> ('e, string) comp" where
  "repository_for M rec a =
    (if in_scratch M rec a then ret ''''
     else bindE (case sa_cwd a of None \<Rightarrow> ret None | Some dir \<Rightarrow> repository_for_anchor (mp_anchors M) dir) (\<lambda>found.
       case found of
         Some url \<Rightarrow> ret url
       | None \<Rightarrow> (case mp_repository M of
            Some url \<Rightarrow> ret url
          | None \<Rightarrow> origin_repository M (sa_cwd a))))"

section \<open>The verbs\<close>

text \<open>\<open>ensureRunning\<close> up to the await of the lifecycle, and from there. The callback runs while the session
  has no record, so it goes by the working directory.\<close>

definition ensure_begin :: "'e manager_parts \<Rightarrow> session_agent \<Rightarrow> ('e manager, string) comp" where
  "ensure_begin M a =
    thenE (sync_runtime_settings M)
   (bindE (root_of M (sa_agent a)) (\<lambda>sid.
      thenE (modify (touch sid)) (ret sid)))"

definition ensure_finish :: "'e manager_parts \<Rightarrow> session_agent \<Rightarrow> string \<Rightarrow> ('e manager, client option) comp" where
  "ensure_finish M a sid =
    bindE (gets (\<lambda>m. or_else (map_of (mg_agents m) sid) a)) (\<lambda>root_agent.
    bindE (on_engine M (\<lambda>d. ensure_running d sid (repository_for M None root_agent))) (\<lambda>c.
      thenE (modify (arm sid)) (ret c)))"

definition manager_ensure_running :: "'e manager_parts \<Rightarrow> session_agent \<Rightarrow> ('e manager, client option) comp" where
  "manager_ensure_running M a = bindE (ensure_begin M a) (ensure_finish M a)"

definition client_for_current_agent :: "'e manager_parts \<Rightarrow> session_agent \<Rightarrow> ('e manager, client option) comp" where
  "client_for_current_agent M a =
    bindE (root_of M (sa_agent a)) (\<lambda>sid.
    bindE (gets (\<lambda>m. record_in sid m = None \<and> \<not> turn_open sid m)) (\<lambda>nothing.
      if nothing then throw (Plain ''This session has no sandbox yet. Send a prompt to start one.'')
      else manager_ensure_running M a))"

definition touch_running :: "string \<Rightarrow> 'e manager \<Rightarrow> 'e manager" where
  "touch_running sid m =
    (case record_in sid m of
       Some r \<Rightarrow> if is_running (record_state r) then arm sid (touch sid m) else m
     | None \<Rightarrow> m)"

definition note_activity :: "'e manager_parts \<Rightarrow> agent \<Rightarrow> ('e manager, unit) comp" where
  "note_activity M a = bindE (root_of M a) (\<lambda>sid. modify (touch_running sid))"

fun running_sandbox :: "session_state \<Rightarrow> string option" where
  "running_sandbox (Running sandbox ref) = Some sandbox"
| "running_sandbox _ = None"

definition mark_previewed :: "string \<Rightarrow> 'e manager \<Rightarrow> 'e manager" where
  "mark_previewed sandbox m =
    (case find (\<lambda>r. running_sandbox (record_state r) = Some sandbox) (record_values (mem (w_store (mg_world m)))) of
       None \<Rightarrow> m
     | Some r \<Rightarrow> arm (session_id r) (touch (session_id r) m))"

definition manager_hibernate :: "'e manager_parts \<Rightarrow> string \<Rightarrow> ('e manager, unit) comp" where
  "manager_hibernate M sid = bindE (on_engine M (\<lambda>d. hibernate_session d sid (\<lambda>_. True))) (\<lambda>_. ret ())"

definition manager_release :: "'e manager_parts \<Rightarrow> string \<Rightarrow> ('e manager, unit) comp" where
  "manager_release M sid m = on_engine M (\<lambda>d. release d sid (\<lambda>_. \<not> turn_open sid m)) m"

section \<open>Archived sessions\<close>

text \<open>\<open>Promise.all\<close> runs every release and fails with the first failure; the releases of different
  sessions do not meet, so one after the other does the same.\<close>

fun release_each :: "'e manager_parts \<Rightarrow> string list \<Rightarrow> ('e manager, error option) comp" where
  "release_each M [] = ret None"
| "release_each M (sid # sids) =
    bindE (catchE (thenE (manager_release M sid) (ret None)) (\<lambda>er. ret (Some er))) (\<lambda>failed.
    bindE (release_each M sids) (\<lambda>later.
      ret (case failed of None \<Rightarrow> later | Some er \<Rightarrow> Some er)))"

definition archived_records :: "'e manager \<Rightarrow> string list" where
  "archived_records m =
    filter (\<lambda>sid. sid \<in> set (mg_archived m)) (map session_id (record_values (mem (w_store (mg_world m)))))"

definition reconcile_archived :: "'e manager_parts \<Rightarrow> ('e manager, unit) comp" where
  "reconcile_archived M =
    bindE (gets archived_records) (\<lambda>sids.
    bindE (release_each M sids) (\<lambda>failed.
      case failed of
        None \<Rightarrow> ret ()
      | Some er \<Rightarrow> modify (log_warning M (''could not release archived sandboxes: '' @ error_text er))))"

section \<open>Events\<close>

definition agent_running :: "'e manager_parts \<Rightarrow> agent \<Rightarrow> ('e manager, unit) comp" where
  "agent_running M a = bindE (root_of M a) (\<lambda>sid. modify (touch sid))"

text \<open>The MCP choice over the manager's state.\<close>

definition choices_of :: "'e manager \<Rightarrow> 'e choice_state" where
  "choices_of m = \<lparr>cs_live = mg_choice_live m, cs_store = w_store (mg_world m), cs_idle = sched (mg_sched m),
     cs_servers = mg_servers m, cs_notices = mg_notices m, cs_env = w_env (mg_world m)\<rparr>"

definition put_choices :: "'e choice_state \<Rightarrow> 'e manager \<Rightarrow> 'e manager" where
  "put_choices s m = m\<lparr>mg_choice_live := cs_live s, mg_notices := cs_notices s,
     mg_world := note_written ((mg_world m)\<lparr>w_store := cs_store s, w_env := cs_env s\<rparr>)\<rparr>"

definition on_choices :: "('e choice_state \<Rightarrow> 'e choice_state) \<Rightarrow> 'e manager \<Rightarrow> 'e manager" where
  "on_choices f m = put_choices (f (choices_of m)) m"

definition turn_start_event :: "'e manager_parts \<Rightarrow> string \<Rightarrow> nat \<Rightarrow> ('e manager, unit) comp" where
  "turn_start_event M session turn =
    bindE (root_of_session M session) (\<lambda>sid.
    thenE (modify (on_idle (Begun sid) (begin_turn sid)))
      (modify (on_choices (\<lambda>s. choice_begin_turn sid (choice_freeze (ld_flush (mp_deps M)) sid turn s)))))"

text \<open>The archive set is reconciled after it, as a step of its own.\<close>

definition turn_end_event :: "'e manager_parts \<Rightarrow> string \<Rightarrow> ('e manager, unit) comp" where
  "turn_end_event M session =
    bindE (root_of_session M session) (\<lambda>sid.
    thenE (modify (\<lambda>m. on_idle (Ended sid) (end_turn (idle_delay m) sid) m))
      (modify (on_choices (\<lambda>s. case choice_end_turn sid s of (changed, s') \<Rightarrow> if changed then notify s' else s'))))"

section \<open>Boot\<close>

definition running_sessions :: "'e manager \<Rightarrow> string list" where
  "running_sessions m = map session_id (filter (\<lambda>r. is_running (record_state r)) (record_values (mem (w_store (mg_world m)))))"

definition manager_initialize :: "'e manager_parts \<Rightarrow> ('e manager, unit) comp" where
  "manager_initialize M =
    thenE (on_engine M initialize)
   (bindE (gets running_sessions) (\<lambda>sids. modify (fold arm sids)))"

definition new_manager ::
  "'e manager_parts \<Rightarrow> resolved_runtime \<Rightarrow> 'e world \<Rightarrow> error + 'e manager" where
  "new_manager M settings w =
    map_sum id (\<lambda>reg. \<lparr>mg_world = w, mg_sched = idle_start, mg_roots = [], mg_registry = reg,
        mg_applied = rr_profiles settings, mg_choice_live = [], mg_notices = 0, mg_agents = [], mg_runtime = settings,
        mg_servers = [], mg_archived = [], mg_serving = [], mg_failed = {}\<rparr>)
      (new_registry (mp_create_backend M) (mp_replacements M) (rr_profiles settings))"

section \<open>What pages and prompts read\<close>

definition capabilities_for :: "'e manager_parts \<Rightarrow> agent \<Rightarrow> ('e manager, capabilities option) comp" where
  "capabilities_for M a =
    bindE (root_of M a) (\<lambda>sid. gets (\<lambda>m.
      Option.bind (choice_current (mg_runtime m) sid (mem (w_store (mg_world m)))) (\<lambda>p.
      map_option b_capabilities (backend_of (mg_registry m) (profile_name p)))))"

fun record_sandbox :: "session_state \<Rightarrow> string option" where
  "record_sandbox (Running sandbox ref) = Some sandbox"
| "record_sandbox (Hibernated sandbox ref expires) = Some sandbox"
| "record_sandbox (Checkpointed ck expires) = None"

definition preview_origin_for :: "'e manager_parts \<Rightarrow> agent \<Rightarrow> ('e manager, string option) comp" where
  "preview_origin_for M a =
    (case mp_preview_domain M of
       None \<Rightarrow> ret None
     | Some domain \<Rightarrow>
        bindE (root_of M a) (\<lambda>sid. gets (\<lambda>m.
          map_option (\<lambda>sandbox. ''https://'' @ preview_label sandbox ''PORT'' @ ''.'' @ domain @ ''/'')
            (Option.bind (record_in sid m) (\<lambda>r. record_sandbox (record_state r))))))"

definition has_sandbox :: "'e manager_parts \<Rightarrow> agent \<Rightarrow> ('e manager, bool) comp" where
  "has_sandbox M a = bindE (root_of M a) (\<lambda>sid. gets (\<lambda>m. record_in sid m \<noteq> None))"

text \<open>A subagent edits and reads the choice of its root.\<close>

definition choice_session :: "'e manager_parts \<Rightarrow> string \<Rightarrow> ('e manager, string) comp" where
  "choice_session M sid m =
    (case map_of (mg_agents m) sid of None \<Rightarrow> (Inr sid, m) | Some a \<Rightarrow> root_of M (sa_agent a) m)"

definition hidden_mcp_servers :: "'e manager_parts \<Rightarrow> agent \<Rightarrow> ('e manager, string list) comp" where
  "hidden_mcp_servers M a = bindE (root_of M a) (\<lambda>sid. gets (\<lambda>m. hidden_servers sid (choices_of m)))"

end
