(* ===== verification/Manager_Properties.thy ===== *)
theory Manager_Properties
  imports Sandbox_Manager
begin

text \<open>
  The steps of the manager over its life, and what holds of it: no sandbox runs on without a
  countdown, whatever the lifecycle, the turns and the countdowns interleave.
\<close>

section \<open>Steps\<close>

text \<open>A countdown's tick holds the session's lock from its guard to the end of its \<open>hibernate\<close>.\<close>

definition locked :: "string \<Rightarrow> 'e manager \<Rightarrow> bool" where
  "locked sid m \<longleftrightarrow> (\<exists>expected allowed. (sid, expected, Asked allowed) \<in> set (ticks (mg_sched m)))"

definition tick_fires :: "string \<Rightarrow> idle_timer \<Rightarrow> 'e manager \<Rightarrow> 'e manager" where
  "tick_fires sid t m = m\<lparr>mg_sched := (act Other (fire sid t) (mg_sched m))
     \<lparr>ticks := (sid, t_expects t, Awaiting) # ticks (mg_sched m)\<rparr>\<rparr>"

definition tick_asks ::
  "(string \<times> nat \<times> tick_stage) list \<Rightarrow> string \<Rightarrow> nat \<Rightarrow> (string \<times> nat \<times> tick_stage) list \<Rightarrow> 'e manager \<Rightarrow> 'e manager" where
  "tick_asks xs sid expected ys m = m\<lparr>mg_sched := (act Other id (mg_sched m))
     \<lparr>ticks := xs @ (sid, expected, Asked (tick_guard sid expected (sched (mg_sched m)))) # ys\<rparr>\<rparr>"

text \<open>The \<open>hibernate\<close> the guard was asked for, and what the tick does with its outcome.\<close>

definition tick_ends ::
  "'e manager_parts \<Rightarrow> (string \<times> nat \<times> tick_stage) list \<Rightarrow> string \<Rightarrow> nat \<Rightarrow> bool
   \<Rightarrow> (string \<times> nat \<times> tick_stage) list \<Rightarrow> 'e manager \<Rightarrow> 'e manager" where
  "tick_ends M xs sid expected allowed ys m =
    (case on_engine M (\<lambda>d. hibernate_session d sid (\<lambda>_. allowed)) m of
       (Inr suspended, m1) \<Rightarrow> m1\<lparr>mg_sched :=
          (act (if \<not> suspended \<and> has_live sid (sched (mg_sched m1)) then Scheduled sid
                else if allowed \<and> or_else (map_of (activity (sched (mg_sched m1))) sid) 0 = expected then Settled sid
                else Other)
             (tick_answered (idle_delay m1) sid suspended) (mg_sched m1))\<lparr>ticks := xs @ ys\<rparr>\<rparr>
     | (Inl er, m1) \<Rightarrow> m1\<lparr>mg_sched :=
          (act (if or_else (map_of (activity (sched (mg_sched m1))) sid) 0 = expected then Scheduled sid else Other)
             (tick_failed (idle_delay m1) sid expected) (mg_sched m1))\<lparr>ticks := xs @ ys\<rparr>\<rparr>)"

text \<open>A call of \<open>ensureRunning\<close> comes back.\<close>

definition serve_ends :: "'e manager_parts \<Rightarrow> session_agent \<Rightarrow> string \<Rightarrow> 'e manager \<Rightarrow> 'e manager" where
  "serve_ends M a sid m =
    (case ensure_finish M a sid (m\<lparr>mg_serving := remove1 (sid, a) (mg_serving m)\<rparr>) of
       (Inr c, m') \<Rightarrow> m'\<lparr>mg_failed := mg_failed m' - {sid}\<rparr>
     | (Inl er, m') \<Rightarrow> m'\<lparr>mg_failed := insert sid (mg_failed m')\<rparr>)"

definition serve_begins :: "'e manager_parts \<Rightarrow> session_agent \<Rightarrow> 'e manager \<Rightarrow> 'e manager" where
  "serve_begins M a m =
    (case ensure_begin M a m of
       (Inr sid, m') \<Rightarrow> m'\<lparr>mg_serving := (sid, a) # mg_serving m'\<rparr>
     | (Inl er, m') \<Rightarrow> m')"

inductive manager_step :: "'e manager_parts \<Rightarrow> 'e manager \<Rightarrow> 'e manager \<Rightarrow> bool" for M where
  runs: "manager_step M m (snd (agent_running M a m))"
| turn_starts: "manager_step M m (snd (turn_start_event M session turn m))"
| turn_ends: "manager_step M m (snd (turn_end_event M session m))"
| begins: "manager_step M m (serve_begins M a m)"
| serves: "(sid, a) \<in> set (mg_serving m) \<Longrightarrow> \<not> locked sid m \<Longrightarrow> manager_step M m (serve_ends M a sid m)"
| noted: "manager_step M m (snd (note_activity M a m))"
| previews: "manager_step M m (mark_previewed sandbox m)"
| hibernates: "\<not> locked sid m \<Longrightarrow> manager_step M m (snd (manager_hibernate M sid m))"
| releases: "\<not> locked sid m \<Longrightarrow> manager_step M m (snd (manager_release M sid m))"
| reconciles: "\<forall>sid \<in> set (archived_records m). \<not> locked sid m \<Longrightarrow> manager_step M m (snd (reconcile_archived M m))"
| fires: "map_of (timers (sched (mg_sched m))) sid = Some t \<Longrightarrow> t_armed t \<Longrightarrow> manager_step M m (tick_fires sid t m)"
| asks: "ticks (mg_sched m) = xs @ (sid, expected, Awaiting) # ys \<Longrightarrow> \<not> locked sid m \<Longrightarrow>
    manager_step M m (tick_asks xs sid expected ys m)"
| tick_done: "ticks (mg_sched m) = xs @ (sid, expected, Asked allowed) # ys \<Longrightarrow>
    manager_step M m (tick_ends M xs sid expected allowed ys m)"
| disposes: "manager_step M m (on_idle Disposed dispose m)"
| elsewhere: "manager_step M m (m\<lparr>mg_agents := agents, mg_runtime := settings, mg_servers := servers,
    mg_archived := archived, mg_world := (mg_world m)\<lparr>w_env := e\<rparr>\<rparr>)"

text \<open>A host boots on a disk an earlier one left, at any of its writes.\<close>

inductive manager_reachable :: "'e manager_parts \<Rightarrow> 'e manager \<Rightarrow> bool" for M where
  boot: "new_manager M settings (first_world e) = Inr m \<Longrightarrow> manager_initialize M m = (Inr (), m') \<Longrightarrow>
    manager_reachable M m'"
| step: "manager_reachable M m \<Longrightarrow> manager_step M m m' \<Longrightarrow> manager_reachable M m'"
| restart: "manager_reachable M m \<Longrightarrow> im = image_of (mg_world m) \<or> Written im \<in> set (w_log (mg_world m)) \<Longrightarrow>
    new_manager M settings (rebooted im (mg_world m)) = Inr m1 \<Longrightarrow>
    manager_initialize M m1 = (Inr (), m2) \<Longrightarrow> manager_reachable M m2"

section \<open>The invariant\<close>

text \<open>The last thing the history says of a session's countdown: asked for, marked active since, or lost
  with the schedule; but not settled, and not nothing.\<close>

fun unsettled :: "string \<Rightarrow> idle_note list \<Rightarrow> bool" where
  "unsettled sid [] = False"
| "unsettled sid (n # ns) =
    (if n \<in> {Scheduled sid, Ended sid, Marked sid, Disposed} then True
     else if n = Settled sid then False else unsettled sid ns)"

fun lapsed :: "string \<Rightarrow> idle_note list \<Rightarrow> bool" where
  "lapsed sid [] = False"
| "lapsed sid (n # ns) =
    (if n \<in> {Marked sid, Disposed} then True
     else if n \<in> {Scheduled sid, Ended sid, Settled sid} then False else lapsed sid ns)"

lemma unsettled_cases: "unsettled sid ns \<Longrightarrow> due sid ns \<or> lapsed sid ns"
  by (induction ns) (auto split: if_splits)

definition schedule_ok :: "idle_world \<Rightarrow> bool" where
  "schedule_ok w \<longleftrightarrow> idle_tracks w \<and> (\<forall>sid. due sid (past w) \<longrightarrow> carried sid w)"

lemma schedule_ok_start: "schedule_ok idle_start"
  using idle_tracks_start by (simp add: schedule_ok_def idle_start_def)

lemma schedule_ok_step: "schedule_ok w \<Longrightarrow> idle_step h w w' \<Longrightarrow> schedule_ok w'"
  unfolding schedule_ok_def using idle_tracks_step carried_step by blast

lemma schedule_ok_act:
  "schedule_ok w \<Longrightarrow> schedule_ok (act (Marked sid) (mark_active sid) w)"
  "schedule_ok w \<Longrightarrow> schedule_ok (act (Scheduled sid) (schedule h sid) w)"
  "schedule_ok w \<Longrightarrow> schedule_ok (act (Begun sid) (begin_turn sid) w)"
  "schedule_ok w \<Longrightarrow> schedule_ok (act (Ended sid) (end_turn h sid) w)"
  "schedule_ok w \<Longrightarrow> schedule_ok (act Disposed dispose w)"
  by (erule schedule_ok_step, rule idle_step.intros)+

definition runs_in :: "string \<Rightarrow> 'e world \<Rightarrow> bool" where
  "runs_in sid w \<longleftrightarrow> (\<exists>r. record_of sid w = Some r \<and> is_running (record_state r))"

definition manager_ok :: "'e manager \<Rightarrow> bool" where
  "manager_ok m \<longleftrightarrow> world_ok (mg_world m) \<and> schedule_ok (mg_sched m) \<and>
     (\<forall>sid. runs_in sid (mg_world m) \<longrightarrow> sid \<in> mg_failed m \<or> unsettled sid (past (mg_sched m)))"

section \<open>What the verbs do to running records\<close>

lemma others_kept:
  assumes "world_ok w" and "k \<noteq> sid"
  shows "runs_in k (snd (ensure_running d sid repo w)) = runs_in k w"
    "runs_in k (snd (hibernate_session d sid g w)) = runs_in k w"
    "runs_in k (snd (release d sid g w)) = runs_in k w"
  using framed_verbs [OF assms(1), of sid d] assms(2) by (auto simp: frame_def runs_in_def)

text \<open>A hibernate that was allowed and came back leaves no running record.\<close>

lemma hibernate_stops:
  assumes "world_ok w" and "hibernate_session d sid (\<lambda>_. True) w = (Inr b, w')"
  shows "\<not> runs_in sid w'"
proof (cases "runs_in sid w")
  case False
  then have "hibernate_session d sid (\<lambda>_. True) w = (Inr True, w)"
    by (intro hibernate_without_effect [where g = "\<lambda>_. True", simplified]) (auto simp: runs_in_def)
  with assms(2) False show ?thesis by simp
next
  case True
  then obtain r sb ref where r: "record_of sid w = Some r" "record_state r = Running sb ref"
    by (auto simp: runs_in_def elim: is_running.elims)
  have k: "session_id r = sid" using ok_key [OF assms(1) r(1)] .
  have "wp (react react_fuel d sid HibernateEvent) (\<lambda>_ t. \<not> runs_in sid t) (\<lambda>_ _. True) w"
  proof (cases "find_backend (ld_registry d) r")
    case None
    then show ?thesis
      unfolding wp_hibernate_event r(1)
      by (simp add: dispatch_def r(2) wp_simps suspend_running_def backend_for_def)
  next
    case (Some b)
    have stops: "parked b r t \<or> gone sid t \<Longrightarrow> \<not> runs_in sid t" for t
      by (auto simp: parked_def gone_def runs_in_def parked_record_def k r(2) split: bool.splits session_state.splits option.splits)
    have "wp (suspend_running d r sb ref) (\<lambda>_ t. \<not> runs_in sid t) (\<lambda>_ _. True) w"
      by (rule wp_mono [OF suspend_leaves [OF r(2) Some]]) (use stops k in auto)
    then show ?thesis
      unfolding wp_hibernate_event r(1) by (simp add: dispatch_def r(2) wp_simps)
  qed
  then have "wp (hibernate_session d sid (\<lambda>_. True)) (\<lambda>_ t. \<not> runs_in sid t) (\<lambda>_ _. True) w"
    by (simp add: hibernate_session_def wp_simps)
  from wp_resultD [OF this assms(2)] show ?thesis .
qed

text \<open>Neither a hibernate nor a release starts anything.\<close>

lemma hibernate_starts_nothing: "\<not> runs_in sid w \<Longrightarrow> \<not> runs_in sid (snd (hibernate_session d sid g w))"
  using hibernate_without_effect [of g w sid d] by (auto simp: runs_in_def)

lemma release_starts_nothing:
  assumes "world_ok w" and "\<not> runs_in sid w"
  shows "\<not> runs_in sid (snd (release d sid g w))"
proof (cases "record_of sid w")
  case None
  then show ?thesis using assms(2) by (simp add: release_def bindE_def gets_def ret_def)
next
  case (Some r)
  show ?thesis
  proof (cases "find_backend (ld_registry d) r")
    case None
    from release_keeps_orphan [OF Some None, of g] assms(2) show ?thesis by (auto simp: runs_in_def)
  next
    case found: (Some b)
    have k: "session_id r = sid" using ok_key [OF assms(1) Some] .
    have "wp (react react_fuel d sid ReleaseEvent) (\<lambda>_ t. \<not> runs_in sid t) (\<lambda>_ t. \<not> runs_in sid t) w"
      unfolding wp_release_event Some dispatch_release wp_quietly
      by (rule wp_mono [OF release_session_leaves [OF _ found]])
        (use Some k assms(2) in \<open>auto simp: gone_def runs_in_def\<close>)
    then have "wp (release d sid g) (\<lambda>_ t. \<not> runs_in sid t) (\<lambda>_ t. \<not> runs_in sid t) w"
      using assms(2) Some by (simp add: release_def wp_simps)
    then show ?thesis by (rule wp_finalD)
  qed
qed

section \<open>What keeps the invariant\<close>

lemma manager_okI:
  assumes "world_ok (mg_world m')" and "schedule_ok (mg_sched m')"
    and "\<And>sid. runs_in sid (mg_world m') \<Longrightarrow> sid \<notin> mg_failed m' \<Longrightarrow> unsettled sid (past (mg_sched m'))"
  shows "manager_ok m'"
  using assms by (auto simp: manager_ok_def)

text \<open>A world with the same records.\<close>

definition same_records :: "'e world \<Rightarrow> 'e world \<Rightarrow> bool" where
  "same_records w w' \<longleftrightarrow> (world_ok w \<longrightarrow> world_ok w') \<and> (\<forall>k. record_of k w' = record_of k w)"

lemma same_records_refl: "same_records w w"
  by (simp add: same_records_def)

lemma same_records_env: "same_records w (w\<lparr>w_env := e\<rparr>)"
  using ok_same(1) [of w e] by (simp add: same_records_def moved_def)

lemma same_records_note: "same_records w (note_written (w\<lparr>w_env := e\<rparr>))"
proof -
  have eq: "note_written (w\<lparr>w_env := e\<rparr>) = filed id e w"
    unfolding filed_def id_apply by (cases w) (simp only: world.simps)
  show ?thesis unfolding eq same_records_def by (intro conjI impI allI) (erule ok_same(4), simp)
qed

lemma manager_ok_same:
  assumes "manager_ok m" and "same_records (mg_world m) (mg_world m')" and "mg_sched m' = mg_sched m"
    and "mg_failed m' = mg_failed m"
  shows "manager_ok m'"
  using assms by (auto simp: manager_ok_def same_records_def runs_in_def)

lemma manager_ok_idle:
  assumes "manager_ok m" and "schedule_ok (act n f (mg_sched m))" and "\<And>sid. n \<noteq> Settled sid"
  shows "manager_ok (on_idle n f m)"
  using assms by (auto simp: manager_ok_def on_idle_def)

lemma schedule_of_ok: "manager_ok m \<Longrightarrow> schedule_ok (mg_sched m)"
  by (simp add: manager_ok_def)

lemma ok_touch: "manager_ok m \<Longrightarrow> manager_ok (touch sid m)"
  unfolding touch_def by (rule manager_ok_idle) (simp_all add: schedule_of_ok schedule_ok_act)

lemma ok_arm: "manager_ok m \<Longrightarrow> manager_ok (arm sid m)"
  unfolding arm_def by (rule manager_ok_idle) (simp_all add: schedule_of_ok schedule_ok_act)

lemma manager_simps [simp]:
  "mg_world (on_idle n f m) = mg_world m" "mg_sched (on_idle n f m) = act n f (mg_sched m)"
  "mg_failed (on_idle n f m) = mg_failed m"
  "mg_sched (log_warning M t m) = mg_sched m" "mg_failed (log_warning M t m) = mg_failed m"
  "mg_world (log_warning M t m) = (mg_world m)\<lparr>w_env := ld_warn (mp_deps M) t (w_env (mg_world m))\<rparr>"
  by (simp_all add: on_idle_def log_warning_def)

lemma ok_warning: "manager_ok m \<Longrightarrow> manager_ok (log_warning M t m)"
  by (rule manager_ok_same) (simp_all add: same_records_env)

abbreviation okay :: "('e manager, 'a) comp \<Rightarrow> bool" where
  "okay \<equiv> preserves manager_ok"

lemma okay_root_of [preserves_rules]: "okay (root_of M a)"
proof -
  have "manager_ok (m\<lparr>mg_roots := rs\<rparr>)" if "manager_ok m" for m :: "'a manager" and rs
    by (rule manager_ok_same [OF that]) (simp_all add: same_records_refl)
  then show ?thesis
    by (auto simp: preserves_def root_of_def Let_def ok_warning split: option.split)
qed

lemma okay_root_of_session [preserves_rules]: "okay (root_of_session M sid)"
  using preserves_snd [OF okay_root_of] by (auto simp: preserves_def root_of_session_def split: option.split)

lemma okay_sync [preserves_rules]: "okay (sync_runtime_settings M)"
proof -
  have "manager_ok (m\<lparr>mg_registry := reg, mg_applied := ps\<rparr>)" if "manager_ok m" for m :: "'a manager" and reg ps
    by (rule manager_ok_same [OF that]) (simp_all add: same_records_refl)
  then show ?thesis
    by (auto simp: preserves_def sync_runtime_settings_def Let_def ok_warning split: prod.split sum.split)
qed

lemma ok_touch_running: "manager_ok m \<Longrightarrow> manager_ok (touch_running sid m)"
  by (auto simp: touch_running_def ok_arm ok_touch split: option.split)

lemma ok_mark_previewed: "manager_ok m \<Longrightarrow> manager_ok (mark_previewed sandbox m)"
  by (auto simp: mark_previewed_def ok_arm ok_touch split: option.split)

subsection \<open>The verbs of the lifecycle\<close>

lemma on_engine_simps [simp]:
  "mg_sched (snd (on_engine M f m)) = mg_sched m" "mg_failed (snd (on_engine M f m)) = mg_failed m"
  "mg_world (snd (on_engine M f m)) = snd (f (engine M m) (mg_world m))"
  by (simp_all add: on_engine_def split: prod.split)

lemma fst_on_engine: "fst (on_engine M f m) = fst (f (engine M m) (mg_world m))"
  by (simp add: on_engine_def split: prod.split)

lemma ok_verbs:
  assumes "world_ok w"
  shows "world_ok (snd (ensure_running d sid repo w))" "world_ok (snd (hibernate_session d sid g w))"
    "world_ok (snd (release d sid g w))"
  using ok_perform [OF assms, of d "Ensure sid repo"] ok_perform [OF assms, of d "Hibernate sid g"]
    ok_perform [OF assms, of d "Release sid g"] by simp_all

lemma ok_engine_hibernate: "okay (on_engine M (\<lambda>d. hibernate_session d sid g))"
  unfolding preserves_def
proof (intro allI impI)
  fix m :: "'a manager"
  assume ok: "manager_ok m"
  then have w: "world_ok (mg_world m)" by (simp add: manager_ok_def)
  have "runs_in k (mg_world m)" if "runs_in k (snd (hibernate_session (engine M m) sid g (mg_world m)))" for k
    using that others_kept(2) [OF w, of k sid] hibernate_starts_nothing [of sid "mg_world m"] by (cases "k = sid") auto
  then show "manager_ok (snd (on_engine M (\<lambda>d. hibernate_session d sid g) m))"
    using ok w by (intro manager_okI) (auto simp: ok_verbs manager_ok_def)
qed

lemma ok_engine_release: "okay (on_engine M (\<lambda>d. release d sid g))"
  unfolding preserves_def
proof (intro allI impI)
  fix m :: "'a manager"
  assume ok: "manager_ok m"
  then have w: "world_ok (mg_world m)" by (simp add: manager_ok_def)
  have "runs_in k (mg_world m)" if "runs_in k (snd (release (engine M m) sid g (mg_world m)))" for k
    using that others_kept(3) [OF w, of k sid] release_starts_nothing [OF w, of sid] by (cases "k = sid") auto
  then show "manager_ok (snd (on_engine M (\<lambda>d. release d sid g) m))"
    using ok w by (intro manager_okI) (auto simp: ok_verbs manager_ok_def)
qed

lemma okay_release [preserves_rules]: "okay (manager_release M sid)"
  using preserves_snd [OF ok_engine_release] by (auto simp: preserves_def manager_release_def)

lemma okay_hibernate: "okay (manager_hibernate M sid)"
  unfolding manager_hibernate_def by (intro preserves_rules preserves_modify ok_engine_hibernate)

lemma okay_release_each [preserves_rules]: "okay (release_each M sids)"
  by (induction sids) (simp_all add: preserves_rules)

lemma okay_reconcile: "okay (reconcile_archived M)"
  unfolding reconcile_archived_def by (intro preserves_rules preserves_modify ok_warning)

text \<open>An \<open>ensureRunning\<close> that answers arms the session; one that throws is remembered as failed.\<close>

lemma ensure_finish_cases:
  assumes "ensure_finish M a sid m = (r, m')"
  obtains (answered) w c where "r = Inr c" "ensure_running (engine M m) sid (repository_for M None (or_else (map_of (mg_agents m) sid) a)) (mg_world m) = (Inr c, w)"
      "m' = arm sid (m\<lparr>mg_world := w\<rparr>)"
  | (failed) w er where "r = Inl er" "ensure_running (engine M m) sid (repository_for M None (or_else (map_of (mg_agents m) sid) a)) (mg_world m) = (Inl er, w)"
      "m' = m\<lparr>mg_world := w\<rparr>"
proof -
  let ?run = "ensure_running (engine M m) sid (repository_for M None (or_else (map_of (mg_agents m) sid) a)) (mg_world m)"
  obtain q w where run: "?run = (q, w)" by (rule prod.exhaust)
  show thesis
  proof (cases q)
    case (Inl er)
    with run assms show thesis by (intro failed) (auto simp: ensure_finish_def comp_defs on_engine_def)
  next
    case (Inr c)
    with run assms show thesis by (intro answered) (auto simp: ensure_finish_def comp_defs on_engine_def)
  qed
qed

lemma ok_serve_ends:
  assumes "manager_ok m"
  shows "manager_ok (serve_ends M a sid m)"
proof -
  let ?m = "m\<lparr>mg_serving := remove1 (sid, a) (mg_serving m)\<rparr>"
  have ok: "manager_ok ?m" by (rule manager_ok_same [OF assms]) (simp_all add: same_records_refl)
  have w: "world_ok (mg_world ?m)" using ok by (simp add: manager_ok_def)
  obtain r m' where f: "ensure_finish M a sid ?m = (r, m')" by (rule prod.exhaust)
  have others: "unsettled k (past (mg_sched m))"
    if "runs_in k w'" "k \<noteq> sid" "k \<notin> mg_failed m" "w' = snd (ensure_running d sid repo (mg_world m))" for k w' d repo
    using that others_kept(1) [OF w, of k sid] ok by (auto simp: manager_ok_def)
  show ?thesis
    using f
  proof (cases rule: ensure_finish_cases)
    case (answered w' c)
    have w': "w' = snd (ensure_running (engine M ?m) sid (repository_for M None (or_else (map_of (mg_agents ?m) sid) a)) (mg_world m))"
      using answered(2) by simp
    have sched: "schedule_ok (mg_sched m')"
      using schedule_of_ok [OF ok] by (simp add: answered(3) arm_def schedule_ok_act)
    show ?thesis
      unfolding serve_ends_def f answered(1)
      by (rule manager_okI)
        (use sched w' ok_verbs(1) [OF w] others in \<open>auto simp: answered(3) arm_def\<close>)
  next
    case (failed w' er)
    have w': "w' = snd (ensure_running (engine M ?m) sid (repository_for M None (or_else (map_of (mg_agents ?m) sid) a)) (mg_world m))"
      using failed(2) by simp
    show ?thesis
      unfolding serve_ends_def f failed(1)
      by (rule manager_okI)
        (use schedule_of_ok [OF ok] w' ok_verbs(1) [OF w] others in \<open>auto simp: failed(3)\<close>)
  qed
qed

lemma ok_serve_begins:
  assumes "manager_ok m"
  shows "manager_ok (serve_begins M a m)"
proof -
  obtain r m' where b: "ensure_begin M a m = (r, m')" by (rule prod.exhaust)
  have "okay (ensure_begin M a)"
    unfolding ensure_begin_def by (intro preserves_rules preserves_modify ok_touch)
  with assms b have ok: "manager_ok m'" by (metis preserves_snd snd_conv)
  have "manager_ok (m'\<lparr>mg_serving := x\<rparr>)" for x
    by (rule manager_ok_same [OF ok]) (simp_all add: same_records_refl)
  with ok b show ?thesis by (cases r) (simp_all add: serve_begins_def)
qed

subsection \<open>Turns\<close>

lemma settled_store:
  "same_records w (note_written (w\<lparr>w_store := fst (snd (settle (set_disabled_mcp_servers flush sid ns) (w_store w, w_env w))),
     w_env := snd (snd (settle (set_disabled_mcp_servers flush sid ns) (w_store w, w_env w)))\<rparr>))"
proof -
  let ?m = "set_disabled_mcp_servers flush sid ns"
  have get: "get_record k (put_disabled sid ns f) = get_record k f" for k f
    by (simp add: put_disabled_def get_record_def)
  have ok: "world_ok w \<Longrightarrow> file_ok (put_disabled sid ns (mem (w_store w))) (w_files w)"
    using ok_mem [of w] by (simp add: file_ok_def get)
  have "wp (on_store ?m) (\<lambda>_. same_records w) (\<lambda>_. same_records w) w"
    unfolding set_disabled_mcp_servers_def
    by (rule wp_change_persist)
      (auto simp: same_records_def get intro: ok_stored ok_unstored ok)
  then have "same_records w (snd (on_store ?m w))" by (rule wp_finalD)
  moreover have "snd (settle ?m s) = snd (?m s)" for s
    by (simp add: settle_def catchE_def ret_def split: prod.split sum.split)
  ultimately show ?thesis by (simp add: on_store_def split: prod.splits)
qed

lemma put_choices_simps [simp]:
  "mg_sched (put_choices s m) = mg_sched m" "mg_failed (put_choices s m) = mg_failed m"
  "mg_world (put_choices s m) = note_written ((mg_world m)\<lparr>w_store := cs_store s, w_env := cs_env s\<rparr>)"
  by (simp_all add: put_choices_def)

lemma choices_of_simps [simp]:
  "cs_store (choices_of m) = w_store (mg_world m)" "cs_env (choices_of m) = w_env (mg_world m)"
  by (simp_all add: choices_of_def)

lemma same_records_written: "same_records w (note_written w)"
  using same_records_note [of w "w_env w"] by simp

lemma freeze_records:
  "same_records (mg_world m) (mg_world (on_choices (\<lambda>s. choice_begin_turn sid (choice_freeze flush sid turn s)) m))"
proof -
  have begins: "cs_store (choice_begin_turn sid s) = cs_store s" "cs_env (choice_begin_turn sid s) = cs_env s" for s :: "'a choice_state"
    by (simp_all add: choice_begin_turn_def)
  show ?thesis
  proof (cases "disabled_servers sid (mem (w_store (mg_world m))) = None")
    case False
    then have "choice_freeze flush sid turn (choices_of m) = choices_of m" by (simp add: choice_freeze_def)
    then show ?thesis unfolding on_choices_def by (simp add: begins same_records_written)
  next
    case True
    define ns where "ns = (if turn > 1 then [] else mcp_defaults (cs_servers (choices_of m)))"
    obtain q st e where s: "settle (set_disabled_mcp_servers flush sid ns) (w_store (mg_world m), w_env (mg_world m)) = (q, (st, e))"
      by (metis prod.exhaust)
    have "choice_freeze flush sid turn (choices_of m) =
        notify (snd (on_choice_store (settle (set_disabled_mcp_servers flush sid ns)) (choices_of m)))"
      using True by (simp add: choice_freeze_def ns_def)
    then have "cs_store (choice_freeze flush sid turn (choices_of m)) = st" "cs_env (choice_freeze flush sid turn (choices_of m)) = e"
      by (simp_all add: notify_def on_choice_store_def s)
    then show ?thesis
      unfolding on_choices_def using settled_store [of "mg_world m" flush sid ns] by (simp add: begins s)
  qed
qed

lemma end_records:
  "same_records (mg_world m) (mg_world (on_choices (\<lambda>s. case choice_end_turn sid s of (changed, s') \<Rightarrow> if changed then notify s' else s') m))"
proof -
  have "cs_store (case choice_end_turn sid s of (changed, s') \<Rightarrow> if changed then notify s' else s') = cs_store s"
    "cs_env (case choice_end_turn sid s of (changed, s') \<Rightarrow> if changed then notify s' else s') = cs_env s" for s :: "'a choice_state"
    by (simp_all add: choice_end_turn_def notify_def Let_def split: prod.split if_split)
  then show ?thesis unfolding on_choices_def by (simp add: same_records_written)
qed

lemma on_choices_simps [simp]: "mg_sched (on_choices f m) = mg_sched m" "mg_failed (on_choices f m) = mg_failed m"
  by (simp_all add: on_choices_def)

lemma okay_turn_start: "okay (turn_start_event M session turn)"
proof -
  have "manager_ok (on_choices (\<lambda>s. choice_begin_turn sid (choice_freeze fl sid turn s)) m)" if "manager_ok m" for m :: "'a manager" and sid fl
    by (rule manager_ok_same [OF that freeze_records]) simp_all
  moreover have "manager_ok (on_idle (Begun sid) (begin_turn sid) m)" if "manager_ok m" for m :: "'a manager" and sid
    by (rule manager_ok_idle) (simp_all add: that schedule_of_ok schedule_ok_act)
  ultimately show ?thesis unfolding turn_start_event_def by (intro preserves_rules preserves_modify)
qed

lemma okay_turn_end: "okay (turn_end_event M session)"
proof -
  have "manager_ok (on_choices (\<lambda>s. case choice_end_turn sid s of (changed, s') \<Rightarrow> if changed then notify s' else s') m)"
    if "manager_ok m" for m :: "'a manager" and sid
    by (rule manager_ok_same [OF that end_records]) simp_all
  moreover have "manager_ok (on_idle (Ended sid) (end_turn h sid) m)" if "manager_ok m" for m :: "'a manager" and sid h
    by (rule manager_ok_idle) (simp_all add: that schedule_of_ok schedule_ok_act)
  ultimately show ?thesis unfolding turn_end_event_def by (intro preserves_rules preserves_modify)
qed

subsection \<open>Ticks\<close>

lemma ok_tick_fires:
  assumes "manager_ok m" and "map_of (timers (sched (mg_sched m))) sid = Some t" and "t_armed t"
  shows "manager_ok (tick_fires sid t m)"
  using assms(1) schedule_ok_step [OF schedule_of_ok [OF assms(1)] idle_step.fires [OF assms(2,3)]]
  by (auto simp: manager_ok_def tick_fires_def)

lemma ok_tick_asks:
  assumes "manager_ok m" and "ticks (mg_sched m) = xs @ (sid, expected, Awaiting) # ys"
  shows "manager_ok (tick_asks xs sid expected ys m)"
  using assms(1) schedule_ok_step [OF schedule_of_ok [OF assms(1)] idle_step.asks [OF assms(2)]]
  by (auto simp: manager_ok_def tick_asks_def)

lemma ok_tick_ends:
  assumes "manager_ok m" and "ticks (mg_sched m) = xs @ (sid, expected, Asked allowed) # ys"
  shows "manager_ok (tick_ends M xs sid expected allowed ys m)"
proof -
  obtain r m1 where h: "on_engine M (\<lambda>d. hibernate_session d sid (\<lambda>_. allowed)) m = (r, m1)" by (rule prod.exhaust)
  have ok: "manager_ok m1" using preserves_snd [OF ok_engine_hibernate assms(1)] h by (metis snd_conv)
  have sched: "mg_sched m1 = mg_sched m" using on_engine_simps(1) h by (metis snd_conv)
  have run: "hibernate_session (engine M m) sid (\<lambda>_. allowed) (mg_world m) = (r, mg_world m1)"
    using h by (auto simp: on_engine_def split: prod.splits)
  have "manager_ok (case r of
       Inr suspended \<Rightarrow> m1\<lparr>mg_sched :=
          (act (if \<not> suspended \<and> has_live sid (sched (mg_sched m1)) then Scheduled sid
                else if allowed \<and> or_else (map_of (activity (sched (mg_sched m1))) sid) 0 = expected then Settled sid
                else Other)
             (tick_answered (idle_delay m1) sid suspended) (mg_sched m1))\<lparr>ticks := xs @ ys\<rparr>\<rparr>
     | Inl er \<Rightarrow> m1\<lparr>mg_sched :=
          (act (if or_else (map_of (activity (sched (mg_sched m1))) sid) 0 = expected then Scheduled sid else Other)
             (tick_failed (idle_delay m1) sid expected) (mg_sched m1))\<lparr>ticks := xs @ ys\<rparr>\<rparr>)"
  proof (cases r)
    case (Inl er)
    have "schedule_ok ((act (if or_else (map_of (activity (sched (mg_sched m))) sid) 0 = expected then Scheduled sid else Other)
             (tick_failed (idle_delay m1) sid expected) (mg_sched m))\<lparr>ticks := xs @ ys\<rparr>)"
      by (rule schedule_ok_step [OF schedule_of_ok [OF assms(1)] idle_step.fails [OF assms(2)]])
    then show ?thesis using ok Inl sched by (auto simp: manager_ok_def)
  next
    case (Inr suspended)
    have granted: "suspended = allowed"
      using run Inr by (auto simp: hibernate_session_def comp_defs split: if_splits prod.splits sum.splits)
    have sched': "schedule_ok ((act (if \<not> suspended \<and> has_live sid (sched (mg_sched m)) then Scheduled sid
                else if allowed \<and> or_else (map_of (activity (sched (mg_sched m))) sid) 0 = expected then Settled sid
                else Other)
             (tick_answered (idle_delay m1) sid suspended) (mg_sched m))\<lparr>ticks := xs @ ys\<rparr>)"
      by (rule schedule_ok_step [OF schedule_of_ok [OF assms(1)] idle_step.answers [OF assms(2)]]) (simp add: granted)
    have stopped: "\<not> runs_in sid (mg_world m1)" if allowed
    proof -
      have "hibernate_session (engine M m) sid (\<lambda>_. True) (mg_world m) = (Inr suspended, mg_world m1)"
        using run Inr that by simp
      moreover have "world_ok (mg_world m)" using assms(1) by (simp add: manager_ok_def)
      ultimately show ?thesis by (rule hibernate_stops [rotated])
    qed
    show ?thesis
      unfolding Inr sum.case
      by (rule manager_okI) (use ok sched sched' stopped in \<open>auto simp: manager_ok_def\<close>)
  qed
  then show ?thesis unfolding tick_ends_def h by (cases r) simp_all
qed

subsection \<open>All steps\<close>

lemma manager_step_ok:
  assumes "manager_step M m m'" and "manager_ok m"
  shows "manager_ok m'"
  using assms
proof (induction rule: manager_step.induct)
  case (runs m a)
  have "okay (agent_running M a)" unfolding agent_running_def by (intro preserves_rules preserves_modify ok_touch)
  with runs show ?case by (simp add: preserves_snd)
next
  case (noted m a)
  have "okay (note_activity M a)" unfolding note_activity_def by (intro preserves_rules preserves_modify ok_touch_running)
  with noted show ?case by (simp add: preserves_snd)
next
  case (disposes m)
  then show ?case by (intro manager_ok_idle) (simp_all add: schedule_of_ok schedule_ok_act)
next
  case (elsewhere m agents settings servers archived e)
  show ?case by (rule manager_ok_same [OF elsewhere]) (simp_all add: same_records_env)
qed (simp_all add: preserves_snd okay_turn_start okay_turn_end ok_serve_begins ok_serve_ends ok_mark_previewed okay_hibernate
    okay_release okay_reconcile ok_tick_fires ok_tick_asks ok_tick_ends)

lemma ok_arm_all:
  "world_ok (mg_world m) \<Longrightarrow> schedule_ok (mg_sched m) \<Longrightarrow>
     schedule_ok (mg_sched (fold arm sids m)) \<and> mg_world (fold arm sids m) = mg_world m
     \<and> (\<forall>sid. sid \<in> set sids \<or> unsettled sid (past (mg_sched m)) \<longrightarrow> unsettled sid (past (mg_sched (fold arm sids m))))"
proof (induction sids arbitrary: m)
  case (Cons s sids)
  have "schedule_ok (mg_sched (arm s m))" using Cons.prems by (simp add: arm_def schedule_ok_act)
  with Cons.IH [of "arm s m"] Cons.prems show ?case by (auto simp: arm_def)
qed simp

lemma running_sessions_all:
  assumes "world_ok (mg_world m)" and "runs_in sid (mg_world m)"
  shows "sid \<in> set (running_sessions m)"
proof -
  obtain r where r: "record_of sid (mg_world m) = Some r" "is_running (record_state r)"
    using assms(2) by (auto simp: runs_in_def)
  have "get_record sid (mem (w_store (mg_world m))) = Some r" using r(1) by simp
  then have "r \<in> set (record_values (mem (w_store (mg_world m))))"
    by (force simp: get_record_def record_values_def dest!: map_of_SomeD)
  moreover have "session_id r = sid" using ok_key [OF assms(1) r(1)] .
  ultimately show ?thesis using r(2) by (auto simp: running_sessions_def)
qed

lemma ok_boot:
  assumes "new_manager M settings w = Inr m" and "world_ok w" and "manager_initialize M m = (Inr (), m')"
  shows "manager_ok m'"
proof -
  from assms(1) have m: "mg_world m = w" "mg_sched m = idle_start"
    by (auto simp: new_manager_def map_sum_def split: sum.splits)
  obtain r w' where i: "initialize (engine M m) (mg_world m) = (r, w')" by (rule prod.exhaust)
  with assms(3) have r: "r = Inr ()" and m': "m' = fold arm (running_sessions (m\<lparr>mg_world := w'\<rparr>)) (m\<lparr>mg_world := w'\<rparr>)"
    by (auto simp: manager_initialize_def comp_defs on_engine_def split: sum.splits prod.splits)
  have ok: "world_ok w'" using wp_finalD [OF ok_initialize [OF assms(2)], of "engine M m"] i m by simp
  have sched: "schedule_ok (mg_sched (m\<lparr>mg_world := w'\<rparr>))" by (simp add: m schedule_ok_start)
  from ok_arm_all [of "m\<lparr>mg_world := w'\<rparr>" "running_sessions (m\<lparr>mg_world := w'\<rparr>)"] ok sched
    running_sessions_all [of "m\<lparr>mg_world := w'\<rparr>"]
  show ?thesis unfolding m' by (intro manager_okI) auto
qed

lemma rebooted_ok:
  assumes "world_ok w" and "im = image_of w \<or> Written im \<in> set (w_log w)"
  shows "world_ok (rebooted im w)"
proof -
  have "image_ok im"
  proof (cases "im = image_of w")
    case False
    then have "effect_ok (Written im)" using assms unfolding world_ok_def list_all_iff by blast
    then show ?thesis by simp
  qed (use assms(1) in \<open>simp add: world_ok_def\<close>)
  with assms(1) show ?thesis
    by (auto simp: world_ok_def rebooted_def empty_state_ok image_ok_def image_of_def split: option.splits)
qed

lemma manager_reachable_ok: "manager_reachable M m \<Longrightarrow> manager_ok m"
proof (induction rule: manager_reachable.induct)
  case (boot settings e m m')
  show ?case by (rule ok_boot [OF boot(1) first_world_ok boot(2)])
next
  case (step m m')
  show ?case by (rule manager_step_ok [OF step(2) step.IH])
next
  case (restart m im settings m1 m2)
  have "world_ok (mg_world m)" using restart.IH by (simp add: manager_ok_def)
  from rebooted_ok [OF this restart(2)] show ?case by (rule ok_boot [OF restart(3) _ restart(4)])
qed

section \<open>Properties\<close>


text \<open>What a call of \<open>ensureRunning\<close> leaves of the schedule.\<close>

lemma touch_timer: "map_of (timers (sched (mg_sched (touch sid m)))) sid = None"
  by (simp add: touch_def other_timer)

lemma arm_timer: "\<exists>t. map_of (timers (sched (mg_sched (arm sid m)))) sid = Some t \<and> t_armed t
    \<and> t_expects t = or_else (map_of (activity (sched (mg_sched (arm sid m)))) sid) 0"
  by (simp add: arm_def schedule_timer)

lemma root_of_memo: "\<exists>sid m0. root_of M b m = (Inr sid, m0) \<and> map_of (mg_roots m0) (agent_id b) = Some sid"
  by (auto simp: root_of_def Let_def log_warning_def update_conv' split: option.split)

lemma ensure_begin_wp:
  assumes "ensure_begin M a m = (r, m1)"
  obtains sid m0 where "r = Inr sid" "m1 = touch sid m0" "map_of (mg_roots m1) (agent_id (sa_agent a)) = Some sid"
proof -
  have "\<exists>m'. sync_runtime_settings M m = (Inr (), m')"
    by (auto simp: sync_runtime_settings_def Let_def split: prod.split sum.split)
  then obtain m' where m': "sync_runtime_settings M m = (Inr (), m')" by blast
  from root_of_memo [of M "sa_agent a" m'] obtain sid m0
    where root: "root_of M (sa_agent a) m' = (Inr sid, m0)" "map_of (mg_roots m0) (agent_id (sa_agent a)) = Some sid" by blast
  have "mg_roots (touch sid m0) = mg_roots m0" by (simp add: touch_def on_idle_def)
  with m' assms root show thesis by (intro that [of sid m0]) (auto simp: ensure_begin_def comp_defs)
qed

text \<open>C11: an answered call of \<open>ensureRunning\<close> leaves its root session running with an armed countdown that
  counts from this very activity; a failed one leaves the session with no countdown at all, though
  its record may still say running.\<close>

theorem ensure_running_rearms:
  assumes "manager_reachable M m" and "manager_ensure_running M a m = (r, m')"
  shows "\<exists>sid. (case r of
       Inr c \<Rightarrow> (\<exists>rec. record_in sid m' = Some rec \<and> is_running (record_state rec)) \<and> client_for sid (w_clients (mg_world m')) = c \<and> c \<noteq> None
         \<and> (\<exists>t. map_of (timers (sched (mg_sched m'))) sid = Some t \<and> t_armed t
              \<and> t_expects t = or_else (map_of (activity (sched (mg_sched m'))) sid) 0)
     | Inl er \<Rightarrow> map_of (timers (sched (mg_sched m'))) sid = None)
     \<and> map_of (mg_roots m') (agent_id (sa_agent a)) = Some sid"
proof -
  obtain q m1 where b: "ensure_begin M a m = (q, m1)" by (rule prod.exhaust)
  from ensure_begin_wp [OF b] obtain sid m0 where q: "q = Inr sid" and m1: "m1 = touch sid m0"
    and memo: "map_of (mg_roots m1) (agent_id (sa_agent a)) = Some sid" by blast
  have "okay (ensure_begin M a)" unfolding ensure_begin_def by (intro preserves_rules preserves_modify ok_touch)
  with manager_reachable_ok [OF assms(1)] b have "manager_ok m1" by (metis preserves_snd snd_conv)
  then have ok: "world_ok (mg_world m1)" by (simp add: manager_ok_def)
  have f: "ensure_finish M a sid m1 = (r, m')"
    using assms(2) b q by (simp add: manager_ensure_running_def bindE_def)
  from f show ?thesis
  proof (cases rule: ensure_finish_cases)
    case (answered w c)
    from wp_resultD [OF ok_ensure [OF ok] answered(2)] obtain x where "c = Some x" "served sid x w" by auto
    then have "(\<exists>rec. record_of sid w = Some rec \<and> is_running (record_state rec)) \<and> client_for sid (w_clients w) = c \<and> c \<noteq> None"
      by (simp add: served_def)
    then show ?thesis
      using memo arm_timer [of sid "m1\<lparr>mg_world := w\<rparr>"]
      by (intro exI [where x = sid]) (simp add: answered(1,3) record_in_def arm_def on_idle_def)
  next
    case (failed w er)
    then show ?thesis
      using memo touch_timer [of sid m0] by (intro exI [where x = sid]) (simp add: m1)
  qed
qed

section \<open>One root for life\<close>

definition memo :: "string \<Rightarrow> string \<Rightarrow> 'e manager \<Rightarrow> bool" where
  "memo s r m \<longleftrightarrow> map_of (mg_roots m) s = Some r"

lemma roots_kept [simp]:
  "mg_roots (on_idle n f m) = mg_roots m" "mg_roots (log_warning M t m) = mg_roots m" "mg_roots (arm s m) = mg_roots m"
  "mg_roots (touch s m) = mg_roots m" "mg_roots (on_choices g m) = mg_roots m" "mg_roots (snd (on_engine M h m)) = mg_roots m"
  "mg_roots (touch_running s m) = mg_roots m" "mg_roots (mark_previewed b m) = mg_roots m"
  by (simp_all add: on_idle_def log_warning_def arm_def touch_def on_choices_def put_choices_def on_engine_def
      touch_running_def mark_previewed_def split: prod.split option.split)

lemma memo_root_of [preserves_rules]: "preserves (memo s r) (root_of M a)"
  by (auto simp: preserves_def memo_def root_of_def Let_def update_conv' split: option.split)

lemma memo_root_of_session [preserves_rules]: "preserves (memo s r) (root_of_session M sid)"
  using preserves_snd [OF memo_root_of] by (auto simp: preserves_def root_of_session_def split: option.split)

lemma memo_engine [preserves_rules]: "preserves (memo s r) (on_engine M f)"
  by (simp add: preserves_def memo_def)

lemma memo_release [preserves_rules]: "preserves (memo s r) (manager_release M sid)"
  by (simp add: preserves_def memo_def manager_release_def)

lemma memo_release_each [preserves_rules]: "preserves (memo s r) (release_each M sids)"
  by (induction sids) (simp_all add: preserves_rules)

lemma memo_sync [preserves_rules]: "preserves (memo s r) (sync_runtime_settings M)"
  by (auto simp: preserves_def memo_def sync_runtime_settings_def Let_def split: prod.split sum.split)

lemma memo_ensure:
  "preserves (memo s r) (ensure_begin M a)" "preserves (memo s r) (ensure_finish M a sid)"
  unfolding ensure_begin_def ensure_finish_def
  by (intro preserves_rules preserves_modify; simp add: memo_def)+

lemma memo_serve:
  assumes "memo s r m"
  shows "memo s r (serve_begins M a m)" "memo s r (serve_ends M a sid m)"
proof -
  obtain q m1 where b: "ensure_begin M a m = (q, m1)" by (rule prod.exhaust)
  have "memo s r m1" using preserves_snd [OF memo_ensure(1) assms] b by (metis snd_conv)
  then show "memo s r (serve_begins M a m)" by (cases q) (simp_all add: serve_begins_def b memo_def)
  obtain p m2 where f: "ensure_finish M a sid (m\<lparr>mg_serving := remove1 (sid, a) (mg_serving m)\<rparr>) = (p, m2)" by (rule prod.exhaust)
  have "memo s r (m\<lparr>mg_serving := remove1 (sid, a) (mg_serving m)\<rparr>)" using assms by (simp add: memo_def)
  then have "memo s r m2" using preserves_snd [OF memo_ensure(2)] f by (metis snd_conv)
  then show "memo s r (serve_ends M a sid m)" by (cases p) (simp_all add: serve_ends_def f memo_def)
qed

lemma memo_modify: "(\<And>m. mg_roots (f m) = mg_roots m) \<Longrightarrow> preserves (memo s r) (modify f)"
  by (simp add: preserves_def modify_def memo_def)

lemma memo_events:
  "preserves (memo s r) (agent_running M a)" "preserves (memo s r) (turn_start_event M session turn)"
  "preserves (memo s r) (turn_end_event M session)" "preserves (memo s r) (note_activity M a)"
  "preserves (memo s r) (manager_hibernate M sid)" "preserves (memo s r) (reconcile_archived M)"
  unfolding agent_running_def turn_start_event_def turn_end_event_def note_activity_def manager_hibernate_def
    reconcile_archived_def
  by (intro preserves_rules memo_modify; simp)+

lemma roots_tick_ends: "mg_roots (tick_ends M xs sid expected allowed ys m) = mg_roots m"
proof -
  obtain q m1 where h: "on_engine M (\<lambda>d. hibernate_session d sid (\<lambda>_. allowed)) m = (q, m1)" by (rule prod.exhaust)
  have "mg_roots m1 = mg_roots m" using roots_kept(6) h by (metis snd_conv)
  then show ?thesis unfolding tick_ends_def h by (cases q) simp_all
qed

text \<open>once a session has been resolved to a root session it keeps that root until the host restarts,
  whatever happens to the registry of agents: an ancestor that is disposed of never moves a running
  subagent onto another sandbox, and its turn's end lands where its start did.\<close>

lemma root_never_changes:
  assumes "manager_step M m m'" and "map_of (mg_roots m) session = Some top_session"
  shows "map_of (mg_roots m') session = Some top_session"
  using assms
proof (induction rule: manager_step.induct)
  case (tick_done m xs sid expected allowed ys)
  then show ?case by (simp add: roots_tick_ends)
qed (auto simp: memo_def [symmetric] tick_fires_def tick_asks_def memo_serve memo_events [THEN preserves_snd]
    memo_release [THEN preserves_snd])

section \<open>Archived sessions\<close>

lemma release_guarded: "\<not> g (w_env w) \<Longrightarrow> release d sid g w = (Inr (), w)"
  by (simp add: release_def comp_defs split: option.split)

text \<open>What one release changes of the manager.\<close>

lemma manager_release_world:
  "mg_world (snd (manager_release M sid m)) = snd (release (engine M m) sid (\<lambda>_. \<not> turn_open sid m) (mg_world m))"
  "mg_sched (snd (manager_release M sid m)) = mg_sched m" "mg_registry (snd (manager_release M sid m)) = mg_registry m"
  "fst (manager_release M sid m) = fst (release (engine M m) sid (\<lambda>_. \<not> turn_open sid m) (mg_world m))"
  by (simp_all add: manager_release_def fst_on_engine, simp add: on_engine_def split: prod.split)

definition serves_profile :: "'e registry \<Rightarrow> session_record \<Rightarrow> bool" where
  "serves_profile reg r \<longleftrightarrow> find_backend reg r \<noteq> None"

lemma engine_registry [simp]: "ld_registry (engine M m) = mg_registry m"
  by (simp add: engine_def)

lemma manager_release_record:
  assumes "world_ok (mg_world m)"
  shows "k \<noteq> sid \<or> turn_open sid m \<Longrightarrow> record_in k (snd (manager_release M sid m)) = record_in k m"
    "record_in sid (snd (manager_release M sid m)) \<in> {None, record_in sid m}"
    "\<not> turn_open sid m \<Longrightarrow> \<forall>r. record_in sid m = Some r \<longrightarrow> serves_profile (mg_registry m) r \<Longrightarrow>
       fst (manager_release M sid m) = Inr () \<Longrightarrow> record_in sid (snd (manager_release M sid m)) = None"
proof -
  let ?rel = "release (engine M m) sid (\<lambda>_. \<not> turn_open sid m) (mg_world m)"
  show "record_in k (snd (manager_release M sid m)) = record_in k m" if "k \<noteq> sid \<or> turn_open sid m"
    using that framed_verbs(3) [OF assms, of sid "engine M m" "\<lambda>_. \<not> turn_open sid m"]
      release_guarded [of "\<lambda>_. \<not> turn_open sid m" "mg_world m" "engine M m" sid]
    by (cases "turn_open sid m") (auto simp: record_in_def manager_release_world frame_def)
  have outcome: "record_in sid m = None \<or> turn_open sid m \<or> (\<exists>r. record_in sid m = Some r \<and>
      (if find_backend (mg_registry m) r = None then record_of sid (snd ?rel) = Some r
       else case ?rel of (Inr _, t) \<Rightarrow> record_of sid t = None | (Inl _, t) \<Rightarrow> record_of sid t \<in> {Some r, None}))"
  proof (cases "record_in sid m")
    case (Some r)
    then have r: "record_of sid (mg_world m) = Some r" by (simp add: record_in_def)
    show ?thesis
    proof (cases "find_backend (mg_registry m) r")
      case None
      then obtain e where "?rel = (Inr (), (mg_world m)\<lparr>w_env := e\<rparr>)"
        using release_keeps_orphan [OF r, of "engine M m" "\<lambda>_. \<not> turn_open sid m"] by auto
      then show ?thesis using Some None r by simp
    next
      case found: (Some b)
      show ?thesis
      proof (cases "turn_open sid m")
        case False
        from found have found': "find_backend (ld_registry (engine M m)) r = Some b" by simp
        have "wp (release (engine M m) sid (\<lambda>_. \<not> turn_open sid m)) (\<lambda>_ t. gone sid t \<and> client_for sid (w_clients t) = None)
            (\<lambda>_ t. record_of sid t \<in> {Some r, None}) (mg_world m)"
          by (rule release_outcome [OF assms r found']) (simp add: False)
        then show ?thesis
          using Some found by (auto simp: wp_def gone_def split: prod.splits sum.splits)
      qed simp
    qed
  qed simp
  have none: "record_in sid m = None \<Longrightarrow> record_in sid (snd (manager_release M sid m)) = None"
    by (simp add: record_in_def manager_release_world release_def bindE_def gets_def ret_def)
  have open_turn: "turn_open sid m \<Longrightarrow> record_in sid (snd (manager_release M sid m)) = record_in sid m"
    using release_guarded [of "\<lambda>_. \<not> turn_open sid m" "mg_world m" "engine M m" sid]
    by (simp add: record_in_def manager_release_world)
  show "record_in sid (snd (manager_release M sid m)) \<in> {None, record_in sid m}"
    using outcome none open_turn
    by (auto simp: record_in_def manager_release_world split: if_splits prod.splits sum.splits)
  show "record_in sid (snd (manager_release M sid m)) = None"
    if "\<not> turn_open sid m" "\<forall>r. record_in sid m = Some r \<longrightarrow> serves_profile (mg_registry m) r" "fst (manager_release M sid m) = Inr ()"
    using outcome none that
    by (auto simp: record_in_def manager_release_world serves_profile_def split: if_splits prod.splits sum.splits)
qed

lemma release_each_Cons:
  assumes "manager_release M sid m = (q, m1)" and "release_each M sids m1 = (Inr later, m2)"
  shows "release_each M (sid # sids) m = (Inr (case q of Inl er \<Rightarrow> Some er | Inr _ \<Rightarrow> later), m2)"
  using assms by (cases q) (simp_all add: comp_defs)

lemma release_each_records:
  "world_ok (mg_world m) \<Longrightarrow> \<exists>failed m'. release_each M sids m = (Inr failed, m') \<and> mg_sched m' = mg_sched m
     \<and> mg_registry m' = mg_registry m
     \<and> (\<forall>k. k \<notin> set sids \<or> turn_open k m \<longrightarrow> record_in k m' = record_in k m)
     \<and> (\<forall>k. record_in k m' \<in> {None, record_in k m})
     \<and> (failed = None \<longrightarrow> (\<forall>k \<in> set sids. \<not> turn_open k m \<longrightarrow>
          (\<forall>r. record_in k m = Some r \<longrightarrow> serves_profile (mg_registry m) r) \<longrightarrow> record_in k m' = None))"
proof (induction sids arbitrary: m)
  case Nil
  then show ?case by (simp add: ret_def)
next
  case (Cons sid sids)
  obtain q m1 where rel: "manager_release M sid m = (q, m1)" by (rule prod.exhaust)
  have facts: "k \<noteq> sid \<or> turn_open sid m \<Longrightarrow> record_in k m1 = record_in k m" "record_in sid m1 \<in> {None, record_in sid m}"
    "\<not> turn_open sid m \<Longrightarrow> \<forall>r. record_in sid m = Some r \<longrightarrow> serves_profile (mg_registry m) r \<Longrightarrow> q = Inr () \<Longrightarrow>
       record_in sid m1 = None" for k
    using manager_release_record [OF Cons.prems, where sid = sid and M = M, unfolded rel fst_conv snd_conv] by blast+
  have same: "mg_sched m1 = mg_sched m" "mg_registry m1 = mg_registry m"
    using manager_release_world(2,3) [of M sid m] rel by simp_all
  have ok: "world_ok (mg_world m1)"
    using manager_release_world(1) [of M sid m] rel ok_verbs(3) [OF Cons.prems] by simp
  have turns: "turn_open k m1 = turn_open k m" for k by (simp add: turn_open_def same)
  from Cons.IH [OF ok] obtain later m2 where rest: "release_each M sids m1 = (Inr later, m2)"
    and kept: "mg_sched m2 = mg_sched m1" "mg_registry m2 = mg_registry m1"
      "\<And>k. k \<notin> set sids \<or> turn_open k m1 \<Longrightarrow> record_in k m2 = record_in k m1"
      "\<And>k. record_in k m2 \<in> {None, record_in k m1}"
      "later = None \<Longrightarrow> k \<in> set sids \<Longrightarrow> \<not> turn_open k m1 \<Longrightarrow>
         \<forall>r. record_in k m1 = Some r \<longrightarrow> serves_profile (mg_registry m1) r \<Longrightarrow> record_in k m2 = None" for k
    by blast
  let ?failed = "case q of Inl er \<Rightarrow> Some er | Inr _ \<Rightarrow> later"
  have gone: "record_in k m2 = None"
    if f: "?failed = None" and k: "k \<in> set (sid # sids)" "\<not> turn_open k m"
      "\<forall>r. record_in k m = Some r \<longrightarrow> serves_profile (mg_registry m) r" for k
  proof -
    from f have q: "q = Inr ()" "later = None" by (auto split: sum.splits)
    have sub: "record_in k m1 \<in> {None, record_in k m}"
      by (cases "k = sid") (use facts(1) [of k] facts(2) in auto)
    then have serves: "\<forall>r. record_in k m1 = Some r \<longrightarrow> serves_profile (mg_registry m1) r" using k(3) same(2) by auto
    show ?thesis
    proof (cases "k = sid")
      case True
      then have "record_in k m1 = None" using facts(3) k q(1) by simp
      with kept(4) [of k] show ?thesis by auto
    next
      case False
      then show ?thesis using kept(5) [OF q(2)] k serves turns by simp
    qed
  qed
  have untouched: "record_in k m2 = record_in k m" if "k \<notin> set (sid # sids) \<or> turn_open k m" for k
    using facts(1) [of k] kept(3) [of k] that turns [of k] by (cases "k = sid") auto
  have below: "record_in k m2 \<in> {None, record_in k m}" for k
    using kept(4) [of k] facts(1) [of k] facts(2) by (cases "k = sid") auto
  show ?case
    unfolding release_each_Cons [OF rel rest]
    using same kept(1,2) untouched below gone by simp
qed

text \<open>C10: archiving a session releases its sandbox and never cuts a live turn: a reconcile leaves the
  record of every session that is not archived, and of every session with an open turn, exactly as it
  is, only ever drops records, and unless it reports a failure drops every archived session's whose
  turns are over and whose profile is still served.\<close>

theorem archive_release_exact:
  assumes "manager_reachable M m" and "reconcile_archived M m = (q, m')"
  shows "q = Inr () \<and> (\<forall>sid. (sid \<in> set (mg_archived m) \<and> \<not> turn_open sid m \<or> record_in sid m' = record_in sid m)
      \<and> record_in sid m' \<in> {None, record_in sid m})
    \<and> (fst (release_each M (archived_records m) m) = Inr None \<longrightarrow>
         (\<forall>sid r. sid \<in> set (mg_archived m) \<and> \<not> turn_open sid m \<and> record_in sid m = Some r \<and> serves_profile (mg_registry m) r
           \<longrightarrow> record_in sid m' = None))"
proof -
  have ok: "world_ok (mg_world m)" using manager_reachable_ok [OF assms(1)] by (simp add: manager_ok_def)
  from release_each_records [OF ok, of M "archived_records m"] obtain failed m1
    where rel: "release_each M (archived_records m) m = (Inr failed, m1)"
    and kept: "\<And>k. k \<notin> set (archived_records m) \<or> turn_open k m \<Longrightarrow> record_in k m1 = record_in k m"
      "\<And>k. record_in k m1 \<in> {None, record_in k m}"
      "\<And>k. failed = None \<Longrightarrow> k \<in> set (archived_records m) \<Longrightarrow> \<not> turn_open k m \<Longrightarrow>
        \<forall>r. record_in k m = Some r \<longrightarrow> serves_profile (mg_registry m) r \<Longrightarrow> record_in k m1 = None"
    by blast
  have same: "q = Inr ()" "record_in k m' = record_in k m1" for k
    using assms(2) rel by (auto simp: reconcile_archived_def comp_defs record_in_def split: option.splits)
  have listed: "sid \<in> set (archived_records m)" if "sid \<in> set (mg_archived m)" "record_in sid m = Some r" for sid r
  proof -
    have "get_record sid (mem (w_store (mg_world m))) = Some r" using that(2) by (simp add: record_in_def)
    then have "r \<in> set (record_values (mem (w_store (mg_world m))))"
      by (force simp: get_record_def record_values_def dest!: map_of_SomeD)
    moreover have "session_id r = sid" using ok_key [OF ok] that(2) by (simp add: record_in_def)
    ultimately show ?thesis using that(1) by (auto simp: archived_records_def)
  qed
  have sub: "set (archived_records m) \<subseteq> set (mg_archived m)" by (auto simp: archived_records_def)
  show ?thesis
    unfolding rel fst_conv same
    using kept(1,2) kept(3) listed sub by (auto simp: subset_iff) (metis option.distinct(1) option.inject)+
qed

section \<open>Reads and repositories\<close>

text \<open>C9: a browser's read never starts a session's first sandbox: with no record and no open turn it is
  refused, and stores, files, runners, log and countdowns are as they were; otherwise it is exactly
  \<open>ensureRunning\<close>.\<close>

theorem browser_read_starts_nothing:
  assumes "root_of M (sa_agent a) m = (Inr sid, m0)" and "client_for_current_agent M a m = (r, m')"
  shows "if record_in sid m = None \<and> \<not> turn_open sid m
    then (\<exists>text. r = Inl (Plain text)) \<and> w_store (mg_world m') = w_store (mg_world m)
      \<and> w_files (mg_world m') = w_files (mg_world m) \<and> w_clients (mg_world m') = w_clients (mg_world m)
      \<and> w_log (mg_world m') = w_log (mg_world m) \<and> mg_sched m' = mg_sched m
    else (r, m') = manager_ensure_running M a m0"
proof -
  have same: "w_store (mg_world m0) = w_store (mg_world m)" "w_files (mg_world m0) = w_files (mg_world m)"
    "w_clients (mg_world m0) = w_clients (mg_world m)" "w_log (mg_world m0) = w_log (mg_world m)" "mg_sched m0 = mg_sched m"
    using assms(1) by (auto simp: root_of_def Let_def log_warning_def split: option.splits if_splits)
  have "record_in sid m0 = record_in sid m" unfolding record_in_def record_of_def by (simp only: same)
  moreover have "turn_open sid m0 = turn_open sid m" by (simp add: turn_open_def same)
  ultimately have eq: "client_for_current_agent M a m = (if record_in sid m = None \<and> \<not> turn_open sid m
      then (Inl (Plain ''This session has no sandbox yet. Send a prompt to start one.''), m0) else manager_ensure_running M a m0)"
    by (simp add: client_for_current_agent_def bindE_def gets_def throw_def assms(1))
  show ?thesis
  proof (cases "record_in sid m = None \<and> \<not> turn_open sid m")
    case True
    then have "r = Inl (Plain ''This session has no sandbox yet. Send a prompt to start one.'')" "m' = m0"
      using eq assms(2) by simp_all
    then show ?thesis unfolding if_P [OF True] using same by blast
  next
    case False
    then show ?thesis unfolding if_not_P [OF False] using eq [unfolded if_not_P [OF False]] assms(2) by simp
  qed
qed

lemma normal_url_nonempty:
  assumes "ul_parse ul '''' = None" and "normalize_workspace_url ul url = Inr url"
  shows "url \<noteq> ''''"
proof
  assume "url = ''''"
  moreover have "normalize_repository_url (ul_parts ul) (trim '''') = ''''"
    using assms(1) by (simp add: trim_def normalize_repository_url_def github_scp_def)
  ultimately show False using assms(2) by (simp add: normalize_workspace_url_def)
qed

text \<open>only the Scratch Workspace has no repository: for any other session the repository found is not
  empty, or there is an error, so a session that should have a checkout is never served without one.\<close>

lemma empty_repository_only_in_scratch:
  assumes "ul_parse (an_urls (mp_anchors M)) '''' = None" and "mp_repository M \<noteq> Some ''''"
    and "repository_for M rec a e = (Inr '''', e')"
  shows "in_scratch M rec a"
proof (rule ccontr)
  assume out: "\<not> in_scratch M rec a"
  have origin: "wp (origin_repository M d) (\<lambda>url _. url \<noteq> '''') (\<lambda>_ _. True) e1" for d e1
    by (auto simp: origin_repository_def wp_simps intro!: wp_any split: option.split)
  have anchor: "wp (case sa_cwd a of None \<Rightarrow> ret None | Some dir \<Rightarrow> repository_for_anchor (mp_anchors M) dir)
      (\<lambda>found _. found \<noteq> Some '''') (\<lambda>_ _. True) e"
    by (auto simp: wp_simps intro!: wp_mono [OF repository_for_anchor_wp]
        dest!: read_metadata_normal normal_url_nonempty [OF assms(1)] split: option.split)
  have rest: "wp (case found of Some url \<Rightarrow> ret url
         | None \<Rightarrow> (case mp_repository M of Some url \<Rightarrow> ret url | None \<Rightarrow> origin_repository M (sa_cwd a)))
      (\<lambda>url _. url \<noteq> '''') (\<lambda>_ _. True) e1" if "found \<noteq> Some ''''" for found e1
    using that assms(2) origin by (auto simp: wp_simps split: option.split)
  have "wp (repository_for M rec a) (\<lambda>url _. url \<noteq> '''') (\<lambda>_ _. True) e"
    unfolding repository_for_def if_not_P [OF out] wp_bindE
    by (rule wp_mono [OF anchor]) (use rest in blast)+
  from wp_resultD [OF this assms(3)] show False by simp
qed

end
