(* ===== verification/Manager_Witnesses.thy ===== *)
theory Manager_Witnesses
  imports Manager_Properties Lifecycle_Witnesses
begin

text \<open>The manager over the small host of \<open>Lifecycle_Witnesses\<close>, from its boot through one call of
  \<open>ensureRunning\<close>.\<close>

definition demo_settled :: resolved_runtime where
  "demo_settled = \<lparr>rr_profiles = [(''small'', demo_profile)], rr_default_profile = Some ''small'',
     rr_idle_ms = js_int 600000, rr_expires_after_ms = js_int 1000, rr_ready_timeout_ms = None\<rparr>"

definition demo_no_anchors :: "int anchors" where
  "demo_no_anchors =
    \<lparr>an_urls = demo_library, an_sha256 = \<lambda>_. [], an_state_dir = ''/s'', an_realpath = \<lambda>p e. (Inl (Enoent p), e),
     an_read_json = \<lambda>p e. (Inl (Enoent p), e), an_mkdir = \<lambda>p e. (Inr (), e), an_chmod = \<lambda>p n e. (Inr (), e),
     an_write = \<lambda>p j e. (Inr (), e), an_rename = \<lambda>p q e. (Inr (), e), an_rm = \<lambda>p e. (Inr (), e), an_suffix = \<lambda>e. ([], e)\<rparr>"

definition demo_parts :: "int manager_parts" where
  "demo_parts = \<lparr>mp_deps = demo_deps True, mp_create_backend = \<lambda>p. Inr (demo_backend True), mp_replacements = [],
     mp_anchors = demo_no_anchors, mp_scratch = ''/s/scratch'', mp_resolve = id,
     mp_repository = Some ''https://github.com/o/r'', mp_preview_domain = None,
     mp_git_origin = \<lambda>d. throw (Plain ''not a repository'')\<rparr>"

definition demo_agent :: session_agent where
  "demo_agent = \<lparr>sa_agent = \<lparr>agent_id = ''s1'', origin = None, parent_session = None\<rparr>, sa_cwd = None\<rparr>"

definition demo_manager :: "idle_world \<Rightarrow> (string \<times> string) list \<Rightarrow> int world \<Rightarrow> int manager" where
  "demo_manager w roots world = \<lparr>mg_world = world, mg_sched = w, mg_roots = roots,
     mg_registry = \<lparr>reg_profiles = [(''small'', demo_profile)], reg_backends = [(''small'', demo_backend True)]\<rparr>,
     mg_applied = [(''small'', demo_profile)], mg_choice_live = [], mg_notices = 0, mg_agents = [],
     mg_runtime = demo_settled, mg_servers = [], mg_archived = [], mg_serving = [], mg_failed = {}\<rparr>"

lemma demo_new: "new_manager demo_parts demo_settled demo_start = Inr (demo_manager idle_start [] demo_start)"
  by (simp add: new_manager_def new_registry_def demo_parts_def demo_settled_def backend_or_replacement_def demo_manager_def)

definition demo_booted :: "int manager" where
  "demo_booted = demo_manager idle_start [] (note_written demo_start)"

lemma demo_boots: "manager_initialize demo_parts (demo_manager idle_start [] demo_start) = (Inr (), demo_booted)"
  by (simp add: manager_initialize_def comp_defs on_engine_def initialize_def store_initialize_def on_store_def engine_def
      demo_parts_def demo_deps_def demo_manager_def first_world_def record_values_def empty_state_def running_sessions_def
      demo_booted_def)

lemma demo_reach: "manager_reachable demo_parts demo_booted"
  by (rule manager_reachable.boot [OF demo_new demo_boots])

definition demo_root :: "(string \<times> string) list" where "demo_root = [(''s1'', ''s1'')]"

definition demo_touched :: "int manager" where
  "demo_touched = touch ''s1'' (demo_manager idle_start demo_root (note_written demo_start))"

lemma demo_begins: "ensure_begin demo_parts demo_agent demo_booted = (Inr ''s1'', demo_touched)"
  by (simp add: ensure_begin_def comp_defs sync_runtime_settings_def root_of_def demo_booted_def demo_manager_def
      demo_settled_def demo_agent_def root_session_id_def root_from.simps next_agent_def demo_touched_def demo_root_def Let_def)

lemma demo_pending: "choice_pending demo_settled ''s1'' empty_state = Inr demo_profile"
  by (simp add: choice_pending_def demo_settled_def pending_name_def pending_profile_def empty_state_def or_option_def)

definition demo_world :: "int world" where
  "demo_world = demo_live\<lparr>w_log := Written (image_of demo_start) # w_log demo_live\<rparr>"

lemma demo_repository: "repository_for demo_parts None demo_agent = ret ''https://github.com/o/r''"
  by (simp add: repository_for_def in_scratch_def demo_agent_def demo_parts_def comp_defs fun_eq_iff)

lemma demo_engine: "engine demo_parts demo_touched =
    (demo_deps True)\<lparr>ld_pending_profile := choice_pending demo_settled, ld_expires_after_ms := 1000\<rparr>"
  by (simp add: engine_def demo_parts_def demo_touched_def touch_def on_idle_def demo_manager_def demo_deps_def
      demo_settled_def whole_ms_def js_int_def)

lemma demo_run: "ensure_running ((demo_deps True)\<lparr>ld_pending_profile := choice_pending demo_settled, ld_expires_after_ms := 1000\<rparr>) ''s1''
    (ret ''https://github.com/o/r'') (note_written demo_start) = (Inr (Some 7), demo_world)"
  using demo_pending
  by (simp add: lifecycle_defs demo_defs comp_defs empty_state_def demo_attach demo_world_def)

definition demo_served :: "int manager" where
  "demo_served = arm ''s1'' (demo_touched\<lparr>mg_world := demo_world\<rparr>)"

lemma demo_ends: "ensure_finish demo_parts demo_agent ''s1'' demo_touched = (Inr (Some 7), demo_served)"
proof -
  have "map_of (mg_agents demo_touched) ''s1'' = None" "mg_world demo_touched = note_written demo_start"
    by (simp_all add: demo_touched_def touch_def on_idle_def demo_manager_def)
  then show ?thesis
    by (simp add: ensure_finish_def bindE_def thenE_def gets_def on_engine_def modify_def ret_def demo_engine
        demo_repository [unfolded ret_def] demo_run [unfolded ret_def] demo_served_def or_else_def)
qed

lemma demo_ensured: "manager_ensure_running demo_parts demo_agent demo_booted = (Inr (Some 7), demo_served)"
  by (simp add: manager_ensure_running_def bindE_def demo_begins demo_ends)

text \<open>The same call in two steps.\<close>

definition demo_calling :: "int manager" where
  "demo_calling = demo_touched\<lparr>mg_serving := [(''s1'', demo_agent)]\<rparr>"

lemmas demo_views = demo_touched_def arm_def touch_def on_idle_def demo_manager_def

lemma demo_calling_reach: "manager_reachable demo_parts demo_calling"
proof -
  have "serve_begins demo_parts demo_agent demo_booted = demo_calling"
    by (simp add: serve_begins_def demo_begins demo_calling_def demo_views)
  then show ?thesis using manager_reachable.step [OF demo_reach manager_step.begins [of demo_parts demo_booted demo_agent]] by simp
qed

lemma demo_serves: "manager_step demo_parts demo_calling demo_served"
proof -
  have "demo_calling\<lparr>mg_serving := remove1 (''s1'', demo_agent) (mg_serving demo_calling)\<rparr> = demo_touched"
    by (simp add: demo_calling_def demo_views)
  moreover have "demo_served\<lparr>mg_failed := mg_failed demo_served - {''s1''}\<rparr> = demo_served"
    by (simp add: demo_served_def demo_views)
  ultimately have "serve_ends demo_parts demo_agent ''s1'' demo_calling = demo_served"
    by (simp only: serve_ends_def demo_ends prod.case sum.case)
  moreover have "(''s1'', demo_agent) \<in> set (mg_serving demo_calling)" "\<not> locked ''s1'' demo_calling"
    by (simp_all add: demo_calling_def locked_def demo_views act_def idle_start_def)
  ultimately show ?thesis using manager_step.serves by metis
qed

lemma demo_served_reach: "manager_reachable demo_parts demo_served"
  by (rule manager_reachable.step [OF demo_calling_reach demo_serves])

lemma demo_served_record: "record_in ''s1'' demo_served = Some demo_running"
  by (simp add: record_in_def demo_served_def arm_def on_idle_def demo_world_def record_of_def get_record_def
      demo_live_def demo_state_def del: get_record_mem)


theorem ensure_running_rearms_witness:
  "\<exists>sid t. map_of (timers (sched (mg_sched demo_served))) sid = Some t \<and> t_armed t"
  using ensure_running_rearms [OF demo_reach demo_ensured] by auto

theorem root_never_changes_witness: "map_of (mg_roots demo_served) ''s1'' = Some ''s1''"
  by (rule root_never_changes [OF demo_serves]) (simp add: demo_calling_def demo_views demo_root_def)

theorem archive_release_exact_witness: "record_in ''s1'' (snd (reconcile_archived demo_parts demo_served)) = Some demo_running"
  using archive_release_exact [OF demo_served_reach surjective_pairing] demo_served_record
  by (auto simp: demo_served_def demo_views)

lemma demo_resolves: "\<exists>m0. root_of demo_parts (sa_agent demo_agent) demo_booted = (Inr ''s1'', m0)"
  by (simp add: root_of_def demo_booted_def demo_manager_def demo_agent_def root_session_id_def root_from.simps
      next_agent_def Let_def)

lemma demo_nothing_yet: "record_in ''s1'' demo_booted = None \<and> \<not> turn_open ''s1'' demo_booted"
  by (simp add: record_in_def demo_booted_def demo_manager_def first_world_def turn_open_def is_turn_live_def idle_start_def
      new_idle_def or_else_def record_of_def get_record_def empty_state_def del: get_record_mem)

theorem browser_read_starts_nothing_witness:
  "w_log (mg_world (snd (client_for_current_agent demo_parts demo_agent demo_booted))) = w_log (mg_world demo_booted)"
  using demo_resolves demo_nothing_yet browser_read_starts_nothing [OF _ surjective_pairing] by metis

theorem empty_repository_only_in_scratch_witness:
  "in_scratch demo_parts None (demo_agent\<lparr>sa_cwd := Some ''/s/scratch''\<rparr>)"
proof -
  have "repository_for demo_parts None (demo_agent\<lparr>sa_cwd := Some ''/s/scratch''\<rparr>) 0 = (Inr '''', 0)"
    by (simp add: repository_for_def in_scratch_def demo_parts_def ret_def)
  then show ?thesis
    by (rule empty_repository_only_in_scratch [rotated 2])
      (simp_all add: demo_parts_def demo_no_anchors_def demo_library_def demo_parse_def)
qed

end
