(* ===== verification/Manager_Pages.thy ===== *)
theory Manager_Pages
  imports Workspace_Anchor Profile_Config
begin

text \<open>
  What the settings pages read and write through \<open>sandbox/manager/sandbox-manager.ts\<close>: the secrets of
  the scopes they offer, and the combined view of the sandbox settings. The state of a secrets call is
  the broker beside the world; \<open>pr_registry\<close> is dsh's list of workspaces (path and title).
\<close>

section \<open>Secrets\<close>

record 'e pages =
  pg_anchors :: "'e anchors"
  pg_registry :: "'e \<Rightarrow> (string \<times> string) list"
  pg_flush :: "('e, unit) comp"
  pg_reading :: "broker \<times> 'e \<Rightarrow> error + json option"

abbreviation pg_parse :: "'e pages \<Rightarrow> url_parser" where
  "pg_parse P \<equiv> ul_parts (an_urls (pg_anchors P))"

record scope_secrets =
  sx_scope :: workspace_scope
  sx_names :: "string list"

record secret_settings =
  sg_global :: "string list"
  sg_workspaces :: "scope_secrets list"
  sg_git_hosts :: "git_host list"

definition scopes :: "'e pages \<Rightarrow> (broker \<times> 'e, workspace_scope list) comp" where
  "scopes P = bindE (gets (\<lambda>(b, e). pg_registry P e)) (\<lambda>entries. on_env (workspace_scopes (pg_anchors P) entries))"

definition secret_settings_view :: "'e pages \<Rightarrow> (broker \<times> 'e, secret_settings) comp" where
  "secret_settings_view P =
    bindE (gets (\<lambda>s. secret_names (pg_parse P) GlobalScope (broker_content s))) (\<lambda>global.
    bindE (scopes P) (\<lambda>offered. gets (\<lambda>s.
      \<lparr>sg_global = global,
       sg_workspaces = map (\<lambda>scope. \<lparr>sx_scope = scope,
         sx_names = secret_names (pg_parse P) (WorkspaceScope (ws_repository_url scope)) (broker_content s)\<rparr>) offered,
       sg_git_hosts = bf_git_hosts (broker_content s)\<rparr>)))"

definition get_secrets :: "'e pages \<Rightarrow> (broker \<times> 'e, secret_settings) comp" where
  "get_secrets P = thenE (broker_refresh (pg_reading P)) (secret_settings_view P)"

definition page_git_credential ::
  "'e pages \<Rightarrow> string \<Rightarrow> string option \<Rightarrow> (broker \<times> 'e, git_credential option) comp" where
  "page_git_credential P host url =
    thenE (broker_refresh (pg_reading P)) (gets (\<lambda>s. credential_of (pg_parse P) host url (broker_content s)))"

definition set_registered_workspace_secret ::
  "'e pages \<Rightarrow> string \<Rightarrow> (string \<Rightarrow> (broker \<times> 'e, unit) comp) \<Rightarrow> (broker \<times> 'e, unit) comp" where
  "set_registered_workspace_secret P url apply_to =
    bindE (liftE (normalize_workspace_url (an_urls (pg_anchors P)) url)) (\<lambda>normalized.
    bindE (scopes P) (\<lambda>offered.
      if \<not> list_ex (\<lambda>scope. ws_repository_url scope = normalized) offered
      then throw (Plain (''workspace is not registered: '' @ normalized))
      else apply_to normalized))"

definition set_global_secret :: "'e pages \<Rightarrow> string \<Rightarrow> string \<Rightarrow> (broker \<times> 'e, secret_settings) comp" where
  "set_global_secret P n v = thenE (set_secret (pg_parse P) (pg_flush P) GlobalScope n v) (secret_settings_view P)"

definition delete_global_secret :: "'e pages \<Rightarrow> string \<Rightarrow> (broker \<times> 'e, secret_settings) comp" where
  "delete_global_secret P n = thenE (delete_secret (pg_parse P) (pg_flush P) GlobalScope n) (secret_settings_view P)"

definition set_workspace_secret :: "'e pages \<Rightarrow> string \<Rightarrow> string \<Rightarrow> string \<Rightarrow> (broker \<times> 'e, secret_settings) comp" where
  "set_workspace_secret P url n v =
    thenE (set_registered_workspace_secret P url
             (\<lambda>normalized. set_secret (pg_parse P) (pg_flush P) (WorkspaceScope normalized) n v))
          (secret_settings_view P)"

definition delete_workspace_secret :: "'e pages \<Rightarrow> string \<Rightarrow> string \<Rightarrow> (broker \<times> 'e, secret_settings) comp" where
  "delete_workspace_secret P url n =
    thenE (set_registered_workspace_secret P url
             (\<lambda>normalized. delete_secret (pg_parse P) (pg_flush P) (WorkspaceScope normalized) n))
          (secret_settings_view P)"

definition page_set_git_host :: "'e pages \<Rightarrow> string \<Rightarrow> string \<Rightarrow> string \<Rightarrow> (broker \<times> 'e, secret_settings) comp" where
  "page_set_git_host P host username secret =
    thenE (set_git_host (pg_parse P) (pg_flush P) host username secret) (secret_settings_view P)"

definition page_delete_git_host :: "'e pages \<Rightarrow> string \<Rightarrow> (broker \<times> 'e, secret_settings) comp" where
  "page_delete_git_host P host = thenE (delete_git_host (pg_parse P) (pg_flush P) host) (secret_settings_view P)"

section \<open>Workspaces\<close>

text \<open>\<open>create\<close> is dsh's registry, which answers the path it stored; without a registry there is no Web profile.\<close>

definition create_repository_workspace ::
  "'e anchors \<Rightarrow> (string \<Rightarrow> string \<Rightarrow> ('e, string) comp) option \<Rightarrow> string \<Rightarrow> ('e, string) comp" where
  "create_repository_workspace A create url =
    (case create of
       None \<Rightarrow> throw (Plain ''repository workspaces require the dsh Web profile'')
     | Some c \<Rightarrow> bindE (create_repository_anchor A url) (\<lambda>a. c (ra_path a) (ra_title a)))"

section \<open>Sandbox settings\<close>

record profile_option =
  po_name :: string
  po_backend :: string
  po_fields :: "(string \<times> string) list"
  po_locked :: bool
  po_idle_ms :: js_number
  po_ready_timeout_ms :: "js_number option"

record settings_view =
  ss_profiles :: "profile_option list"
  ss_default_profile :: "string option"
  ss_idle_ms :: js_number
  ss_expires_after_ms :: js_number
  ss_ready_timeout_ms :: "js_number option"
  ss_overridden :: "bool \<times> bool \<times> bool \<times> bool"
  ss_revision :: nat
  ss_writable :: bool

fun config_backend :: "profile_config \<Rightarrow> string" where
  "config_backend (DockerC c) = ''docker''"
| "config_backend (KasC c) = ''kas''"
| "config_backend (BuildkiteC c) = ''buildkite''"

definition text_fields :: "(string \<times> string option) list \<Rightarrow> (string \<times> string) list" where
  "text_fields fs = List.map_filter (\<lambda>(k, v). map_option (\<lambda>x. (k, x)) v) fs"

text \<open>\<open>stringFields\<close>, in the schema's order; \<open>show\<close> is \<open>String\<close> of a number.\<close>

fun string_fields :: "(js_number \<Rightarrow> string) \<Rightarrow> profile_config \<Rightarrow> (string \<times> string) list" where
  "string_fields show (DockerC c) = text_fields
     [(''image'', dc_image c), (''binary'', dc_binary c), (''controlPlaneUrl'', dc_control_plane_url c),
      (''idleMs'', map_option show (dc_idle_ms c))]"
| "string_fields show (KasC c) = text_fields
     [(''namespace'', kc_namespace c), (''warmPool'', kc_warm_pool c),
      (''readyTimeoutMs'', map_option show (kc_ready_timeout_ms c)), (''kubeconfig'', kc_kubeconfig c),
      (''idleMs'', map_option show (kc_idle_ms c))]"
| "string_fields show (BuildkiteC c) = text_fields
     [(''organization'', Some (bc_organization c)), (''pipeline'', Some (bc_pipeline c)),
      (''controlPlaneUrl'', Some (bc_control_plane_url c)), (''image'', bc_image c),
      (''readyTimeoutMs'', map_option show (bc_ready_timeout_ms c)), (''idleMs'', map_option show (bc_idle_ms c)),
      (''secretKey'', bc_secret_key c)]"

fun profile_ready_timeout :: "sandbox_profile \<Rightarrow> js_number option" where
  "profile_ready_timeout (DockerP p) = None"
| "profile_ready_timeout (KasP p) = Some (ks_ready_timeout_ms p)"
| "profile_ready_timeout (BuildkiteP p) = Some (bk_ready_timeout_ms p)"

definition profile_row ::
  "(js_number \<Rightarrow> string) \<Rightarrow> resolved_runtime \<Rightarrow> (string \<times> profile_config) list \<Rightarrow> string \<times> profile_config \<Rightarrow> profile_option" where
  "profile_row show runtime chart np = (case np of (n, p) \<Rightarrow>
    (let applied = map_of (rr_profiles runtime) n
     in \<lparr>po_name = n, po_backend = config_backend p, po_fields = string_fields show p,
         po_locked = (map_of chart n \<noteq> None),
         po_idle_ms = or_else (Option.bind applied profile_idle_ms) (rr_idle_ms runtime),
         po_ready_timeout_ms = Option.bind applied profile_ready_timeout\<rparr>))"

text \<open>\<open>form\<close> is the settings service's revision and whether it can be written, if there is one.\<close>

definition sandbox_settings ::
  "(js_number \<Rightarrow> string) \<Rightarrow> runtime_config \<Rightarrow> runtime_config \<Rightarrow> resolved_runtime \<Rightarrow> (nat \<times> bool) option \<Rightarrow> settings_view" where
  "sandbox_settings show deployment page runtime form =
    (let chart = or_else (rc_profiles deployment) []
     in \<lparr>ss_profiles = map (profile_row show runtime chart) (add_missing chart (or_else (rc_profiles page) [])),
         ss_default_profile = rr_default_profile runtime, ss_idle_ms = rr_idle_ms runtime,
         ss_expires_after_ms = rr_expires_after_ms runtime, ss_ready_timeout_ms = rr_ready_timeout_ms runtime,
         ss_overridden = (rc_default_profile page \<noteq> None, rc_idle_ms page \<noteq> None, rc_expires_after_ms page \<noteq> None,
           rc_ready_timeout_ms page \<noteq> None),
         ss_revision = (case form of None \<Rightarrow> 0 | Some (r, w) \<Rightarrow> r),
         ss_writable = (case form of None \<Rightarrow> False | Some (r, w) \<Rightarrow> w)\<rparr>)"

section \<open>Facts\<close>

lemma keeps_on_env [keeps_rules]: "keeps fst (on_env m)"
  by (auto simp: keeps_def on_env_def split: prod.splits)

lemma keeps_scopes [keeps_rules]: "keeps fst (scopes P)"
  unfolding scopes_def by (intro keeps_rules)

text \<open>An offered scope is a registered workspace that resolves to its repository.\<close>

definition registered :: "'e pages \<Rightarrow> string \<Rightarrow> bool" where
  "registered P url \<longleftrightarrow> (\<exists>e path title e1 e2. (path, title) \<in> set (pg_registry P e)
     \<and> repository_for_anchor (pg_anchors P) path e1 = (Inr (Some url), e2))"

definition resolves :: "'e anchors \<Rightarrow> (string \<times> string) list \<Rightarrow> workspace_scope \<Rightarrow> bool" where
  "resolves A ws scope \<longleftrightarrow> (\<exists>path title e1 e2. (path, title) \<in> set ws
     \<and> repository_for_anchor A path e1 = (Inr (Some (ws_repository_url scope)), e2))"

lemma wp_self: "wp m (\<lambda>a t. m e = (Inr a, t)) (\<lambda>_ _. True) e"
  by (simp add: wp_def split: prod.split sum.split)

lemma resolvesI:
  "(path, title) \<in> set ws \<Longrightarrow> repository_for_anchor A path e1 = (Inr (Some (ws_repository_url scope)), e2) \<Longrightarrow> resolves A ws scope"
  unfolding resolves_def by blast

lemma resolves_Cons: "resolves A ws scope \<Longrightarrow> resolves A (w # ws) scope"
  unfolding resolves_def by (metis list.set_intros(2))

lemma workspace_scopes_resolved:
  "wp (workspace_scopes A ws) (\<lambda>found _. \<forall>scope \<in> set found. resolves A ws scope) (\<lambda>_ _. True) e"
proof (induction ws arbitrary: e)
  case (Cons w ws)
  obtain path title where w: "w = (path, title)" by (cases w)
  show ?case
    unfolding w workspace_scopes.simps wp_bindE
    by (rule wp_mono [OF wp_self], rule wp_mono [OF Cons.IH])
      (auto simp: wp_simps intro: resolves_Cons resolvesI [of path title] split: option.split)
qed (simp add: wp_simps)

lemma scopes_registered:
  "wp (scopes P) (\<lambda>found _. \<forall>scope \<in> set found. registered P (ws_repository_url scope)) (\<lambda>_ _. True) s"
proof -
  obtain b e where s: "s = (b, e)" by (cases s)
  have "resolves (pg_anchors P) (pg_registry P e) scope \<Longrightarrow> registered P (ws_repository_url scope)" for scope
    unfolding resolves_def registered_def by blast
  then have "wp (workspace_scopes (pg_anchors P) (pg_registry P e))
      (\<lambda>found _. \<forall>scope \<in> set found. registered P (ws_repository_url scope)) (\<lambda>_ _. True) e"
    by (intro wp_mono [OF workspace_scopes_resolved]) simp_all
  then show ?thesis
    by (auto simp: scopes_def bindE_def gets_def wp_def on_env_def s split: prod.splits sum.splits)
qed

text \<open>A write for a workspace either is not made, or is made for a registered one.\<close>

lemma registered_write:
  assumes "set_registered_workspace_secret P url apply_to s = (r, t)"
  obtains (refused) er where "r = Inl er" "fst t = fst s"
  | (applied) normalized s' where "normalize_workspace_url (an_urls (pg_anchors P)) url = Inr normalized"
      "registered P normalized" "fst s' = fst s" "apply_to normalized s' = (r, t)"
proof (cases "normalize_workspace_url (an_urls (pg_anchors P)) url")
  case (Inl er)
  with assms show thesis by (intro refused [of er]) (auto simp: set_registered_workspace_secret_def bindE_def liftE_def)
next
  case (Inr normalized)
  obtain q s' where sc: "scopes P s = (q, s')" by (rule prod.exhaust)
  have same: "fst s' = fst s" using keeps_scopes [of P] sc unfolding keeps_def by (metis snd_conv)
  show thesis
  proof (cases q)
    case (Inl er)
    with Inr assms sc same show thesis
      by (intro refused [of er]) (auto simp: set_registered_workspace_secret_def bindE_def liftE_def)
  next
    case offered: (Inr found)
    have scopes_ok: "\<forall>scope \<in> set found. registered P (ws_repository_url scope)"
      using wp_resultD [OF scopes_registered sc [unfolded offered]] .
    show thesis
    proof (cases "list_ex (\<lambda>scope. ws_repository_url scope = normalized) found")
      case True
      then have "registered P normalized" using scopes_ok by (auto simp: list_ex_iff)
      with True Inr assms sc offered same show thesis
        by (intro applied [of normalized s']) (auto simp: set_registered_workspace_secret_def bindE_def liftE_def)
    next
      case False
      then show thesis using Inr assms sc offered same
        by (intro refused) (auto simp: set_registered_workspace_secret_def bindE_def liftE_def throw_def)
    qed
  qed
qed

text \<open>What \<open>add_missing\<close> adds has new names.\<close>

lemma add_missing_adds:
  "\<exists>more. add_missing acc ps = acc @ more \<and> (\<forall>q \<in> set more. fst q \<notin> fst ` set acc)
      \<and> fst ` set (acc @ more) = fst ` set acc \<union> fst ` set ps
      \<and> (distinct (map fst acc) \<longrightarrow> distinct (map fst (acc @ more)))"
proof (induction acc ps rule: add_missing.induct)
  case (2 acc n p ps)
  show ?case
  proof (cases "map_of acc n")
    case None
    then have n: "n \<notin> fst ` set acc" by (simp add: map_of_eq_None_iff)
    from "2.IH" None obtain more where more: "add_missing (acc @ [(n, p)]) ps = (acc @ [(n, p)]) @ more"
      "\<forall>q \<in> set more. fst q \<notin> fst ` set (acc @ [(n, p)])"
      "fst ` set ((acc @ [(n, p)]) @ more) = fst ` set (acc @ [(n, p)]) \<union> fst ` set ps"
      "distinct (map fst (acc @ [(n, p)])) \<longrightarrow> distinct (map fst ((acc @ [(n, p)]) @ more))" by auto
    have "distinct (map fst acc) \<longrightarrow> distinct (map fst (acc @ (n, p) # more))" using more(4) n by simp
    moreover have "fst ` set (acc @ (n, p) # more) = fst ` set acc \<union> fst ` set ((n, p) # ps)" using more(3) by auto
    ultimately show ?thesis using None more(1,2) n by (intro exI [of _ "(n, p) # more"]) simp
  next
    case (Some x)
    then have n: "n \<in> fst ` set acc" by (force dest: map_of_SomeD)
    from "2.IH" Some obtain more where more: "add_missing acc ps = acc @ more"
      "\<forall>q \<in> set more. fst q \<notin> fst ` set acc" "fst ` set (acc @ more) = fst ` set acc \<union> fst ` set ps"
      "distinct (map fst acc) \<longrightarrow> distinct (map fst (acc @ more))" by auto
    then show ?thesis using Some n by (intro exI [of _ more]) auto
  qed
qed simp

section \<open>Properties\<close>

text \<open>the page writes a workspace's secret only into the scope of a workspace that dsh has registered and
  that resolves to the URL's normal form; a mistyped URL, an unreachable one or a bad name leaves every
  secret as it was.\<close>

lemma workspace_secret_registered:
  assumes "set_registered_workspace_secret P url
    (\<lambda>normalized. set_secret (pg_parse P) (pg_flush P) (WorkspaceScope normalized) n v) s = (r, t)"
  shows "broker_content t = broker_content s \<or>
    (\<exists>normalized. normalize_workspace_url (an_urls (pg_anchors P)) url = Inr normalized \<and> registered P normalized \<and>
       broker_content t = put_secret (pg_parse P) (WorkspaceScope normalized) n v (broker_content s))"
  using assms
proof (cases rule: registered_write)
  case (refused er)
  then show ?thesis by (simp add: broker_content_def)
next
  case (applied normalized s')
  have content: "broker_content s' = broker_content s" using applied(3) by (simp add: broker_content_def)
  have "broker_content t = broker_content s' \<or> broker_content t = put_secret (pg_parse P) (WorkspaceScope normalized) n v (broker_content s')"
    using applied(4)
    by (auto simp: set_secret_def throw_def broker_write_def thenE_def bindE_def change_def modify_def persist_def
        broker_content_def split: prod.splits option.splits sum.splits if_splits)
  with applied(1,2) content show ?thesis by auto
qed

text \<open>what the Sandboxes page shows is what the host applies: the deployment's profiles come first, as the
  deployment wrote them and locked, the page cannot shadow them, its own follow and are not locked, and
  the idle delay shown for a profile is the one its sessions' countdowns get.\<close>

lemma sandbox_settings_exact:
  assumes "rc_profiles deployment = Some chart" and "rc_profiles page = Some own" and "distinct (map fst chart)"
  shows "let rows = ss_profiles (sandbox_settings disp deployment page runtime form)
    in take (length chart) rows = map (profile_row disp runtime chart) chart
    \<and> list_all po_locked (take (length chart) rows) \<and> \<not> list_ex po_locked (drop (length chart) rows)
    \<and> set (map po_name rows) = fst ` set chart \<union> fst ` set own \<and> distinct (map po_name rows)"
proof -
  from add_missing_adds [of chart own] obtain more where more: "add_missing chart own = chart @ more"
    "\<forall>q \<in> set more. fst q \<notin> fst ` set chart" "fst ` set (chart @ more) = fst ` set chart \<union> fst ` set own"
    "distinct (map fst (chart @ more))" using assms(3) by blast
  let ?rows = "ss_profiles (sandbox_settings disp deployment page runtime form)"
  have rows: "?rows = map (profile_row disp runtime chart) (chart @ more)"
    unfolding sandbox_settings_def by (simp add: assms(1,2) or_else_def Let_def more(1))
  have name: "po_name (profile_row disp runtime chart q) = fst q" for q
    by (simp add: profile_row_def Let_def split: prod.split)
  have lock: "po_locked (profile_row disp runtime chart q) \<longleftrightarrow> fst q \<in> fst ` set chart" for q
    by (cases "map_of chart (fst q)")
      (force simp: profile_row_def Let_def map_of_eq_None_iff dest: map_of_SomeD split: prod.split)+
  have names: "map po_name ?rows = map fst (chart @ more)"
    unfolding rows map_map by (rule map_cong) (simp_all add: name)
  then have "set (map po_name ?rows) = fst ` set chart \<union> fst ` set own" "distinct (map po_name ?rows)"
    using more(3,4) by (simp_all add: image_Un)
  then show ?thesis
    unfolding rows Let_def using more(2) by (auto simp: list_all_iff list_ex_iff lock)
qed

section \<open>Examples\<close>

definition demo_pages :: "(string \<times> json) list pages" where
  "demo_pages = \<lparr>pg_anchors = demo_anchors, pg_registry = \<lambda>e. [(ra_path demo_anchor, ''o/r'')], pg_flush = ret (),
     pg_reading = \<lambda>s. Inr None\<rparr>"

definition demo_pages_state :: "broker \<times> (string \<times> json) list" where
  "demo_pages_state = (\<lparr>mem = empty_broker, disk = None, chain = None\<rparr>, demo_metadata)"

lemma demo_url_normal: "normalize_workspace_url demo_library ''https://ex.com/o/r'' = Inr ''https://ex.com/o/r''"
  by code_simp

definition demo_docker_config :: docker_config where
  "demo_docker_config = \<lparr>dc_image = None, dc_binary = None, dc_control_plane_url = None, dc_idle_ms = None\<rparr>"

definition demo_config :: "(string \<times> profile_config) list \<Rightarrow> runtime_config" where
  "demo_config ps = \<lparr>rc_profiles = Some ps, rc_default_profile = None, rc_idle_ms = None, rc_expires_after_ms = None,
     rc_ready_timeout_ms = None\<rparr>"

definition demo_resolved_settings :: resolved_runtime where
  "demo_resolved_settings = \<lparr>rr_profiles = [], rr_default_profile = None, rr_idle_ms = js_int 1, rr_expires_after_ms = js_int 1,
     rr_ready_timeout_ms = None\<rparr>"

lemma workspace_secret_registered_witness:
  "registered demo_pages ''https://ex.com/o/r'' \<or>
   broker_content (snd (set_registered_workspace_secret demo_pages ''https://ex.com/o/r''
     (\<lambda>url. set_secret (pg_parse demo_pages) (pg_flush demo_pages) (WorkspaceScope url) ''A'' ''b'') demo_pages_state)) = empty_broker"
  using workspace_secret_registered [OF surjective_pairing, of demo_pages "''https://ex.com/o/r''" "''A''" "''b''" demo_pages_state]
    demo_url_normal
  by (auto simp: demo_pages_state_def broker_content_def demo_pages_def demo_anchors_def)

lemma sandbox_settings_exact_witness:
  "map po_locked (ss_profiles (sandbox_settings (\<lambda>_. ''1'')
      (demo_config [(''a'', DockerC demo_docker_config)]) (demo_config [(''a'', DockerC demo_docker_config), (''b'', DockerC demo_docker_config)])
      demo_resolved_settings None)) = [True, False]"
  using sandbox_settings_exact [of "demo_config [(''a'', DockerC demo_docker_config)]" "[(''a'', DockerC demo_docker_config)]"
     "demo_config [(''a'', DockerC demo_docker_config), (''b'', DockerC demo_docker_config)]"
     "[(''a'', DockerC demo_docker_config), (''b'', DockerC demo_docker_config)]" "\<lambda>_. ''1''" demo_resolved_settings None]
  by (simp add: demo_config_def sandbox_settings_def or_else_def profile_row_def)

end
