(* ===== verification/Mcp_OAuth.thy ===== *)
theory Mcp_OAuth
  imports Mcp_Store Auth_Core
begin

text \<open>
  \<open>mcp/mcp-oauth.ts\<close>: the sign-in of remote MCP servers and the renewal of their tokens. The MCP SDK's
  \<open>auth()\<close> talks to the provider object the code gives it; it is a parameter, a tree of the calls it
  makes (\<open>sdk\<close>) that the code's own callbacks answer. Random states, URLs, the clock and the remount of
  a server are parameters too. A tree is finite: an \<open>auth()\<close> that never settles is a call under way.
\<close>

definition MCP_OAUTH_CALLBACK_PATH :: string where
  "MCP_OAUTH_CALLBACK_PATH = ''/dsh-yawn/mcp/oauth/callback''"

definition MCP_OAUTH_CLIENT_METADATA_PATH :: string where
  "MCP_OAUTH_CLIENT_METADATA_PATH = ''/dsh-yawn/mcp/oauth/client-metadata.json''"

definition pending_lifetime_ms :: int where "pending_lifetime_ms = 10 * 60000"
definition renewal_margin_ms :: int where "renewal_margin_ms = 10 * 60000"
definition renewal_retry_ms :: int where "renewal_retry_ms = 60000"
definition renewal_retry_cap_ms :: int where "renewal_retry_cap_ms = 30 * 60000"
definition renewal_request_timeout_ms :: int where "renewal_request_timeout_ms = 30000"

section \<open>State\<close>

record pending_sign_in =
  ps_server_name :: string
  ps_url :: string
  ps_redirect_uri :: string
  ps_created_at :: int
  ps_metadata_url :: "string option"
  ps_client :: "json option"
  ps_verifier :: "string option"
  ps_discovery :: "json option"
  ps_tokens :: "json option"

record renewal_failure =
  rf_attempts :: nat
  rf_retry_at :: int

text \<open>A sign-in by what of it never changes. \<open>oa_log\<close> is not in the code: which states were given out,
  taken by a callback, and led to a saved credential.\<close>

type_synonym sign_in = "string \<times> string \<times> string \<times> int"

definition sign_in_of :: "pending_sign_in \<Rightarrow> sign_in" where
  "sign_in_of p = (ps_server_name p, ps_url p, ps_redirect_uri p, ps_created_at p)"

datatype oauth_note = GaveOut string sign_in | Taken string sign_in int | Saved string sign_in oauth_credential

record 'e oauth =
  oa_pending :: "(string \<times> pending_sign_in) list"
  oa_failures :: "(string \<times> renewal_failure) list"
  oa_store :: mcp_store
  oa_env :: 'e
  oa_log :: "oauth_note list"

section \<open>The SDK\<close>

datatype provider_call =
    State | ClientInformation | SaveClientInformation json | Tokens | SaveTokens json
  | RedirectToAuthorization string | SaveCodeVerifier string | CodeVerifier
  | SaveDiscoveryState json | DiscoveryState | InvalidateCredentials string

text \<open>What \<open>auth()\<close> does next: it answers, throws, calls the provider, or moves the world.\<close>

datatype 'e sdk =
    Answers string
  | Throws error
  | Calls provider_call "error + json option \<Rightarrow> 'e sdk"
  | Moves "'e \<Rightarrow> 'e" "'e \<Rightarrow> 'e sdk"

record provider_view =
  pv_redirect_url :: string
  pv_client_metadata :: json
  pv_client_metadata_url :: "string option"
  pv_methods :: "string list"

record auth_options =
  ao_server_url :: string
  ao_code :: "string option"
  ao_iss :: "string option"
  ao_timeout :: "int option"

primrec run_sdk ::
  "'e sdk \<Rightarrow> (provider_call \<Rightarrow> 'p \<Rightarrow> (error + json option) \<times> 'p) \<Rightarrow> 'p \<times> 'e \<Rightarrow> (error + string) \<times> 'p \<times> 'e" where
  "run_sdk (Answers a) answer s = (Inr a, s)"
| "run_sdk (Throws er) answer s = (Inl er, s)"
| "run_sdk (Calls c k) answer s = (case answer c (fst s) of (v, p) \<Rightarrow> run_sdk (k v) answer (p, snd s))"
| "run_sdk (Moves f k) answer s = run_sdk (k (snd s)) answer (fst s, f (snd s))"

record 'e oauth_library =
  ob_auth :: "provider_view \<Rightarrow> auth_options \<Rightarrow> 'e sdk"
  ob_state :: "'e \<Rightarrow> string \<times> 'e"
  ob_now :: "'e \<Rightarrow> int"
  ob_origin :: "string \<Rightarrow> (string \<times> string) option"
  ob_href :: "string \<Rightarrow> string \<Rightarrow> string"
  ob_query :: "string \<Rightarrow> (string \<Rightarrow> string option) option"
  ob_to_number :: "json \<Rightarrow> js_number"
  ob_reading :: "mcp_store \<times> 'e \<Rightarrow> error + json option"
  ob_flush :: "('e, unit) comp"
  ob_authorized :: "string \<Rightarrow> ('e, unit) comp"
  ob_warn :: "string \<Rightarrow> 'e \<Rightarrow> 'e"

text \<open>\<open>ob_origin\<close> gives the protocol and the origin of a URL, \<open>ob_href\<close> resolves a path against a base,
  \<open>ob_query\<close> reads a request's query; \<open>None\<close> is a \<open>new URL\<close> that throws. \<open>ob_to_number\<close> is the coercion of
  a value that is no number.\<close>

definition on_store :: "(mcp_store \<times> 'e, 'a) comp \<Rightarrow> ('e oauth, 'a) comp" where
  "on_store m s = (case m (oa_store s, oa_env s) of (r, (d, e)) \<Rightarrow> (r, s\<lparr>oa_store := d, oa_env := e\<rparr>))"

definition on_env :: "('e, 'a) comp \<Rightarrow> ('e oauth, 'a) comp" where
  "on_env m s = (case m (oa_env s) of (r, e) \<Rightarrow> (r, s\<lparr>oa_env := e\<rparr>))"

definition clock :: "'e oauth_library \<Rightarrow> ('e oauth, int) comp" where
  "clock lib = gets (\<lambda>s. ob_now lib (oa_env s))"

definition warns :: "'e oauth_library \<Rightarrow> string \<Rightarrow> ('e oauth, unit) comp" where
  "warns lib text = modify (\<lambda>s. s\<lparr>oa_env := ob_warn lib text (oa_env s)\<rparr>)"

definition servers_now :: "'e oauth \<Rightarrow> mcp_file" where
  "servers_now s = mem (oa_store s)"

text \<open>A call of \<open>auth()\<close>, with what the provider holds when it is over.\<close>

definition asked ::
  "'e sdk \<Rightarrow> (provider_call \<Rightarrow> 'p \<Rightarrow> (error + json option) \<times> 'p) \<Rightarrow> 'p \<Rightarrow> ('e oauth, (error + string) \<times> 'p) comp" where
  "asked sdk answer p s =
    (case run_sdk sdk answer (p, oa_env s) of (r, (q, e)) \<Rightarrow> (Inr (r, q), s\<lparr>oa_env := e\<rparr>))"

section \<open>Addresses and metadata\<close>

definition callback_url :: "'e oauth_library \<Rightarrow> string \<Rightarrow> error + string" where
  "callback_url lib address =
    (case ob_origin lib address of
       None \<Rightarrow> Inl (Plain (''invalid control-plane origin: '' @ address))
     | Some (protocol, site) \<Rightarrow>
        if protocol \<noteq> ''http:'' \<and> protocol \<noteq> ''https:''
        then Inl (Plain (''invalid control-plane origin: '' @ address))
        else Inr (ob_href lib MCP_OAUTH_CALLBACK_PATH site))"

definition metadata_document_url :: "'e oauth_library \<Rightarrow> string \<Rightarrow> string" where
  "metadata_document_url lib redirect_uri = ob_href lib MCP_OAUTH_CLIENT_METADATA_PATH redirect_uri"

definition https_metadata_document_url :: "'e oauth_library \<Rightarrow> string \<Rightarrow> string option" where
  "https_metadata_document_url lib redirect_uri =
    (if starts_with ''https:'' redirect_uri then Some (metadata_document_url lib redirect_uri) else None)"

definition origin_from_host :: "'e oauth_library \<Rightarrow> string option \<Rightarrow> string option" where
  "origin_from_host lib host =
    (case host of
       None \<Rightarrow> None
     | Some h \<Rightarrow> if h = '''' then None else map_option snd (ob_origin lib (''https://'' @ h)))"

definition client_metadata_fields :: "string \<Rightarrow> (string \<times> json) list" where
  "client_metadata_fields redirect_uri =
    [(''client_name'', JStr ''DeepSeek Harness''), (''redirect_uris'', JArr [JStr redirect_uri]),
     (''grant_types'', JArr [JStr ''authorization_code'', JStr ''refresh_token'']),
     (''response_types'', JArr [JStr ''code''])]"

definition client_metadata :: "string \<Rightarrow> json" where
  "client_metadata redirect_uri = JObj (client_metadata_fields redirect_uri)"

definition client_metadata_document :: "'e oauth_library \<Rightarrow> string \<Rightarrow> error + json" where
  "client_metadata_document lib site =
    map_sum id (\<lambda>redirect_uri. JObj ((''client_id'', JStr (metadata_document_url lib redirect_uri))
        # client_metadata_fields redirect_uri @ [(''token_endpoint_auth_method'', JStr ''none'')]))
      (callback_url lib site)"

section \<open>The provider of a sign-in\<close>

text \<open>\<open>su_redirect\<close> is the URL the SDK sent the browser to. \<open>first\<close>: the callback of \<open>start\<close> takes it, the
  one of \<open>finish\<close> throws.\<close>

record sign_in_run =
  su_sign_in :: pending_sign_in
  su_redirect :: "string option"

definition no_method :: "(error + json option)" where
  "no_method = Inl (Plain ''the provider has no such method'')"

fun sign_in_call :: "bool \<Rightarrow> string \<Rightarrow> provider_call \<Rightarrow> sign_in_run \<Rightarrow> (error + json option) \<times> sign_in_run" where
  "sign_in_call first state State u = (Inr (Some (JStr state)), u)"
| "sign_in_call first state ClientInformation u = (Inr (ps_client (su_sign_in u)), u)"
| "sign_in_call first state (SaveClientInformation v) u = (Inr None, u\<lparr>su_sign_in := (su_sign_in u)\<lparr>ps_client := Some v\<rparr>\<rparr>)"
| "sign_in_call first state Tokens u = (Inr (ps_tokens (su_sign_in u)), u)"
| "sign_in_call first state (SaveTokens v) u = (Inr None, u\<lparr>su_sign_in := (su_sign_in u)\<lparr>ps_tokens := Some v\<rparr>\<rparr>)"
| "sign_in_call first state (RedirectToAuthorization url) u =
    (if first then (Inr None, u\<lparr>su_redirect := Some url\<rparr>)
     else (Inl (Plain ''the authorization server asked for a second sign-in''), u))"
| "sign_in_call first state (SaveCodeVerifier v) u = (Inr None, u\<lparr>su_sign_in := (su_sign_in u)\<lparr>ps_verifier := Some v\<rparr>\<rparr>)"
| "sign_in_call first state CodeVerifier u =
    (case ps_verifier (su_sign_in u) of
       None \<Rightarrow> (Inl (Plain ''no PKCE code verifier was saved for this sign-in''), u)
     | Some v \<Rightarrow> (Inr (Some (JStr v)), u))"
| "sign_in_call first state (SaveDiscoveryState v) u = (Inr None, u\<lparr>su_sign_in := (su_sign_in u)\<lparr>ps_discovery := Some v\<rparr>\<rparr>)"
| "sign_in_call first state DiscoveryState u = (Inr (ps_discovery (su_sign_in u)), u)"
| "sign_in_call first state (InvalidateCredentials s) u = (no_method, u)"

definition sign_in_view :: "pending_sign_in \<Rightarrow> provider_view" where
  "sign_in_view p = \<lparr>pv_redirect_url = ps_redirect_uri p, pv_client_metadata = client_metadata (ps_redirect_uri p),
     pv_client_metadata_url = ps_metadata_url p,
     pv_methods = [''state'', ''clientInformation'', ''saveClientInformation'', ''tokens'', ''saveTokens'',
       ''redirectToAuthorization'', ''saveCodeVerifier'', ''codeVerifier'', ''saveDiscoveryState'', ''discoveryState'']\<rparr>"

section \<open>Signing in\<close>

definition forget_expired :: "int \<Rightarrow> (string \<times> pending_sign_in) list \<Rightarrow> (string \<times> pending_sign_in) list" where
  "forget_expired now ps = filter (\<lambda>(_, p). \<not> now - ps_created_at p > pending_lifetime_ms) ps"

text \<open>\<open>start\<close> up to the call of \<open>auth()\<close>, and from there.\<close>

definition start_begin :: "'e oauth_library \<Rightarrow> string \<Rightarrow> string \<Rightarrow> ('e oauth, string \<times> pending_sign_in) comp" where
  "start_begin lib server_name address =
    thenE (on_store (mcp_refresh (ob_reading lib)))
   (bindE (gets (\<lambda>s. get_server (servers_now s) server_name)) (\<lambda>found.
      case found of
        None \<Rightarrow> throw (Plain (''unknown MCP server: '' @ server_name))
      | Some entry \<Rightarrow>
         if me_auth entry \<noteq> ''oauth'' then throw (Plain (''MCP server '' @ server_name @ '' does not use OAuth''))
         else
           bindE (clock lib) (\<lambda>now.
           thenE (modify (\<lambda>s. s\<lparr>oa_pending := forget_expired now (oa_pending s)\<rparr>))
          (bindE (liftE (callback_url lib address)) (\<lambda>redirect_uri.
           bindE (gets (\<lambda>s. oauth_for (servers_now s) server_name)) (\<lambda>saved.
           bindE (on_env (\<lambda>e. case ob_state lib e of (k, e') \<Rightarrow> (Inr k, e'))) (\<lambda>state.
             ret (state, \<lparr>ps_server_name = server_name, ps_url = me_url entry, ps_redirect_uri = redirect_uri,
               ps_created_at = now, ps_metadata_url = https_metadata_document_url lib redirect_uri,
               ps_client = (case saved of None \<Rightarrow> None
                 | Some c \<Rightarrow> if oc_redirect_uri c = redirect_uri then Some (oc_client c) else None),
               ps_verifier = None, ps_discovery = None, ps_tokens = None\<rparr>))))))))"

definition start_end :: "'e oauth_library \<Rightarrow> string \<times> pending_sign_in \<Rightarrow> ('e oauth, string) comp" where
  "start_end lib = (\<lambda>(state, p).
    bindE (asked (ob_auth lib (sign_in_view p)
             \<lparr>ao_server_url = ps_url p, ao_code = None, ao_iss = None, ao_timeout = None\<rparr>)
           (sign_in_call True state) \<lparr>su_sign_in = p, su_redirect = None\<rparr>) (\<lambda>(answer, u).
    bindE (liftE answer) (\<lambda>result.
      case su_redirect u of
        Some url \<Rightarrow>
          if result \<noteq> ''REDIRECT'' then throw (Plain (''MCP server '' @ ps_server_name p @ '' did not ask for a browser sign-in''))
          else thenE (modify (\<lambda>s. s\<lparr>oa_pending := AList.update state (su_sign_in u) (oa_pending s),
                                    oa_log := oa_log s @ [GaveOut state (sign_in_of (su_sign_in u))]\<rparr>))
                 (ret url)
      | None \<Rightarrow> throw (Plain (''MCP server '' @ ps_server_name p @ '' did not ask for a browser sign-in'')))))"

definition oauth_start :: "'e oauth_library \<Rightarrow> string \<Rightarrow> string \<Rightarrow> ('e oauth, string) comp" where
  "oauth_start lib server_name address = bindE (start_begin lib server_name address) (start_end lib)"

definition token_expiry :: "int \<Rightarrow> json \<Rightarrow> js_number option" where
  "token_expiry now tokens =
    (case field ''expires_in'' tokens of
       Some (JNum n) \<Rightarrow> Some (num_add (js_int now) (num_times 1000 n))
     | _ \<Rightarrow> None)"

text \<open>\<open>finish\<close> up to the call of \<open>auth()\<close>: the state is spent before anything is awaited.\<close>

record code_exchange =
  ex_state :: string
  ex_sign_in :: pending_sign_in
  ex_code :: string
  ex_iss :: "string option"

definition unknown_sign_in :: error where
  "unknown_sign_in = Plain ''This sign-in is unknown or has expired. Start it again from Settings -> MCP.''"

definition finish_begin :: "'e oauth_library \<Rightarrow> (string \<Rightarrow> string option) \<Rightarrow> ('e oauth, code_exchange) comp" where
  "finish_begin lib query =
    (case query ''state'' of
       None \<Rightarrow> throw unknown_sign_in
     | Some state \<Rightarrow>
        bindE (gets (\<lambda>s. map_of (oa_pending s) state)) (\<lambda>found.
        bindE (clock lib) (\<lambda>now.
          case found of
            None \<Rightarrow> throw unknown_sign_in
          | Some p \<Rightarrow>
             if now - ps_created_at p > pending_lifetime_ms then throw unknown_sign_in
             else thenE (modify (\<lambda>s. s\<lparr>oa_pending := AList.delete state (oa_pending s),
                                       oa_log := oa_log s @ [Taken state (sign_in_of p) now]\<rparr>))
              (case query ''error'' of
                 Some refused \<Rightarrow> throw (Plain (''The authorization server refused the sign-in: ''
                   @ (case query ''error_description'' of None \<Rightarrow> refused | Some d \<Rightarrow> d)))
               | None \<Rightarrow> (case query ''code'' of
                   None \<Rightarrow> throw (Plain ''The authorization server returned no code.'')
                 | Some code \<Rightarrow> ret \<lparr>ex_state = state, ex_sign_in = p, ex_code = code, ex_iss = query ''iss''\<rparr>)))))"

definition finish_end :: "'e oauth_library \<Rightarrow> code_exchange \<Rightarrow> ('e oauth, string) comp" where
  "finish_end lib x =
    (let p = ex_sign_in x in
     bindE (asked (ob_auth lib (sign_in_view p)
              \<lparr>ao_server_url = ps_url p, ao_code = Some (ex_code x), ao_iss = ex_iss x, ao_timeout = None\<rparr>)
            (sign_in_call False (ex_state x)) \<lparr>su_sign_in = p, su_redirect = None\<rparr>) (\<lambda>(answer, u).
     bindE (liftE answer) (\<lambda>result.
     bindE (clock lib) (\<lambda>now.
       case (ps_tokens (su_sign_in u), ps_client (su_sign_in u)) of
         (Some tokens, Some client) \<Rightarrow>
           if result \<noteq> ''AUTHORIZED'' then throw (Plain ''The authorization server returned no access token.'')
           else (let cred = \<lparr>oc_redirect_uri = ps_redirect_uri p, oc_client = client, oc_tokens = tokens,
                             oc_expires_at = token_expiry now tokens\<rparr> in
             thenE (on_store (save_oauth (ob_reading lib) (ob_flush lib) (ps_server_name p) (ps_url p) cred))
            (thenE (modify (\<lambda>s. s\<lparr>oa_log := oa_log s @ [Saved (ex_state x) (sign_in_of p) cred]\<rparr>))
            (thenE (on_env (ob_authorized lib (ps_server_name p)))
               (ret (ps_server_name p)))))
       | _ \<Rightarrow> throw (Plain ''The authorization server returned no access token.'')))))"

definition oauth_finish :: "'e oauth_library \<Rightarrow> (string \<Rightarrow> string option) \<Rightarrow> ('e oauth, string) comp" where
  "oauth_finish lib query = bindE (finish_begin lib query) (finish_end lib)"

section \<open>The routes\<close>

definition escape_markup :: "string \<Rightarrow> string" where
  "escape_markup s =
    replace_all CHR 0x27 ''&#39;'' (replace_all CHR 0x22 ''&quot;'' (replace_all CHR ''>'' ''&gt;''
      (replace_all CHR ''<'' ''&lt;'' (replace_all CHR ''&'' ''&amp;'' s))))"

definition page_headers :: "(string \<times> string) list" where
  \<open>page_headers = [(''content-type'', ''text/html; charset=utf-8''), (''cache-control'', ''no-store''),
    (''referrer-policy'', ''no-referrer''),
    (''content-security-policy'', ''default-src ''
       @ [CHR 0x27] @ ''none'' @ [CHR 0x27] @ ''; style-src '' @ [CHR 0x27] @ ''unsafe-inline'' @ [CHR 0x27]
       @ ''; script-src '' @ [CHR 0x27] @ ''unsafe-inline'' @ [CHR 0x27])]\<close>

definition send_page :: "nat \<Rightarrow> string \<Rightarrow> string \<Rightarrow> bool \<Rightarrow> http_response" where
  \<open>send_page status title message close =
    \<lparr>rs_status = status, rs_headers = page_headers,
     rs_body = ''<!doctype html><html><head><meta charset="utf-8"><title>'' @ escape_markup title @ ''</title>''
       @ ''<style>body{font:15px/1.5 system-ui,sans-serif;max-width:32rem;margin:15vh auto;padding:0 1rem}</style>''
       @ ''</head><body><h1 style="font-size:20px">'' @ escape_markup title @ ''</h1><p>'' @ escape_markup message @ ''</p>''
       @ (if close then ''<script>window.close()</script>'' else '''') @ ''</body></html>''\<rparr>\<close>

definition only_get :: http_response where
  "only_get = \<lparr>rs_status = 405, rs_headers = [(''allow'', ''GET'')], rs_body = ''''\<rparr>"

definition answer_callback :: "'e oauth_library \<Rightarrow> (string \<Rightarrow> string option) \<Rightarrow> ('e oauth, http_response) comp" where
  "answer_callback lib query =
    catchE (bindE (oauth_finish lib query) (\<lambda>server_name.
        ret (send_page 200 (server_name @ '' is connected'') ''You can close this tab and return to Settings -> MCP.'' True)))
      (\<lambda>reason. ret (send_page 400 ''Sign-in failed'' (error_message reason) False))"

definition handle_callback :: "'e oauth_library \<Rightarrow> http_request \<Rightarrow> ('e oauth, http_response) comp" where
  "handle_callback lib r =
    (if hr_method r \<noteq> ''GET'' then ret only_get
     else case ob_query lib (case hr_url r of None \<Rightarrow> ''/'' | Some u \<Rightarrow> u) of
       None \<Rightarrow> throw (Plain ''Invalid URL'')
     | Some query \<Rightarrow> answer_callback lib query)"

text \<open>The answer's document, or none; the body is its JSON text.\<close>

definition handle_client_metadata :: "'e oauth_library \<Rightarrow> http_request \<Rightarrow> error + nat \<times> (string \<times> string) list \<times> json option" where
  "handle_client_metadata lib r =
    (if hr_method r \<noteq> ''GET'' then Inr (405, [(''allow'', ''GET'')], None)
     else case origin_from_host lib (case map_of (hr_headers r) ''host'' of Some (HText h) \<Rightarrow> Some h | _ \<Rightarrow> None) of
       None \<Rightarrow> Inr (400, [], None)
     | Some site \<Rightarrow>
        map_sum id (\<lambda>document. (200, [(''content-type'', ''application/json''), (''cache-control'', ''no-store'')], Some document))
          (client_metadata_document lib site))"

section \<open>Renewals\<close>

definition renewal_due :: "'e oauth_library \<Rightarrow> int \<Rightarrow> mcp_file \<Rightarrow> string \<Rightarrow> bool" where
  "renewal_due lib now servers server_name =
    (case oauth_for servers server_name of
       None \<Rightarrow> False
     | Some c \<Rightarrow>
        (case (refresh_token c, oc_expires_at c) of
           (Some _, Some expires_at) \<Rightarrow>
             (let seconds = (case field ''expires_in'' (oc_tokens c) of
                    None \<Rightarrow> js_int 0 | Some JNull \<Rightarrow> js_int 0 | Some (JNum n) \<Rightarrow> n | Some v \<Rightarrow> ob_to_number lib v);
                  margin = num_min (js_int renewal_margin_ms) (num_times (1 / 2) (num_times 1000 seconds))
              in num_le (num_sub expires_at margin) (js_int now))
         | _ \<Rightarrow> False))"

text \<open>What one refresh grant starts from. A refresh token that is no string (a file edited by hand) is not renewed
  here.\<close>

record renewal =
  rn_server_name :: string
  rn_url :: string
  rn_saved :: oauth_credential
  rn_token :: string

definition renew_begin :: "mcp_file \<Rightarrow> string \<Rightarrow> renewal option" where
  "renew_begin servers server_name =
    (case (get_server servers server_name, oauth_for servers server_name) of
       (Some entry, Some saved) \<Rightarrow>
         (case refresh_token saved of
            Some (JStr token) \<Rightarrow>
              Some \<lparr>rn_server_name = server_name, rn_url = me_url entry, rn_saved = saved, rn_token = token\<rparr>
          | _ \<Rightarrow> None)
     | _ \<Rightarrow> None)"

record renewal_run =
  ru_client :: "json option"
  ru_tokens :: "json option"
  ru_refused :: bool

fun renewal_call :: "provider_call \<Rightarrow> renewal_run \<Rightarrow> (error + json option) \<times> renewal_run" where
  "renewal_call ClientInformation u = (Inr (ru_client u), u)"
| "renewal_call Tokens u = (Inr (ru_tokens u), u)"
| "renewal_call (SaveTokens v) u = (Inr None, u\<lparr>ru_tokens := Some v\<rparr>)"
| "renewal_call (InvalidateCredentials scope) u =
    (Inr None,
     let u' = (if scope = ''all'' \<or> scope = ''client'' then u\<lparr>ru_client := None\<rparr> else u)
     in if scope = ''all'' \<or> scope = ''client'' \<or> scope = ''tokens'' then u'\<lparr>ru_refused := True, ru_tokens := None\<rparr> else u')"
| "renewal_call (RedirectToAuthorization url) u = (Inr None, u)"
| "renewal_call (SaveCodeVerifier v) u = (Inr None, u)"
| "renewal_call CodeVerifier u = (Inl (Plain ''a renewal has no PKCE code verifier''), u)"
| "renewal_call _ u = (no_method, u)"

definition renewal_view :: "oauth_credential \<Rightarrow> provider_view" where
  "renewal_view saved = \<lparr>pv_redirect_url = oc_redirect_uri saved, pv_client_metadata = client_metadata (oc_redirect_uri saved),
     pv_client_metadata_url = None,
     pv_methods = [''clientInformation'', ''tokens'', ''saveTokens'', ''invalidateCredentials'', ''redirectToAuthorization'',
       ''saveCodeVerifier'', ''codeVerifier'']\<rparr>"

definition without_field :: "string \<Rightarrow> json \<Rightarrow> json" where
  "without_field k v = (case v of JObj fs \<Rightarrow> JObj (AList.delete k fs) | _ \<Rightarrow> v)"

definition replacing :: "'e oauth_library \<Rightarrow> renewal \<Rightarrow> oauth_credential option \<Rightarrow> ('e oauth, unit) comp" where
  "replacing lib rn cred =
    thenE (on_store (replace_oauth (ob_reading lib) (ob_flush lib) (rn_server_name rn) (rn_token rn) cred)) (ret ())"

text \<open>\<open>renew\<close> from its call of \<open>auth()\<close> on.\<close>

definition renew_end :: "'e oauth_library \<Rightarrow> renewal \<Rightarrow> ('e oauth, unit) comp" where
  "renew_end lib rn =
    (let saved = rn_saved rn in
     bindE (asked (ob_auth lib (renewal_view saved)
              \<lparr>ao_server_url = rn_url rn, ao_code = None, ao_iss = None, ao_timeout = Some renewal_request_timeout_ms\<rparr>)
            renewal_call \<lparr>ru_client = Some (oc_client saved), ru_tokens = Some (oc_tokens saved), ru_refused = False\<rparr>) (\<lambda>(answer, u).
       if ru_refused u then
         thenE (replacing lib rn (if ru_client u = None then None
             else Some (saved\<lparr>oc_tokens := without_field ''refresh_token'' (oc_tokens saved)\<rparr>)))
           (throw (Plain (if ru_client u = None then ''the authorization server refused the client; sign in again''
             else ''the authorization server refused the refresh token; sign in again'')))
       else bindE (liftE answer) (\<lambda>result.
         case ru_tokens u of
           None \<Rightarrow> throw (Plain ''the authorization server did not renew the access token'')
         | Some tokens \<Rightarrow>
            if result \<noteq> ''AUTHORIZED'' then throw (Plain ''the authorization server did not renew the access token'')
            else bindE (clock lib) (\<lambda>now.
              replacing lib rn (Some (saved\<lparr>oc_tokens := tokens, oc_expires_at := token_expiry now tokens\<rparr>))))))"

text \<open>One server of \<open>renewAll\<close>: what is decided before its grant, and the bookkeeping after it.\<close>

definition renew_check :: "'e oauth_library \<Rightarrow> string \<Rightarrow> ('e oauth, (renewal \<times> renewal_failure option) option) comp" where
  "renew_check lib server_name =
    bindE (clock lib) (\<lambda>now.
    bindE (gets (\<lambda>s. (servers_now s, map_of (oa_failures s) server_name))) (\<lambda>(servers, failure).
      if \<not> renewal_due lib now servers server_name
      then thenE (modify (\<lambda>s. s\<lparr>oa_failures := AList.delete server_name (oa_failures s)\<rparr>)) (ret None)
      else if (case failure of None \<Rightarrow> False | Some f \<Rightarrow> rf_retry_at f > now) then ret None
      else case renew_begin servers server_name of
        None \<Rightarrow> thenE (modify (\<lambda>s. s\<lparr>oa_failures := AList.delete server_name (oa_failures s)\<rparr>)) (ret None)
      | Some rn \<Rightarrow> ret (Some (rn, failure))))"

definition retry_delay :: "nat \<Rightarrow> int" where
  "retry_delay attempts = min (renewal_retry_ms * 2 ^ (attempts - 1)) renewal_retry_cap_ms"

definition renew_settle :: "'e oauth_library \<Rightarrow> renewal \<Rightarrow> renewal_failure option \<Rightarrow> ('e oauth, unit) comp" where
  "renew_settle lib rn failure =
    (let server_name = rn_server_name rn in
     catchE (thenE (renew_end lib rn) (modify (\<lambda>s. s\<lparr>oa_failures := AList.delete server_name (oa_failures s)\<rparr>)))
       (\<lambda>reason.
          bindE (clock lib) (\<lambda>now.
          let attempts = (case failure of None \<Rightarrow> 0 | Some f \<Rightarrow> rf_attempts f) + 1 in
          thenE (modify (\<lambda>s. s\<lparr>oa_failures := AList.update server_name
                  \<lparr>rf_attempts = attempts, rf_retry_at = now + retry_delay attempts\<rparr> (oa_failures s)\<rparr>))
            (warns lib (''MCP server '' @ server_name @ '' could not renew its OAuth access token: '' @ error_message reason)))))"

definition renew_one :: "'e oauth_library \<Rightarrow> string \<Rightarrow> ('e oauth, unit) comp" where
  "renew_one lib server_name =
    bindE (renew_check lib server_name) (\<lambda>due.
      case due of None \<Rightarrow> ret () | Some (rn, failure) \<Rightarrow> renew_settle lib rn failure)"

definition renew_list :: "'e oauth_library \<Rightarrow> ('e oauth, string list) comp" where
  "renew_list lib =
    catchE (thenE (on_store (mcp_refresh (ob_reading lib))) (gets (\<lambda>s. map me_server_name (list_servers (servers_now s)))))
      (\<lambda>reason. thenE (warns lib (''MCP OAuth renewal could not read the servers: '' @ error_message reason)) (ret []))"

definition renew_all :: "'e oauth_library \<Rightarrow> ('e oauth, unit) comp" where
  "renew_all lib = bindE (renew_list lib) (\<lambda>names. forE names (renew_one lib))"

section \<open>What a call of the SDK can do\<close>

text \<open>The contract of a provider: however the SDK calls it, it moves along \<open>moves_to\<close>.\<close>

locale provider =
  fixes answer :: "provider_call \<Rightarrow> 'p \<Rightarrow> (error + json option) \<times> 'p" and moves_to :: "'p \<Rightarrow> 'p \<Rightarrow> bool"
  assumes stays: "moves_to p p"
    and joins: "moves_to p q \<Longrightarrow> moves_to q u \<Longrightarrow> moves_to p u"
    and answers: "moves_to p (snd (answer c p))"
begin

lemma run_moves: "moves_to p (fst (snd (run_sdk sdk answer (p, e))))"
proof (induction sdk arbitrary: p e)
  case (Calls c k)
  obtain v q where a: "answer c p = (v, q)" by (rule prod.exhaust)
  with answers [of p c] Calls [of "k v" q e] show ?case by (auto intro: joins)
qed (simp_all add: stays)

lemma wp_asked: "(\<And>r q e. moves_to p q \<Longrightarrow> Q (r, q) (s\<lparr>oa_env := e\<rparr>)) \<Longrightarrow> wp (asked sdk answer p) Q E s"
  using run_moves [of p sdk "oa_env s"] by (auto simp: wp_def asked_def split: prod.split)

end

definition renewal_moves :: "renewal_run \<Rightarrow> renewal_run \<Rightarrow> bool" where
  "renewal_moves u v \<longleftrightarrow> (ru_refused u \<longrightarrow> ru_refused v) \<and> (ru_client v = ru_client u \<or> ru_client v = None \<and> ru_refused v)"

interpretation signing_in: provider "sign_in_call first state" "\<lambda>u v. sign_in_of (su_sign_in v) = sign_in_of (su_sign_in u)"
  for first state
proof
  fix p :: sign_in_run and c
  show "sign_in_of (su_sign_in (snd (sign_in_call first state c p))) = sign_in_of (su_sign_in p)"
    by (cases c) (simp_all add: sign_in_of_def split: option.split)
qed simp_all

interpretation renewing: provider renewal_call renewal_moves
proof
  fix p :: renewal_run and c
  show "renewal_moves p (snd (renewal_call c p))"
    by (cases c) (simp_all add: renewal_moves_def Let_def)
qed (auto simp: renewal_moves_def)

lemma wp_oauth_store:
  "(\<And>r d e. m (oa_store s, oa_env s) = (r, (d, e)) \<Longrightarrow>
      case r of Inr a \<Rightarrow> Q a (s\<lparr>oa_store := d, oa_env := e\<rparr>) | Inl er \<Rightarrow> E er (s\<lparr>oa_store := d, oa_env := e\<rparr>)) \<Longrightarrow>
   wp (on_store m) Q E s"
  by (auto simp: wp_def on_store_def split: prod.split sum.splits)

lemma wp_oauth_env:
  "(\<And>a e. Q a (s\<lparr>oa_env := e\<rparr>)) \<Longrightarrow> (\<And>er e. E er (s\<lparr>oa_env := e\<rparr>)) \<Longrightarrow> wp (on_env m) Q E s"
  by (auto simp: wp_def on_env_def split: prod.split sum.splits)

section \<open>What each part leaves alone\<close>

definition same_sign_ins :: "'e oauth \<Rightarrow> 'e oauth \<Rightarrow> bool" where
  "same_sign_ins s t \<longleftrightarrow> oa_pending t = oa_pending s \<and> oa_log t = oa_log s"

definition thins_out :: "'e oauth \<Rightarrow> 'e oauth \<Rightarrow> bool" where
  "thins_out s t \<longleftrightarrow> oa_log t = oa_log s \<and> (\<exists>P. oa_pending t = filter P (oa_pending s))"

lemma thins_out_simps [simp]:
  "thins_out s s" "thins_out s (t\<lparr>oa_store := d\<rparr>) \<longleftrightarrow> thins_out s t" "thins_out s (t\<lparr>oa_env := e\<rparr>) \<longleftrightarrow> thins_out s t"
  "oa_log t = oa_log s \<Longrightarrow> thins_out s (t\<lparr>oa_pending := forget_expired now (oa_pending s)\<rparr>)"
  unfolding thins_out_def forget_expired_def by (auto intro: exI [of _ "\<lambda>_. True"])

lemma start_begin_wp: "wp (start_begin lib n address) (\<lambda>_. thins_out s) (\<lambda>_. thins_out s) s"
  unfolding start_begin_def clock_def
  by (auto simp: wp_simps intro!: wp_oauth_store wp_oauth_env split: option.splits sum.splits)

lemma start_end_wp:
  "wp (start_end lib (state, p))
     (\<lambda>_ t. \<exists>p'. sign_in_of p' = sign_in_of p \<and> oa_pending t = AList.update state p' (oa_pending s)
        \<and> oa_log t = oa_log s @ [GaveOut state (sign_in_of p)])
     (\<lambda>_. same_sign_ins s) s"
  unfolding start_end_def
  by (auto simp: wp_simps same_sign_ins_def intro!: signing_in.wp_asked split: option.splits sum.splits prod.splits)

definition spends :: "'e oauth \<Rightarrow> string \<Rightarrow> pending_sign_in \<Rightarrow> 'e oauth \<Rightarrow> bool" where
  "spends s k p t \<longleftrightarrow> map_of (oa_pending s) k = Some p \<and> oa_pending t = AList.delete k (oa_pending s) \<and>
     (\<exists>now. now - ps_created_at p \<le> pending_lifetime_ms \<and> oa_log t = oa_log s @ [Taken k (sign_in_of p) now])"

lemma finish_begin_wp:
  "wp (finish_begin lib query) (\<lambda>x t. spends s (ex_state x) (ex_sign_in x) t \<and> oa_store t = oa_store s)
     (\<lambda>_ t. same_sign_ins s t \<or> (\<exists>k p. spends s k p t)) s"
  unfolding finish_begin_def clock_def
  by (auto simp: wp_simps same_sign_ins_def spends_def split: option.splits)

lemma finish_end_wp:
  "wp (finish_end lib x)
     (\<lambda>n t. n = ps_server_name (ex_sign_in x) \<and> oa_pending t = oa_pending s \<and>
        (\<exists>cred. oc_redirect_uri cred = ps_redirect_uri (ex_sign_in x)
           \<and> oa_log t = oa_log s @ [Saved (ex_state x) (sign_in_of (ex_sign_in x)) cred]))
     (\<lambda>_ t. oa_pending t = oa_pending s \<and> (oa_log t = oa_log s \<or> (\<exists>cred. oc_redirect_uri cred = ps_redirect_uri (ex_sign_in x)
           \<and> oa_log t = oa_log s @ [Saved (ex_state x) (sign_in_of (ex_sign_in x)) cred]))) s"
  unfolding finish_end_def clock_def Let_def
  by (auto simp: wp_simps intro!: signing_in.wp_asked wp_oauth_store wp_oauth_env split: option.splits sum.splits prod.splits)

lemma same_sign_ins_env [simp]: "same_sign_ins s s" "same_sign_ins s (s\<lparr>oa_env := e\<rparr>)"
  "same_sign_ins s (t\<lparr>oa_failures := fs\<rparr>) \<longleftrightarrow> same_sign_ins s t" "same_sign_ins s (t\<lparr>oa_env := e\<rparr>) \<longleftrightarrow> same_sign_ins s t"
  by (simp_all add: same_sign_ins_def)

lemma renew_list_wp: "wp (renew_list lib) (\<lambda>_. same_sign_ins s) (\<lambda>_ _. False) s"
  unfolding renew_list_def warns_def
  by (auto simp: wp_simps same_sign_ins_def intro!: wp_oauth_store split: sum.splits)

lemma renew_check_wp: "wp (renew_check lib n) (\<lambda>_. same_sign_ins s) (\<lambda>_ _. False) s"
  unfolding renew_check_def clock_def
  by (auto simp: wp_simps same_sign_ins_def split: option.splits)

lemma replacing_wp: "same_sign_ins s s' \<Longrightarrow> wp (replacing lib rn cred) (\<lambda>_. same_sign_ins s) (\<lambda>_. same_sign_ins s) s'"
  unfolding replacing_def
  by (auto simp: wp_simps same_sign_ins_def intro!: wp_oauth_store split: sum.splits)

lemma renew_end_wp: "wp (renew_end lib rn) (\<lambda>_. same_sign_ins s) (\<lambda>_. same_sign_ins s) s"
  unfolding renew_end_def clock_def Let_def
  by (auto simp: wp_simps intro!: renewing.wp_asked replacing_wp split: option.splits sum.splits prod.splits)

lemma renew_settle_wp: "wp (renew_settle lib rn failure) (\<lambda>_. same_sign_ins s) (\<lambda>_ _. False) s"
  unfolding renew_settle_def clock_def warns_def Let_def
  by (auto simp: wp_simps intro!: wp_mono [OF renew_end_wp])

section \<open>Any order of events\<close>

text \<open>The host with the calls that await the SDK. One renewal runs at a time (\<open>renewDue\<close> answers the one under
  way), and its servers are renewed one after another.\<close>

datatype renewing = NoRenewal | Walking "string list" | Granting renewal "renewal_failure option" "string list"

record 'e oauth_host =
  oh_oauth :: "'e oauth"
  oh_starting :: "(string \<times> pending_sign_in) list"
  oh_exchanging :: "code_exchange list"
  oh_renewing :: renewing

inductive oauth_step :: "'e oauth_library \<Rightarrow> 'e oauth_host \<Rightarrow> 'e oauth_host \<Rightarrow> bool" for lib where
  start: "start_begin lib n address (oh_oauth h) = (Inr q, s) \<Longrightarrow>
    oauth_step lib h (h\<lparr>oh_oauth := s, oh_starting := q # oh_starting h\<rparr>)"
| start_refused: "start_begin lib n address (oh_oauth h) = (Inl er, s) \<Longrightarrow> oauth_step lib h (h\<lparr>oh_oauth := s\<rparr>)"
| started: "oh_starting h = xs @ q # ys \<Longrightarrow> start_end lib q (oh_oauth h) = (r, s) \<Longrightarrow>
    oauth_step lib h (h\<lparr>oh_oauth := s, oh_starting := xs @ ys\<rparr>)"
| callback: "finish_begin lib query (oh_oauth h) = (Inr x, s) \<Longrightarrow>
    oauth_step lib h (h\<lparr>oh_oauth := s, oh_exchanging := x # oh_exchanging h\<rparr>)"
| callback_refused: "finish_begin lib query (oh_oauth h) = (Inl er, s) \<Longrightarrow> oauth_step lib h (h\<lparr>oh_oauth := s\<rparr>)"
| exchanged: "oh_exchanging h = xs @ x # ys \<Longrightarrow> finish_end lib x (oh_oauth h) = (r, s) \<Longrightarrow>
    oauth_step lib h (h\<lparr>oh_oauth := s, oh_exchanging := xs @ ys\<rparr>)"
| tick: "oh_renewing h = NoRenewal \<Longrightarrow> renew_list lib (oh_oauth h) = (Inr names, s) \<Longrightarrow>
    oauth_step lib h (h\<lparr>oh_oauth := s, oh_renewing := Walking names\<rparr>)"
| skipped: "oh_renewing h = Walking (n # ns) \<Longrightarrow> renew_check lib n (oh_oauth h) = (Inr None, s) \<Longrightarrow>
    oauth_step lib h (h\<lparr>oh_oauth := s, oh_renewing := Walking ns\<rparr>)"
| due: "oh_renewing h = Walking (n # ns) \<Longrightarrow> renew_check lib n (oh_oauth h) = (Inr (Some (rn, failure)), s) \<Longrightarrow>
    oauth_step lib h (h\<lparr>oh_oauth := s, oh_renewing := Granting rn failure ns\<rparr>)"
| granted: "oh_renewing h = Granting rn failure ns \<Longrightarrow> renew_settle lib rn failure (oh_oauth h) = (r, s) \<Longrightarrow>
    oauth_step lib h (h\<lparr>oh_oauth := s, oh_renewing := Walking ns\<rparr>)"
| tick_over: "oh_renewing h = Walking [] \<Longrightarrow> oauth_step lib h (h\<lparr>oh_renewing := NoRenewal\<rparr>)"
| elsewhere: "oauth_step lib h (h\<lparr>oh_oauth := (oh_oauth h)\<lparr>oa_store := d, oa_env := e\<rparr>\<rparr>)"

text \<open>A host boots with nothing pending, on whatever store it finds.\<close>

inductive oauth_reachable :: "'e oauth_library \<Rightarrow> 'e oauth_host \<Rightarrow> bool" for lib where
  boot: "oauth_reachable lib \<lparr>oh_oauth = \<lparr>oa_pending = [], oa_failures = [], oa_store = d, oa_env = e, oa_log = []\<rparr>,
    oh_starting = [], oh_exchanging = [], oh_renewing = NoRenewal\<rparr>"
| step: "oauth_reachable lib h \<Longrightarrow> oauth_step lib h h' \<Longrightarrow> oauth_reachable lib h'"

definition gave :: "string \<Rightarrow> oauth_note list \<Rightarrow> nat" where
  "gave k notes = length (filter (\<lambda>n. case n of GaveOut t _ \<Rightarrow> t = k | _ \<Rightarrow> False) notes)"

definition taken :: "string \<Rightarrow> oauth_note list \<Rightarrow> nat" where
  "taken k notes = length (filter (\<lambda>n. case n of Taken t _ _ \<Rightarrow> t = k | _ \<Rightarrow> False) notes)"

definition saved_by :: "string \<Rightarrow> oauth_note list \<Rightarrow> nat" where
  "saved_by k notes = length (filter (\<lambda>n. case n of Saved t _ _ \<Rightarrow> t = k | _ \<Rightarrow> False) notes)"

lemma counts_append [simp]:
  "gave k (notes @ [n]) = gave k notes + (case n of GaveOut t _ \<Rightarrow> if t = k then 1 else 0 | _ \<Rightarrow> 0)"
  "taken k (notes @ [n]) = taken k notes + (case n of Taken t _ _ \<Rightarrow> if t = k then 1 else 0 | _ \<Rightarrow> 0)"
  "saved_by k (notes @ [n]) = saved_by k notes + (case n of Saved t _ _ \<Rightarrow> if t = k then 1 else 0 | _ \<Rightarrow> 0)"
  by (simp_all add: gave_def taken_def saved_by_def split: oauth_note.split)

definition exchanges_of :: "string \<Rightarrow> code_exchange list \<Rightarrow> nat" where
  "exchanges_of k xs = length (filter (\<lambda>x. ex_state x = k) xs)"

text \<open>A state is pending, taken or used up, and each at most as often as it was given out.\<close>

definition is_pending :: "string \<Rightarrow> (string \<times> pending_sign_in) list \<Rightarrow> nat" where
  "is_pending k ps = (if k \<in> fst ` set ps then 1 else 0)"

fun note_ok :: "oauth_note list \<Rightarrow> oauth_note \<Rightarrow> bool" where
  "note_ok notes (GaveOut k i) = True"
| "note_ok notes (Taken k i tm) = (GaveOut k i \<in> set notes \<and> tm - snd (snd (snd i)) \<le> pending_lifetime_ms)"
| "note_ok notes (Saved k i cred) = ((\<exists>tm. Taken k i tm \<in> set notes) \<and> oc_redirect_uri cred = fst (snd (snd i)))"

definition oauth_ok :: "'e oauth_host \<Rightarrow> bool" where
  "oauth_ok h \<longleftrightarrow> (let s = oh_oauth h; notes = oa_log s in
     (\<forall>(k, p) \<in> set (oa_pending s). GaveOut k (sign_in_of p) \<in> set notes) \<and>
     (\<forall>x \<in> set (oh_exchanging h). \<exists>tm. Taken (ex_state x) (sign_in_of (ex_sign_in x)) tm \<in> set notes) \<and>
     (\<forall>n \<in> set notes. note_ok notes n) \<and>
     (\<forall>k. is_pending k (oa_pending s) + taken k notes \<le> gave k notes) \<and>
     (\<forall>k. exchanges_of k (oh_exchanging h) + saved_by k notes \<le> taken k notes))"

lemma sign_in_parts [simp]:
  "fst (snd (snd (sign_in_of p))) = ps_redirect_uri p" "snd (snd (snd (sign_in_of p))) = ps_created_at p"
  by (simp_all add: sign_in_of_def)

lemma note_ok_mono: "note_ok notes n \<Longrightarrow> set notes \<subseteq> set later \<Longrightarrow> note_ok later n"
  by (cases n) auto

text \<open>The four ways a step moves: pending sign-ins go, one is given out, one is taken, one is used up.\<close>

lemma oauth_ok_thins:
  assumes "oauth_ok h" and "thins_out (oh_oauth h) s"
  shows "oauth_ok (h\<lparr>oh_oauth := s, oh_starting := st, oh_renewing := rw\<rparr>)"
proof -
  from assms(2) obtain P where s: "oa_log s = oa_log (oh_oauth h)" "oa_pending s = filter P (oa_pending (oh_oauth h))"
    by (auto simp: thins_out_def)
  have less: "is_pending k (oa_pending s) \<le> is_pending k (oa_pending (oh_oauth h))" for k
    by (auto simp: is_pending_def s(2))
  from assms(1) have bound: "is_pending k (oa_pending (oh_oauth h)) + taken k (oa_log (oh_oauth h)) \<le> gave k (oa_log (oh_oauth h))" for k
    by (simp add: oauth_ok_def Let_def)
  have "is_pending k (oa_pending s) + taken k (oa_log s) \<le> gave k (oa_log s)" for k
    using less [of k] bound [of k] by (simp add: s(1))
  with assms(1) show ?thesis by (auto simp: oauth_ok_def Let_def s)
qed

lemma oauth_ok_same:
  assumes "oauth_ok h" and "same_sign_ins (oh_oauth h) s"
  shows "oauth_ok (h\<lparr>oh_oauth := s, oh_starting := st, oh_renewing := rw\<rparr>)"
  by (rule oauth_ok_thins [OF assms(1)]) (use assms(2) in \<open>auto simp: thins_out_def same_sign_ins_def intro: exI [of _ "\<lambda>_. True"]\<close>)

lemma oauth_ok_gives:
  assumes "oauth_ok h" and "sign_in_of p' = i" and "oa_pending s = AList.update k p' (oa_pending (oh_oauth h))"
    and "oa_log s = oa_log (oh_oauth h) @ [GaveOut k i]"
  shows "oauth_ok (h\<lparr>oh_oauth := s, oh_starting := st\<rparr>)"
proof -
  have pending: "is_pending t (oa_pending s) \<le> is_pending t (oa_pending (oh_oauth h)) + (if t = k then 1 else 0)" for t
    by (auto simp: is_pending_def assms(3) dom_update)
  from assms(1) have bound: "is_pending t (oa_pending (oh_oauth h)) + taken t (oa_log (oh_oauth h)) \<le> gave t (oa_log (oh_oauth h))" for t
    by (simp add: oauth_ok_def Let_def)
  have counts: "is_pending t (oa_pending s) + taken t (oa_log s) \<le> gave t (oa_log s)" for t
    using pending [of t] bound [of t] by (auto simp: assms(4))
  have sub: "set (oa_log (oh_oauth h)) \<subseteq> set (oa_log s)" by (auto simp: assms(4))
  from assms(1) sub have good: "\<forall>n \<in> set (oa_log s). note_ok (oa_log s) n"
    by (auto simp: oauth_ok_def Let_def assms(4) intro: note_ok_mono)
  from assms(1) counts good show ?thesis
    by (auto simp: oauth_ok_def Let_def assms(2-4) dest: set_updateD)
qed

lemma oauth_ok_takes:
  assumes "oauth_ok h" and "spends (oh_oauth h) k p s"
    and that: "xs = [] \<or> (\<exists>x. xs = [x] \<and> ex_state x = k \<and> ex_sign_in x = p)"
  shows "oauth_ok (h\<lparr>oh_oauth := s, oh_exchanging := xs @ oh_exchanging h\<rparr>)"
proof -
  from assms(2) obtain now where found: "map_of (oa_pending (oh_oauth h)) k = Some p"
    and s: "oa_pending s = AList.delete k (oa_pending (oh_oauth h))" "oa_log s = oa_log (oh_oauth h) @ [Taken k (sign_in_of p) now]"
    and time: "now - ps_created_at p \<le> pending_lifetime_ms" by (auto simp: spends_def)
  from assms(1) map_of_SomeD [OF found] have given: "GaveOut k (sign_in_of p) \<in> set (oa_log (oh_oauth h))"
    by (auto simp: oauth_ok_def Let_def)
  have pending: "is_pending t (oa_pending s) = (if t = k then 0 else is_pending t (oa_pending (oh_oauth h)))" for t
    by (auto simp: is_pending_def s(1) AList.delete_eq)
  have one: "is_pending k (oa_pending (oh_oauth h)) = 1"
    using map_of_SomeD [OF found] by (force simp: is_pending_def)
  from assms(1) have bound: "is_pending t (oa_pending (oh_oauth h)) + taken t (oa_log (oh_oauth h)) \<le> gave t (oa_log (oh_oauth h))" for t
    by (simp add: oauth_ok_def Let_def)
  have counts: "is_pending t (oa_pending s) + taken t (oa_log s) \<le> gave t (oa_log s)" for t
    using bound [of t] one by (auto simp: pending s(2))
  have old: "exchanges_of t (oh_exchanging h) + saved_by t (oa_log (oh_oauth h)) \<le> taken t (oa_log (oh_oauth h))" for t
    using assms(1) by (simp add: oauth_ok_def Let_def)
  have used: "exchanges_of t (xs @ oh_exchanging h) + saved_by t (oa_log s) \<le> taken t (oa_log s)" for t
    using old [of t] that by (auto simp: exchanges_of_def s(2))
  have sub: "set (oa_log (oh_oauth h)) \<subseteq> set (oa_log s)" by (auto simp: s(2))
  have good: "\<forall>n \<in> set (oa_log s). note_ok (oa_log s) n"
    using assms(1) given time note_ok_mono [OF _ sub]
    by (auto simp: oauth_ok_def Let_def s(2))
  from assms(1) counts used good that sub show ?thesis
    by (auto simp: oauth_ok_def Let_def s AList.delete_eq)
qed

lemma oauth_ok_saves:
  assumes "oauth_ok h" and "oh_exchanging h = xs @ x # ys" and "oa_pending s = oa_pending (oh_oauth h)"
    and "oa_log s = oa_log (oh_oauth h) \<or> oc_redirect_uri cred = ps_redirect_uri (ex_sign_in x) \<and>
      oa_log s = oa_log (oh_oauth h) @ [Saved (ex_state x) (sign_in_of (ex_sign_in x)) cred]"
  shows "oauth_ok (h\<lparr>oh_oauth := s, oh_exchanging := xs @ ys\<rparr>)"
proof -
  from assms(1,2) obtain tm where t: "Taken (ex_state x) (sign_in_of (ex_sign_in x)) tm \<in> set (oa_log (oh_oauth h))"
    by (auto simp: oauth_ok_def Let_def)
  have old: "exchanges_of k (xs @ x # ys) + saved_by k (oa_log (oh_oauth h)) \<le> taken k (oa_log (oh_oauth h))" for k
    using assms(1,2) by (simp add: oauth_ok_def Let_def)
  have used: "exchanges_of k (xs @ ys) + saved_by k (oa_log s) \<le> taken k (oa_log s)" for k
    using old [of k] assms(4) by (auto simp: exchanges_of_def split: if_splits)
  have sub: "set (oa_log (oh_oauth h)) \<subseteq> set (oa_log s)" using assms(4) by auto
  have good: "\<forall>n \<in> set (oa_log s). note_ok (oa_log s) n"
  proof
    fix n assume n: "n \<in> set (oa_log s)"
    show "note_ok (oa_log s) n"
    proof (cases "n \<in> set (oa_log (oh_oauth h))")
      case True
      with assms(1) show ?thesis by (auto simp: oauth_ok_def Let_def intro: note_ok_mono [OF _ sub])
    next
      case False
      have "Taken (ex_state x) (sign_in_of (ex_sign_in x)) tm \<in> set (oa_log s)" using t sub by blast
      then show ?thesis using n False assms(4) by fastforce
    qed
  qed
  have counts: "taken k (oa_log s) = taken k (oa_log (oh_oauth h)) \<and> gave k (oa_log s) = gave k (oa_log (oh_oauth h))" for k
    using assms(4) by auto
  have waiting: "\<forall>y \<in> set (xs @ ys). \<exists>tm. Taken (ex_state y) (sign_in_of (ex_sign_in y)) tm \<in> set (oa_log s)"
  proof
    fix y assume "y \<in> set (xs @ ys)"
    then have "y \<in> set (oh_exchanging h)" using assms(2) by auto
    moreover have "\<forall>y \<in> set (oh_exchanging h). \<exists>tm. Taken (ex_state y) (sign_in_of (ex_sign_in y)) tm \<in> set (oa_log (oh_oauth h))"
      using assms(1) by (simp add: oauth_ok_def Let_def)
    ultimately obtain tm where "Taken (ex_state y) (sign_in_of (ex_sign_in y)) tm \<in> set (oa_log (oh_oauth h))" by blast
    with sub show "\<exists>tm. Taken (ex_state y) (sign_in_of (ex_sign_in y)) tm \<in> set (oa_log s)" by blast
  qed
  have given: "\<forall>(k, p) \<in> set (oa_pending s). GaveOut k (sign_in_of p) \<in> set (oa_log s)"
    using assms(1,3) sub by (auto simp: oauth_ok_def Let_def)
  have bound: "\<forall>k. is_pending k (oa_pending s) + taken k (oa_log s) \<le> gave k (oa_log s)"
    using assms(1) by (simp add: oauth_ok_def Let_def assms(3) counts)
  from given waiting good bound used show ?thesis
    by (simp add: oauth_ok_def Let_def)
qed

lemma oauth_step_ok:
  assumes "oauth_step lib h h'" and "oauth_ok h"
  shows "oauth_ok h'"
  using assms(1)
proof cases
  case (start n address q s)
  with wp_resultD [OF start_begin_wp] oauth_ok_thins [OF assms(2), where s = s and rw = "oh_renewing h"] show ?thesis by fastforce
next
  case (start_refused n address er s)
  with wp_errorD [OF start_begin_wp] oauth_ok_thins [OF assms(2), where s = s and st = "oh_starting h" and rw = "oh_renewing h"] show ?thesis by fastforce
next
  case (started xs q ys r s)
  obtain k p where q: "q = (k, p)" by (rule prod.exhaust)
  show ?thesis
  proof (cases r)
    case (Inl er)
    with started q wp_errorD [OF start_end_wp] oauth_ok_same [OF assms(2), where s = s and rw = "oh_renewing h"] show ?thesis by fastforce
  next
    case (Inr url)
    with started q wp_resultD [OF start_end_wp] oauth_ok_gives [OF assms(2)] show ?thesis by fastforce
  qed
next
  case (callback query x s)
  with wp_resultD [OF finish_begin_wp] oauth_ok_takes [OF assms(2), of "ex_state x" "ex_sign_in x" s "[x]"] show ?thesis by fastforce
next
  case (callback_refused query er s)
  from wp_errorD [OF finish_begin_wp callback_refused(2)] show ?thesis
    using callback_refused(1) oauth_ok_same [OF assms(2), where s = s and st = "oh_starting h" and rw = "oh_renewing h"]
      oauth_ok_takes [OF assms(2), of _ _ s "[]"] by auto
next
  case (exchanged xs x ys r s)
  have "oa_pending s = oa_pending (oh_oauth h) \<and> (\<exists>cred. oa_log s = oa_log (oh_oauth h) \<or>
      oc_redirect_uri cred = ps_redirect_uri (ex_sign_in x) \<and>
      oa_log s = oa_log (oh_oauth h) @ [Saved (ex_state x) (sign_in_of (ex_sign_in x)) cred])"
    using exchanged(3) wp_resultD [OF finish_end_wp] wp_errorD [OF finish_end_wp] by (cases r) fastforce+
  with exchanged(1,2) oauth_ok_saves [OF assms(2)] show ?thesis by blast
next
  case (tick names s)
  with wp_resultD [OF renew_list_wp] oauth_ok_same [OF assms(2), where s = s and st = "oh_starting h"] show ?thesis by fastforce
next
  case (skipped n ns s)
  with wp_resultD [OF renew_check_wp] oauth_ok_same [OF assms(2), where s = s and st = "oh_starting h"] show ?thesis by fastforce
next
  case (due n ns rn failure s)
  with wp_resultD [OF renew_check_wp] oauth_ok_same [OF assms(2), where s = s and st = "oh_starting h"] show ?thesis by fastforce
next
  case (granted rn failure ns r s)
  with wp_resultD [OF renew_settle_wp] wp_errorD [OF renew_settle_wp] oauth_ok_same [OF assms(2), where s = s and st = "oh_starting h"]
  show ?thesis by (cases r) fastforce+
next
  case tick_over
  with oauth_ok_same [OF assms(2), where s = "oh_oauth h" and st = "oh_starting h"] show ?thesis by fastforce
next
  case (elsewhere e d)
  with oauth_ok_same [OF assms(2), where s = "(oh_oauth h)\<lparr>oa_store := d, oa_env := e\<rparr>" and st = "oh_starting h" and rw = "oh_renewing h"]
  show ?thesis by (simp add: same_sign_ins_def)
qed

lemma oauth_reachable_ok: "oauth_reachable lib h \<Longrightarrow> oauth_ok h"
proof (induction rule: oauth_reachable.induct)
  case (boot d e)
  then show ?case by (simp add: oauth_ok_def is_pending_def gave_def taken_def saved_by_def exchanges_of_def)
qed (rule oauth_step_ok)

text \<open>C24: whichever browsers start and finish sign-ins in whatever order, with renewals and edits in between, a
  credential is saved for a server only by a callback that carried a state this host gave out for that
  very server, address and redirect URI at most ten minutes earlier, and a state given out once leads
  to one saved credential at most: a callback cannot be replayed.\<close>

theorem saved_sign_ins_sound:
  assumes "oauth_reachable lib h" and "Saved k (n, url, uri, created) cred \<in> set (oa_log (oh_oauth h))"
  shows "GaveOut k (n, url, uri, created) \<in> set (oa_log (oh_oauth h))
    \<and> (\<exists>now. Taken k (n, url, uri, created) now \<in> set (oa_log (oh_oauth h)) \<and> now - created \<le> pending_lifetime_ms)
    \<and> oc_redirect_uri cred = uri
    \<and> saved_by k (oa_log (oh_oauth h)) \<le> gave k (oa_log (oh_oauth h))"
proof -
  have ok: "\<forall>n \<in> set (oa_log (oh_oauth h)). note_ok (oa_log (oh_oauth h)) n"
    "is_pending k (oa_pending (oh_oauth h)) + taken k (oa_log (oh_oauth h)) \<le> gave k (oa_log (oh_oauth h))"
    "exchanges_of k (oh_exchanging h) + saved_by k (oa_log (oh_oauth h)) \<le> taken k (oa_log (oh_oauth h))"
    using oauth_reachable_ok [OF assms(1)] by (simp_all add: oauth_ok_def Let_def)
  from bspec [OF ok(1) assms(2)] obtain now where t: "Taken k (n, url, uri, created) now \<in> set (oa_log (oh_oauth h))"
    and same_uri: "oc_redirect_uri cred = uri" by auto
  from bspec [OF ok(1) t] have "GaveOut k (n, url, uri, created) \<in> set (oa_log (oh_oauth h))"
    "now - created \<le> pending_lifetime_ms" by simp_all
  with t same_uri ok(2,3) show ?thesis by auto
qed

section \<open>The callback's page\<close>

lemma find_servers_now: "find_server (servers_of (d, e)) n = find_server (mem d) n"
  by (simp add: servers_of_def)

lemma refresh_store: "mcp_refresh reading s = (Inl er, t) \<Longrightarrow> t = s"
  by (auto simp: mcp_refresh_def reload_def split: prod.splits option.splits sum.splits)

text \<open>What a write of one server's sign-in leaves in memory, whether its file was written or not.\<close>

lemma write_sign_in:
  assumes "mcp_write flush (PutServer (st\<lparr>ss_oauth := cred\<rparr>)) (d, e) = (r, (d', e'))" and "find_server (mem d) n = Some st"
  shows "find_server (mem d') m = (if m = n then Some (st\<lparr>ss_oauth := cred\<rparr>) else find_server (mem d) m)"
    and "r = Inr () \<or> chain d' \<noteq> None"
proof -
  from find_server_set [OF assms(2)] have n: "ss_server_name st = n" by simp
  have "mem d' = replace_server (st\<lparr>ss_oauth := cred\<rparr>) (mem d)"
    using mcp_file_store.run_mem [of flush "PutServer (st\<lparr>ss_oauth := cred\<rparr>)" "(d, e)"] assms(1) by simp
  then show "find_server (mem d') m = (if m = n then Some (st\<lparr>ss_oauth := cred\<rparr>) else find_server (mem d) m)"
    using n by (simp add: find_replace_server)
  show "r = Inr () \<or> chain d' \<noteq> None"
    using mcp_file_store.run_failed [of flush "PutServer (st\<lparr>ss_oauth := cred\<rparr>)" "(d, e)" _ "(d', e')"] assms(1)
    by (cases r) auto
qed

definition signed_in_as :: "mcp_file \<Rightarrow> string \<Rightarrow> string \<Rightarrow> oauth_credential \<Rightarrow> bool" where
  "signed_in_as servers n url cred \<longleftrightarrow> (\<exists>st. find_server servers n = Some st \<and> ss_url st = url) \<and> oauth_for servers n = Some cred"

text \<open>The server of a sign-in is stored at the sign-in's address with a credential of its redirect URI.\<close>

definition stored_for :: "mcp_file \<Rightarrow> pending_sign_in \<Rightarrow> bool" where
  "stored_for servers p \<longleftrightarrow>
    (\<exists>cred. signed_in_as servers (ps_server_name p) (ps_url p) cred \<and> oc_redirect_uri cred = ps_redirect_uri p)"

lemma stored_forI:
  "signed_in_as servers (ps_server_name p) (ps_url p) cred \<Longrightarrow> oc_redirect_uri cred = ps_redirect_uri p \<Longrightarrow> stored_for servers p"
  by (auto simp: stored_for_def)

lemma save_oauth_effect:
  assumes "save_oauth reading flush n url cred (d0, e0) = (Inr (), (d', e'))"
  shows "signed_in_as (mem d') n url cred"
proof -
  from assms obtain d e st where st: "find_server (mem d) n = Some st" "ss_auth st = ''oauth''" "ss_url st = url"
    and w: "mcp_write flush (PutServer (st\<lparr>ss_oauth := Some cred\<rparr>)) (d, e) = (Inr (), (d', e'))"
    by (auto simp: save_oauth_def thenE_def bindE_def gets_def throw_def find_servers_now split: prod.splits sum.splits option.splits if_splits)
  from write_sign_in(1) [OF w st(1), of n] st show ?thesis by (simp add: signed_in_as_def oauth_for_def)
qed

lemma save_oauth_stored:
  "save_oauth reading flush (ps_server_name p) (ps_url p) cred (d0, e0) = (Inr (), (d', e')) \<Longrightarrow>
   oc_redirect_uri cred = ps_redirect_uri p \<Longrightarrow> stored_for (mem d') p"
  by (rule stored_forI [OF save_oauth_effect])

lemma finish_end_saved:
  "wp (finish_end lib x)
     (\<lambda>_ t. oa_pending t = oa_pending s \<and> stored_for (servers_now t) (ex_sign_in x)) (\<lambda>_ _. True) s"
  unfolding finish_end_def clock_def Let_def
  by (auto simp: wp_simps servers_now_def intro!: signing_in.wp_asked wp_oauth_store wp_oauth_env
      dest!: save_oauth_stored split: option.splits sum.splits prod.splits)

lemma count_markup [simp]: "count_list (escape_markup s) CHR ''<'' = 0"
  by (rule count_notin) (auto simp: escape_markup_def set_replace_all)

text \<open>the callback of a sign-in answers 200 only when the browser carried a pending state less than ten minutes
  old, which is spent by then, and the server it was given out for is stored at the same address with
  the new credential; any other GET answers 400. Whatever the query or the authorization server say,
  the page has the tags of its template and no more.\<close>

lemma callback_page_exact:
  fixes s t :: "'e oauth"
  assumes "handle_callback lib r s = (Inr page, t)"
  shows "(rs_status page = 200 \<and> count_list (rs_body page) CHR ''<'' = 18
        \<and> (\<exists>k p now. map_of (oa_pending s) k = Some p \<and> now - ps_created_at p \<le> pending_lifetime_ms
             \<and> oa_pending t = AList.delete k (oa_pending s) \<and> stored_for (servers_now t) p))
    \<or> (rs_status page = 400 \<and> count_list (rs_body page) CHR ''<'' = 16)
    \<or> (rs_status page = 405 \<and> hr_method r \<noteq> ''GET'' \<and> t = s)"
proof (cases "hr_method r = ''GET''")
  case False
  with assms show ?thesis by (auto simp: handle_callback_def ret_def only_get_def)
next
  case True
  with assms obtain query where q: "answer_callback lib query s = (Inr page, t)"
    by (auto simp: handle_callback_def throw_def split: option.splits)
  define done_by where "done_by u = (\<exists>k p now. map_of (oa_pending s) k = Some p \<and> now - ps_created_at p \<le> pending_lifetime_ms
      \<and> oa_pending u = AList.delete k (oa_pending s) \<and> stored_for (servers_now u) p)" for u :: "'e oauth"
  have fin: "wp (oauth_finish lib query) (\<lambda>_. done_by) (\<lambda>_ _. True) s"
    unfolding oauth_finish_def wp_bindE
  proof (rule wp_mono [OF finish_begin_wp])
    fix x :: code_exchange and u assume "spends s (ex_state x) (ex_sign_in x) u \<and> oa_store u = oa_store s"
    then show "wp (finish_end lib x) (\<lambda>_. done_by) (\<lambda>_ _. True) u"
      by (intro wp_mono [OF finish_end_saved [of lib x u]]) (auto simp: spends_def done_by_def)
  qed simp
  have "wp (answer_callback lib query) (\<lambda>page u. rs_status page = 200 \<and> count_list (rs_body page) CHR ''<'' = 18 \<and> done_by u
      \<or> rs_status page = 400 \<and> count_list (rs_body page) CHR ''<'' = 16) (\<lambda>_ _. False) s"
    unfolding answer_callback_def by (auto simp: wp_simps send_page_def intro!: wp_mono [OF fin])
  from wp_resultD [OF this q] show ?thesis unfolding done_by_def by blast
qed

section \<open>What a renewal does\<close>

lemma on_store_eq:
  "on_store m s = (r, t) \<longleftrightarrow> (\<exists>d e. m (oa_store s, oa_env s) = (r, (d, e)) \<and> t = s\<lparr>oa_store := d, oa_env := e\<rparr>)"
  by (auto simp: on_store_def split: prod.splits)

lemma replacing_cases:
  assumes "replacing lib rn cred s = (r, t)"
  obtains (unread) er where "r = Inl er" and "oa_store t = oa_store s"
  | (newer) d e where "mcp_refresh (ob_reading lib) (oa_store s, oa_env s) = (Inr (), (d, e))"
      "Option.bind (oauth_for (mem d) (rn_server_name rn)) refresh_token \<noteq> Some (JStr (rn_token rn))" "oa_store t = d"
  | (written) d e st where "mcp_refresh (ob_reading lib) (oa_store s, oa_env s) = (Inr (), (d, e))"
      "find_server (mem d) (rn_server_name rn) = Some st" "ss_auth st = ''oauth''"
      "Option.bind (oauth_for (mem d) (rn_server_name rn)) refresh_token = Some (JStr (rn_token rn))"
      "\<And>m. find_server (servers_now t) m = (if m = rn_server_name rn then Some (st\<lparr>ss_oauth := cred\<rparr>) else find_server (mem d) m)"
      "r = Inr () \<or> chain (oa_store t) \<noteq> None"
proof -
  obtain q u where Pair: "mcp_refresh (ob_reading lib) (oa_store s, oa_env s) = (q, u)" by (rule prod.exhaust)
  obtain d e where u: "u = (d, e)" by (rule prod.exhaust)
  obtain q' d' e' where rep: "replace_oauth (ob_reading lib) (ob_flush lib) (rn_server_name rn) (rn_token rn) cred (oa_store s, oa_env s) = (q', (d', e'))"
    by (metis prod.exhaust)
  from assms rep have t: "oa_store t = d'" and r: "r = map_sum id (\<lambda>_. ()) q'"
    by (auto simp: replacing_def thenE_def bindE_def on_store_def ret_def split: sum.splits)
  show thesis
  proof (cases q)
    case (Inl er)
    with Pair refresh_store have "u = (oa_store s, oa_env s)" by blast
    with rep Pair Inl have "q' = Inl er" "d' = oa_store s" by (auto simp: replace_oauth_def thenE_def bindE_def)
    with t r unread show thesis by simp
  next
    case (Inr v)
    with Pair u rep have k: "(case find_server (mem d) (rn_server_name rn) of None \<Rightarrow> ret False
        | Some st \<Rightarrow> if ss_auth st \<noteq> ''oauth'' \<or> Option.bind (ss_oauth st) refresh_token \<noteq> Some (JStr (rn_token rn))
            then ret False else thenE (mcp_write (ob_flush lib) (PutServer (st\<lparr>ss_oauth := cred\<rparr>))) (ret True)) (d, e) = (q', (d', e'))"
      by (simp add: replace_oauth_def thenE_def bindE_def gets_def find_servers_now cong: option.case_cong)
    show thesis
    proof (cases "Option.bind (oauth_for (mem d) (rn_server_name rn)) refresh_token = Some (JStr (rn_token rn))")
      case False
      with k have "d' = d" by (auto simp: ret_def oauth_for_def split: option.splits if_splits)
      with newer False Pair u Inr t show thesis by simp
    next
      case True
      then obtain st where st: "find_server (mem d) (rn_server_name rn) = Some st" "ss_auth st = ''oauth''"
        by (auto simp: oauth_for_def split: option.splits if_splits)
      with True k obtain q1 where w: "mcp_write (ob_flush lib) (PutServer (st\<lparr>ss_oauth := cred\<rparr>)) (d, e) = (q1, (d', e'))"
        and q1: "q' = map_sum id (\<lambda>_. True) q1"
        by (auto simp: oauth_for_def thenE_def bindE_def ret_def split: prod.splits sum.splits)
      from write_sign_in [OF w st(1)] written [OF _ st True] Pair u Inr t r q1 show thesis
        by (cases q1) (auto simp: servers_now_def)
    qed
  qed
qed

lemma no_refresh_left: "field k (without_field k v) = None"
  by (cases v) (simp_all add: without_field_def field_def)

lemma not_due:
  "oauth_for servers n = None \<Longrightarrow> \<not> renewal_due lib now servers n"
  "oauth_for servers n = Some c \<Longrightarrow> refresh_token c = None \<Longrightarrow> \<not> renewal_due lib now servers n"
  by (simp_all add: renewal_due_def)

text \<open>The file as it is when a renewal writes: it is read again, or cannot be.\<close>

definition file_then :: "'e oauth_library \<Rightarrow> 'e oauth \<Rightarrow> mcp_file \<Rightarrow> bool" where
  "file_then lib s file \<longleftrightarrow> file = servers_now s \<or>
     (\<exists>e d e'. mcp_refresh (ob_reading lib) (oa_store s, e) = (Inr (), (d, e')) \<and> file = mem d)"

lemma file_then_refreshed:
  "mcp_refresh (ob_reading lib) (oa_store s', oa_env s') = (Inr (), (d, e)) \<Longrightarrow> oa_store s' = oa_store s \<Longrightarrow> file_then lib s (mem d)"
  unfolding file_then_def by metis

lemma oauth_for_eq: "find_server file n = find_server file' n \<Longrightarrow> oauth_for file n = oauth_for file' n"
  by (simp add: oauth_for_def)

text \<open>What a renewal may do to the servers, by the sign-in it started from, the file it met and its outcome.\<close>

definition renewal_result :: "'e oauth_library \<Rightarrow> renewal \<Rightarrow> mcp_file \<Rightarrow> error + unit \<Rightarrow> 'e oauth \<Rightarrow> bool" where
  "renewal_result lib rn file r t \<longleftrightarrow> (let n = rn_server_name rn; servers = servers_now t;
        current = (Option.bind (oauth_for file n) refresh_token = Some (JStr (rn_token rn))) in
     (\<forall>m. m \<noteq> n \<longrightarrow> find_server servers m = find_server file m) \<and>
     (\<not> current \<longrightarrow> servers = file) \<and>
     (r = Inr () \<and> current \<longrightarrow> (\<exists>tokens expires.
        oauth_for servers n = Some ((rn_saved rn)\<lparr>oc_tokens := tokens, oc_expires_at := expires\<rparr>))) \<and>
     (r \<noteq> Inr () \<and> chain (oa_store t) = None \<longrightarrow> servers = file \<or> (\<forall>now. \<not> renewal_due lib now servers n)))"

lemma replacing_result:
  assumes "replacing lib rn cred s' = (r', t)" and "oa_store s' = oa_store s"
    and "r = Inr () \<Longrightarrow> r' = Inr () \<and> (\<exists>tokens expires. cred = Some ((rn_saved rn)\<lparr>oc_tokens := tokens, oc_expires_at := expires\<rparr>))"
    and "r \<noteq> Inr () \<Longrightarrow> r' = Inr () \<Longrightarrow> cred = None \<or> (\<exists>c. cred = Some c \<and> refresh_token c = None)"
  shows "\<exists>file. file_then lib s file \<and> renewal_result lib rn file r t"
  using assms(1)
proof (cases rule: replacing_cases)
  case (unread er)
  have "file_then lib s (servers_now s)" by (simp add: file_then_def)
  moreover have "r \<noteq> Inr ()" using assms(3) unread(1) by auto
  ultimately show ?thesis using unread(2) assms(2)
    by (auto simp: renewal_result_def Let_def servers_now_def intro!: exI [of _ "servers_now s"])
next
  case (newer d e)
  from file_then_refreshed [OF newer(1) assms(2)] show ?thesis
    using newer(2,3) by (auto simp: renewal_result_def Let_def servers_now_def intro!: exI [of _ "mem d"])
next
  case (written d e st)
  let ?n = "rn_server_name rn"
  have n: "oauth_for (servers_now t) ?n = cred" using written(3) written(5) [of ?n] by (simp add: oauth_for_def)
  have "\<exists>tokens expires. cred = Some ((rn_saved rn)\<lparr>oc_tokens := tokens, oc_expires_at := expires\<rparr>)" if "r = Inr ()"
    using assms(3) that by blast
  moreover have "\<forall>now. \<not> renewal_due lib now (servers_now t) ?n" if "r \<noteq> Inr ()" "chain (oa_store t) = None"
    using assms(4) that written(6) n not_due by metis
  ultimately have "renewal_result lib rn (mem d) r t"
    using written(4) n by (auto simp: renewal_result_def Let_def written(5))
  with file_then_refreshed [OF written(1) assms(2)] show ?thesis by blast
qed


lemma replacing_failures: "wp (replacing lib rn cred) (\<lambda>_ t. oa_failures t = oa_failures s) (\<lambda>_ t. oa_failures t = oa_failures s) s"
  unfolding replacing_def by (auto simp: wp_simps intro!: wp_oauth_store split: sum.splits)

lemma renew_end_failures: "wp (renew_end lib rn) (\<lambda>_ t. oa_failures t = oa_failures s) (\<lambda>_ t. oa_failures t = oa_failures s) s"
  unfolding renew_end_def clock_def Let_def
  by (auto simp: wp_simps split: option.split sum.split prod.split intro!: renewing.wp_asked wp_mono [OF replacing_failures])

definition attempts_so_far :: "renewal_failure option \<Rightarrow> nat" where
  "attempts_so_far failure = (case failure of None \<Rightarrow> 0 | Some f \<Rightarrow> rf_attempts f)"

lemma renew_settle_failures:
  "wp (renew_settle lib rn failure)
     (\<lambda>_ t. (\<forall>m. m \<noteq> rn_server_name rn \<longrightarrow> map_of (oa_failures t) m = map_of (oa_failures s) m)
        \<and> (map_of (oa_failures t) (rn_server_name rn) = None \<or>
           (\<exists>now. map_of (oa_failures t) (rn_server_name rn) =
              Some \<lparr>rf_attempts = attempts_so_far failure + 1, rf_retry_at = now + retry_delay (attempts_so_far failure + 1)\<rparr>)))
     (\<lambda>_ _. False) s"
  unfolding renew_settle_def clock_def warns_def Let_def attempts_so_far_def
  by (auto simp: wp_simps intro!: wp_mono [OF renew_end_failures])

lemma retry_delay_bounds: "0 < n \<Longrightarrow> renewal_retry_ms \<le> retry_delay n \<and> retry_delay n \<le> renewal_retry_cap_ms"
  by (simp add: retry_delay_def renewal_retry_ms_def renewal_retry_cap_ms_def)

lemma renew_check_eq:
  "renew_check lib n s =
    (if \<not> renewal_due lib (ob_now lib (oa_env s)) (servers_now s) n
     then (Inr None, s\<lparr>oa_failures := AList.delete n (oa_failures s)\<rparr>)
     else if \<exists>f. map_of (oa_failures s) n = Some f \<and> rf_retry_at f > ob_now lib (oa_env s) then (Inr None, s)
     else case renew_begin (servers_now s) n of
       None \<Rightarrow> (Inr None, s\<lparr>oa_failures := AList.delete n (oa_failures s)\<rparr>)
     | Some rn \<Rightarrow> (Inr (Some (rn, map_of (oa_failures s) n)), s))"
  by (cases "map_of (oa_failures s) n"; cases "renew_begin (servers_now s) n")
    (simp_all add: renew_check_def clock_def bindE_def gets_def thenE_def modify_def ret_def)


lemma renew_all_returns: "wp (renew_all lib) (\<lambda>_ _. True) (\<lambda>_ _. False) s"
proof -
  have one: "wp (renew_one lib n) (\<lambda>_ _. True) (\<lambda>_ _. False) s" for n s
    unfolding renew_one_def
    by (auto simp: wp_simps intro!: wp_mono [OF renew_check_wp] wp_mono [OF renew_settle_wp] split: option.split)
  have "wp (forE names (renew_one lib)) (\<lambda>_ _. True) (\<lambda>_ _. False) s" for names s
    by (induction names arbitrary: s) (auto simp: wp_simps intro!: wp_mono [OF one])
  then show ?thesis unfolding renew_all_def wp_bindE by (auto intro!: wp_mono [OF renew_list_wp])
qed

section \<open>Examples\<close>

text \<open>An SDK that registers a client and sends the browser away, exchanges any code, and renews any token.\<close>

definition demo_tokens :: json where
  "demo_tokens = JObj [(''access_token'', JStr ''a''), (''refresh_token'', JStr ''new'')]"

definition demo_auth :: "provider_view \<Rightarrow> auth_options \<Rightarrow> unit sdk" where
  "demo_auth view opts =
    (case ao_code opts of
       Some c \<Rightarrow> Calls (SaveTokens demo_tokens) (\<lambda>_. Answers ''AUTHORIZED'')
     | None \<Rightarrow>
         if ''saveClientInformation'' \<in> set (pv_methods view)
         then Calls (SaveClientInformation (JObj [(''client_id'', JStr ''c'')]))
            (\<lambda>_. Calls (RedirectToAuthorization ''https://as'') (\<lambda>_. Answers ''REDIRECT''))
         else Calls (SaveTokens demo_tokens) (\<lambda>_. Answers ''AUTHORIZED''))"

definition demo_oauth_library :: "unit oauth_library" where
  "demo_oauth_library = \<lparr>ob_auth = demo_auth, ob_state = \<lambda>e. (''s'', e), ob_now = \<lambda>_. 0,
     ob_origin = \<lambda>u. Some (''http:'', u), ob_href = \<lambda>path site. site @ path,
     ob_query = \<lambda>url. Some (\<lambda>k. if k = ''state'' then Some ''s'' else if k = ''code'' then Some ''c'' else None),
     ob_to_number = \<lambda>_. NaN, ob_reading = demo_reading, ob_flush = ret (), ob_authorized = \<lambda>_. ret (), ob_warn = \<lambda>_ e. e\<rparr>"

definition demo_booted :: "unit oauth" where
  "demo_booted = \<lparr>oa_pending = [], oa_failures = [], oa_store = fst (demo_store demo_oauth_server), oa_env = (), oa_log = []\<rparr>"

definition demo_pending :: pending_sign_in where
  "demo_pending = \<lparr>ps_server_name = ''gh'', ps_url = ''https://m'', ps_redirect_uri = ''http://h/dsh-yawn/mcp/oauth/callback'',
     ps_created_at = 0, ps_metadata_url = None, ps_client = None, ps_verifier = None, ps_discovery = None, ps_tokens = None\<rparr>"

definition demo_started :: "unit oauth" where
  "demo_started = snd (oauth_start demo_oauth_library ''gh'' ''http://h'' demo_booted)"

definition demo_exchange :: code_exchange where
  "demo_exchange = \<lparr>ex_state = ''s'', ex_sign_in = demo_pending\<lparr>ps_client := Some (JObj [(''client_id'', JStr ''c'')])\<rparr>,
     ex_code = ''c'', ex_iss = None\<rparr>"

definition demo_return :: http_request where
  "demo_return = \<lparr>hr_method = ''GET'', hr_url = None, hr_headers = [], hr_peer = None, hr_chunks = [], hr_broken = False\<rparr>"

lemma demo_begin: "start_begin demo_oauth_library ''gh'' ''http://h'' demo_booted = (Inr (''s'', demo_pending), demo_booted)"
  by code_simp

lemma demo_end: "oa_log demo_started = [GaveOut ''s'' (sign_in_of demo_pending)]"
  by code_simp

lemma demo_taken: "fst (finish_begin demo_oauth_library (the (ob_query demo_oauth_library ''/'')) demo_started) = Inr demo_exchange"
  by code_simp

lemma demo_page: "fst (handle_callback demo_oauth_library demo_return demo_started) =
    Inr (send_page 200 ''gh is connected'' ''You can close this tab and return to Settings -> MCP.'' True)"
  by code_simp

definition demo_exchanged :: "(error + string) \<times> unit oauth" where
  "demo_exchanged = finish_end demo_oauth_library demo_exchange
     (snd (finish_begin demo_oauth_library (the (ob_query demo_oauth_library ''/'')) demo_started))"

lemma demo_saved: "\<exists>cred. Saved ''s'' (sign_in_of demo_pending) cred \<in> set (oa_log (snd demo_exchanged))"
proof -
  have "last (oa_log (snd demo_exchanged)) = Saved ''s'' (sign_in_of demo_pending)
     \<lparr>oc_redirect_uri = ps_redirect_uri demo_pending, oc_client = JObj [(''client_id'', JStr ''c'')],
      oc_tokens = demo_tokens, oc_expires_at = None\<rparr>" "oa_log (snd demo_exchanged) \<noteq> []"
    by code_simp+
  then show ?thesis by (metis last_in_set)
qed

definition demo_host :: "unit oauth_host" where
  "demo_host = \<lparr>oh_oauth = snd demo_exchanged, oh_starting = [], oh_exchanging = [], oh_renewing = NoRenewal\<rparr>"

lemma demo_host_reachable: "oauth_reachable demo_oauth_library demo_host"
proof -
  let ?boot = "\<lparr>oh_oauth = demo_booted, oh_starting = [], oh_exchanging = [], oh_renewing = NoRenewal\<rparr>"
  let ?taken = "snd (finish_begin demo_oauth_library (the (ob_query demo_oauth_library ''/'')) demo_started)"
  have 0: "oauth_reachable demo_oauth_library ?boot" unfolding demo_booted_def by (rule oauth_reachable.boot)
  from oauth_step.start [of demo_oauth_library "''gh''" "''http://h''" ?boot "(''s'', demo_pending)" demo_booted] demo_begin 0
  have 1: "oauth_reachable demo_oauth_library (?boot\<lparr>oh_starting := [(''s'', demo_pending)]\<rparr>)"
    by (auto intro: oauth_reachable.step)
  have "start_end demo_oauth_library (''s'', demo_pending) demo_booted = (fst (oauth_start demo_oauth_library ''gh'' ''http://h'' demo_booted), demo_started)"
    by (simp add: demo_started_def oauth_start_def bindE_Inr [of "start_begin demo_oauth_library ''gh'' ''http://h''", OF demo_begin])
  with oauth_step.started [of "?boot\<lparr>oh_starting := [(''s'', demo_pending)]\<rparr>" "[]" _ "[]" demo_oauth_library _ demo_started] 1
  have 2: "oauth_reachable demo_oauth_library (?boot\<lparr>oh_oauth := demo_started\<rparr>)"
    by (auto intro: oauth_reachable.step)
  have "finish_begin demo_oauth_library (the (ob_query demo_oauth_library ''/'')) demo_started = (Inr demo_exchange, ?taken)"
    by (simp add: prod_eq_iff demo_taken)
  with oauth_step.callback [of demo_oauth_library _ "?boot\<lparr>oh_oauth := demo_started\<rparr>" demo_exchange ?taken] 2
  have 3: "oauth_reachable demo_oauth_library (?boot\<lparr>oh_oauth := ?taken, oh_exchanging := [demo_exchange]\<rparr>)"
    by (auto intro: oauth_reachable.step)
  from oauth_step.exchanged [of "?boot\<lparr>oh_oauth := ?taken, oh_exchanging := [demo_exchange]\<rparr>" "[]" demo_exchange "[]"
      demo_oauth_library "fst demo_exchanged" "snd demo_exchanged"] 3
  show ?thesis by (auto simp: demo_exchanged_def demo_host_def intro: oauth_reachable.step)
qed

theorem saved_sign_ins_sound_witness: "GaveOut ''s'' (sign_in_of demo_pending) \<in> set (oa_log (oh_oauth demo_host))"
proof -
  from demo_saved obtain cred where "Saved ''s'' (''gh'', ''https://m'', ps_redirect_uri demo_pending, 0) cred \<in> set (oa_log (oh_oauth demo_host))"
    by (auto simp: demo_host_def sign_in_of_def demo_pending_def)
  from saved_sign_ins_sound [OF demo_host_reachable this] show ?thesis by (simp add: sign_in_of_def demo_pending_def)
qed

lemma callback_page_exact_witness:
  "count_list (rs_body (send_page 200 ''gh is connected'' ''You can close this tab and return to Settings -> MCP.'' True)) CHR ''<'' = 18"
proof -
  have "handle_callback demo_oauth_library demo_return demo_started =
      (Inr (send_page 200 ''gh is connected'' ''You can close this tab and return to Settings -> MCP.'' True),
       snd (handle_callback demo_oauth_library demo_return demo_started))"
    by (simp add: prod_eq_iff demo_page)
  from callback_page_exact [OF this] show ?thesis by (simp add: send_page_def)
qed

definition demo_renewal :: renewal where
  "demo_renewal = \<lparr>rn_server_name = ''gh'', rn_url = ''https://m'', rn_saved = demo_credential, rn_token = ''r''\<rparr>"



end
