(* ===== verification/File_References.thy ===== *)
theory File_References
  imports Manager_Witnesses "HOL-Library.Sublist" "HOL-Library.Product_Lexorder" "HOL-Library.List_Lexorder"
    "HOL-Library.Char_ord" "HOL-Library.Multiset"
begin

text \<open>
  \<open>workspaces/file-index.ts\<close>, \<open>file-index-hooks.ts\<close> and \<open>file-reference.ts\<close>: the files offered after
  an "@". A hibernated session answers from the index its lifecycle hooks saved, a running one from a
  walk of its workspace. The runner's walk and the file system are parameters; texts are compared by
  their characters.
\<close>

section \<open>The index of a workspace\<close>

datatype file_kind = FileKind | DirectoryKind

record file_candidate =
  fc_path :: string
  fc_kind :: file_kind

record file_index =
  fi_entries :: "file_candidate list"
  fi_truncated :: bool

record index_options =
  io_excluded :: "string list"
  io_max_entries :: nat

datatype tree_type = RegularType | DirectoryType | OtherType

record 'e index_parts =
  ix_tree :: "client \<Rightarrow> string \<Rightarrow> string list \<Rightarrow> nat \<Rightarrow> ('e, (tree_type \<times> string) list \<times> bool) comp"
  ix_directory :: string
  ix_pid :: string
  ix_encode :: "string \<Rightarrow> string"
  ix_mkdir :: "string \<Rightarrow> ('e, unit) file_call"
  ix_write :: "string \<Rightarrow> json \<Rightarrow> ('e, unit) file_call"
  ix_rename :: "string \<Rightarrow> string \<Rightarrow> ('e, unit) file_call"
  ix_read_json :: "string \<Rightarrow> ('e, json) file_call"
  ix_rm :: "string \<Rightarrow> ('e, unit) file_call"
  ix_workspace :: string
  ix_warn :: "string \<Rightarrow> 'e \<Rightarrow> 'e"

fun index_entry :: "tree_type \<times> string \<Rightarrow> file_candidate option" where
  "index_entry (RegularType, path) = Some \<lparr>fc_path = path, fc_kind = FileKind\<rparr>"
| "index_entry (DirectoryType, path) = Some \<lparr>fc_path = path, fc_kind = DirectoryKind\<rparr>"
| "index_entry (OtherType, path) = None"

definition capture_file_index :: "'e index_parts \<Rightarrow> client \<Rightarrow> string \<Rightarrow> index_options \<Rightarrow> ('e, file_index) comp" where
  "capture_file_index X c base opts =
    bindE (ix_tree X c base (io_excluded opts) (io_max_entries opts)) (\<lambda>(entries, truncated).
      ret \<lparr>fi_entries = List.map_filter index_entry entries, fi_truncated = truncated\<rparr>)"

section \<open>The store of indexes\<close>

definition path_for :: "'e index_parts \<Rightarrow> string \<Rightarrow> string" where
  "path_for X sid = join_path [ix_directory X, ix_encode X sid @ ''.json'']"

definition render_entry :: "file_candidate \<Rightarrow> json" where
  "render_entry c = JObj [(''path'', JStr (fc_path c)),
     (''kind'', JStr (case fc_kind c of FileKind \<Rightarrow> ''file'' | DirectoryKind \<Rightarrow> ''directory''))]"

definition render_index :: "file_index \<Rightarrow> json" where
  "render_index i = JObj [(''version'', JNum (js_int 1)), (''entries'', JArr (map render_entry (fi_entries i))),
     (''truncated'', JBool (fi_truncated i))]"

text \<open>The entries of a file that this store wrote; the code casts them without a check.\<close>

definition read_entry :: "json \<Rightarrow> file_candidate option" where
  "read_entry v =
    (case (field ''path'' v, field ''kind'' v) of
       (Some (JStr path), Some (JStr kind)) \<Rightarrow>
         Some \<lparr>fc_path = path, fc_kind = (if kind = ''directory'' then DirectoryKind else FileKind)\<rparr>
     | _ \<Rightarrow> None)"

definition read_index :: "json \<Rightarrow> file_index option" where
  "read_index v =
    (if field ''version'' v \<noteq> Some (JNum (js_int 1)) then None
     else case field ''entries'' v of
       Some (JArr vs) \<Rightarrow> Some \<lparr>fi_entries = List.map_filter read_entry vs, fi_truncated = (field ''truncated'' v = Some (JBool True))\<rparr>
     | _ \<Rightarrow> None)"

definition save_index :: "'e index_parts \<Rightarrow> string \<Rightarrow> file_index \<Rightarrow> ('e, unit) comp" where
  "save_index X sid i =
    (let path = path_for X sid; temporary = path @ ''.'' @ ix_pid X @ ''.tmp'' in
     thenE (must (ix_mkdir X (ix_directory X)))
    (thenE (must (ix_write X temporary (render_index i)))
       (must (ix_rename X temporary path))))"

definition load_index :: "'e index_parts \<Rightarrow> string \<Rightarrow> ('e, file_index option) comp" where
  "load_index X sid =
    bindE (unless_missing (ix_read_json X (path_for X sid))) (\<lambda>found. ret (Option.bind found read_index))"

definition remove_index :: "'e index_parts \<Rightarrow> string \<Rightarrow> ('e, unit) comp" where
  "remove_index X sid = must (ix_rm X (path_for X sid))"

section \<open>The hooks\<close>

text \<open>\<open>capture\<close>: \<open>opts\<close> is \<open>None\<close> until the file-reference row enables it.\<close>

definition capture :: "'e index_parts \<Rightarrow> index_options option \<Rightarrow> string \<Rightarrow> client \<Rightarrow> ('e, unit) comp" where
  "capture X opts sid c =
    (case opts of
       None \<Rightarrow> ret ()
     | Some enabled \<Rightarrow>
        catchE (bindE (capture_file_index X c (ix_workspace X) enabled) (save_index X sid))
          (\<lambda>er. thenE (catchE (remove_index X sid) (\<lambda>_. ret ()))
             (modify (ix_warn X (''could not index files for '' @ sid @ '' before the sandbox stops: '' @ error_message er)))))"

definition file_index_hooks :: "'e index_parts \<Rightarrow> index_options option \<Rightarrow> 'e hooks" where
  "file_index_hooks X opts =
    \<lparr>before_hibernate = \<lambda>sid r c. (case c of None \<Rightarrow> ret () | Some runner \<Rightarrow> capture X opts sid runner),
     after_wake = \<lambda>sid r c woken. ret (),
     before_checkpoint = \<lambda>sid r c. capture X opts sid c,
     after_restore = \<lambda>sid r c ck. ret (),
     after_release = \<lambda>sid. remove_index X sid\<rparr>"

definition on_outside :: "('e, 'a) comp \<Rightarrow> ('e manager, 'a) comp" where
  "on_outside m s = (case outside m (mg_world s) of (r, w) \<Rightarrow> (r, s\<lparr>mg_world := w\<rparr>))"

definition hibernated_file_index :: "'e index_parts \<Rightarrow> string \<Rightarrow> ('e manager, file_index option) comp" where
  "hibernated_file_index X sid =
    bindE (gets (record_in sid)) (\<lambda>rec.
      case rec of
        Some r \<Rightarrow> (case record_state r of
            Running _ _ \<Rightarrow> ret None
          | _ \<Rightarrow> on_outside (load_index X sid))
      | None \<Rightarrow> ret None)"

definition manager_file_index :: "'e manager_parts \<Rightarrow> 'e index_parts \<Rightarrow> agent \<Rightarrow> ('e manager, file_index option) comp" where
  "manager_file_index M X a = bindE (root_of M a) (hibernated_file_index X)"

section \<open>Fetching\<close>

definition fetch_index :: "'e manager_parts \<Rightarrow> 'e index_parts \<Rightarrow> index_options \<Rightarrow> session_agent \<Rightarrow> ('e manager, file_index option) comp" where
  "fetch_index M X opts a =
    bindE (manager_file_index M X (sa_agent a)) (\<lambda>saved.
      case saved of
        Some i \<Rightarrow> ret (Some i)
      | None \<Rightarrow>
         bindE (has_sandbox M (sa_agent a)) (\<lambda>has.
           if \<not> has then ret None
           else bindE (manager_ensure_running M a) (\<lambda>c.
             case c of
               None \<Rightarrow> throw (Plain ''no runner'')
             | Some runner \<Rightarrow> bindE (on_outside (capture_file_index X runner (ix_workspace X) opts)) (\<lambda>i. ret (Some i)))))"

section \<open>Snapshots of one agent\<close>

text \<open>\<open>am_refresh\<close>: a walk is under way, and the count of invalidations it began with.\<close>

record snapshot =
  sn_entries :: "file_candidate list"
  sn_started_at :: nat

record agent_map =
  am_snapshot :: "snapshot option"
  am_refresh :: "nat option"
  am_invalidations :: nat
  am_warned :: bool

definition no_files :: agent_map where
  "no_files = \<lparr>am_snapshot = None, am_refresh = None, am_invalidations = 0, am_warned = False\<rparr>"

definition invalidate :: "agent_map \<Rightarrow> agent_map" where
  "invalidate m = m\<lparr>am_invalidations := am_invalidations m + 1\<rparr>"

definition begin_refresh :: "agent_map \<Rightarrow> agent_map" where
  "begin_refresh m = (case am_refresh m of Some _ \<Rightarrow> m | None \<Rightarrow> m\<lparr>am_refresh := Some (am_invalidations m)\<rparr>)"

text \<open>\<open>snapshot\<close>: the snapshot that answers at once, or the wait for the walk under way.\<close>

datatype lookup = Serve snapshot | Await

definition is_stale :: "agent_map \<Rightarrow> bool" where
  "is_stale m = (case am_snapshot m of None \<Rightarrow> True | Some s \<Rightarrow> sn_started_at s < am_invalidations m)"

definition look_up :: "bool \<Rightarrow> agent_map \<Rightarrow> lookup \<times> agent_map" where
  "look_up prefer_fresh m =
    (case am_snapshot m of
       None \<Rightarrow> (Await, begin_refresh m)
     | Some s \<Rightarrow>
        if \<not> is_stale m then (Serve s, m)
        else if prefer_fresh then (Await, begin_refresh m)
        else (Serve s, begin_refresh m))"

text \<open>The end of a walk: what its waiters get.\<close>

definition end_refresh :: "error + file_index option \<Rightarrow> agent_map \<Rightarrow> (error + snapshot) \<times> agent_map" where
  "end_refresh result m =
    (let started = (case am_refresh m of None \<Rightarrow> 0 | Some n \<Rightarrow> n); m' = m\<lparr>am_refresh := None\<rparr> in
     case result of
       Inl er \<Rightarrow> (Inl er, m')
     | Inr None \<Rightarrow> (Inr \<lparr>sn_entries = [], sn_started_at = started\<rparr>, m')
     | Inr (Some i) \<Rightarrow>
        (let s = \<lparr>sn_entries = fi_entries i, sn_started_at = started\<rparr>
         in (Inr s, m'\<lparr>am_snapshot := Some s, am_warned := am_warned m \<or> fi_truncated i\<rparr>)))"

section \<open>Ranking\<close>

fun after_last_slash :: "string \<Rightarrow> string" where
  "after_last_slash [] = []"
| "after_last_slash (c # s) = (if CHR ''/'' \<in> set s then after_last_slash s else if c = CHR ''/'' then s else c # s)"

fun subsequence_gap :: "string \<Rightarrow> string \<Rightarrow> nat option" where
  "subsequence_gap target [] = Some 0"
| "subsequence_gap target (c # q) =
    (case index_of c target of
       None \<Rightarrow> None
     | Some i \<Rightarrow> map_option (\<lambda>gap. i + gap) (subsequence_gap (drop (Suc i) target) q))"

definition subsequence_score :: "string \<Rightarrow> string \<Rightarrow> nat option" where
  "subsequence_score target q = map_option (\<lambda>gap. 100 - gap) (subsequence_gap target q)"

definition score_candidate :: "file_candidate \<Rightarrow> string \<Rightarrow> nat option" where
  "score_candidate c q =
    (if q = '''' then Some 0
     else
       (let path = to_lower (fc_path c); name = after_last_slash path; needle = to_lower q;
            directory_bonus = (if fc_kind c = DirectoryKind then 25 else 0)
        in if name = needle then Some (1000 + directory_bonus)
           else if starts_with needle name then Some (900 + directory_bonus)
           else if contains needle name then Some (700 + directory_bonus)
           else if contains needle path then Some (500 + directory_bonus)
           else map_option (\<lambda>s. 300 + s + directory_bonus) (subsequence_score path needle)))"

definition kind_rank :: "file_kind \<Rightarrow> nat" where
  "kind_rank k = (if k = DirectoryKind then 0 else 1)"

text \<open>The comparison, as a key: the score falls, then directories first, then shorter paths, then the text.\<close>

definition rank_key :: "string \<Rightarrow> file_candidate \<times> nat \<Rightarrow> int \<times> nat \<times> nat \<times> string" where
  "rank_key q = (\<lambda>(c, score). (- int score, kind_rank (fc_kind c), if q = '''' then 0 else length (fc_path c), fc_path c))"

definition scored :: "string \<Rightarrow> file_candidate list \<Rightarrow> (file_candidate \<times> nat) list" where
  "scored q cs = List.map_filter (\<lambda>c. map_option (\<lambda>s. (c, s)) (score_candidate c q)) cs"

definition rank_candidates :: "file_candidate list \<Rightarrow> string \<Rightarrow> nat \<Rightarrow> file_candidate list" where
  "rank_candidates cs q limit = map fst (take limit (sort_key (rank_key q) (scored q cs)))"

section \<open>Queries\<close>

record reference_config =
  rc_max_results :: nat
  rc_options :: index_options

definition visible_for_global_query :: "string \<Rightarrow> string \<Rightarrow> bool" where
  "visible_for_global_query path q =
    (starts_with ''.'' q \<or> contains ''/.'' q \<or> \<not> list_ex (starts_with ''.'') (split_on CHR ''/'' path))"

fun up_to_last_slash :: "string \<Rightarrow> string" where
  "up_to_last_slash [] = []"
| "up_to_last_slash (c # s) = (if CHR ''/'' \<in> set (c # s) then c # up_to_last_slash s else [])"

datatype query_plan = Browse string string | Everywhere string

definition query_plan_of :: "string \<Rightarrow> query_plan" where
  "query_plan_of q =
    (let raw = map (\<lambda>c. if c = CHR 0x5C then CHR ''/'' else c) q in
     if raw = '''' \<or> CHR ''/'' \<in> set raw then Browse (up_to_last_slash raw) (after_last_slash raw) else Everywhere raw)"

definition directory_excluded :: "reference_config \<Rightarrow> string \<Rightarrow> bool" where
  "directory_excluded g directory = list_ex (\<lambda>s. s \<in> set (io_excluded (rc_options g))) (split_on CHR ''/'' directory)"

definition in_directory :: "string \<Rightarrow> string \<Rightarrow> file_candidate \<Rightarrow> bool" where
  "in_directory directory fragment c =
    (let prefix = filter (\<lambda>s. s \<noteq> '''') (split_on CHR ''/'' directory); segments = split_on CHR ''/'' (fc_path c) in
     length segments = length prefix + 1 \<and> take (length prefix) segments = prefix
     \<and> (starts_with ''.'' (last segments) \<longrightarrow> starts_with ''.'' fragment))"

text \<open>What \<open>list\<close> answers from the entries it got; an excluded directory is answered before any are asked for.\<close>

fun answer_query :: "reference_config \<Rightarrow> query_plan \<Rightarrow> file_candidate list \<Rightarrow> file_candidate list" where
  "answer_query g (Browse directory fragment) entries =
    (if directory_excluded g directory then []
     else rank_candidates (filter (in_directory directory fragment) entries) fragment (rc_max_results g))"
| "answer_query g (Everywhere q) entries =
    rank_candidates (filter (\<lambda>c. visible_for_global_query (fc_path c) q) entries) q (rc_max_results g)"

definition list_files :: "reference_config \<Rightarrow> string \<Rightarrow> agent_map \<Rightarrow> (error + snapshot \<Rightarrow> error + file_candidate list) \<times> lookup option \<times> agent_map" where
  "list_files g q m =
    (let plan = query_plan_of q; answer = (\<lambda>s. map_sum id (\<lambda>s. answer_query g plan (sn_entries s)) s) in
     case plan of
       Browse directory fragment \<Rightarrow>
         if directory_excluded g directory then ((\<lambda>_. Inr []), None, m)
         else (case look_up True m of (l, m') \<Rightarrow> (answer, Some l, m'))
     | Everywhere _ \<Rightarrow> (case look_up False m of (l, m') \<Rightarrow> (answer, Some l, m')))"

definition validate_config :: "js_number \<Rightarrow> js_number \<Rightarrow> string list \<Rightarrow> error + unit" where
  "validate_config max_results max_entries excluded =
    (if \<not> is_safe_integer max_results \<or> num_le max_results (js_int 0)
     then Inl (Plain ''file search maxResults must be a positive safe integer'')
     else if \<not> is_safe_integer max_entries \<or> num_le max_entries (js_int 0)
     then Inl (Plain ''file search maxEntries must be a positive safe integer'')
     else if list_ex (\<lambda>n. n = '''' \<or> CHR ''/'' \<in> set n \<or> CHR 0x5C \<in> set n) excluded
     then Inl (Plain ''file search excludedDirectories entries must be non-empty directory basenames'')
     else Inr ())"

section \<open>The index\<close>

lemma read_render_entry: "read_entry (render_entry c) = Some c"
  by (cases c; cases "fc_kind c") (simp_all add: read_entry_def render_entry_def)

text \<open>What is saved is what is loaded.\<close>

lemma read_render_index: "read_index (render_index i) = Some i"
proof -
  have "List.map_filter read_entry (map render_entry cs) = cs" for cs
    by (induction cs) (simp_all add: read_render_entry map_filter_simps)
  then show ?thesis by (cases i) (simp add: read_index_def render_index_def)
qed

text \<open>Saving the index never holds up a transition: whatever the runner and the file system do, the hooks
  before a hibernation and before a checkpoint return.\<close>

lemma capture_never_blocks:
  "fst (before_hibernate (file_index_hooks X opts) sid r c e) = Inr ()
   \<and> fst (before_checkpoint (file_index_hooks X opts) sid r c' e) = Inr ()"
proof -
  have "wp (capture X opts sid c) (\<lambda>_ _. True) (\<lambda>_ _. False) e" for c e
    unfolding capture_def by (auto simp: wp_simps intro!: wp_any split: option.split)
  then have "fst (capture X opts sid c e) = Inr ()" for c e
    by (cases "capture X opts sid c e"; cases "fst (capture X opts sid c e)") (auto simp: wp_def dest!: meta_spec [of _ e] meta_spec [of _ c])
  then show ?thesis by (auto simp: file_index_hooks_def ret_def split: option.split)
qed

text \<open>With no runner cached, as after a restart of the host, nothing is captured, and an index saved by an
  earlier hibernation stays and is served.\<close>

lemma old_index_kept: "before_hibernate (file_index_hooks X opts) sid r None = ret ()"
  by (simp add: file_index_hooks_def)

section \<open>No sandbox is started for a mention\<close>

definition sandboxes_alone :: "'e manager \<Rightarrow> 'e manager \<Rightarrow> bool" where
  "sandboxes_alone m t \<longleftrightarrow> w_store (mg_world t) = w_store (mg_world m) \<and> w_files (mg_world t) = w_files (mg_world m)
     \<and> w_clients (mg_world t) = w_clients (mg_world m) \<and> w_log (mg_world t) = w_log (mg_world m) \<and> mg_sched t = mg_sched m"

lemma root_of_alone: "root_of M a m = (r, m0) \<Longrightarrow> sandboxes_alone m m0"
  by (auto simp: root_of_def Let_def log_warning_def sandboxes_alone_def split: option.splits if_splits)

lemma root_of_again:
  assumes "root_of M a m = (Inr sid, m0)"
  shows "root_of M a m0 = (Inr sid, m0)"
proof -
  from assms have "map_of (mg_roots m0) (agent_id a) = Some sid"
    using root_of_memo [of M a m] by auto
  then show ?thesis unfolding root_of_def by (simp only: option.case)
qed

lemma record_in_alone: "sandboxes_alone m t \<Longrightarrow> record_in sid t = record_in sid m"
  unfolding record_in_def record_of_def sandboxes_alone_def by (simp only:)

text \<open>C38: typing "@" starts nothing: in a session without a sandbox the completion answers no files, and in a
  suspended session whose index was saved it answers that index; in both cases no record, checkpoint,
  runner or countdown moves and no sandbox is told anything.\<close>

theorem mention_starts_nothing:
  assumes "root_of M (sa_agent a) m = (Inr sid, m0)" and "fetch_index M X opts a m = (r, t)"
  shows "(record_in sid m = None \<longrightarrow> r = Inr None \<and> sandboxes_alone m t)
    \<and> (\<forall>rec i e. record_in sid m = Some rec \<and> \<not> is_running (record_state rec)
          \<and> load_index X sid (w_env (mg_world m0)) = (Inr (Some i), e) \<longrightarrow> r = Inr (Some i) \<and> sandboxes_alone m t)"
proof -
  note alone = root_of_alone [OF assms(1)]
  have fetch: "manager_file_index M X (sa_agent a) m = hibernated_file_index X sid m0"
    by (simp add: manager_file_index_def bindE_Inr [of "root_of M (sa_agent a)", OF assms(1)])
  have rec: "record_in sid m0 = record_in sid m" by (rule record_in_alone [OF alone])
  have none: "r = Inr None \<and> sandboxes_alone m t" if "record_in sid m = None"
  proof -
    from that rec fetch have "manager_file_index M X (sa_agent a) m = (Inr None, m0)"
      by (simp add: hibernated_file_index_def bindE_def gets_def ret_def)
    moreover have "has_sandbox M (sa_agent a) m0 = (Inr False, m0)"
      using root_of_again [OF assms(1)] rec that by (simp add: has_sandbox_def bindE_def gets_def)
    ultimately have "(r, t) = (Inr None, m0)"
      using assms(2) by (simp add: fetch_index_def bindE_def ret_def)
    with alone show ?thesis by simp
  qed
  have some: "r = Inr (Some i) \<and> sandboxes_alone m t"
    if s: "record_in sid m = Some s" "\<not> is_running (record_state s)"
      "load_index X sid (w_env (mg_world m0)) = (Inr (Some i), e)" for s i e
  proof -
  from s have "manager_file_index M X (sa_agent a) m = (Inr (Some i), m0\<lparr>mg_world := (mg_world m0)\<lparr>w_env := e\<rparr>\<rparr>)"
    using rec fetch by (cases "record_state s") (simp_all add: hibernated_file_index_def bindE_def gets_def on_outside_def outside_def)
  then have "(r, t) = (Inr (Some i), m0\<lparr>mg_world := (mg_world m0)\<lparr>w_env := e\<rparr>\<rparr>)"
    using assms(2) by (simp add: fetch_index_def bindE_def ret_def)
  with alone show ?thesis by (simp add: sandboxes_alone_def)
  qed
  show ?thesis using none some by blast
qed

section \<open>What is offered first\<close>

lemma subseq_drop_until: "c \<notin> set u \<Longrightarrow> subseq (c # q) (u @ c # v) \<longleftrightarrow> subseq q v"
  by (induction u) auto

lemma subsequence_gap_subseq: "subsequence_gap target q \<noteq> None \<longleftrightarrow> subseq q target"
proof (induction q arbitrary: target)
  case (Cons c q)
  show ?case
  proof (cases "index_of c target")
    case None
    then have "c \<notin> set target" by (simp add: index_of_None)
    then have "\<not> subseq (c # q) target" using list_emb_set [of "(=)" "c # q" target] by auto
    with None show ?thesis by simp
  next
    case (Some i)
    from index_of_SomeD [OF Some] subseq_drop_until [of c "take i target" q "drop (Suc i) target"]
    have "subseq (c # q) target \<longleftrightarrow> subseq q (drop (Suc i) target)" by metis
    with Some Cons.IH show ?thesis by simp
  qed
qed simp

text \<open>How well a candidate matches, without the code's numbers: its name is the query, begins with it,
  contains it; its path contains it; its path has the query's characters in order.\<close>

definition match_level :: "string \<Rightarrow> file_candidate \<Rightarrow> nat" where
  "match_level q c =
    (let path = to_lower (fc_path c); name = after_last_slash path; needle = to_lower q in
     if name = needle then 5 else if starts_with needle name then 4 else if contains needle name then 3
     else if contains needle path then 2 else if subseq needle path then 1 else 0)"

definition level_of :: "nat \<Rightarrow> nat" where
  "level_of s = (if s \<ge> 1000 then 5 else if s \<ge> 900 then 4 else if s \<ge> 700 then 3 else if s \<ge> 500 then 2 else 1)"

lemma level_of_mono: "s \<le> t \<Longrightarrow> level_of s \<le> level_of t"
  by (simp add: level_of_def)

lemma score_level: "score_candidate c q = Some s \<Longrightarrow> q \<noteq> '''' \<Longrightarrow> level_of s = match_level q c"
  using subsequence_gap_subseq [of "to_lower (fc_path c)" "to_lower q"]
  by (auto simp: score_candidate_def match_level_def Let_def level_of_def subsequence_score_def split: if_splits)

lemma score_None: "score_candidate c q = None \<longleftrightarrow> q \<noteq> '''' \<and> match_level q c = 0"
  using subsequence_gap_subseq [of "to_lower (fc_path c)" "to_lower q"]
  by (auto simp: score_candidate_def match_level_def Let_def subsequence_score_def split: if_splits)

lemma scored_eq:
  "scored q cs = map (\<lambda>c. (c, the (score_candidate c q))) (filter (\<lambda>c. score_candidate c q \<noteq> None) cs)"
  by (induction cs) (auto simp: scored_def map_filter_simps split: option.split)

lemma rank_key_level:
  assumes "x \<in> set (scored q cs)" and "y \<in> set (scored q cs)" and "rank_key q x \<le> rank_key q y" and "q \<noteq> ''''"
  shows "match_level q (fst y) \<le> match_level q (fst x)"
proof -
  obtain c s d t where xy: "x = (c, s)" "y = (d, t)" by (metis prod.exhaust)
  from assms(1,2) xy have st: "score_candidate c q = Some s" "score_candidate d q = Some t"
    by (auto simp: scored_eq)
  from assms(3) xy have "t \<le> s" by (auto simp: rank_key_def less_eq_prod_def)
  then have "level_of t \<le> level_of s" by (rule level_of_mono)
  with score_level [OF st(1) assms(4)] score_level [OF st(2) assms(4)] xy show ?thesis by simp
qed

text \<open>C39: the completion offers the best matches: of the candidates that match the query at all (by the reference
  levels), it answers as many as fit, each as often as it is there, a better match never after a worse one,
  and none that is left out matches better than one that is answered; the bonus for directories and the
  scores inside a level never cross levels.\<close>

theorem best_matches_first:
  fixes cs :: "file_candidate list"
  assumes "q \<noteq> ''''"
  defines "matches \<equiv> filter (\<lambda>c. match_level q c \<noteq> 0) cs"
  shows "length (rank_candidates cs q limit) = min limit (length matches)
    \<and> mset (rank_candidates cs q limit) \<subseteq># mset matches
    \<and> sorted_wrt (\<lambda>c d. match_level q d \<le> match_level q c) (rank_candidates cs q limit)
    \<and> (\<forall>c \<in># mset matches - mset (rank_candidates cs q limit). \<forall>d \<in> set (rank_candidates cs q limit).
         match_level q c \<le> match_level q d)"
proof -
  define S where "S = sort_key (rank_key q) (scored q cs)"
  have ranked: "rank_candidates cs q limit = map fst (take limit S)" by (simp add: rank_candidates_def S_def)
  have set_S: "set S = set (scored q cs)" by (simp add: S_def)
  have "matches = filter (\<lambda>c. score_candidate c q \<noteq> None) cs"
    unfolding matches_def using assms(1) by (intro filter_cong) (auto simp: score_None)
  then have fst_scored: "map fst (scored q cs) = matches" by (simp add: scored_eq comp_def)
  have mset_S: "image_mset fst (mset S) = mset matches"
    by (simp add: S_def fst_scored [symmetric])
  have parts: "mset matches = mset (map fst (take limit S)) + mset (map fst (drop limit S))"
    unfolding mset_S [symmetric] by (metis append_take_drop_id image_mset_union mset_append mset_map)
  have "sorted (map (rank_key q) S)" by (simp add: S_def)
  then have S: "sorted_wrt (\<lambda>x y. rank_key q x \<le> rank_key q y) S" by (simp add: sorted_wrt_map)
  have levels: "sorted_wrt (\<lambda>x y. match_level q (fst y) \<le> match_level q (fst x)) S"
    by (rule sorted_wrt_mono_rel [OF _ S]) (use rank_key_level [OF _ _ _ assms(1)] set_S in blast)
  then have "sorted_wrt (\<lambda>x y. match_level q (fst y) \<le> match_level q (fst x)) (take limit S @ drop limit S)" by simp
  then have split: "sorted_wrt (\<lambda>x y. match_level q (fst y) \<le> match_level q (fst x)) (take limit S)"
    "\<forall>x \<in> set (take limit S). \<forall>y \<in> set (drop limit S). match_level q (fst y) \<le> match_level q (fst x)"
    unfolding sorted_wrt_append by blast+
  have "length S = length matches" using arg_cong [OF mset_S, of size] by simp
  moreover have "mset matches - mset (map fst (take limit S)) = mset (map fst (drop limit S))" using parts by simp
  ultimately show ?thesis using split parts by (auto simp: ranked sorted_wrt_map)
qed

section \<open>Examples\<close>

definition demo_index_parts :: "int index_parts" where
  "demo_index_parts = \<lparr>ix_tree = \<lambda>c p x n. ret ([], False), ix_directory = ''/i'', ix_pid = ''1'', ix_encode = id,
     ix_mkdir = \<lambda>p e. (Inr (), e), ix_write = \<lambda>p j e. (Inr (), e), ix_rename = \<lambda>p q e. (Inr (), e),
     ix_read_json = \<lambda>p e. (Inl (Enoent p), e), ix_rm = \<lambda>p e. (Inr (), e), ix_workspace = ''/w'', ix_warn = \<lambda>s e. e\<rparr>"

theorem mention_starts_nothing_witness:
  "fst (fetch_index demo_parts demo_index_parts \<lparr>io_excluded = [], io_max_entries = 5\<rparr> demo_agent demo_booted) = Inr None"
  using demo_resolves demo_nothing_yet mention_starts_nothing [OF _ surjective_pairing] by metis

definition demo_files :: "file_candidate list" where
  "demo_files = [\<lparr>fc_path = ''a/xab'', fc_kind = DirectoryKind\<rparr>, \<lparr>fc_path = ''q'', fc_kind = FileKind\<rparr>, \<lparr>fc_path = ''ab'', fc_kind = FileKind\<rparr>]"

theorem best_matches_first_witness:
  "length (rank_candidates demo_files ''ab'' 2) = 2 \<and> map (match_level ''ab'') demo_files = [3, 0, 5]"
proof -
  have levels: "map (match_level ''ab'') demo_files = [3, 0, 5]" by code_simp
  then have "length (filter (\<lambda>c. match_level ''ab'' c \<noteq> 0) demo_files) = 2" by (simp add: demo_files_def)
  with levels best_matches_first [of "''ab''" demo_files 2] show ?thesis by simp
qed

lemma demo_order: "map fc_path (rank_candidates demo_files ''ab'' 2) = [''ab'', ''a/xab'']"
  by code_simp

end
