(* ===== verification/Call_Log.thy ===== *)
theory Call_Log
  imports Remote_Api
begin

text \<open>
  A world that keeps the list of the calls made on it, for properties of what a component asks of
  others and in which order. \<open>recording c m\<close> is \<open>m\<close>, noted as \<open>c\<close>; \<open>lifted m\<close> is \<open>m\<close>, not noted.
\<close>

type_synonym ('e, 'c) logged = "'e \<times> 'c list"

definition lifted :: "('e \<Rightarrow> 'r \<times> 'e) \<Rightarrow> ('e, 'c) logged \<Rightarrow> 'r \<times> ('e, 'c) logged" where
  "lifted m s = (case m (fst s) of (r, e') \<Rightarrow> (r, (e', snd s)))"

definition recording :: "'c \<Rightarrow> ('e \<Rightarrow> 'r \<times> 'e) \<Rightarrow> ('e, 'c) logged \<Rightarrow> 'r \<times> ('e, 'c) logged" where
  "recording c m s = (case m (fst s) of (r, e') \<Rightarrow> (r, (e', snd s @ [c])))"

lemma wp_lifted: "wp (lifted m) Q E s = wp m (\<lambda>a e. Q a (e, snd s)) (\<lambda>er e. E er (e, snd s)) (fst s)"
  by (auto simp: wp_def lifted_def split: prod.split sum.split)

lemma wp_api_lifted: "wp (api (lifted m)) Q E s = wp (api m) (\<lambda>a e. Q a (e, snd s)) (\<lambda>er e. E er (e, snd s)) (fst s)"
  by (auto simp: wp_def lifted_def api_def split: prod.split sum.split)

lemma wp_recording: "wp (recording c m) Q E s = wp m (\<lambda>a e. Q a (e, snd s @ [c])) (\<lambda>er e. E er (e, snd s @ [c])) (fst s)"
  by (auto simp: wp_def recording_def split: prod.split sum.split)

lemma wp_api_recording:
  "wp (api (recording c m)) Q E s = wp (api m) (\<lambda>a e. Q a (e, snd s @ [c])) (\<lambda>er e. E er (e, snd s @ [c])) (fst s)"
  by (auto simp: wp_def recording_def api_def split: prod.split sum.split)

lemma wp_all: "(\<And>a t. Q a t) \<Longrightarrow> (\<And>er t. E er t) \<Longrightarrow> wp m Q E s"
  by (auto simp: wp_def split: prod.split sum.split)

text \<open>\<open>noting c m\<close>: as \<open>recording\<close>, with whether the call succeeded.\<close>

definition noting :: "(bool \<Rightarrow> 'c) \<Rightarrow> ('e, 'a) comp \<Rightarrow> (('e, 'c) logged, 'a) comp" where
  "noting c m s = (case m (fst s) of (r, e') \<Rightarrow> (r, (e', snd s @ [c (\<not> isl r)])))"

lemma wp_noting:
  "wp (noting c m) Q E s = wp m (\<lambda>a e. Q a (e, snd s @ [c True])) (\<lambda>er e. E er (e, snd s @ [c False])) (fst s)"
  by (auto simp: wp_def noting_def split: prod.split sum.split)

lemma lifted_bindE: "lifted (bindE m k) = bindE (lifted m) (\<lambda>a. lifted (k a))"
  by (rule ext) (auto simp: lifted_def bindE_def split: prod.split sum.split)

lemma lifted_catchE: "lifted (catchE m h) = catchE (lifted m) (\<lambda>er. lifted (h er))"
  by (rule ext) (auto simp: lifted_def catchE_def split: prod.split sum.split)

lemma lifted_ret: "lifted (ret a) = ret a"
  by (rule ext) (simp add: lifted_def ret_def)

lemma lifted_throw: "lifted (throw er) = throw er"
  by (rule ext) (simp add: lifted_def throw_def)

lemma lifted_liftE: "lifted (liftE r) = liftE r"
  by (rule ext) (simp add: lifted_def liftE_def split: sum.split)

lemma lifted_gets: "lifted (gets f) = gets (\<lambda>s. f (fst s))"
  by (rule ext) (simp add: lifted_def gets_def)

end
