(* ===== verification/Session_Tools.thy ===== *)
theory Session_Tools
  imports Profile_Choice Call_Log
begin

text \<open>
  \<open>sessions/session-tools.ts\<close>: the tools by which one session creates, messages, awaits and interrupts
  other top-level sessions, and which agents are given them. The session controller, the sandbox
  manager and the workspace registry are interfaces of the file, so they are parameters; a call
  under a time limit is one that may fail. A tool's result is the JSON object it builds.
\<close>

section \<open>What the tools use\<close>

record workspace_row =
  wk_id :: string
  wk_path :: string
  wk_title :: string
  wk_session_ids :: "string list"

record session_row =
  sr_session_id :: string
  sr_origin :: "string option"
  sr_running :: bool
  sr_updated_at :: int

record model_route =
  mr_id :: string
  mr_efforts :: "string list option"

record model_group =
  mg_id :: string
  mg_models :: "model_route list"

record model_selection =
  ms_provider :: string
  ms_model :: string
  ms_effort :: "string option"

datatype prompt_mode = Queue | Steer

datatype session_placement = InWorkspace string | InDirectory string

text \<open>A frame of \<open>follow\<close>: a snapshot of records, or another. The stream of one call is the frames that
  come before it ends, and the error it ends with, if any.\<close>

datatype follow_frame = SnapshotFrame "json list" | OtherFrame

record 'e session_tool_deps =
  sd_list :: "('e, session_row list) call"
  sd_create :: "session_placement \<Rightarrow> string option \<Rightarrow> ('e, string \<times> string option) call"
  sd_rename :: "string \<Rightarrow> string \<Rightarrow> ('e, string) call"
  sd_prompt :: "string \<Rightarrow> prompt_mode \<Rightarrow> string \<Rightarrow> ('e, unit) call"
  sd_cancel :: "string \<Rightarrow> ('e, bool) call"
  sd_follow :: "string \<Rightarrow> 'e \<Rightarrow> (follow_frame list \<times> api_error option) \<times> 'e"
  sd_select_model :: "string \<Rightarrow> model_selection \<Rightarrow> ('e, model_selection) call"
  sd_model_catalog :: "('e, model_group list) call"
  sd_list_profiles :: "('e, profile_view) comp"
  sd_set_profile :: "string \<Rightarrow> string \<Rightarrow> ('e, profile_view) comp"
  sd_workspaces :: "'e \<Rightarrow> workspace_row list"
  sd_scratch_workspace :: string
  sd_clock :: "'e clock"

text \<open>The execution of a tool: the calling agent, and the reason of its signal once that is aborted.\<close>

record 'e tool_run =
  tr_agent :: "string option"
  tr_aborted :: "'e \<Rightarrow> string option"

definition calling_agent :: "'e tool_run \<Rightarrow> error + string" where
  "calling_agent x = (case tr_agent x of
     None \<Rightarrow> Inl (Plain ''session tools require a calling agent'') | Some a \<Rightarrow> Inr a)"

definition target_session_id :: "string \<Rightarrow> string \<Rightarrow> string \<Rightarrow> error + string" where
  "target_session_id v caller action =
    (if v = caller then Inl (Plain (''a session cannot '' @ action @ '' itself'')) else Inr v)"

section \<open>Reading a message\<close>

definition as_record :: "json \<Rightarrow> json option" where
  "as_record v = (case v of JObj fs \<Rightarrow> Some v | _ \<Rightarrow> None)"

definition block_text :: "json \<Rightarrow> string option" where
  "block_text item =
    (case Option.bind (as_record item) (\<lambda>b. if field ''type'' b = Some (JStr ''text'') then field ''text'' b else None) of
       Some (JStr t) \<Rightarrow> (if trim t = '''' then None else Some (trim t))
     | _ \<Rightarrow> None)"

definition blocks_text :: "json option \<Rightarrow> string option" where
  "blocks_text v =
    (case v of
       Some (JArr items) \<Rightarrow>
         (let texts = List.map_filter block_text items in
          if texts = [] then None else Some (join_with ''\<newline>'' texts))
     | _ \<Rightarrow> None)"

text \<open>The character U+2026, as the three bytes of its UTF-8.\<close>

definition ellipsis :: string where
  "ellipsis = [CHR 0xE2, CHR 0x80, CHR 0xA6]"

definition truncate_text :: "string \<Rightarrow> nat \<Rightarrow> string" where
  "truncate_text t n = (if length t \<le> n then t else take n t @ ellipsis)"

text \<open>The text of a record that is an assistant message.\<close>

definition assistant_text :: "json \<Rightarrow> string option" where
  "assistant_text rec =
    (case field ''event'' rec of
       Some event \<Rightarrow>
         (if field ''type'' rec \<noteq> Some (JStr ''event'') \<or> field ''type'' event \<noteq> Some (JStr ''assistant/message'') then None
          else let message = Option.bind (Option.bind (Option.bind (field ''data'' event) as_record) (field ''message'')) as_record
               in blocks_text (Option.bind message (field ''content'')))
     | None \<Rightarrow> None)"

fun first_some :: "('a \<Rightarrow> 'b option) \<Rightarrow> 'a list \<Rightarrow> 'b option" where
  "first_some f [] = None"
| "first_some f (x # xs) = (case f x of Some y \<Rightarrow> Some y | None \<Rightarrow> first_some f xs)"

fun first_snapshot :: "follow_frame list \<Rightarrow> json list option" where
  "first_snapshot [] = None"
| "first_snapshot (SnapshotFrame records # _) = Some records"
| "first_snapshot (OtherFrame # frames) = first_snapshot frames"

definition last_assistant_message :: "'e session_tool_deps \<Rightarrow> string \<Rightarrow> ('e, string option) comp" where
  "last_assistant_message D sid e =
    (case sd_follow D sid e of
       ((frames, failure), e') \<Rightarrow>
         (case first_snapshot frames of
            Some records \<Rightarrow>
              (Inr (map_option (\<lambda>t. truncate_text t 8000) (first_some assistant_text (rev records))), e')
          | None \<Rightarrow> (case failure of Some er \<Rightarrow> (Inl (thrown er), e') | None \<Rightarrow> (Inr None, e'))))"

section \<open>Placing a session\<close>

record create_args =
  ca_workspace_id :: "string option"
  ca_workspace :: "string option"
  ca_cwd :: "string option"
  ca_title :: "string option"
  ca_prompt :: "string option"
  ca_mode :: "prompt_mode option"
  ca_agent_preset :: "string option"
  ca_sandbox_profile :: "string option"
  ca_model :: "model_selection option"

definition find_workspace :: "workspace_row list \<Rightarrow> string \<Rightarrow> error + workspace_row" where
  "find_workspace ws i =
    (case find (\<lambda>w. wk_id w = i) ws of
       None \<Rightarrow> Inl (Plain (''unknown workspace \"'' @ i @ ''\"; call list_workspaces first''))
     | Some w \<Rightarrow> Inr w)"

definition goes_by :: "string \<Rightarrow> workspace_row \<Rightarrow> bool" where
  "goes_by n w = (wk_id w = n \<or> wk_title w = n \<or> wk_path w = n)"

definition scratch_placement :: "workspace_row list \<Rightarrow> string \<Rightarrow> session_placement" where
  "scratch_placement ws scratch =
    (case find (\<lambda>w. wk_path w = scratch) ws of
       Some w \<Rightarrow> InWorkspace (wk_id w)
     | None \<Rightarrow> (case find (\<lambda>w. wk_title w = ''Scratch'') ws of
          Some w \<Rightarrow> InWorkspace (wk_id w)
        | None \<Rightarrow> InDirectory scratch))"

definition resolve_placement :: "create_args \<Rightarrow> workspace_row list \<Rightarrow> string \<Rightarrow> error + session_placement" where
  "resolve_placement a ws scratch =
    (let named = (ca_workspace_id a \<noteq> None \<or> ca_workspace a \<noteq> None) in
     if named \<and> ca_cwd a \<noteq> None then Inl (Plain ''use workspace_id/workspace or cwd, not both'')
     else if ca_workspace_id a \<noteq> None \<and> ca_workspace a \<noteq> None
       then Inl (Plain ''use workspace_id or workspace, not both'')
     else case ca_workspace_id a of
       Some i \<Rightarrow> map_sum id (InWorkspace \<circ> wk_id) (find_workspace ws i)
     | None \<Rightarrow>
    (case ca_workspace a of
       Some n \<Rightarrow>
         (case filter (goes_by n) ws of
            [] \<Rightarrow> Inl (Plain (''workspace \"'' @ n @ ''\" not found''))
          | [w] \<Rightarrow> Inr (InWorkspace (wk_id w))
          | _ \<Rightarrow> Inl (Plain (''workspace \"'' @ n @ ''\" is ambiguous; use workspace_id'')))
     | None \<Rightarrow>
    (case ca_cwd a of
       Some dir \<Rightarrow> Inr (InDirectory dir)
     | None \<Rightarrow> Inr (scratch_placement ws scratch))))"

section \<open>The tools\<close>

definition list_workspaces :: "'e session_tool_deps \<Rightarrow> 'e \<Rightarrow> json" where
  "list_workspaces D e = JArr (map (\<lambda>w. JObj
     [(''workspace_id'', JStr (wk_id w)), (''title'', JStr (wk_title w)), (''path'', JStr (wk_path w)),
      (''session_count'', JNum (js_int (int (length (wk_session_ids w))))),
      (''scratch'', JBool (wk_path w = sd_scratch_workspace D))]) (sd_workspaces D e))"

definition list_models :: "'e session_tool_deps \<Rightarrow> ('e, model_group list) comp" where
  "list_models D = api (sd_model_catalog D)"

definition list_sandbox_profiles :: "'e session_tool_deps \<Rightarrow> ('e, profile_view) comp" where
  "list_sandbox_profiles D = sd_list_profiles D"

definition send_message :: "'e session_tool_deps \<Rightarrow> string \<Rightarrow> string \<Rightarrow> prompt_mode \<Rightarrow> string \<Rightarrow> ('e, unit) comp" where
  "send_message D sid text mode caller =
    (if trim text = '''' then throw (Plain ''message text must not be empty'')
     else api (sd_prompt D sid mode (''[from session '' @ caller @ '']'' @ ''\<newline>\<newline>'' @ text)))"

definition message_session :: "'e session_tool_deps \<Rightarrow> 'e tool_run \<Rightarrow> string \<Rightarrow> string \<Rightarrow> prompt_mode option \<Rightarrow> ('e, json) comp" where
  "message_session D x target text mode =
    bindE (liftE (calling_agent x)) (\<lambda>agent.
    bindE (liftE (target_session_id target agent ''send a message to'')) (\<lambda>sid.
    thenE (send_message D sid text (or_else mode Queue) agent)
      (ret (JObj [(''accepted'', JBool True), (''session_id'', JStr target)]))))"

definition interrupt_session :: "'e session_tool_deps \<Rightarrow> 'e tool_run \<Rightarrow> string \<Rightarrow> ('e, json) comp" where
  "interrupt_session D x target =
    bindE (liftE (calling_agent x)) (\<lambda>agent.
    bindE (liftE (target_session_id target agent ''interrupt'')) (\<lambda>sid.
    bindE (api (sd_cancel D sid)) (\<lambda>accepted.
      ret (JObj [(''accepted'', JBool accepted), (''session_id'', JStr target)]))))"

section \<open>Creating a session\<close>

definition check_profile :: "'e session_tool_deps \<Rightarrow> string option \<Rightarrow> ('e, unit) comp" where
  "check_profile D wanted =
    (case wanted of
       None \<Rightarrow> ret ()
     | Some n \<Rightarrow>
        bindE (sd_list_profiles D) (\<lambda>v.
          if n \<in> fst ` set (pv_profiles v) then ret ()
          else throw (Plain (''unknown sandbox profile \"'' @ n @ ''\"; call list_sandbox_profiles first''))))"

definition find_route :: "model_group list \<Rightarrow> model_selection \<Rightarrow> model_route option" where
  "find_route groups s =
    Option.bind (find (\<lambda>g. mg_id g = ms_provider s) groups) (\<lambda>g. find (\<lambda>r. mr_id r = ms_model s) (mg_models g))"

definition check_model :: "'e session_tool_deps \<Rightarrow> model_selection option \<Rightarrow> ('e, unit) comp" where
  "check_model D wanted =
    (case wanted of
       None \<Rightarrow> ret ()
     | Some s \<Rightarrow>
        bindE (api (sd_model_catalog D)) (\<lambda>groups.
          case find_route groups s of
            None \<Rightarrow> throw (Plain (''model \"'' @ ms_provider s @ ''/'' @ ms_model s @ ''\" is not available; call list_models first''))
          | Some route \<Rightarrow>
             (case (ms_effort s, mr_efforts route) of
                (Some effort, Some efforts) \<Rightarrow>
                  (if effort \<in> set efforts then ret ()
                   else throw (Plain (''model \"'' @ ms_provider s @ ''/'' @ ms_model s @ ''\" has no reasoning effort \"''
                          @ effort @ ''\"; call list_models first'')))
              | _ \<Rightarrow> ret ())))"

fun placement_fields :: "session_placement \<Rightarrow> (string \<times> json) list" where
  "placement_fields (InWorkspace i) = [(''workspace_id'', JStr i)]"
| "placement_fields (InDirectory dir) = [(''cwd'', JStr dir)]"

definition preset_fields :: "string option \<Rightarrow> (string \<times> json) list" where
  "preset_fields p = (case p of None \<Rightarrow> [] | Some preset \<Rightarrow> [(''agent_preset'', JStr preset)])"

definition selection_fields :: "model_selection \<Rightarrow> json" where
  "selection_fields s = JObj ([(''provider'', JStr (ms_provider s)), (''model'', JStr (ms_model s))]
     @ (case ms_effort s of None \<Rightarrow> [] | Some effort \<Rightarrow> [(''reasoning_effort'', JStr effort)]))"

text \<open>One setting of the new session: its field, or the field of its error.\<close>

definition setting :: "string \<Rightarrow> string \<Rightarrow> ('e, json) comp \<Rightarrow> ('e, (string \<times> json) list \<times> bool) comp" where
  "setting ok failed m =
    catchE (bindE m (\<lambda>v. ret ([(ok, v)], False)))
      (\<lambda>er. ret ([(failed, JStr (error_message er))], True))"

definition set_profile :: "'e session_tool_deps \<Rightarrow> string \<Rightarrow> string option \<Rightarrow> ('e, (string \<times> json) list \<times> bool) comp" where
  "set_profile D sid wanted =
    (case wanted of
       None \<Rightarrow> ret ([], False)
     | Some n \<Rightarrow> setting ''sandbox_profile'' ''sandbox_profile_error''
         (bindE (sd_set_profile D sid n) (\<lambda>v. ret (JStr (pv_selected v)))))"

definition set_model :: "'e session_tool_deps \<Rightarrow> string \<Rightarrow> model_selection option \<Rightarrow> ('e, (string \<times> json) list \<times> bool) comp" where
  "set_model D sid wanted =
    (case wanted of
       None \<Rightarrow> ret ([], False)
     | Some s \<Rightarrow> setting ''model'' ''model_error''
         (bindE (api (sd_select_model D sid s)) (\<lambda>selected. ret (selection_fields selected))))"

definition set_title :: "'e session_tool_deps \<Rightarrow> string \<Rightarrow> string option \<Rightarrow> ('e, (string \<times> json) list) comp" where
  "set_title D sid wanted =
    (case wanted of
       None \<Rightarrow> ret []
     | Some t \<Rightarrow>
        bindE (setting ''title'' ''title_error'' (bindE (api (sd_rename D sid t)) (\<lambda>title. ret (JStr title))))
          (\<lambda>(fields, _). ret fields))"

definition first_prompt :: "'e session_tool_deps \<Rightarrow> string \<Rightarrow> create_args \<Rightarrow> string \<Rightarrow> bool \<Rightarrow> ('e, (string \<times> json) list) comp" where
  "first_prompt D sid a caller settings_failed =
    (case ca_prompt a of
       None \<Rightarrow> ret []
     | Some text \<Rightarrow>
        (if settings_failed \<or> trim text = '''' then ret []
         else catchE (thenE (send_message D sid text (or_else (ca_mode a) Queue) caller) (ret []))
           (\<lambda>er. ret [(''prompt_error'', JStr (error_message er))])))"

text \<open>\<open>create_session\<close>, from the new session on.\<close>

definition settle_session ::
  "'e session_tool_deps \<Rightarrow> create_args \<Rightarrow> string \<Rightarrow> session_placement \<Rightarrow> string \<times> string option \<Rightarrow> ('e, json) comp" where
  "settle_session D a agent place created =
    (case created of (sid, preset) \<Rightarrow>
    bindE (set_profile D sid (ca_sandbox_profile a)) (\<lambda>(profile, profile_failed).
    bindE (set_model D sid (ca_model a)) (\<lambda>(model, model_failed).
    bindE (set_title D sid (ca_title a)) (\<lambda>title.
    bindE (first_prompt D sid a agent (profile_failed \<or> model_failed)) (\<lambda>prompt.
      ret (JObj ((''session_id'', JStr sid) # placement_fields place @ preset_fields preset
        @ profile @ model @ title @ prompt)))))))"

definition create_session :: "'e session_tool_deps \<Rightarrow> 'e tool_run \<Rightarrow> create_args \<Rightarrow> ('e, json) comp" where
  "create_session D x a =
    bindE (liftE (calling_agent x)) (\<lambda>agent.
    bindE (gets (sd_workspaces D)) (\<lambda>ws.
    bindE (liftE (resolve_placement a ws (sd_scratch_workspace D))) (\<lambda>place.
    thenE (check_profile D (ca_sandbox_profile a))
   (thenE (check_model D (ca_model a))
   (bindE (api (sd_create D place (ca_agent_preset a))) (settle_session D a agent place))))))"

section \<open>Waiting for a session\<close>

text \<open>The field \<open>updated_at\<close> is an ISO text; it stands here as its milliseconds.\<close>

text \<open>\<open>Math.trunc\<close>, \<open>Math.max\<close>.\<close>

fun num_trunc :: "js_number \<Rightarrow> js_number" where
  "num_trunc (Finite q) = js_int (if 0 \<le> q then \<lfloor>q\<rfloor> else \<lceil>q\<rceil>)"
| "num_trunc v = v"

definition num_max :: "js_number \<Rightarrow> js_number \<Rightarrow> js_number" where
  "num_max v w = (if v = NaN \<or> w = NaN then NaN else if num_le v w then w else v)"

definition clamp :: "js_number \<Rightarrow> int \<Rightarrow> int \<Rightarrow> js_number" where
  "clamp v lo hi = num_min (js_int hi) (num_max (js_int lo) (num_trunc v))"

definition find_session :: "'e session_tool_deps \<Rightarrow> string \<Rightarrow> ('e, session_row option) comp" where
  "find_session D sid = bindE (api (sd_list D)) (\<lambda>rows. ret (find (\<lambda>r. sr_session_id r = sid) rows))"

definition wait_result :: "string \<Rightarrow> session_row \<Rightarrow> bool \<Rightarrow> error + (string \<times> json) list" where
  "wait_result sid row timed_out =
    map_sum id (\<lambda>at_ms. [(''session_id'', JStr sid), (''running'', JBool (sr_running row)), (''timed_out'', JBool timed_out),
      (''updated_at'', JNum (js_int (or_else at_ms 0)))]) (to_iso_string (sr_updated_at row))"

definition idle_wait_result :: "'e session_tool_deps \<Rightarrow> 'e tool_run \<Rightarrow> string \<Rightarrow> session_row \<Rightarrow> ('e, json) comp" where
  "idle_wait_result D x sid row =
    bindE (liftE (wait_result sid row False)) (\<lambda>fields.
    bindE
      (catchE
        (bindE (last_assistant_message D sid) (\<lambda>message.
          ret (case message of None \<Rightarrow> [] | Some t \<Rightarrow>
            [(''last_message'', JStr (''[untrusted final message from session '' @ sid @ '']'' @ ''\<newline>'' @ t))])))
        (\<lambda>er. bindE (gets (tr_aborted x)) (\<lambda>aborted.
           if aborted \<noteq> None then throw er
           else ret [(''last_message_error'', JStr (error_message er))])))
      (\<lambda>message. ret (JObj (fields @ message))))"

text \<open>\<open>sleep\<close> is cut short by an abort, which is seen at its start or once the time has passed.\<close>

definition abortable_sleep :: "'e session_tool_deps \<Rightarrow> 'e tool_run \<Rightarrow> int \<Rightarrow> ('e, unit) comp" where
  "abortable_sleep D x ms =
    bindE (gets (tr_aborted x)) (\<lambda>aborted.
      case aborted of
        Some reason \<Rightarrow> throw (Plain reason)
      | None \<Rightarrow>
         thenE (modify (cl_sleep (sd_clock D) ms))
        (bindE (gets (tr_aborted x)) (\<lambda>since.
           case since of Some reason \<Rightarrow> throw (Plain reason) | None \<Rightarrow> ret ())))"

fun session_wait_loop ::
  "'e session_tool_deps \<Rightarrow> 'e tool_run \<Rightarrow> string \<Rightarrow> js_number \<Rightarrow> nat \<Rightarrow> nat \<Rightarrow> bool \<Rightarrow> ('e, json) comp" where
  "session_wait_loop D x sid deadline 0 checks observed = throw OutOfFuel"
| "session_wait_loop D x sid deadline (Suc fuel) checks observed =
    bindE (find_session D sid) (\<lambda>found.
      case found of
        None \<Rightarrow> throw (Plain (''session \"'' @ sid @ ''\" not found''))
      | Some row \<Rightarrow>
         (if sr_origin row = Some ''subagent''
          then throw (Plain (''session \"'' @ sid @ ''\" is a subagent; its parent session manages it''))
          else if \<not> sr_running row \<and> (observed \<or> 0 < checks) then idle_wait_result D x sid row
          else bindE (gets (\<lambda>e. num_le deadline (js_int (cl_now (sd_clock D) e)))) (\<lambda>late.
            if late then bindE (liftE (wait_result sid row True)) (\<lambda>fields. ret (JObj fields))
            else thenE (abortable_sleep D x 500)
              (session_wait_loop D x sid deadline fuel (checks + 1) (observed \<or> sr_running row)))))"

definition wait_session :: "'e session_tool_deps \<Rightarrow> 'e tool_run \<Rightarrow> string \<Rightarrow> js_number option \<Rightarrow> ('e, json) comp" where
  "wait_session D x target timeout_seconds =
    bindE (liftE (calling_agent x)) (\<lambda>agent.
    bindE (liftE (target_session_id target agent ''wait for'')) (\<lambda>sid.
      (let timeout = num_times 1000 (clamp (or_else timeout_seconds (js_int 30)) 1 50) in
       bindE (gets (cl_now (sd_clock D))) (\<lambda>now.
         session_wait_loop D x sid (num_add (js_int now) timeout) (turns 500 timeout) 0 False))))"

section \<open>Which agents have the tools\<close>

text \<open>\<open>'a\<close> is an agent. What the tools ask of the host: the live agents, the preset each runs now, whether it
  is a subagent, and whether injecting into its context throws.\<close>

record 'a agent_host =
  ag_live :: "'a list"
  ag_preset :: "'a \<Rightarrow> string option"
  ag_subagent :: "'a \<Rightarrow> bool"
  ag_throws :: "'a \<Rightarrow> bool"

record 'a tool_rows =
  tl_installed :: "'a list"
  tl_disposed :: bool
  tl_scheduled :: bool

definition tools_allowed :: "string list \<Rightarrow> 'a agent_host \<Rightarrow> 'a \<Rightarrow> bool" where
  "tools_allowed excluded G a =
    (if ag_subagent G a then False
     else case ag_preset G a of None \<Rightarrow> True | Some preset \<Rightarrow> preset \<notin> set excluded)"

definition install :: "string list \<Rightarrow> 'a agent_host \<Rightarrow> 'a \<Rightarrow> 'a tool_rows \<Rightarrow> 'a tool_rows" where
  "install excluded G a t =
    (if tl_disposed t \<or> a \<in> set (tl_installed t) \<or> \<not> tools_allowed excluded G a then t
     else if ag_throws G a then t
     else t\<lparr>tl_installed := tl_installed t @ [a]\<rparr>)"

definition remove :: "'a \<Rightarrow> 'a tool_rows \<Rightarrow> 'a tool_rows" where
  "remove a t = t\<lparr>tl_installed := removeAll a (tl_installed t)\<rparr>"

definition reconcile :: "string list \<Rightarrow> 'a agent_host \<Rightarrow> 'a tool_rows \<Rightarrow> 'a tool_rows" where
  "reconcile excluded G t =
    (if tl_disposed t then t
     else
       let t' = fold (\<lambda>a. if tools_allowed excluded G a then install excluded G a else remove a) (ag_live G) t
       in fold (\<lambda>a u. if a \<in> set (ag_live G) then u else remove a u) (tl_installed t') t')"

text \<open>\<open>tools/change\<close> and the microtask it queues.\<close>

definition on_tools_change :: "'a tool_rows \<Rightarrow> 'a tool_rows" where
  "on_tools_change t = t\<lparr>tl_scheduled := True\<rparr>"

definition run_microtask :: "string list \<Rightarrow> 'a agent_host \<Rightarrow> 'a tool_rows \<Rightarrow> 'a tool_rows" where
  "run_microtask excluded G t = reconcile excluded G (t\<lparr>tl_scheduled := False\<rparr>)"

definition dispose_rows :: "'a tool_rows \<Rightarrow> 'a tool_rows" where
  "dispose_rows t = fold remove (tl_installed t) (t\<lparr>tl_disposed := True\<rparr>)"

definition apply_tools :: "string list \<Rightarrow> 'a agent_host \<Rightarrow> 'a tool_rows" where
  "apply_tools excluded G = reconcile excluded G \<lparr>tl_installed = [], tl_disposed = False, tl_scheduled = False\<rparr>"

text \<open>The tools' registration in one agent's scope: all of them, or none when one throws.\<close>

fun register_tools ::
  "(string \<Rightarrow> ('e, unit) comp) \<Rightarrow> (string \<Rightarrow> 'e \<Rightarrow> 'e) \<Rightarrow> string list \<Rightarrow> string list \<Rightarrow> ('e, string list) comp" where
  "register_tools reg dispose registered [] = ret registered"
| "register_tools reg dispose registered (tool # tools) =
    bindE (catchE (reg tool) (\<lambda>er. thenE (modify (fold dispose registered)) (throw er)))
      (\<lambda>_. register_tools reg dispose (registered @ [tool]) tools)"

text \<open>What happens to the host and to the rows. An agent is announced once it is live, and a preset changes
  together with \<open>tools/change\<close>.\<close>

inductive tools_step :: "string list \<Rightarrow> 'a agent_host \<times> 'a tool_rows \<Rightarrow> 'a agent_host \<times> 'a tool_rows \<Rightarrow> bool"
  for excluded :: "string list" where
  created: "a \<notin> set (ag_live G) \<Longrightarrow> G' = G\<lparr>ag_live := ag_live G @ [a]\<rparr> \<Longrightarrow>
     tools_step excluded (G, t) (G', install excluded G' a t)"
| left: "tools_step excluded (G, t) (G\<lparr>ag_live := removeAll a (ag_live G)\<rparr>, remove a t)"
| rebound: "tools_step excluded (G, t) (G\<lparr>ag_preset := (ag_preset G)(a := preset)\<rparr>, on_tools_change t)"
| microtask: "tl_scheduled t \<Longrightarrow> tools_step excluded (G, t) (G, run_microtask excluded G t)"
| unloaded: "tools_step excluded (G, t) (G, dispose_rows t)"

inductive tools_reach :: "string list \<Rightarrow> 'a agent_host \<times> 'a tool_rows \<Rightarrow> bool" for excluded :: "string list" where
  boot: "tools_reach excluded (G, apply_tools excluded G)"
| onward: "tools_reach excluded s \<Longrightarrow> tools_step excluded s s' \<Longrightarrow> tools_reach excluded s'"

inductive_cases tools_stepE: "tools_step excluded (G, t) s"

section \<open>Facts\<close>

lemma remove_simps [simp]:
  "set (tl_installed (remove a t)) = set (tl_installed t) - {a}"
  "tl_disposed (remove a t) = tl_disposed t" "tl_scheduled (remove a t) = tl_scheduled t"
  "distinct (tl_installed t) \<Longrightarrow> distinct (tl_installed (remove a t))"
  by (auto simp: remove_def distinct_removeAll)

lemma install_simps [simp]:
  "set (tl_installed (install excluded G a t)) =
     (if tl_disposed t \<or> \<not> tools_allowed excluded G a \<or> ag_throws G a then set (tl_installed t)
      else insert a (set (tl_installed t)))"
  "tl_disposed (install excluded G a t) = tl_disposed t" "tl_scheduled (install excluded G a t) = tl_scheduled t"
  "distinct (tl_installed t) \<Longrightarrow> distinct (tl_installed (install excluded G a t))"
  by (auto simp: install_def)

lemma fold_keeps: "(\<And>x s. I s \<Longrightarrow> I (f x s)) \<Longrightarrow> I s \<Longrightarrow> I (fold f xs s)"
  by (induction xs arbitrary: s) auto

lemma reconcile_pass:
  assumes "\<not> tl_disposed t"
  shows "set (tl_installed (fold (\<lambda>a. if tools_allowed excluded G a then install excluded G a else remove a) xs t)) =
    {a \<in> set xs. tools_allowed excluded G a \<and> \<not> ag_throws G a}
      \<union> {a \<in> set (tl_installed t). a \<in> set xs \<longrightarrow> tools_allowed excluded G a}"
  using assms by (induction xs arbitrary: t) (auto split: if_splits)

lemma removal_pass:
  "set (tl_installed (fold (\<lambda>a u. if a \<in> L then u else remove a u) xs t)) =
    {a \<in> set (tl_installed t). a \<in> set xs \<longrightarrow> a \<in> L}"
  by (induction xs arbitrary: t) auto

lemma pass_flags:
  "tl_disposed (fold (\<lambda>a. if tools_allowed excluded G a then install excluded G a else remove a) xs t) = tl_disposed t"
  "tl_scheduled (fold (\<lambda>a. if tools_allowed excluded G a then install excluded G a else remove a) xs t) = tl_scheduled t"
  "tl_disposed (fold (\<lambda>a u. if a \<in> L then u else remove a u) xs t) = tl_disposed t"
  "tl_scheduled (fold (\<lambda>a u. if a \<in> L then u else remove a u) xs t) = tl_scheduled t"
  "distinct (tl_installed t) \<Longrightarrow>
     distinct (tl_installed (fold (\<lambda>a. if tools_allowed excluded G a then install excluded G a else remove a) xs t))"
  "distinct (tl_installed t) \<Longrightarrow> distinct (tl_installed (fold (\<lambda>a u. if a \<in> L then u else remove a u) xs t))"
  by (induction xs arbitrary: t) auto

lemma dispose_facts:
  "set (tl_installed (fold remove xs t)) = set (tl_installed t) - set xs"
  "tl_disposed (fold remove xs t) = tl_disposed t" "tl_scheduled (fold remove xs t) = tl_scheduled t"
  "distinct (tl_installed t) \<Longrightarrow> distinct (tl_installed (fold remove xs t))"
  by (induction xs arbitrary: t) auto

text \<open>Who has the tools after a reconciliation.\<close>

lemma reconcile_installed:
  assumes "\<not> tl_disposed t"
  shows "set (tl_installed (reconcile excluded G t)) =
    {a \<in> set (ag_live G). tools_allowed excluded G a \<and> (\<not> ag_throws G a \<or> a \<in> set (tl_installed t))}"
  using assms by (auto simp: reconcile_def Let_def removal_pass reconcile_pass)

lemma reconcile_flags [simp]:
  "tl_disposed (reconcile excluded G t) = tl_disposed t" "tl_scheduled (reconcile excluded G t) = tl_scheduled t"
  "distinct (tl_installed t) \<Longrightarrow> distinct (tl_installed (reconcile excluded G t))"
  by (simp_all add: reconcile_def Let_def pass_flags)

definition tool_rows_ok :: "string list \<Rightarrow> 'a agent_host \<times> 'a tool_rows \<Rightarrow> bool" where
  "tool_rows_ok excluded s = (case s of (G, t) \<Rightarrow>
     distinct (tl_installed t) \<and> (\<forall>a \<in> set (tl_installed t). a \<in> set (ag_live G) \<and> \<not> ag_subagent G a \<and> \<not> ag_throws G a)
     \<and> (if tl_disposed t then set (tl_installed t) = {}
        else tl_scheduled t
          \<or> set (tl_installed t) = {a \<in> set (ag_live G). tools_allowed excluded G a \<and> \<not> ag_throws G a}))"

lemma allowed_no_subagent: "tools_allowed excluded G a \<Longrightarrow> \<not> ag_subagent G a"
  by (simp add: tools_allowed_def split: if_splits)

lemma allowed_agents [simp]: "tools_allowed excluded (G\<lparr>ag_live := L\<rparr>) a = tools_allowed excluded G a"
  by (simp add: tools_allowed_def)

lemma reconciled_ok:
  assumes "distinct (tl_installed t)" "\<not> tl_disposed t" "\<forall>a \<in> set (tl_installed t). \<not> ag_throws G a"
  shows "tool_rows_ok excluded (G, reconcile excluded G t)"
  using assms by (auto simp: tool_rows_ok_def reconcile_installed dest: allowed_no_subagent)

lemma tool_rows_ok_step: "tools_step excluded (G, t) (G', t') \<Longrightarrow> tool_rows_ok excluded (G, t) \<Longrightarrow> tool_rows_ok excluded (G', t')"
proof (erule tools_stepE, goal_cases)
  case (1 a)
  then show ?case by (auto simp: tool_rows_ok_def dest: allowed_no_subagent split: if_splits)
next
  case (2 a)
  then show ?case by (auto simp: tool_rows_ok_def split: if_splits)
next
  case (3 a preset)
  then show ?case by (auto simp: tool_rows_ok_def on_tools_change_def split: if_splits)
next
  case 4
  show ?case
  proof (cases "tl_disposed t")
    case True
    with 4 show ?thesis by (auto simp: run_microtask_def tool_rows_ok_def reconcile_def)
  next
    case False
    with 4 show ?thesis by (auto simp: run_microtask_def tool_rows_ok_def [of _ "(G, t)"] intro!: reconciled_ok)
  qed
next
  case 5
  then show ?case
    using dispose_facts(1) [of "tl_installed t" "t\<lparr>tl_disposed := True\<rparr>"]
    by (auto simp: tool_rows_ok_def dispose_rows_def dispose_facts)
qed

lemma tool_rows_reach: "tools_reach excluded s \<Longrightarrow> tool_rows_ok excluded s"
proof (induction rule: tools_reach.induct)
  case (boot G)
  then show ?case by (simp add: apply_tools_def reconciled_ok)
next
  case (onward s s')
  then show ?case by (cases s; cases s') (blast intro: tool_rows_ok_step)
qed

section \<open>What a creation asks of the controller\<close>

text \<open>The calls that change something, as a world that records them sees them.\<close>

datatype controller_call =
    Created session_placement "string option"
  | Profile_Set string string
  | Model_Selected string model_selection
  | Renamed string string
  | Prompted string prompt_mode string
  | Cancelled string

definition recorded :: "'e session_tool_deps \<Rightarrow> ('e, controller_call) logged session_tool_deps" where
  "recorded D =
    \<lparr>sd_list = lifted (sd_list D),
     sd_create = \<lambda>place preset. recording (Created place preset) (sd_create D place preset),
     sd_rename = \<lambda>sid t. recording (Renamed sid t) (sd_rename D sid t),
     sd_prompt = \<lambda>sid mode t. recording (Prompted sid mode t) (sd_prompt D sid mode t),
     sd_cancel = \<lambda>sid. recording (Cancelled sid) (sd_cancel D sid),
     sd_follow = \<lambda>sid. lifted (sd_follow D sid),
     sd_select_model = \<lambda>sid s. recording (Model_Selected sid s) (sd_select_model D sid s),
     sd_model_catalog = lifted (sd_model_catalog D),
     sd_list_profiles = lifted (sd_list_profiles D),
     sd_set_profile = \<lambda>sid n. recording (Profile_Set sid n) (sd_set_profile D sid n),
     sd_workspaces = \<lambda>s. sd_workspaces D (fst s),
     sd_scratch_workspace = sd_scratch_workspace D,
     sd_clock = \<lparr>cl_now = \<lambda>s. cl_now (sd_clock D) (fst s), cl_sleep = \<lambda>ms s. (cl_sleep (sd_clock D) ms (fst s), snd s)\<rparr>\<rparr>"

definition settings_calls :: "create_args \<Rightarrow> string \<Rightarrow> controller_call list" where
  "settings_calls a sid =
    (case ca_sandbox_profile a of None \<Rightarrow> [] | Some n \<Rightarrow> [Profile_Set sid n])
    @ (case ca_model a of None \<Rightarrow> [] | Some s \<Rightarrow> [Model_Selected sid s])
    @ (case ca_title a of None \<Rightarrow> [] | Some t \<Rightarrow> [Renamed sid t])"

definition prompt_calls :: "create_args \<Rightarrow> string \<Rightarrow> string \<Rightarrow> controller_call list" where
  "prompt_calls a sid caller =
    (case ca_prompt a of
       None \<Rightarrow> []
     | Some text \<Rightarrow> (if trim text = '''' then []
         else [Prompted sid (or_else (ca_mode a) Queue) (''[from session '' @ caller @ '']'' @ ''\<newline>\<newline>'' @ text)]))"

text \<open>The asked profile and model are ones the manager and the catalog offered.\<close>

definition profile_offered :: "'e session_tool_deps \<Rightarrow> string option \<Rightarrow> bool" where
  "profile_offered D wanted \<longleftrightarrow> (case wanted of None \<Rightarrow> True | Some n \<Rightarrow>
     (\<exists>e v e'. sd_list_profiles D e = (Inr v, e') \<and> n \<in> fst ` set (pv_profiles v)))"

definition effort_allowed :: "model_selection \<Rightarrow> model_route \<Rightarrow> bool" where
  "effort_allowed s route = (case (ms_effort s, mr_efforts route) of
     (Some effort, Some efforts) \<Rightarrow> effort \<in> set efforts | _ \<Rightarrow> True)"

definition model_offered :: "'e session_tool_deps \<Rightarrow> model_selection option \<Rightarrow> bool" where
  "model_offered D wanted \<longleftrightarrow> (case wanted of None \<Rightarrow> True | Some s \<Rightarrow>
     (\<exists>e groups e' route. sd_model_catalog D e = (Inr groups, e') \<and> find_route groups s = Some route
        \<and> effort_allowed s route))"

definition keys_in :: "(string \<times> json) list \<Rightarrow> string set \<Rightarrow> bool" where
  "keys_in fs K \<longleftrightarrow> fst ` set fs \<subseteq> K"

lemma keys_in_None: "keys_in fs K \<Longrightarrow> k \<notin> K \<Longrightarrow> map_of fs k = None"
  unfolding keys_in_def by (metis map_of_eq_None_iff subsetD)

lemma recorded_simps [simp]:
  "sd_create (recorded D) place preset = recording (Created place preset) (sd_create D place preset)"
  "sd_workspaces (recorded D) s = sd_workspaces D (fst s)" "sd_scratch_workspace (recorded D) = sd_scratch_workspace D"
  by (simp_all add: recorded_def)

lemma check_profile_logged:
  "wp (check_profile (recorded D) wanted) (\<lambda>_ t. snd t = snd s \<and> profile_offered D wanted) (\<lambda>_ t. snd t = snd s) s"
proof (cases wanted)
  case (Some n)
  have "wp (sd_list_profiles D) (\<lambda>v _. \<exists>e e'. sd_list_profiles D e = (Inr v, e')) (\<lambda>_ _. True) (fst s)"
    by (auto simp: wp_def split: prod.split sum.split)
  then show ?thesis
    by (auto simp: check_profile_def Some wp_simps recorded_def wp_lifted profile_offered_def intro: wp_mono)
qed (simp add: check_profile_def wp_simps profile_offered_def)

lemma check_model_logged:
  "wp (check_model (recorded D) wanted) (\<lambda>_ t. snd t = snd s \<and> model_offered D wanted) (\<lambda>_ t. snd t = snd s) s"
proof (cases wanted)
  case (Some n)
  have "wp (api (sd_model_catalog D)) (\<lambda>v _. \<exists>e e'. sd_model_catalog D e = (Inr v, e')) (\<lambda>_ _. True) (fst s)"
    by (rule wp_api) auto
  then show ?thesis
    by (fastforce simp: check_model_def Some wp_simps recorded_def wp_api_lifted model_offered_def effort_allowed_def
      intro: wp_mono split: option.splits if_splits)
qed (simp add: check_model_def wp_simps model_offered_def)

text \<open>A setting of the new session: its calls, and the fields that tell how it went.\<close>

definition setting_settled :: "string \<Rightarrow> string \<Rightarrow> (string \<times> json) list \<Rightarrow> bool \<Rightarrow> bool" where
  "setting_settled ok bad fs failed \<longleftrightarrow> keys_in fs {ok, bad} \<and> (failed \<longleftrightarrow> map_of fs bad \<noteq> None)"

lemma set_profile_logged:
  "wp (set_profile (recorded D) sid wanted)
     (\<lambda>(fs, failed) t. setting_settled ''sandbox_profile'' ''sandbox_profile_error'' fs failed
        \<and> snd t = snd s @ (case wanted of None \<Rightarrow> [] | Some n \<Rightarrow> [Profile_Set sid n])) (\<lambda>_ _. False) s"
  by (cases wanted) (auto simp: set_profile_def setting_def wp_simps setting_settled_def keys_in_def recorded_def wp_recording intro!: wp_all)

lemma set_model_logged:
  "wp (set_model (recorded D) sid wanted)
     (\<lambda>(fs, failed) t. setting_settled ''model'' ''model_error'' fs failed
        \<and> snd t = snd s @ (case wanted of None \<Rightarrow> [] | Some n \<Rightarrow> [Model_Selected sid n])) (\<lambda>_ _. False) s"
  by (cases wanted) (auto simp: set_model_def setting_def wp_simps setting_settled_def keys_in_def recorded_def wp_api_recording intro!: wp_all)

lemma set_title_logged:
  "wp (set_title (recorded D) sid wanted)
     (\<lambda>fs t. keys_in fs {''title'', ''title_error''}
        \<and> snd t = snd s @ (case wanted of None \<Rightarrow> [] | Some n \<Rightarrow> [Renamed sid n])) (\<lambda>_ _. False) s"
  by (cases wanted) (auto simp: set_title_def setting_def wp_simps keys_in_def recorded_def wp_api_recording intro!: wp_all)

lemma first_prompt_logged:
  "wp (first_prompt (recorded D) sid a caller failed)
     (\<lambda>fs t. keys_in fs {''prompt_error''} \<and> snd t = snd s @ (if failed then [] else prompt_calls a sid caller)) (\<lambda>_ _. False) s"
  by (cases "ca_prompt a") (auto simp: first_prompt_def send_message_def prompt_calls_def wp_simps keys_in_def recorded_def
      wp_api_recording intro!: wp_all)

lemma placement_keys: "keys_in (placement_fields place) {''workspace_id'', ''cwd''}"
  by (cases place) (auto simp: keys_in_def)

lemma preset_keys: "keys_in (preset_fields p) {''agent_preset''}"
  by (auto simp: preset_fields_def keys_in_def split: option.splits)

definition settled_result :: "create_args \<Rightarrow> string \<Rightarrow> string \<Rightarrow> json \<Rightarrow> controller_call list \<Rightarrow> bool" where
  "settled_result a caller sid v calls \<longleftrightarrow>
     field ''session_id'' v = Some (JStr sid) \<and>
     calls = settings_calls a sid @ (if field ''sandbox_profile_error'' v = None \<and> field ''model_error'' v = None
       then prompt_calls a sid caller else [])"

lemma settled_fields:
  assumes "setting_settled ''sandbox_profile'' ''sandbox_profile_error'' profile pf"
    and "setting_settled ''model'' ''model_error'' model mf"
    and "keys_in title {''title'', ''title_error''}" and "keys_in prompt {''prompt_error''}"
    and v: "v = JObj ((''session_id'', JStr sid) # placement_fields place @ preset_fields preset
      @ profile @ model @ title @ prompt)"
  shows "field ''session_id'' v = Some (JStr sid)" "field ''sandbox_profile_error'' v = None \<longleftrightarrow> \<not> pf"
    "field ''model_error'' v = None \<longleftrightarrow> \<not> mf"
proof -
  from assms(1,2) have keys: "keys_in profile {''sandbox_profile'', ''sandbox_profile_error''}"
    "keys_in model {''model'', ''model_error''}"
    and flags: "map_of profile ''sandbox_profile_error'' = None \<longleftrightarrow> \<not> pf" "map_of model ''model_error'' = None \<longleftrightarrow> \<not> mf"
    by (auto simp: setting_settled_def)
  have absent: "map_of (placement_fields place) k = None" "map_of (preset_fields preset) k = None"
    "map_of title k = None" "map_of prompt k = None"
    if "k = ''sandbox_profile_error'' \<or> k = ''model_error''" for k
    using that by (auto intro: keys_in_None [OF placement_keys] keys_in_None [OF preset_keys]
      keys_in_None [OF assms(3)] keys_in_None [OF assms(4)])
  have "map_of model ''sandbox_profile_error'' = None" "map_of profile ''model_error'' = None"
    by (rule keys_in_None [OF keys(2)] keys_in_None [OF keys(1)]; simp)+
  then show "field ''session_id'' v = Some (JStr sid)" "field ''sandbox_profile_error'' v = None \<longleftrightarrow> \<not> pf"
    "field ''model_error'' v = None \<longleftrightarrow> \<not> mf"
    by (simp_all add: v absent flags)
qed

lemma settled_resultI:
  assumes "setting_settled ''sandbox_profile'' ''sandbox_profile_error'' profile pf"
    and "setting_settled ''model'' ''model_error'' model mf"
    and "keys_in title {''title'', ''title_error''}" and "keys_in prompt {''prompt_error''}"
  shows "settled_result a caller sid (JObj ((''session_id'', JStr sid) # placement_fields place @ preset_fields preset
    @ profile @ model @ title @ prompt)) (settings_calls a sid @ (if pf \<or> mf then [] else prompt_calls a sid caller))"
  unfolding settled_result_def using settled_fields [OF assms refl] by simp

lemma settle_session_logged:
  "wp (settle_session (recorded D) a caller place (sid, preset))
     (\<lambda>v t. \<exists>calls. snd t = snd s @ calls \<and> settled_result a caller sid v calls) (\<lambda>_ _. False) s"
  unfolding settle_session_def
  apply (simp add: wp_simps split_beta)
  apply (rule wp_mono [OF set_profile_logged]; clarsimp)
  apply (rule wp_mono [OF set_model_logged]; clarsimp)
  apply (rule wp_mono [OF set_title_logged]; clarsimp)
  apply (rule wp_mono [OF first_prompt_logged]; clarsimp)
  apply (drule (3) settled_resultI [where a = a and caller = caller and sid = sid and place = place and preset = preset])
  apply (intro conjI impI; simp add: settings_calls_def)
  done

text \<open>A creation and the calls it made.\<close>

definition creation :: "'e session_tool_deps \<Rightarrow> 'x tool_run \<Rightarrow> create_args \<Rightarrow> 'e \<Rightarrow> error + json \<Rightarrow> controller_call list \<Rightarrow> bool" where
  "creation D x a e r calls \<longleftrightarrow>
    (\<exists>caller place. tr_agent x = Some caller
       \<and> resolve_placement a (sd_workspaces D e) (sd_scratch_workspace D) = Inr place
       \<and> profile_offered D (ca_sandbox_profile a) \<and> model_offered D (ca_model a)
       \<and> (case r of
            Inl er \<Rightarrow> calls = [Created place (ca_agent_preset a)]
          | Inr v \<Rightarrow> (\<exists>sid after. calls = Created place (ca_agent_preset a) # after \<and> settled_result a caller sid v after)))"

lemma create_session_logged:
  "wp (create_session (recorded D) x a)
     (\<lambda>v t. \<exists>calls. snd t = snd s @ calls \<and> creation D x a (fst s) (Inr v) calls)
     (\<lambda>er t. snd t = snd s \<or> (\<exists>calls. snd t = snd s @ calls \<and> creation D x a (fst s) (Inl er) calls)) s"
  unfolding create_session_def
  apply (simp add: wp_simps calling_agent_def split: option.split sum.split)
  apply (intro allI impI)
  apply (rule wp_mono [OF check_profile_logged]; clarsimp)
  apply (rule wp_mono [OF check_model_logged]; clarsimp)
  apply (simp add: wp_api_recording)
  apply (rule wp_all; clarsimp)
  apply (rule wp_mono [OF settle_session_logged]; clarsimp)
  apply (auto simp: creation_def)
  done

section \<open>How long a wait lasts\<close>

definition reads_keep_time :: "'e session_tool_deps \<Rightarrow> bool" where
  "reads_keep_time D \<longleftrightarrow>
    (\<forall>e. cl_now (sd_clock D) e \<le> cl_now (sd_clock D) (snd (sd_list D e)))
    \<and> (\<forall>sid e. cl_now (sd_clock D) e \<le> cl_now (sd_clock D) (snd (sd_follow D sid e)))"

text \<open>The answer of a wait: idle, at least half a second after its start, or running when its time was over.\<close>

definition waited :: "'e session_tool_deps \<Rightarrow> int \<Rightarrow> js_number \<Rightarrow> json \<Rightarrow> 'e \<Rightarrow> bool" where
  "waited D start deadline v e \<longleftrightarrow>
    (field ''timed_out'' v = Some (JBool False) \<and> field ''running'' v = Some (JBool False)
       \<and> start + 500 \<le> cl_now (sd_clock D) e)
    \<or> (field ''timed_out'' v = Some (JBool True) \<and> num_le deadline (js_int (cl_now (sd_clock D) e)))"

lemma find_session_later:
  assumes "reads_keep_time D"
  shows "wp (find_session D sid) (\<lambda>_ t. cl_now (sd_clock D) e \<le> cl_now (sd_clock D) t) (\<lambda>er _. er \<noteq> OutOfFuel) e"
  unfolding find_session_def wp_simps
  using assms by (intro wp_api) (auto simp: reads_keep_time_def thrown_simps dest: spec [of _ e])

lemma last_message_later:
  assumes "reads_keep_time D"
  shows "wp (last_assistant_message D sid) (\<lambda>_ t. cl_now (sd_clock D) e \<le> cl_now (sd_clock D) t)
     (\<lambda>er t. er \<noteq> OutOfFuel \<and> cl_now (sd_clock D) e \<le> cl_now (sd_clock D) t) e"
  using assms unfolding reads_keep_time_def wp_def last_assistant_message_def
  by (auto split: prod.split option.split sum.split) (metis snd_conv)+

lemma idle_wait_result_waited:
  assumes "reads_keep_time D" and "\<not> sr_running row" and "start + 500 \<le> cl_now (sd_clock D) e"
  shows "wp (idle_wait_result D x sid row) (waited D start deadline) (\<lambda>er _. er \<noteq> OutOfFuel) e"
proof -
  have map_add_field: "map_of (fs @ [(k, v)]) n = (case map_of fs n of None \<Rightarrow> (if n = k then Some v else None) | r \<Rightarrow> r)"
    for fs :: "(string \<times> json) list" and k v n
    by (auto simp: map_add_def split: option.split)
  show ?thesis
    unfolding idle_wait_result_def
    apply (simp add: wp_simps wait_result_def to_iso_string_def)
    apply (intro impI)
    apply (rule wp_mono [OF last_message_later [OF assms(1)]])
    using assms(2,3) by (auto simp: waited_def split: option.split)
qed

lemma wait_loop_waited:
  assumes "reads_keep_time D" and "clock_runs (sd_clock D)"
  shows "d \<le> of_int (cl_now (sd_clock D) e + 500 * int fuel) \<Longrightarrow> start \<le> cl_now (sd_clock D) e \<Longrightarrow>
    (observed \<or> 0 < checks \<Longrightarrow> start + 500 \<le> cl_now (sd_clock D) e) \<Longrightarrow>
    wp (session_wait_loop D x sid (Finite d) (Suc fuel) checks observed) (waited D start (Finite d)) (\<lambda>er _. er \<noteq> OutOfFuel) e"
proof (induction fuel arbitrary: e checks observed)
  case 0
  then show ?case
    apply (simp add: wp_simps)
    apply (rule wp_mono [OF find_session_later [OF assms(1)]])
    apply (auto simp: wp_simps wait_result_def to_iso_string_def waited_def js_int_def split: option.split
      intro!: idle_wait_result_waited [OF assms(1)])
    done
next
  case (Suc fuel)
  have slept: "cl_now (sd_clock D) t + 500 \<le> cl_now (sd_clock D) (cl_sleep (sd_clock D) 500 t)" for t
    using assms(2) by (simp add: clock_runs_def)
  have near: "d \<le> of_int (cl_now (sd_clock D) (cl_sleep (sd_clock D) 500 t) + 500 * int fuel)"
    if "cl_now (sd_clock D) e \<le> cl_now (sd_clock D) t" for t
  proof (rule order_trans [OF Suc.prems(1)])
    show "rat_of_int (cl_now (sd_clock D) e + 500 * int (Suc fuel))
      \<le> of_int (cl_now (sd_clock D) (cl_sleep (sd_clock D) 500 t) + 500 * int fuel)"
      unfolding of_int_le_iff using slept [of t] that by simp
  qed
  have again: "wp (session_wait_loop D x sid (Finite d) (Suc fuel) checks' observed') (waited D start (Finite d))
      (\<lambda>er _. er \<noteq> OutOfFuel) (cl_sleep (sd_clock D) 500 t)"
    if "cl_now (sd_clock D) e \<le> cl_now (sd_clock D) t" for t checks' observed'
    using near [OF that] slept [of t] that Suc.prems(2) by (intro Suc.IH) auto
  from Suc.prems(2,3) show ?case
    apply (subst session_wait_loop.simps(2))
    apply (simp add: wp_simps del: session_wait_loop.simps)
    apply (rule wp_mono [OF find_session_later [OF assms(1)]])
     apply (auto simp: wp_simps wait_result_def to_iso_string_def waited_def [of D start "Finite d" "JObj _"] js_int_def
       abortable_sleep_def split: option.split
       intro!: idle_wait_result_waited [OF assms(1)] again simp del: session_wait_loop.simps)
    done
qed

lemma clamp_finite: "v \<noteq> NaN \<Longrightarrow> \<exists>k. clamp v 1 50 = js_int k \<and> 1 \<le> k \<and> k \<le> 50"
proof (cases v)
  case (Finite q)
  define k where "k = (if 0 \<le> q then \<lfloor>q\<rfloor> else \<lceil>q\<rceil>)"
  have "clamp v 1 50 = js_int (min 50 (max 1 k))"
    unfolding clamp_def num_min_def num_max_def Finite num_trunc.simps k_def [symmetric]
    by (simp add: js_int_def)
  then show ?thesis by (intro exI [of _ "min 50 (max 1 k)"]) simp
qed (auto simp: clamp_def num_min_def num_max_def js_int_def)


text \<open>C30: A creation asks for nothing unless there is a calling agent, the arguments name one place, and the profile
  and the model were offered; then it creates the session first, applies each asked setting once, and
  sends the first message last, only if it is not blank and no setting failed.\<close>

theorem create_session_calls:
  "case create_session (recorded D) x a (e, []) of (r, (e', calls)) \<Rightarrow>
     (calls = [] \<and> (\<exists>er. r = Inl er)) \<or> creation D x a e r calls"
proof -
  from create_session_logged [of D x a "(e, [])"] show ?thesis
    by (auto simp: wp_def split: prod.splits sum.splits)
qed


section \<open>Examples\<close>

text \<open>A root with the standard preset, one with the minimal one, and the first moved to it.\<close>

definition demo_tool_agents :: "nat agent_host" where
  "demo_tool_agents = \<lparr>ag_live = [1, 2], ag_preset = (\<lambda>a. if a = 2 then Some ''minimal'' else None),
     ag_subagent = (\<lambda>_. False), ag_throws = (\<lambda>_. False)\<rparr>"

definition demo_moved :: "nat agent_host" where
  "demo_moved = demo_tool_agents\<lparr>ag_preset := (ag_preset demo_tool_agents)(1 := Some ''minimal'')\<rparr>"

lemmas demo_tools = demo_tool_agents_def demo_moved_def apply_tools_def reconcile_def install_def remove_def
  tools_allowed_def on_tools_change_def run_microtask_def


text \<open>The world is its time; the child runs until 600 ms have passed.\<close>

definition demo_controller :: "int session_tool_deps" where
  "demo_controller =
    \<lparr>sd_list = (\<lambda>now. (Inr [\<lparr>sr_session_id = ''child'', sr_origin = None, sr_running = (now < 600), sr_updated_at = 0\<rparr>], now)),
     sd_create = (\<lambda>_ _ now. (Inr (''child'', None), now)),
     sd_rename = (\<lambda>_ t now. (Inr t, now)),
     sd_prompt = (\<lambda>_ _ _ now. (Inr (), now)),
     sd_cancel = (\<lambda>_ now. (Inr True, now)),
     sd_follow = (\<lambda>_ now. (([SnapshotFrame []], None), now)),
     sd_select_model = (\<lambda>_ s now. (Inr s, now)),
     sd_model_catalog = (\<lambda>now. (Inr [], now)),
     sd_list_profiles = ret \<lparr>pv_profiles = [], pv_selected = '''', pv_locked = False\<rparr>,
     sd_set_profile = (\<lambda>_ _. throw (Plain ''unknown'')),
     sd_workspaces = (\<lambda>_. []),
     sd_scratch_workspace = ''/scratch'',
     sd_clock = \<lparr>cl_now = (\<lambda>now. now), cl_sleep = (\<lambda>ms now. now + ms)\<rparr>\<rparr>"

definition demo_tool_run :: "int tool_run" where
  "demo_tool_run = \<lparr>tr_agent = Some ''parent'', tr_aborted = (\<lambda>_. None)\<rparr>"

lemma demo_session_wait: "\<exists>v. wait_session demo_controller demo_tool_run ''child'' None 0 = (Inr v, 1000) \<and> field ''timed_out'' v = Some (JBool False)"
proof -
  have loop: "\<exists>v. session_wait_loop demo_controller demo_tool_run ''child'' (Finite 30000) (Suc (Suc (Suc n))) 0 False 0 = (Inr v, 1000)
      \<and> field ''timed_out'' v = Some (JBool False)" for n
    by (simp add: demo_tool_run_def demo_controller_def comp_defs find_session_def api_def abortable_sleep_def
      idle_wait_result_def wait_result_def to_iso_string_def last_assistant_message_def js_int_def)
  have "clamp (js_int 30) 1 50 = js_int 30"
    by (simp add: clamp_def num_min_def num_max_def js_int_def)
  moreover have "turns 500 (js_int 30000) = 62" by (simp add: turns_def js_int_def)
  moreover have "cl_now (sd_clock demo_controller) 0 = 0" by (simp add: demo_controller_def)
  ultimately show ?thesis
    using loop [of 59] by (simp add: wait_session_def calling_agent_def target_session_id_def demo_tool_run_def comp_defs
      or_else_def js_int_def del: session_wait_loop.simps)
qed


end
