(* ===== verification/File_Adapter.thy ===== *)
theory File_Adapter
  imports Sandbox_Path Runner_Client Call_Log
begin

text \<open>
  \<open>sandbox/fs.ts\<close>: dsh's file system over the runner of the calling agent's sandbox. The runner's calls,
  the manager's client and dsh's patch library are parameters; \<open>fr_aborted\<close> is the state of the signal
  the operation was given. A decoded text is its UTF-8 bytes, so encoding one is the identity and the
  4,096 characters sampled for the line endings are counted as bytes.
\<close>

section \<open>Texts\<close>

definition is_continuation :: "char \<Rightarrow> bool" where
  "is_continuation c = (0x80 \<le> (of_char c :: nat) \<and> (of_char c :: nat) < 0xC0)"

text \<open>What may follow the first byte of three or four: no overlong form, no surrogate, nothing above U+10FFFF.\<close>

definition second_byte :: "nat \<Rightarrow> char \<Rightarrow> bool" where
  "second_byte n c =
    (let k = (of_char c :: nat) in
     if n = 0xE0 then 0xA0 \<le> k \<and> k < 0xC0
     else if n = 0xED then 0x80 \<le> k \<and> k < 0xA0
     else if n = 0xF0 then 0x90 \<le> k \<and> k < 0xC0
     else if n = 0xF4 then 0x80 \<le> k \<and> k < 0x90
     else is_continuation c)"

fun utf8_valid :: "bytes \<Rightarrow> bool" where
  "utf8_valid [] = True"
| "utf8_valid (a # r) =
    (let n = (of_char a :: nat) in
     if n < 0x80 then utf8_valid r
     else case r of
       [] \<Rightarrow> False
     | b # r1 \<Rightarrow>
        (if 0xC2 \<le> n \<and> n < 0xE0 then is_continuation b \<and> utf8_valid r1
         else case r1 of
           [] \<Rightarrow> False
         | c # r2 \<Rightarrow>
            (if 0xE0 \<le> n \<and> n < 0xF0 then second_byte n b \<and> is_continuation c \<and> utf8_valid r2
             else case r2 of
               [] \<Rightarrow> False
             | d # r3 \<Rightarrow> 0xF0 \<le> n \<and> n < 0xF5 \<and> second_byte n b \<and> is_continuation c \<and> is_continuation d
                 \<and> utf8_valid r3)))"

definition byte_order_mark :: bytes where
  "byte_order_mark = [CHR 0xEF, CHR 0xBB, CHR 0xBF]"

text \<open>\<open>TextDecoder\<close> with \<open>fatal\<close>: it refuses what is not UTF-8 and drops a byte order mark.\<close>

definition text_decoder :: "bytes \<Rightarrow> string option" where
  "text_decoder b =
    (if \<not> utf8_valid b then None
     else Some (if starts_with byte_order_mark b then drop 3 b else b))"

definition decode_text :: "bytes \<Rightarrow> string \<Rightarrow> error + string" where
  "decode_text b path =
    (if CHR 0x00 \<in> set (take 8192 b) then Inl (FsError FS_NOT_TEXT (''cannot read \"'' @ path @ ''\": binary file''))
     else case text_decoder b of
       None \<Rightarrow> Inl (FsError FS_NOT_TEXT (''cannot read \"'' @ path @ ''\": invalid UTF-8''))
     | Some t \<Rightarrow> Inr t)"

abbreviation carriage_return :: char where "carriage_return \<equiv> CHR 0x0D"
abbreviation line_feed :: char where "line_feed \<equiv> CHR 0x0A"

fun normalize_line_endings :: "string \<Rightarrow> string" where
  "normalize_line_endings (a # b # t) =
    (if a = carriage_return \<and> b = line_feed then line_feed # normalize_line_endings t
     else a # normalize_line_endings (b # t))"
| "normalize_line_endings t = t"

datatype line_endings = LF | CRLF

fun count_crlf :: "string \<Rightarrow> nat" where
  "count_crlf (a # b # t) =
    (if a = carriage_return \<and> b = line_feed then Suc (count_crlf t) else count_crlf (b # t))"
| "count_crlf t = 0"

definition detect_line_endings :: "string \<Rightarrow> line_endings" where
  "detect_line_endings t =
    (let sample = take 4096 t; crlf = count_crlf sample; lf = count_list sample line_feed - crlf
     in if lf < crlf then CRLF else LF)"

definition restore_line_endings :: "string \<Rightarrow> line_endings \<Rightarrow> string" where
  "restore_line_endings t endings =
    (case endings of
       LF \<Rightarrow> t
     | CRLF \<Rightarrow> join_with [carriage_return, line_feed] (split_on line_feed (normalize_line_endings t)))"

section \<open>The runner's files\<close>

record file_target =
  ft_key :: string
  ft_display :: string

datatype runner_file_type = Type_Unspecified | Type_Regular | Type_Directory | Type_Symlink | Type_Other

datatype entry_type = Is_File | Is_Directory | Is_Symlink | Is_Other

fun fs_type :: "runner_file_type \<Rightarrow> entry_type" where
  "fs_type Type_Regular = Is_File"
| "fs_type Type_Directory = Is_Directory"
| "fs_type _ = Is_Other"

definition path_type :: "runner_file_type \<Rightarrow> entry_type" where
  "path_type t = (if t = Type_Symlink then Is_Symlink else fs_type t)"

record stat_answer =
  st_exists :: bool
  st_version :: string
  st_type :: runner_file_type
  st_size :: nat
  st_mode :: nat

datatype write_intent = CreateIfAbsent | ReplaceIfVersion string

datatype write_guard = NoGuard | GuardAbsent | GuardVersion string

record write_answer =
  wr_created :: bool
  wr_version :: string
  wr_had_before :: bool
  wr_before :: bytes

record edit_request =
  ed_old :: string
  ed_new :: string
  ed_all :: bool

record edit_answer =
  ea_version :: string
  ea_before :: bytes
  ea_after :: bytes

record list_entry =
  le_name :: string
  le_type :: runner_file_type
  le_canonical :: string
  le_version :: string
  le_size :: nat

text \<open>\<open>'h\<close> is a hunk of a patch; applying one gives the failed hunk's line and stage, or the new text.\<close>

record ('e, 'h) file_rpc =
  fr_client :: "('e, client) comp"
  fr_initiator_cwd :: "('e, string) comp"
  fr_workspace :: string
  fr_resolve_path :: "client \<Rightarrow> string \<Rightarrow> string \<Rightarrow> ('e, string \<times> string) comp"
  fr_stat :: "client \<Rightarrow> string \<Rightarrow> bool \<Rightarrow> ('e, stat_answer) comp"
  fr_read_file :: "client \<Rightarrow> string \<Rightarrow> nat \<Rightarrow> ('e, bytes) comp"
  fr_read_range :: "client \<Rightarrow> string \<Rightarrow> nat \<Rightarrow> nat \<Rightarrow> ('e, bytes) comp"
  fr_list :: "client \<Rightarrow> string \<Rightarrow> ('e, list_entry list) comp"
  fr_write_file :: "client \<Rightarrow> string \<Rightarrow> bytes \<Rightarrow> write_guard \<Rightarrow> nat \<Rightarrow> ('e, write_answer) comp"
  fr_edit_file :: "client \<Rightarrow> string \<Rightarrow> edit_request \<Rightarrow> string \<Rightarrow> ('e, edit_answer) comp"
  fr_delete_file :: "client \<Rightarrow> string \<Rightarrow> string \<Rightarrow> ('e, unit) comp"
  fr_aborted :: "'e \<Rightarrow> bool"
  fr_apply_hunks :: "string \<Rightarrow> 'h list \<Rightarrow> (nat \<times> string) + string"

section \<open>Errors\<close>

text \<open>\<open>ConnectError.from\<close>: an error that is none becomes one of code \<open>Unknown\<close>.\<close>

fun connect_error_from :: "error \<Rightarrow> connect_code \<times> string" where
  "connect_error_from (ConnectError c m) = (c, m)"
| "connect_error_from er = (Code_Unknown, error_message er)"

definition text_includes :: "string \<Rightarrow> string \<Rightarrow> bool" where
  "text_includes t part = sublist part t"

definition fs_code_of :: "connect_code \<Rightarrow> string \<Rightarrow> fs_code" where
  "fs_code_of c message =
    (case c of
       Code_Not_Found \<Rightarrow> (if text_includes message ''old_string'' then FS_EDIT_NOT_FOUND else FS_NOT_FOUND)
     | Code_Permission_Denied \<Rightarrow> FS_PERMISSION_DENIED
     | Code_Resource_Exhausted \<Rightarrow> FS_TOO_LARGE
     | Code_Already_Exists \<Rightarrow> FS_NOT_OBSERVED
     | Code_Failed_Precondition \<Rightarrow> (if text_includes message ''ambiguous'' then FS_AMBIGUOUS_EDIT else FS_STALE_VERSION)
     | Code_Canceled \<Rightarrow> FS_ABORTED
     | _ \<Rightarrow> FS_IO_ERROR)"

fun is_fs_error :: "error \<Rightarrow> bool" where
  "is_fs_error (FsError _ _) = True"
| "is_fs_error _ = False"

definition map_file_error :: "error \<Rightarrow> string \<Rightarrow> string \<Rightarrow> bool \<Rightarrow> error" where
  "map_file_error er operation path aborted =
    (if is_fs_error er then er
     else if aborted then FsError FS_ABORTED (operation @ '' aborted'')
     else case connect_error_from er of (c, raw) \<Rightarrow>
       FsError (fs_code_of c (to_lower raw)) (''cannot '' @ operation @ '' \"'' @ path @ ''\": '' @ raw))"

text \<open>The body every operation has: the runner of the calling agent is asked, and what fails is mapped.\<close>

definition asking ::
  "('e, 'h) file_rpc \<Rightarrow> string \<Rightarrow> string \<Rightarrow> ('e, 'a) comp \<Rightarrow> ('e, 'a) comp" where
  "asking R operation path m =
    catchE m (\<lambda>er. bindE (gets (fr_aborted R)) (\<lambda>aborted. throw (map_file_error er operation path aborted)))"

section \<open>The operations\<close>

definition resolve :: "('e, 'h) file_rpc \<Rightarrow> string \<Rightarrow> string option \<Rightarrow> ('e, file_target) comp" where
  "resolve R path dir =
    (if trim path = '''' then throw (FsError FS_NOT_FOUND ''file path must not be empty'')
     else asking R ''resolve'' path
       (bindE (fr_initiator_cwd R) (\<lambda>session.
        bindE (fr_client R) (\<lambda>c.
        bindE (fr_resolve_path R c (path_in_sandbox path (Some session) (fr_workspace R))
            (path_in_sandbox (case dir of None \<Rightarrow> fr_workspace R | Some d \<Rightarrow> d) (Some session) (fr_workspace R)))
          (\<lambda>(canonical, display). ret \<lparr>ft_key = canonical, ft_display = display\<rparr>)))))"

definition path_contains :: "file_target \<Rightarrow> file_target \<Rightarrow> bool" where
  "path_contains parent child =
    (let r = relative (ft_key parent) (ft_key child)
     in r = '''' \<or> (r \<noteq> ''..'' \<and> \<not> starts_with ''../'' r \<and> \<not> is_absolute r))"

definition safe_number :: "nat \<Rightarrow> nat" where
  "safe_number n = (if 9007199254740991 < n then 9007199254740991 else n)"

record file_info =
  in_version :: string
  in_type :: entry_type
  in_size :: "nat option"

definition size_of :: "runner_file_type \<Rightarrow> nat \<Rightarrow> nat option" where
  "size_of t n = (if t = Type_Regular then Some (safe_number n) else None)"

definition info_of :: "(runner_file_type \<Rightarrow> entry_type) \<Rightarrow> stat_answer \<Rightarrow> file_info option" where
  "info_of named a =
    (if \<not> st_exists a then None
     else Some \<lparr>in_version = st_version a, in_type = named (st_type a), in_size = size_of (st_type a) (st_size a)\<rparr>)"

definition stat_target :: "('e, 'h) file_rpc \<Rightarrow> file_target \<Rightarrow> ('e, file_info option) comp" where
  "stat_target R f =
    asking R ''stat'' (ft_display f)
      (bindE (fr_client R) (\<lambda>c. bindE (fr_stat R c (ft_key f) True) (\<lambda>a. ret (info_of fs_type a))))"

definition lstat :: "('e, 'h) file_rpc \<Rightarrow> string \<Rightarrow> string option \<Rightarrow> ('e, file_info option) comp" where
  "lstat R path dir =
    bindE (resolve R path dir) (\<lambda>f.
      asking R ''lstat'' (ft_display f)
        (bindE (fr_client R) (\<lambda>c. bindE (fr_stat R c (ft_display f) False) (\<lambda>a. ret (info_of path_type a)))))"

definition read_bytes :: "('e, 'h) file_rpc \<Rightarrow> file_target \<Rightarrow> nat \<Rightarrow> ('e, bytes) comp" where
  "read_bytes R f limit =
    asking R ''read'' (ft_display f) (bindE (fr_client R) (\<lambda>c. fr_read_file R c (ft_key f) limit))"

definition read_byte_range :: "('e, 'h) file_rpc \<Rightarrow> file_target \<Rightarrow> nat \<Rightarrow> nat \<Rightarrow> ('e, bytes) comp" where
  "read_byte_range R f start count =
    asking R ''read'' (ft_display f) (bindE (fr_client R) (\<lambda>c. fr_read_range R c (ft_key f) start count))"

definition MAX_TEXT_BYTES :: nat where
  "MAX_TEXT_BYTES = 64 * 1024 * 1024"

definition read_text :: "('e, 'h) file_rpc \<Rightarrow> file_target \<Rightarrow> ('e, string) comp" where
  "read_text R f = bindE (read_bytes R f MAX_TEXT_BYTES) (\<lambda>b. liftE (decode_text b (ft_display f)))"

record dir_entry =
  de_name :: string
  de_type :: entry_type
  de_target :: file_target
  de_version :: string
  de_size :: "nat option"

definition list_dir :: "('e, 'h) file_rpc \<Rightarrow> file_target \<Rightarrow> ('e, dir_entry list) comp" where
  "list_dir R f =
    asking R ''list'' (ft_display f)
      (bindE (fr_client R) (\<lambda>c.
       bindE (fr_list R c (ft_key f)) (\<lambda>entries.
         ret (map (\<lambda>x. \<lparr>de_name = le_name x, de_type = fs_type (le_type x),
           de_target = \<lparr>ft_key = le_canonical x, ft_display = join_path [ft_display f, le_name x]\<rparr>,
           de_version = le_version x, de_size = size_of (le_type x) (le_size x)\<rparr>) entries))))"

fun guard_of :: "write_intent option \<Rightarrow> write_guard" where
  "guard_of None = NoGuard"
| "guard_of (Some CreateIfAbsent) = GuardAbsent"
| "guard_of (Some (ReplaceIfVersion v)) = GuardVersion v"

record write_outcome =
  wo_created :: bool
  wo_version :: string
  wo_before :: "string option"
  wo_after :: string

definition write_text_with_mode ::
  "('e, 'h) file_rpc \<Rightarrow> file_target \<Rightarrow> string \<Rightarrow> write_intent option \<Rightarrow> nat \<Rightarrow> ('e, write_outcome) comp" where
  "write_text_with_mode R f content expected mode =
    asking R ''write'' (ft_display f)
      (bindE (fr_client R) (\<lambda>c.
       bindE (fr_write_file R c (ft_key f) content (guard_of expected) mode) (\<lambda>a.
       bindE (if wr_had_before a then bindE (liftE (decode_text (wr_before a) (ft_display f)))
            (\<lambda>t. ret (Some (normalize_line_endings t))) else ret None)
         (\<lambda>before. ret \<lparr>wo_created = wr_created a, wo_version = wr_version a, wo_before = before,
            wo_after = normalize_line_endings content\<rparr>))))"

definition write_text :: "('e, 'h) file_rpc \<Rightarrow> file_target \<Rightarrow> string \<Rightarrow> write_intent option \<Rightarrow> ('e, write_outcome) comp" where
  "write_text R f content expected = write_text_with_mode R f content expected 0"

record edit_outcome =
  eo_version :: string
  eo_before :: string
  eo_after :: string

definition edit_text :: "('e, 'h) file_rpc \<Rightarrow> file_target \<Rightarrow> edit_request \<Rightarrow> string option \<Rightarrow> ('e, edit_outcome) comp" where
  "edit_text R f edit expected =
    (if ed_old edit = '''' then throw (FsError FS_EDIT_NOT_FOUND ''old_string must not be empty'')
     else asking R ''edit'' (ft_display f)
       (bindE (fr_client R) (\<lambda>c.
        bindE (fr_edit_file R c (ft_key f) edit (case expected of None \<Rightarrow> '''' | Some v \<Rightarrow> v)) (\<lambda>a.
        bindE (liftE (decode_text (ea_before a) (ft_display f))) (\<lambda>before.
        bindE (liftE (decode_text (ea_after a) (ft_display f))) (\<lambda>after.
          ret \<lparr>eo_version = ea_version a, eo_before = normalize_line_endings before,
            eo_after = normalize_line_endings after\<rparr>))))))"

definition apply_patch_hunks :: "('e, 'h) file_rpc \<Rightarrow> file_target \<Rightarrow> string \<Rightarrow> 'h list \<Rightarrow> error + string" where
  "apply_patch_hunks R f before hunks =
    (case fr_apply_hunks R before hunks of
       Inr after \<Rightarrow> Inr after
     | Inl (line, stage) \<Rightarrow> Inl (FsError FS_PATCH_MISMATCH (''cannot patch \"'' @ ft_display f @ ''\": hunk at patch line ''
         @ show_nat line @ '' ('' @ stage @ '') does not match'')))"

definition patch_text :: "('e, 'h) file_rpc \<Rightarrow> file_target \<Rightarrow> 'h list \<Rightarrow> string option \<Rightarrow> ('e, edit_outcome) comp" where
  "patch_text R f hunks expected =
    bindE (read_text R f) (\<lambda>original.
      let before = normalize_line_endings original in
      bindE (liftE (apply_patch_hunks R f before hunks)) (\<lambda>after.
      bindE (write_text R f (restore_line_endings after (detect_line_endings original)) (map_option ReplaceIfVersion expected))
        (\<lambda>written. ret \<lparr>eo_version = wo_version written, eo_before = before, eo_after = after\<rparr>)))"

definition runner_stat :: "('e, 'h) file_rpc \<Rightarrow> file_target \<Rightarrow> ('e, (string \<times> nat) option) comp" where
  "runner_stat R f =
    asking R ''stat'' (ft_display f)
      (bindE (fr_client R) (\<lambda>c. bindE (fr_stat R c (ft_key f) True) (\<lambda>a.
         ret (if st_exists a then Some (st_version a, st_mode a) else None))))"

fun no_text_basis :: "error \<Rightarrow> bool" where
  "no_text_basis (FsError c _) = (c \<in> {FS_NOT_TEXT, FS_TOO_LARGE, FS_PERMISSION_DENIED})"
| "no_text_basis _ = False"

definition read_text_for_diff :: "('e, 'h) file_rpc \<Rightarrow> file_target \<Rightarrow> ('e, string option) comp" where
  "read_text_for_diff R f =
    catchE (bindE (read_text R f) (\<lambda>t. ret (Some (normalize_line_endings t))))
      (\<lambda>er. if no_text_basis er then ret None else throw er)"

definition delete_file :: "('e, 'h) file_rpc \<Rightarrow> file_target \<Rightarrow> string option \<Rightarrow> ('e, string option) comp" where
  "delete_file R f expected =
    bindE (read_text_for_diff R f) (\<lambda>before.
      asking R ''delete'' (ft_display f)
        (bindE (fr_client R) (\<lambda>c.
         thenE (fr_delete_file R c (ft_key f) (case expected of None \<Rightarrow> '''' | Some v \<Rightarrow> v)) (ret before))))"

record move_outcome =
  mo_source_before :: string
  mo_destination :: write_outcome
  mo_source_deleted :: bool
  mo_source_failure :: "(fs_code \<times> string) option"

fun failure_of :: "error \<Rightarrow> (fs_code \<times> string) option" where
  "failure_of (FsError c m) = Some (c, m)"
| "failure_of _ = None"

definition stale_source :: "file_target \<Rightarrow> error" where
  "stale_source f = FsError FS_STALE_VERSION (''cannot move \"'' @ ft_display f @ ''\": file changed since it was read'')"

text \<open>The source is deleted last; a failure leaves both files and is part of the answer.\<close>

definition finish_move ::
  "('e, 'h) file_rpc \<Rightarrow> file_target \<Rightarrow> string \<Rightarrow> string \<Rightarrow> write_outcome \<Rightarrow> ('e, move_outcome) comp" where
  "finish_move R src version before written =
    catchE
      (thenE (delete_file R src (Some version))
        (ret \<lparr>mo_source_before = before, mo_destination = written, mo_source_deleted = True, mo_source_failure = None\<rparr>))
      (\<lambda>er. bindE (gets (fr_aborted R)) (\<lambda>aborted.
         if aborted then throw er
         else ret \<lparr>mo_source_before = before, mo_destination = written, mo_source_deleted = False,
           mo_source_failure = failure_of (map_file_error er ''move'' (ft_display src) aborted)\<rparr>))"

definition carry_over ::
  "('e, 'h) file_rpc \<Rightarrow> file_target \<Rightarrow> file_target \<Rightarrow> 'h list option \<Rightarrow> string \<Rightarrow> nat \<Rightarrow> write_intent option \<Rightarrow>
   ('e, move_outcome) comp" where
  "carry_over R src dst hunks version mode expected_destination =
    bindE (read_text R src) (\<lambda>original.
      let before = normalize_line_endings original in
      bindE (case hunks of None \<Rightarrow> ret before | Some hs \<Rightarrow> liftE (apply_patch_hunks R src before hs)) (\<lambda>after.
      let content = (case hunks of None \<Rightarrow> original
         | Some _ \<Rightarrow> restore_line_endings after (detect_line_endings original)) in
      bindE (write_text_with_mode R dst content expected_destination mode) (finish_move R src version before)))"

definition move_file ::
  "('e, 'h) file_rpc \<Rightarrow> file_target \<Rightarrow> file_target \<Rightarrow> 'h list option \<Rightarrow> string option \<Rightarrow> write_intent option \<Rightarrow>
   ('e, move_outcome) comp" where
  "move_file R src dst hunks expected_source expected_destination =
    (if ft_key src = ft_key dst
     then throw (FsError FS_SAME_TARGET (''cannot move \"'' @ ft_display src @ ''\" to itself''))
     else bindE (runner_stat R src) (\<lambda>info.
       case info of
         None \<Rightarrow> throw (stale_source src)
       | Some (version, mode) \<Rightarrow>
          (if expected_source \<noteq> None \<and> expected_source \<noteq> Some version then throw (stale_source src)
           else carry_over R src dst hunks (case expected_source of None \<Rightarrow> version | Some v \<Rightarrow> v) mode expected_destination)))"

section \<open>Only file system errors\<close>

lemma map_file_error_fs [simp]: "is_fs_error (map_file_error er operation path aborted)"
  by (auto simp: map_file_error_def split: prod.split)

lemma raises_asking [raises_rules]: "raises is_fs_error (asking R operation path m)"
  unfolding asking_def by (intro raises_rules) simp

lemma decode_text_error: "decode_text b path = Inl er \<Longrightarrow> is_fs_error er"
  by (auto simp: decode_text_def split: if_splits option.splits)

lemma raises_liftE_fs: "(\<And>er. r = Inl er \<Longrightarrow> is_fs_error er) \<Longrightarrow> raises is_fs_error (liftE r)"
  by (auto simp: raises_def liftE_def)

lemma raises_read_text [raises_rules]: "raises is_fs_error (read_text R f)"
  unfolding read_text_def read_bytes_def
  by (intro raises_rules raises_liftE_fs) (auto dest: decode_text_error)

lemma apply_patch_error: "apply_patch_hunks R f before hunks = Inl er \<Longrightarrow> is_fs_error er"
  by (auto simp: apply_patch_hunks_def split: sum.splits prod.splits)

lemma raises_resolve [raises_rules]: "raises is_fs_error (resolve R path dir)"
  unfolding resolve_def by (intro raises_rules) simp

lemma raises_write [raises_rules]: "raises is_fs_error (write_text_with_mode R f content intent mode)"
  unfolding write_text_with_mode_def by (intro raises_rules)

lemma raises_delete [raises_rules]: "raises is_fs_error (delete_file R f expected)"
proof -
  have "raises is_fs_error (read_text_for_diff R f)"
    unfolding read_text_for_diff_def
    by (rule raises_catchE_through [of is_fs_error]) (intro raises_rules | simp)+
  then show ?thesis unfolding delete_file_def by (intro raises_rules)
qed

lemma raises_finish_move [raises_rules]: "raises is_fs_error (finish_move R src version before written)"
  unfolding finish_move_def by (rule raises_catchE_through [of is_fs_error]) (intro raises_rules | assumption)+

lemma raises_prod: "(\<And>a b. raises E (f a b)) \<Longrightarrow> raises E (case p of (a, b) \<Rightarrow> f a b)"
  by (cases p) simp

lemma raises_move: "raises is_fs_error (move_file R src dst hunks expected intent)"
proof -
  have "raises is_fs_error (runner_stat R src)" unfolding runner_stat_def by (intro raises_rules)
  moreover have "raises is_fs_error (case hunks of None \<Rightarrow> ret before | Some hs \<Rightarrow> liftE (apply_patch_hunks R src before hs))"
    for before
    by (intro raises_rules raises_liftE_fs) (auto dest: apply_patch_error)
  ultimately show ?thesis
    unfolding move_file_def carry_over_def Let_def by (intro raises_rules raises_prod) (simp_all add: stale_source_def)
qed

text \<open>Whatever the runner, the manager, the agent registry or the patch library answer or throw, every operation
  of the file system throws dsh's own file errors only.\<close>

lemma file_operations_throw_fs_errors:
  "raises is_fs_error (resolve R path dir) \<and> raises is_fs_error (stat_target R f)
   \<and> raises is_fs_error (lstat R path dir) \<and> raises is_fs_error (read_bytes R f limit)
   \<and> raises is_fs_error (read_byte_range R f start count) \<and> raises is_fs_error (read_text R f)
   \<and> raises is_fs_error (list_dir R f) \<and> raises is_fs_error (write_text R f content intent)
   \<and> raises is_fs_error (edit_text R f edit expected) \<and> raises is_fs_error (patch_text R f hunks expected)
   \<and> raises is_fs_error (delete_file R f expected)
   \<and> raises is_fs_error (move_file R f dst opt_hunks expected intent)"
proof (intro conjI)
  show "raises is_fs_error (patch_text R f hunks expected)"
    unfolding patch_text_def Let_def write_text_def
    by (intro raises_rules raises_liftE_fs) (auto dest: apply_patch_error)
  show "raises is_fs_error (edit_text R f edit expected)"
    unfolding edit_text_def by (intro raises_rules) simp
qed (auto simp: stat_target_def lstat_def read_bytes_def read_byte_range_def list_dir_def write_text_def
    intro!: raises_rules raises_move)

section \<open>Line endings\<close>

lemma join_split_replace: "join_with sep (split_on c t) = concat (map (\<lambda>x. if x = c then sep else [x]) t)"
proof (induction t)
  case (Cons x t)
  obtain w ws where "split_on c t = w # ws" by (metis neq_Nil_conv split_on_nonempty)
  with Cons show ?case by (auto simp: join_with_Cons_head)
qed simp

definition replace_line_feeds :: "string \<Rightarrow> string" where
  "replace_line_feeds t = concat (map (\<lambda>x. if x = line_feed then [carriage_return, line_feed] else [x]) t)"

lemma replace_line_feeds_simps [simp]:
  "replace_line_feeds [] = []"
  "replace_line_feeds (x # t) = (if x = line_feed then carriage_return # line_feed # replace_line_feeds t
     else x # replace_line_feeds t)"
  by (simp_all add: replace_line_feeds_def)

lemma normalize_lf: "count_crlf t = 0 \<Longrightarrow> normalize_line_endings t = t"
  by (induction t rule: normalize_line_endings.induct) (auto split: if_splits)

lemma count_crlf_le: "count_crlf t \<le> count_list t line_feed" "count_crlf t \<le> count_list t carriage_return"
  by (induction t rule: count_crlf.induct) auto

text \<open>All line ends are CR LF, and no carriage return stands elsewhere.\<close>

definition crlf_text :: "string \<Rightarrow> bool" where
  "crlf_text t \<longleftrightarrow> count_list t line_feed = count_crlf t \<and> count_list t carriage_return = count_crlf t"

lemma crlf_text_normalized:
  "crlf_text t \<Longrightarrow> count_list (normalize_line_endings t) carriage_return = 0 \<and> replace_line_feeds (normalize_line_endings t) = t"
proof (induction t rule: normalize_line_endings.induct)
  case (1 a b t)
  show ?case
  proof (cases "a = carriage_return \<and> b = line_feed")
    case True
    with 1 show ?thesis by (auto simp: crlf_text_def)
  next
    case False
    have "crlf_text (b # t)" "a \<noteq> carriage_return" "a \<noteq> line_feed"
      using False 1(3) count_crlf_le [of "b # t"] by (auto simp: crlf_text_def split: if_splits)
    with 1(2) [OF False] False show ?thesis by auto
  qed
qed (auto simp: crlf_text_def split: if_splits)

lemma no_cr_no_crlf: "count_list t carriage_return = 0 \<Longrightarrow> count_crlf t = 0"
  using count_crlf_le(2) [of t] by simp

lemma count_take_crlf: "count_list t line_feed = count_crlf t \<Longrightarrow> count_list (take n t) line_feed = count_crlf (take n t)"
proof (induction t arbitrary: n rule: count_crlf.induct)
  case (1 a b t)
  show ?case
  proof (cases n)
    case (Suc m)
    show ?thesis
    proof (cases "a = carriage_return \<and> b = line_feed")
      case True
      with 1 Suc show ?thesis by (cases m) auto
    next
      case False
      then have "count_list (b # t) line_feed = count_crlf (b # t)" "a \<noteq> line_feed"
        using 1(3) count_crlf_le(1) [of "b # t"] by (auto split: if_splits)
      with 1(2) [OF False, of m] False Suc show ?thesis by (cases m) auto
    qed
  qed simp
qed (auto simp: take_Cons split: nat.split if_splits)

lemma count_crlf_take: "count_crlf (take n t) \<le> count_crlf t"
proof (induction t arbitrary: n rule: count_crlf.induct)
  case (1 a b t)
  show ?case
  proof (cases n)
    case (Suc m)
    show ?thesis
    proof (cases "a = carriage_return \<and> b = line_feed")
      case True
      with 1(1) Suc show ?thesis by (cases m) auto
    next
      case False
      with 1(2) [OF False, of m] Suc show ?thesis by (cases m) auto
    qed
  qed simp
qed (auto simp: take_Cons split: nat.split)

text \<open>A text whose first line is longer than the sample is written back with LF, whatever it had.\<close>

lemma late_line_endings_lost:
  assumes "count_crlf (take 4096 t) = 0"
  shows "restore_line_endings (normalize_line_endings t) (detect_line_endings t) = normalize_line_endings t"
  using assms by (simp add: detect_line_endings_def restore_line_endings_def Let_def)



section \<open>What a move asks of the runner\<close>

text \<open>The calls that change a file, with whether they succeeded.\<close>

datatype file_call =
    Wrote string bytes write_guard nat bool
  | Edited string edit_request string bool
  | Deleted string string bool

definition recorded_files :: "('e, 'h) file_rpc \<Rightarrow> (('e, file_call) logged, 'h) file_rpc" where
  "recorded_files R =
    \<lparr>fr_client = lifted (fr_client R),
     fr_initiator_cwd = lifted (fr_initiator_cwd R),
     fr_workspace = fr_workspace R,
     fr_resolve_path = \<lambda>c p d. lifted (fr_resolve_path R c p d),
     fr_stat = \<lambda>c p follow. lifted (fr_stat R c p follow),
     fr_read_file = \<lambda>c p n. lifted (fr_read_file R c p n),
     fr_read_range = \<lambda>c p i n. lifted (fr_read_range R c p i n),
     fr_list = \<lambda>c p. lifted (fr_list R c p),
     fr_write_file = \<lambda>c p b g mode. noting (Wrote p b g mode) (fr_write_file R c p b g mode),
     fr_edit_file = \<lambda>c p edit v. noting (Edited p edit v) (fr_edit_file R c p edit v),
     fr_delete_file = \<lambda>c p v. noting (Deleted p v) (fr_delete_file R c p v),
     fr_aborted = \<lambda>s. fr_aborted R (fst s),
     fr_apply_hunks = fr_apply_hunks R\<rparr>"

lemma recorded_asking: "asking (recorded_files R) operation path (lifted m) = lifted (asking R operation path m)"
  unfolding asking_def lifted_catchE lifted_bindE lifted_throw [symmetric] lifted_gets
  by (simp add: recorded_files_def)

lemma recorded_reads:
  "runner_stat (recorded_files R) f = lifted (runner_stat R f)"
  "read_text (recorded_files R) f = lifted (read_text R f)"
  "read_text_for_diff (recorded_files R) f = lifted (read_text_for_diff R f)"
proof -
  have simps: "fr_client (recorded_files R) = lifted (fr_client R)"
    "fr_stat (recorded_files R) c p b = lifted (fr_stat R c p b)"
    "fr_read_file (recorded_files R) c p n = lifted (fr_read_file R c p n)" for c p b n
    by (simp_all add: recorded_files_def)
  show stat: "runner_stat (recorded_files R) f = lifted (runner_stat R f)"
    by (simp add: runner_stat_def recorded_asking [symmetric] lifted_bindE lifted_ret simps)
  show read: "read_text (recorded_files R) f = lifted (read_text R f)"
    by (simp add: read_text_def read_bytes_def recorded_asking [symmetric] lifted_bindE lifted_liftE simps)
  show "read_text_for_diff (recorded_files R) f = lifted (read_text_for_diff R f)"
    by (simp add: read_text_for_diff_def read lifted_bindE lifted_catchE lifted_ret lifted_throw if_distrib [of lifted] cong: if_cong)
qed

lemma wp_asking:
  "wp (asking R operation path m) Q E = wp m Q (\<lambda>er t. E (map_file_error er operation path (fr_aborted R t)) t)"
  by (simp add: asking_def wp_simps)

lemma write_noted:
  "wp (write_text_with_mode (recorded_files R) f content intent mode)
     (\<lambda>_ t. snd t = snd s @ [Wrote (ft_key f) content (guard_of intent) mode True])
     (\<lambda>_ t. snd t = snd s \<or> (\<exists>ok. snd t = snd s @ [Wrote (ft_key f) content (guard_of intent) mode ok])) s"
  unfolding write_text_with_mode_def wp_asking wp_simps
  by (simp add: recorded_files_def wp_lifted wp_noting) (intro wp_all; auto simp: wp_simps split: sum.split)+

lemma delete_noted:
  "wp (delete_file (recorded_files R) f (Some v)) (\<lambda>_ t. snd t = snd s @ [Deleted (ft_key f) v True])
     (\<lambda>_ t. snd t = snd s \<or> snd t = snd s @ [Deleted (ft_key f) v False]) s"
  unfolding delete_file_def recorded_reads wp_asking wp_simps wp_lifted
  by (rule wp_all) (auto simp: recorded_files_def wp_lifted wp_noting wp_simps intro!: wp_all)

lemma finish_noted:
  "wp (finish_move (recorded_files R) src v before written)
     (\<lambda>outcome t. if mo_source_deleted outcome then snd t = snd s @ [Deleted (ft_key src) v True]
        else snd t = snd s \<or> snd t = snd s @ [Deleted (ft_key src) v False])
     (\<lambda>_ t. snd t = snd s \<or> snd t = snd s @ [Deleted (ft_key src) v False]) s"
  unfolding finish_move_def wp_simps by (rule wp_mono [OF delete_noted]) (auto simp: wp_simps)

text \<open>What a move writes, from what it read of the source.\<close>

definition moved_content :: "('e, 'h) file_rpc \<Rightarrow> file_target \<Rightarrow> 'h list option \<Rightarrow> string \<Rightarrow> error + string" where
  "moved_content R src hunks original =
    (case hunks of
       None \<Rightarrow> Inr original
     | Some hs \<Rightarrow> map_sum id (\<lambda>after. restore_line_endings after (detect_line_endings original))
         (apply_patch_hunks R src (normalize_line_endings original) hs))"

definition move_trace ::
  "('e, 'h) file_rpc \<Rightarrow> file_target \<Rightarrow> file_target \<Rightarrow> 'h list option \<Rightarrow> string option \<Rightarrow> write_intent option \<Rightarrow> 'e \<Rightarrow>
   error + move_outcome \<Rightarrow> file_call list \<Rightarrow> bool" where
  "move_trace R src dst hunks expected_source intent e r calls \<longleftrightarrow>
    (\<exists>version mode original content e1 e2.
       ft_key src \<noteq> ft_key dst \<and> runner_stat R src e = (Inr (Some (version, mode)), e1)
       \<and> read_text R src e1 = (Inr original, e2) \<and> moved_content R src hunks original = Inr content
       \<and> (expected_source = None \<or> expected_source = Some version)
       \<and> (let wrote = Wrote (ft_key dst) content (guard_of intent) mode; deleted = Deleted (ft_key src) version in
          case r of
            Inl _ \<Rightarrow> (\<exists>ok. calls = [wrote ok]) \<or> calls = [wrote True, deleted False]
          | Inr outcome \<Rightarrow>
             (if mo_source_deleted outcome then calls = [wrote True, deleted True]
              else calls = [wrote True] \<or> calls = [wrote True, deleted False])))"

lemma carry_over_noted:
  assumes "ft_key src \<noteq> ft_key dst" and "runner_stat R src e = (Inr (Some (version, mode)), fst s)"
    and "expected = None \<or> expected = Some version"
  shows "wp (carry_over (recorded_files R) src dst hunks version mode intent)
     (\<lambda>outcome t. \<exists>calls. snd t = snd s @ calls \<and> move_trace R src dst hunks expected intent e (Inr outcome) calls)
     (\<lambda>er t. snd t = snd s \<or> (\<exists>calls. snd t = snd s @ calls \<and> move_trace R src dst hunks expected intent e (Inl er) calls)) s"
proof -
  obtain got e2 where got: "read_text R src (fst s) = (got, e2)" by (rule prod.exhaust)
  have trace: "move_trace R src dst hunks expected intent e r calls"
    if "got = Inr original" "moved_content R src hunks original = Inr content"
      "let wrote = Wrote (ft_key dst) content (guard_of intent) mode; deleted = Deleted (ft_key src) version in
        case r of
            Inl _ \<Rightarrow> (\<exists>ok. calls = [wrote ok]) \<or> calls = [wrote True, deleted False]
          | Inr outcome \<Rightarrow>
             (if mo_source_deleted outcome then calls = [wrote True, deleted True]
              else calls = [wrote True] \<or> calls = [wrote True, deleted False])" for original content r calls
    unfolding move_trace_def using that assms got by blast
  have apply_same: "apply_patch_hunks (recorded_files R) = apply_patch_hunks R"
    by (intro ext) (simp add: apply_patch_hunks_def recorded_files_def)
  have after_write: "wp (bindE (write_text_with_mode (recorded_files R) dst content intent mode)
        (finish_move (recorded_files R) src version before))
     (\<lambda>outcome t. \<exists>calls. snd t = snd s @ calls \<and> move_trace R src dst hunks expected intent e (Inr outcome) calls)
     (\<lambda>er t. snd t = snd s \<or> (\<exists>calls. snd t = snd s @ calls \<and> move_trace R src dst hunks expected intent e (Inl er) calls)) u"
    if "got = Inr original" "moved_content R src hunks original = Inr content" "snd u = snd s" for original content before u
    unfolding wp_simps
    apply (rule wp_mono [OF write_noted])
     apply (rule wp_mono [OF finish_noted])
      apply (auto simp: that(3) ex_bool_eq intro!: trace [OF that(1,2)] split: if_splits)
    done
  show ?thesis
    unfolding carry_over_def recorded_reads wp_bindE [of "lifted (read_text R src)"] wp_lifted Let_def apply_same
    using got after_write
    by (auto simp: wp_def [of "read_text R src"] wp_simps(1-5) moved_content_def wp_bindE [of "ret _"] wp_bindE [of "liftE _"]
      split: sum.split option.split)
qed

lemma move_file_noted:
  "wp (move_file (recorded_files R) src dst hunks expected intent)
     (\<lambda>outcome t. \<exists>calls. snd t = snd s @ calls \<and> move_trace R src dst hunks expected intent (fst s) (Inr outcome) calls)
     (\<lambda>er t. snd t = snd s \<or> (\<exists>calls. snd t = snd s @ calls \<and> move_trace R src dst hunks expected intent (fst s) (Inl er) calls)) s"
proof (cases "ft_key src = ft_key dst")
  case False
  obtain found e1 where stat: "runner_stat R src (fst s) = (found, e1)" by (rule prod.exhaust)
  show ?thesis
    using False stat carry_over_noted [OF False, of R "fst s" _ _ "(e1, snd s)" expected hunks intent]
    by (auto simp: move_file_def wp_simps recorded_reads wp_lifted wp_def [of "runner_stat R src"] split: sum.split option.split)
qed (simp add: move_file_def wp_simps)

text \<open>C33: A move deletes its source only under the version it was found with, after the text read from it, patched as
  asked, was written to another file; what it answers says truly whether the source is gone.\<close>

theorem move_loses_no_text:
  "case move_file (recorded_files R) src dst hunks expected intent (e, []) of (r, (e', calls)) \<Rightarrow>
     (calls = [] \<and> (\<exists>er. r = Inl er)) \<or> move_trace R src dst hunks expected intent e r calls"
proof -
  from move_file_noted [of R src dst hunks expected intent "(e, [])"] show ?thesis
    by (auto simp: wp_def split: prod.splits sum.splits)
qed

end
