(* ===== verification/Attachment_Copies.thy ===== *)
theory Attachment_Copies
  imports File_Adapter
begin

text \<open>
  \<open>sandbox/attachment-copies.ts\<close>: the uploads a request mentions are copied into the sandbox of the
  session, and the file system answers their host paths with the copies. The manager, dsh's attachment
  store and the host's files are parameters.
\<close>

section \<open>Where a copy goes\<close>

record attachment_ref =
  at_attachment_id :: string
  at_name :: string
  at_bytes :: nat

definition ATTACHMENT_COPY_DIRECTORY :: string where
  "ATTACHMENT_COPY_DIRECTORY = ''.dsh-attachments''"

definition MAX_ATTACHMENT_BYTES :: nat where
  "MAX_ATTACHMENT_BYTES = 64 * 1024 * 1024"

datatype content_block = FileBlock attachment_ref | OtherBlock

definition collect_blocks :: "content_block list \<Rightarrow> attachment_ref list" where
  "collect_blocks = List.map_filter (\<lambda>b. case b of FileBlock r \<Rightarrow> Some r | OtherBlock \<Rightarrow> None)"

definition collect_file_attachments :: "content_block list list \<Rightarrow> attachment_ref list" where
  "collect_file_attachments messages = concat (map collect_blocks messages)"

text \<open>\<open>posix.basename\<close>.\<close>

definition basename :: "string \<Rightarrow> string" where
  "basename p = last (split_on slash (rev (dropWhile (\<lambda>c. c = slash) (rev p))))"

definition safe_leaf_name :: "string \<Rightarrow> string option" where
  "safe_leaf_name n =
    (let leaf = basename (map (\<lambda>c. if c = CHR 0x5C then slash else c) n) in
     if leaf = '''' \<or> leaf = ''.'' \<or> leaf = ''..'' \<or> CHR 0x00 \<in> set leaf then None else Some leaf)"

definition is_latin :: "char \<Rightarrow> bool" where
  "is_latin c = (is_upper c \<or> (97 \<le> (of_char c :: nat) \<and> (of_char c :: nat) \<le> 122))"

definition digest_char :: "char \<Rightarrow> char" where
  "digest_char c = (if is_latin c \<or> is_digit c \<or> c = CHR ''.'' \<or> c = CHR ''_'' \<or> c = CHR ''-'' then c else CHR ''_'')"

definition attachment_digest :: "string \<Rightarrow> string" where
  "attachment_digest i = map digest_char (if starts_with ''sha256:'' i then drop 7 i else i)"

definition attachment_sandbox_path :: "string \<Rightarrow> attachment_ref \<Rightarrow> string option" where
  "attachment_sandbox_path workspace r =
    (let digest = attachment_digest (at_attachment_id r) in
     case safe_leaf_name (at_name r) of
       None \<Rightarrow> None
     | Some leaf \<Rightarrow>
        (if digest = '''' then None
         else
           let directory = join_path [workspace, ATTACHMENT_COPY_DIRECTORY]; path = join_path [directory, digest, leaf]
           in if is_inside_sandbox_workspace path directory then Some path else None))"

section \<open>The copies\<close>

record 'e copy_deps =
  cd_workspace :: string
  cd_session_key :: "('e, string option) comp"
  cd_client :: "('e, client) comp"
  cd_host_path :: "attachment_ref \<Rightarrow> ('e, string option) comp"
  cd_read_bytes :: "string \<Rightarrow> ('e, bytes) comp"
  cd_write_file :: "client \<Rightarrow> string \<Rightarrow> bytes \<Rightarrow> write_guard \<Rightarrow> nat \<Rightarrow> ('e, write_answer) comp"
  cd_aborted :: "'e \<Rightarrow> bool"
  cd_warn :: "string \<Rightarrow> 'e \<Rightarrow> 'e"

record attachment_copies =
  cp_by_session :: "(string \<times> (string \<times> string) list) list"
  cp_warned :: "string list"

definition no_copies :: attachment_copies where
  "no_copies = \<lparr>cp_by_session = [], cp_warned = []\<rparr>"

definition copies_for :: "string \<Rightarrow> attachment_copies \<Rightarrow> (string \<times> string) list" where
  "copies_for session c = (case map_of (cp_by_session c) session of None \<Rightarrow> [] | Some m \<Rightarrow> m)"

definition copy_of :: "string \<Rightarrow> string \<Rightarrow> attachment_copies \<Rightarrow> string option" where
  "copy_of session host c = map_of (copies_for session c) host"

definition add_copy :: "string \<Rightarrow> string \<Rightarrow> string \<Rightarrow> attachment_copies \<Rightarrow> attachment_copies" where
  "add_copy session host target c =
    c\<lparr>cp_by_session := AList.update session (AList.update host target (copies_for session c)) (cp_by_session c)\<rparr>"

definition beside :: "('e, 'a) comp \<Rightarrow> (attachment_copies \<times> 'e, 'a) comp" where
  "beside m s = (case m (snd s) of (r, e') \<Rightarrow> (r, (fst s, e')))"

definition warn_once :: "'e copy_deps \<Rightarrow> string \<Rightarrow> string \<Rightarrow> (attachment_copies \<times> 'e, unit) comp" where
  "warn_once C key message =
    modify (\<lambda>(c, e). if key \<in> set (cp_warned c) then (c, e)
      else (c\<lparr>cp_warned := cp_warned c @ [key]\<rparr>, cd_warn C message e))"

text \<open>\<open>lookup\<close> never throws.\<close>

definition lookup_copy :: "'e copy_deps \<Rightarrow> string \<Rightarrow> (attachment_copies \<times> 'e, string option) comp" where
  "lookup_copy C host =
    catchE
      (bindE (beside (cd_session_key C)) (\<lambda>session.
        case session of None \<Rightarrow> ret None | Some s \<Rightarrow> gets (\<lambda>(c, _). copy_of s host c)))
      (\<lambda>_. ret None)"

definition write_copy ::
  "'e copy_deps \<Rightarrow> string \<Rightarrow> string \<Rightarrow> string \<Rightarrow> bytes \<Rightarrow> (attachment_copies \<times> 'e, unit) comp" where
  "write_copy C session host target b =
    bindE (beside (cd_client C)) (\<lambda>c.
      thenE
        (catchE (bindE (beside (cd_write_file C c target b GuardAbsent 0)) (\<lambda>_. ret ()))
          (\<lambda>er. if fst (connect_error_from er) \<noteq> Code_Already_Exists then throw er else ret ()))
        (modify (\<lambda>(cs, e). (add_copy session host target cs, e))))"

definition warning_key :: "string \<Rightarrow> attachment_ref \<Rightarrow> string" where
  "warning_key session r = session @ CHR 0x00 # at_attachment_id r"

definition copy_located :: "'e copy_deps \<Rightarrow> string \<Rightarrow> attachment_ref \<Rightarrow> string \<Rightarrow> (attachment_copies \<times> 'e, unit) comp" where
  "copy_located C session r host =
    bindE (gets (\<lambda>(c, _). copy_of session host c)) (\<lambda>known.
      if known \<noteq> None then ret ()
      else case attachment_sandbox_path (cd_workspace C) r of
        None \<Rightarrow> warn_once C (warning_key session r)
          (''attachment \"'' @ at_name r @ ''\" has no path inside the sandbox workspace'')
      | Some target \<Rightarrow>
         (if MAX_ATTACHMENT_BYTES < at_bytes r
          then warn_once C (warning_key session r) (''attachment \"'' @ at_name r @ ''\" is '' @ show_nat (at_bytes r)
            @ '' bytes, over the '' @ show_nat MAX_ATTACHMENT_BYTES @ ''-byte copy limit'')
          else catchE
            (bindE (beside (cd_read_bytes C host)) (write_copy C session host target))
            (\<lambda>er. bindE (gets (\<lambda>(_, e). cd_aborted C e)) (\<lambda>aborted.
               if aborted then ret ()
               else warn_once C (warning_key session r)
                 (''cannot copy attachment \"'' @ at_name r @ ''\" into the sandbox: '' @ error_message er)))))"

definition ensure_one :: "'e copy_deps \<Rightarrow> string \<Rightarrow> attachment_ref \<Rightarrow> (attachment_copies \<times> 'e, unit) comp" where
  "ensure_one C session r =
    bindE
      (catchE (bindE (beside (cd_host_path C r)) (\<lambda>host. ret (Some host)))
        (\<lambda>er. thenE (warn_once C (warning_key session r) (''cannot locate attachment \"'' @ at_name r @ ''\": '' @ error_message er))
          (ret None)))
      (\<lambda>located. case located of
         Some (Some host) \<Rightarrow> copy_located C session r host
       | _ \<Rightarrow> ret ())"

fun ensure_each :: "'e copy_deps \<Rightarrow> string \<Rightarrow> attachment_ref list \<Rightarrow> (attachment_copies \<times> 'e, unit) comp" where
  "ensure_each C session [] = ret ()"
| "ensure_each C session (r # rs) =
    bindE (gets (\<lambda>(_, e). cd_aborted C e)) (\<lambda>aborted.
      if aborted then ret () else thenE (ensure_one C session r) (ensure_each C session rs))"

definition ensure_copies :: "'e copy_deps \<Rightarrow> attachment_ref list \<Rightarrow> (attachment_copies \<times> 'e, unit) comp" where
  "ensure_copies C refs =
    bindE (beside (cd_session_key C)) (\<lambda>session.
      case session of
        None \<Rightarrow> ret ()
      | Some s \<Rightarrow> (if refs = [] then ret () else ensure_each C s refs))"

text \<open>\<open>copyAttachmentsThenStream\<close> of \<open>sandbox/fs.ts\<close>: the copies come before the request.\<close>

definition copy_then_stream ::
  "'e copy_deps \<Rightarrow> content_block list list \<Rightarrow> (attachment_copies \<times> 'e, 'a) comp \<Rightarrow> (attachment_copies \<times> 'e, 'a) comp" where
  "copy_then_stream C messages request = thenE (ensure_copies C (collect_file_attachments messages)) request"

section \<open>Facts\<close>

lemma attachment_path_inside:
  assumes "is_absolute workspace" and "attachment_sandbox_path workspace r = Some p"
  shows "is_absolute p \<and> prefix (segments workspace @ [ATTACHMENT_COPY_DIRECTORY]) (segments p)"
proof -
  have "list_all clean_segment [ATTACHMENT_COPY_DIRECTORY]"
    by (simp add: clean_segment_def ATTACHMENT_COPY_DIRECTORY_def)
  note d = segments_join [OF assms(1) this]
  from assms(2) have i: "is_inside_sandbox_workspace p (join_path [workspace, ATTACHMENT_COPY_DIRECTORY])"
    by (auto simp: attachment_sandbox_path_def Let_def split: option.splits if_splits)
  then have "is_absolute p" by (simp add: is_inside_sandbox_workspace_def split: if_splits)
  with i d show ?thesis by (simp add: inside_iff)
qed

lemma wp_beside: "wp (beside m) Q E s = wp m (\<lambda>a e. Q a (fst s, e)) (\<lambda>er e. E er (fst s, e)) (snd s)"
  by (auto simp: wp_def beside_def split: prod.split sum.split)

lemma copy_of_add [simp]:
  "copy_of s h (add_copy s' h' t c) = (if s = s' \<and> h = h' then Some t else copy_of s h c)"
  by (auto simp: copy_of_def copies_for_def add_copy_def split: option.split)

lemma copy_of_warned [simp]: "copy_of s h (c\<lparr>cp_warned := ws\<rparr>) = copy_of s h c"
  by (simp add: copy_of_def copies_for_def)

text \<open>The paths the runner took a copy at, or had one at.\<close>

definition write_accepted :: "error + 'a \<Rightarrow> bool" where
  "write_accepted r = (case r of Inr _ \<Rightarrow> True | Inl er \<Rightarrow> fst (connect_error_from er) = Code_Already_Exists)"

definition accepting :: "string \<Rightarrow> ('e, 'a) comp \<Rightarrow> (('e, string) logged, 'a) comp" where
  "accepting p m s = (case m (fst s) of (r, e') \<Rightarrow> (r, (e', snd s @ (if write_accepted r then [p] else []))))"

definition recorded_copies :: "'e copy_deps \<Rightarrow> ('e, string) logged copy_deps" where
  "recorded_copies C =
    \<lparr>cd_workspace = cd_workspace C,
     cd_session_key = lifted (cd_session_key C),
     cd_client = lifted (cd_client C),
     cd_host_path = \<lambda>r. lifted (cd_host_path C r),
     cd_read_bytes = \<lambda>h. lifted (cd_read_bytes C h),
     cd_write_file = \<lambda>c p b g mode. accepting p (cd_write_file C c p b g mode),
     cd_aborted = \<lambda>s. cd_aborted C (fst s),
     cd_warn = \<lambda>m s. (cd_warn C m (fst s), snd s)\<rparr>"

lemma recorded_copies_simps [simp]:
  "cd_workspace (recorded_copies C) = cd_workspace C" "cd_session_key (recorded_copies C) = lifted (cd_session_key C)"
  "cd_client (recorded_copies C) = lifted (cd_client C)" "cd_host_path (recorded_copies C) r = lifted (cd_host_path C r)"
  "cd_read_bytes (recorded_copies C) h = lifted (cd_read_bytes C h)"
  "cd_write_file (recorded_copies C) c p b g mode = accepting p (cd_write_file C c p b g mode)"
  "cd_aborted (recorded_copies C) t = cd_aborted C (fst t)" "cd_warn (recorded_copies C) m t = (cd_warn C m (fst t), snd t)"
  by (simp_all add: recorded_copies_def)

lemma wp_accepting:
  assumes "\<And>a e. Q a (e, snd s @ [p])"
    and "\<And>er e. E er (e, snd s @ (if fst (connect_error_from er) = Code_Already_Exists then [p] else []))"
  shows "wp (accepting p m) Q E s"
proof -
  obtain r e' where m: "m (fst s) = (r, e')" by (rule prod.exhaust)
  show ?thesis
  proof (cases r)
    case (Inl er)
    with m assms(2) [of er e'] show ?thesis by (simp add: wp_def accepting_def write_accepted_def)
  qed (use m assms(1) in \<open>simp add: wp_def accepting_def write_accepted_def\<close>)
qed

definition copies_since ::
  "string \<Rightarrow> string \<Rightarrow> attachment_copies \<Rightarrow> attachment_copies \<times> ('e, string) logged \<Rightarrow> bool" where
  "copies_since workspace session c0 s \<longleftrightarrow>
    (\<forall>sid h t. copy_of sid h c0 = Some t \<longrightarrow> copy_of sid h (fst s) = Some t)
    \<and> (\<forall>sid h t. copy_of sid h (fst s) = Some t \<longrightarrow> copy_of sid h c0 = Some t
         \<or> (sid = session \<and> t \<in> set (snd (snd s)) \<and> (\<exists>r. attachment_sandbox_path workspace r = Some t)))"

lemma copies_since_world:
  "copies_since w session c0 (c, e, calls) \<Longrightarrow> set calls \<subseteq> set calls' \<Longrightarrow> copies_since w session c0 (c, e', calls')"
  unfolding copies_since_def by (simp, blast)

lemma copies_since_warned:
  "copies_since w session c0 (c, s) \<Longrightarrow> copies_since w session c0 (c\<lparr>cp_warned := ws\<rparr>, s)"
  by (simp add: copies_since_def)

lemma copies_since_add:
  assumes "copies_since w session c0 (c, e, calls)" and "copy_of session host c = None"
    and "attachment_sandbox_path w r = Some target" and "target \<in> set calls'" and "set calls \<subseteq> set calls'"
  shows "copies_since w session c0 (add_copy session host target c, e', calls')"
proof -
  have "copy_of sid h (add_copy session host target c) = Some t" if "copy_of sid h c0 = Some t" for sid h t
  proof -
    from assms(1) that have "copy_of sid h c = Some t" by (simp add: copies_since_def)
    with assms(2) show ?thesis by auto
  qed
  moreover have "copy_of sid h c0 = Some t
      \<or> (sid = session \<and> t \<in> set calls' \<and> (\<exists>r. attachment_sandbox_path w r = Some t))"
    if "copy_of sid h (add_copy session host target c) = Some t" for sid h t
  proof (cases "sid = session \<and> h = host")
    case True
    with that assms(3,4) show ?thesis by auto
  next
    case False
    with that have "copy_of sid h c = Some t" by simp
    moreover from assms(1) have "\<forall>sid h t. copy_of sid h c = Some t \<longrightarrow> copy_of sid h c0 = Some t
        \<or> (sid = session \<and> t \<in> set calls \<and> (\<exists>r. attachment_sandbox_path w r = Some t))"
      by (simp add: copies_since_def)
    ultimately show ?thesis using assms(5) by blast
  qed
  ultimately show ?thesis by (simp add: copies_since_def)
qed

lemma warn_once_since:
  "copies_since w session c0 s \<Longrightarrow> wp (warn_once (recorded_copies C) key m) (\<lambda>_. copies_since w session c0) E s"
  by (cases s) (auto simp: warn_once_def wp_simps intro: copies_since_warned copies_since_world)

lemma write_copy_since:
  assumes "copies_since w session c0 (c, e, calls)" and "copy_of session host c = None"
    and "attachment_sandbox_path w r = Some target"
  shows "wp (write_copy (recorded_copies C) session host target b) (\<lambda>_. copies_since w session c0)
    (\<lambda>_. copies_since w session c0) (c, e, calls)"
  unfolding write_copy_def wp_simps wp_beside
  apply (simp add: wp_lifted)
  apply (rule wp_all)
   apply (rule wp_accepting)
    apply (auto simp: wp_simps intro!: copies_since_add [OF assms] copies_since_world [OF assms(1)])
  done

lemma ensure_one_since:
  assumes "copies_since (cd_workspace C) session c0 s"
  shows "wp (ensure_one (recorded_copies C) session r) (\<lambda>_. copies_since (cd_workspace C) session c0) (\<lambda>_ _. False) s"
proof -
  let ?I = "copies_since (cd_workspace C) session c0"
  obtain c e calls where s: "s = (c, e, calls)" by (metis prod.exhaust)
  have unmoved: "?I (c, e', calls)" for e' using assms copies_since_world by (metis s order_refl)
  have copying: "wp (catchE (bindE (beside (cd_read_bytes (recorded_copies C) host)) (write_copy (recorded_copies C) session host target))
      (\<lambda>er. bindE (gets (\<lambda>(_, e). cd_aborted (recorded_copies C) e)) (\<lambda>aborted. if aborted then ret ()
         else warn_once (recorded_copies C) key (m er)))) (\<lambda>_. ?I) (\<lambda>_ _. False) (c, e', calls)"
    if "copy_of session host c = None" "attachment_sandbox_path (cd_workspace C) r = Some target" for host target key m e'
    unfolding wp_simps wp_beside recorded_copies_simps wp_lifted
    by (rule wp_all) (auto simp: wp_simps intro!: wp_mono [OF write_copy_since] unmoved that warn_once_since split: if_splits)
  have located: "wp (copy_located (recorded_copies C) session r host) (\<lambda>_. ?I) (\<lambda>_ _. False) (c, e', calls)" for host e'
    by (auto simp: copy_located_def wp_basic wp_bindE [of "gets _"] wp_if wp_option recorded_copies_simps(1)
      intro!: warn_once_since unmoved copying split: option.split simp del: recorded_copies_simps(2-))
  show ?thesis
    unfolding ensure_one_def s wp_simps wp_beside
    apply (simp add: wp_lifted)
    apply (rule wp_all)
     apply (auto simp: wp_simps intro!: located unmoved wp_mono [OF warn_once_since [OF unmoved]] split: option.split)
    done
qed

lemma ensure_each_since:
  "copies_since (cd_workspace C) session c0 s \<Longrightarrow>
   wp (ensure_each (recorded_copies C) session refs) (\<lambda>_. copies_since (cd_workspace C) session c0) (\<lambda>_ _. False) s"
proof (induction refs arbitrary: s)
  case (Cons r refs)
  then show ?case
    by (auto simp: wp_simps intro!: wp_mono [OF ensure_one_since] split: if_splits)
qed (simp add: wp_simps)


section \<open>Example\<close>

definition demo_attachment :: attachment_ref where
  "demo_attachment = \<lparr>at_attachment_id = ''sha256:ab'', at_name = ''notes.txt'', at_bytes = 5\<rparr>"

definition demo_copies :: "unit copy_deps" where
  "demo_copies =
    \<lparr>cd_workspace = ''/workspace/repository'',
     cd_session_key = ret (Some ''s1''),
     cd_client = ret 1,
     cd_host_path = (\<lambda>_. ret (Some ''/host/ab'')),
     cd_read_bytes = (\<lambda>_. ret ''hello''),
     cd_write_file = (\<lambda>_ _ _ _ _. throw (ConnectError Code_Already_Exists ''exists'')),
     cd_aborted = (\<lambda>_. False),
     cd_warn = (\<lambda>_ e. e)\<rparr>"

definition demo_copy_path :: string where
  "demo_copy_path = ''/workspace/repository/.dsh-attachments/ab/notes.txt''"

lemma demo_path: "attachment_sandbox_path ''/workspace/repository'' demo_attachment = Some demo_copy_path"
  by code_simp

lemma demo_copied:
  "ensure_copies (recorded_copies demo_copies) [demo_attachment] (no_copies, ((), [])) =
     (Inr (), (add_copy ''s1'' ''/host/ab'' demo_copy_path no_copies, ((), [demo_copy_path])))"
  using demo_path
  by (simp add: ensure_copies_def ensure_one_def copy_located_def write_copy_def comp_defs beside_def lifted_def accepting_def
    write_accepted_def demo_copies_def copy_of_def copies_for_def no_copies_def MAX_ATTACHMENT_BYTES_def demo_attachment_def)


end
