(* ===== verification/Terminal.thy ===== *)
theory Terminal
  imports Message_Queue Sandbox_Path Js_Values
begin

text \<open>
  \<open>terminal/remote-terminal.ts\<close>: one terminal in the sandbox over the runner's stream. Controls of the
  terminal's owner, responses of the runner, the reading of the request stream and the end of the
  stream are interleaved in any order by \<open>terminal_step\<close>. A promise an operation gives is a number its
  caller chose.
\<close>

section \<open>Messages\<close>

record spawn_spec =
  sp_argv :: "string list"
  sp_cwd :: string
  sp_env :: "(string \<times> string option) list"
  sp_rows :: int
  sp_cols :: int
  sp_terminal_type :: string
  sp_grace_ms :: int

record path_frames =
  pf_session_workspace :: "string option"
  pf_sandbox_workspace :: string

record start_request =
  sr_argv :: "string list"
  sr_cwd :: string
  sr_env :: "(string \<times> string) list"
  sr_rows :: int
  sr_cols :: int
  sr_terminal_type :: string
  sr_grace_ms :: int

datatype query_kind = Query_Unspecified | Query_Foreground | Query_Activity

datatype terminal_request =
    Start start_request
  | Input bytes
  | Resize int int
  | Query query_kind
  | Signal string

datatype activity_state = State_Idle | State_Busy | State_Unspecified | State_Unknown

datatype terminal_response =
    Started_Event int
  | Output_Event bytes
  | Exited_Event int string
  | Closed_Event
  | Foreground_Event bool int bool
  | Activity_Event activity_state
  | Signaled_Event int
  | No_Event

definition start_request_of :: "spawn_spec \<Rightarrow> path_frames \<Rightarrow> start_request" where
  "start_request_of s f =
    \<lparr>sr_argv = map (\<lambda>a. path_in_sandbox a (pf_session_workspace f) (pf_sandbox_workspace f)) (sp_argv s),
     sr_cwd = path_in_sandbox (sp_cwd s) (pf_session_workspace f) (pf_sandbox_workspace f),
     sr_env = List.map_filter (\<lambda>(k, v). map_option (Pair k) v) (sp_env s),
     sr_rows = sp_rows s, sr_cols = sp_cols s, sr_terminal_type = sp_terminal_type s, sr_grace_ms = sp_grace_ms s\<rparr>"

section \<open>The state\<close>

text \<open>What a caller asks, and what its promise was settled with. A response is what the runner replied to a
  query or a signal; \<open>inspectForeground\<close>, \<open>inspectActivity\<close> and \<open>signalForeground\<close> read it.\<close>

datatype control = Write_Input bytes | Change_Size int int | Ask query_kind | Send_Signal string

datatype answer = Sent | Replied terminal_response

record outcome_report =
  oc_exit_code :: "int option"
  oc_signal :: "string option"

datatype output_end = Open | Ended | Destroyed error

text \<open>\<open>tm_chain\<close> is the chain of controls, the one being served first; \<open>tm_over\<close>: \<open>consume\<close> has returned. The
  last two fields are the history: the controls in the order they were asked, and the settled ones.\<close>

record terminal =
  tm_requests :: "terminal_request message_queue"
  tm_replies :: "nat list"
  tm_chain :: "(nat \<times> control) list"
  tm_started :: "(error + int) option"
  tm_completion :: "(error + outcome_report) option"
  tm_finished :: bool
  tm_closed :: bool
  tm_quiescent :: bool
  tm_pid :: int
  tm_activity_key :: string
  tm_activity_revision :: nat
  tm_output :: "bytes list"
  tm_output_end :: output_end
  tm_over :: bool
  tm_asked :: "(nat \<times> control) list"
  tm_answers :: "(nat \<times> (error + answer)) list"

definition new_terminal :: "spawn_spec \<Rightarrow> path_frames \<Rightarrow> terminal" where
  "new_terminal s f =
    \<lparr>tm_requests = new_queue\<lparr>buffered := [Start (start_request_of s f)]\<rparr>, tm_replies = [], tm_chain = [],
     tm_started = None, tm_completion = None, tm_finished = False, tm_closed = False, tm_quiescent = False,
     tm_pid = -1, tm_activity_key = '''', tm_activity_revision = 0, tm_output = [], tm_output_end = Open,
     tm_over = False, tm_asked = [], tm_answers = []\<rparr>"

section \<open>Controls\<close>

text \<open>\<open>serialized\<close>: a control waits for the earlier ones.\<close>

definition serialize_control :: "nat \<Rightarrow> control \<Rightarrow> terminal \<Rightarrow> terminal" where
  "serialize_control i c t = t\<lparr>tm_chain := tm_chain t @ [(i, c)], tm_asked := tm_asked t @ [(i, c)]\<rparr>"

fun request_of :: "control \<Rightarrow> terminal_request" where
  "request_of (Write_Input b) = Input b"
| "request_of (Change_Size cols rows) = Resize cols rows"
| "request_of (Ask k) = Query k"
| "request_of (Send_Signal s) = Signal s"

fun expects_reply :: "control \<Rightarrow> bool" where
  "expects_reply (Ask _) = True"
| "expects_reply (Send_Signal _) = True"
| "expects_reply _ = False"

text \<open>The head of the chain is settled and leaves it.\<close>

definition settle_head :: "nat \<Rightarrow> error + answer \<Rightarrow> terminal \<Rightarrow> terminal" where
  "settle_head i a t = t\<lparr>tm_chain := tl (tm_chain t), tm_answers := tm_answers t @ [(i, a)]\<rparr>"

definition terminal_is_closed :: error where
  "terminal_is_closed = Plain ''terminal is closed''"

text \<open>The turn of the first control: refused on a closed terminal, else sent; one that expects a reply stays
  first until the reply comes.\<close>

definition run_control :: "terminal \<Rightarrow> terminal" where
  "run_control t =
    (case tm_chain t of
       [] \<Rightarrow> t
     | (i, c) # _ \<Rightarrow>
        (if tm_closed t then settle_head i (Inl terminal_is_closed) t
         else case push (request_of c) (tm_requests t) of
           Inl er \<Rightarrow> settle_head i (Inl er) t
         | Inr (_, q) \<Rightarrow>
            (if expects_reply c then t\<lparr>tm_requests := q, tm_replies := tm_replies t @ [i]\<rparr>
             else settle_head i (Inr Sent) (t\<lparr>tm_requests := q\<rparr>))))"

definition resize_refused :: "js_number \<Rightarrow> js_number \<Rightarrow> bool" where
  "resize_refused cols rows =
    (\<not> is_integer cols \<or> num_lt cols (js_int 1) \<or> \<not> is_integer rows \<or> num_lt rows (js_int 1))"

definition observe_activity :: "string \<Rightarrow> terminal \<Rightarrow> (string \<times> nat) \<times> terminal" where
  "observe_activity state t =
    (let t' = (if state \<noteq> tm_activity_key t
        then t\<lparr>tm_activity_key := state, tm_activity_revision := tm_activity_revision t + 1\<rparr> else t)
     in ((state, tm_activity_revision t'), t'))"

text \<open>What the callers make of a reply.\<close>

definition foreground_of :: "terminal_response \<Rightarrow> (int \<times> bool) option" where
  "foreground_of r = (case r of Foreground_Event True pgid waits \<Rightarrow> Some (pgid, waits) | _ \<Rightarrow> None)"

definition activity_text :: "terminal_response \<Rightarrow> string" where
  "activity_text r = (case r of
     Activity_Event State_Idle \<Rightarrow> ''idle'' | Activity_Event State_Busy \<Rightarrow> ''busy'' | _ \<Rightarrow> ''unknown'')"

definition signaled_group :: "string \<Rightarrow> int \<Rightarrow> int \<Rightarrow> error + int" where
  "signaled_group signal pid pgid =
    (if pgid = 0
     then Inl (Plain (''no foreground process group accepted '' @ signal @ '' in terminal '' @ show_int pid))
     else Inr pgid)"

definition terminate :: "terminal \<Rightarrow> terminal" where
  "terminate t =
    (if tm_closed t then t
     else t\<lparr>tm_closed := True, tm_requests := snd (end_queue (tm_requests t))\<rparr>)"

section \<open>Responses\<close>

definition settle_once :: "'a \<Rightarrow> 'a option \<Rightarrow> 'a option" where
  "settle_once a d = (case d of None \<Rightarrow> Some a | Some _ \<Rightarrow> d)"

definition exit_report :: "int \<Rightarrow> string \<Rightarrow> outcome_report" where
  "exit_report code signal =
    \<lparr>oc_exit_code = (if signal = '''' then Some code else None), oc_signal = (if signal = '''' then None else Some signal)\<rparr>"

definition end_output :: "terminal \<Rightarrow> terminal" where
  "end_output t = (case tm_output_end t of Open \<Rightarrow> t\<lparr>tm_output_end := Ended\<rparr> | _ \<Rightarrow> t)"

definition finish :: "terminal \<Rightarrow> terminal" where
  "finish t = t\<lparr>tm_finished := True\<rparr>"

definition take_reply :: "terminal_response \<Rightarrow> terminal \<Rightarrow> terminal" where
  "take_reply r t =
    (case tm_replies t of
       [] \<Rightarrow> t
     | i # rest \<Rightarrow> settle_head i (Inr (Replied r)) (t\<lparr>tm_replies := rest\<rparr>))"

fun on_response :: "terminal_response \<Rightarrow> terminal \<Rightarrow> terminal" where
  "on_response (Started_Event pid) t = t\<lparr>tm_pid := pid, tm_started := settle_once (Inr pid) (tm_started t)\<rparr>"
| "on_response (Output_Event b) t = (if tm_output_end t = Open then t\<lparr>tm_output := tm_output t @ [b]\<rparr> else t)"
| "on_response (Exited_Event code signal) t =
    t\<lparr>tm_completion := settle_once (Inr (exit_report code signal)) (tm_completion t)\<rparr>"
| "on_response Closed_Event t =
    finish ((end_output t)\<lparr>tm_quiescent := True, tm_closed := True, tm_requests := snd (end_queue (tm_requests t))\<rparr>)"
| "on_response (Foreground_Event present pgid waits) t = take_reply (Foreground_Event present pgid waits) t"
| "on_response (Activity_Event state) t = take_reply (Activity_Event state) t"
| "on_response (Signaled_Event pgid) t = take_reply (Signaled_Event pgid) t"
| "on_response No_Event t = t"

text \<open>\<open>fail\<close>: everything a lost terminal can no longer answer is rejected.\<close>

definition reject_replies :: "error \<Rightarrow> terminal \<Rightarrow> terminal" where
  "reject_replies er t =
    fold (\<lambda>i. settle_head i (Inl er)) (tm_replies t) (t\<lparr>tm_replies := []\<rparr>)"

definition lose :: "error \<Rightarrow> terminal \<Rightarrow> terminal" where
  "lose er t =
    (let t1 = t\<lparr>tm_closed := True, tm_requests := snd (end_queue (tm_requests t)),
           tm_started := settle_once (Inl er) (tm_started t), tm_completion := settle_once (Inl er) (tm_completion t)\<rparr>
     in finish ((reject_replies er t1)\<lparr>tm_output_end := Destroyed er\<rparr>))"

definition end_of_stream :: "(error option) \<Rightarrow> terminal \<Rightarrow> terminal" where
  "end_of_stream failed t =
    (let t' = (case failed of
        Some er \<Rightarrow> lose er t
      | None \<Rightarrow>
         (if tm_completion t \<noteq> None then finish (end_output t)
          else lose (Plain ''terminal stream ended without an exit status'') t))
     in t'\<lparr>tm_over := True\<rparr>)"

section \<open>The pool\<close>

text \<open>\<open>TerminalPool\<close>: the terminals of this runtime by number, and those alive. A spawn adds one; it leaves when its
  exit is known; the end of the seam terminates all.\<close>

definition pool_spawn :: "nat \<Rightarrow> nat list \<Rightarrow> nat list" where
  "pool_spawn i live = (if i \<in> set live then live else live @ [i])"

definition pool_done :: "nat \<Rightarrow> nat list \<Rightarrow> nat list" where
  "pool_done i live = removeAll i live"

definition terminate_all :: "nat list \<Rightarrow> (nat \<Rightarrow> terminal) \<Rightarrow> nat \<Rightarrow> terminal" where
  "terminate_all live ts = fold (\<lambda>i ts. ts(i := terminate (ts i))) live ts"

section \<open>The operations in any order\<close>

text \<open>A caller chooses a fresh number. The connect client reads the request stream by the operations of
  \<open>Message_Queue\<close>.\<close>

inductive terminal_step :: "terminal \<Rightarrow> terminal \<Rightarrow> bool" where
  asks: "i \<notin> fst ` set (tm_asked t) \<Longrightarrow> terminal_step t (serialize_control i c t)"
| turn: "tm_replies t = [] \<Longrightarrow> terminal_step t (run_control t)"
| observes: "terminal_step t (snd (observe_activity state t))"
| terminates: "terminal_step t (terminate t)"
| responds: "\<not> tm_over t \<Longrightarrow> terminal_step t (on_response r t)"
| stream_ends: "\<not> tm_over t \<Longrightarrow> terminal_step t (end_of_stream failed t)"
| reads: "terminal_step t (t\<lparr>tm_requests := snd (next_call n (tm_requests t))\<rparr>)"
| drops: "terminal_step t (t\<lparr>tm_requests := snd (throw_call n er (tm_requests t))\<rparr>)"
| returns: "terminal_step t (t\<lparr>tm_requests := snd (return_call n (tm_requests t))\<rparr>)"

inductive terminal_run :: "terminal \<Rightarrow> terminal \<Rightarrow> bool" for t0 where
  here: "terminal_run t0 t0"
| further: "terminal_run t0 t \<Longrightarrow> terminal_step t t' \<Longrightarrow> terminal_run t0 t'"

section \<open>Facts\<close>

text \<open>An answer of a control: a reply of the runner only if the control expects one.\<close>

definition answer_fits :: "nat \<times> control \<Rightarrow> nat \<times> (error + answer) \<Rightarrow> bool" where
  "answer_fits x y \<longleftrightarrow> fst x = fst y \<and> (\<forall>r. snd y = Inr (Replied r) \<longrightarrow> expects_reply (snd x))"

text \<open>Settled and waiting controls are the asked ones in their order; the one served, if any, waits for a reply and
  is the first; a terminal whose stream is over is finished and its exit is known.\<close>

definition settled_in_order :: "terminal \<Rightarrow> bool" where
  "settled_in_order t \<longleftrightarrow> (\<exists>done. tm_asked t = done @ tm_chain t \<and> list_all2 answer_fits done (tm_answers t))"

definition served :: "terminal \<Rightarrow> bool" where
  "served t \<longleftrightarrow> tm_replies t = [] \<or>
    (\<exists>i c rest. tm_chain t = (i, c) # rest \<and> tm_replies t = [i] \<and> expects_reply c)"

definition terminal_ok :: "terminal \<Rightarrow> bool" where
  "terminal_ok t \<longleftrightarrow>
    distinct (map fst (tm_asked t)) \<and> settled_in_order t \<and> served t
    \<and> (tm_over t \<longrightarrow> tm_finished t \<and> tm_completion t \<noteq> None)
    \<and> (tm_quiescent t \<longrightarrow> tm_closed t \<and> tm_finished t)
    \<and> (tm_closed t \<longrightarrow> ended (tm_requests t))"

lemma ended_queue [simp]:
  "ended (snd (end_queue q))" "ended q \<Longrightarrow> ended (snd (next_call n q))" "ended (snd (throw_call n er q))"
  "ended (snd (return_call n q))"
  by (auto simp: end_queue_def next_call_def throw_call_def return_call_def split: option.split list.split prod.split)

lemma settle_head_simps [simp]:
  "tm_chain (settle_head i a t) = tl (tm_chain t)" "tm_answers (settle_head i a t) = tm_answers t @ [(i, a)]"
  "tm_asked (settle_head i a t) = tm_asked t" "tm_replies (settle_head i a t) = tm_replies t"
  "tm_over (settle_head i a t) = tm_over t" "tm_finished (settle_head i a t) = tm_finished t"
  "tm_completion (settle_head i a t) = tm_completion t" "tm_quiescent (settle_head i a t) = tm_quiescent t"
  "tm_closed (settle_head i a t) = tm_closed t" "tm_requests (settle_head i a t) = tm_requests t"
  by (simp_all add: settle_head_def)

lemma settle_head_in_order:
  assumes "settled_in_order t" and "tm_chain t = (i, c) # rest" and "\<And>r. a = Inr (Replied r) \<Longrightarrow> expects_reply c"
  shows "settled_in_order (settle_head i a t)"
proof -
  obtain settled where "tm_asked t = settled @ (i, c) # rest" "list_all2 answer_fits settled (tm_answers t)"
    using assms(1,2) by (auto simp: settled_in_order_def)
  then show ?thesis
    unfolding settled_in_order_def using assms(2,3)
    by (intro exI [of _ "settled @ [(i, c)]"]) (auto simp: answer_fits_def intro!: list_all2_appendI)
qed

lemma in_order_updates [simp]:
  "settled_in_order (t\<lparr>tm_requests := q\<rparr>) = settled_in_order t"
  "settled_in_order (t\<lparr>tm_replies := rs\<rparr>) = settled_in_order t"
  "settled_in_order (t\<lparr>tm_started := st\<rparr>) = settled_in_order t"
  "settled_in_order (t\<lparr>tm_completion := co\<rparr>) = settled_in_order t"
  "settled_in_order (t\<lparr>tm_finished := b\<rparr>) = settled_in_order t"
  "settled_in_order (t\<lparr>tm_closed := b\<rparr>) = settled_in_order t"
  "settled_in_order (t\<lparr>tm_quiescent := b\<rparr>) = settled_in_order t"
  "settled_in_order (t\<lparr>tm_pid := pid\<rparr>) = settled_in_order t"
  "settled_in_order (t\<lparr>tm_activity_key := k\<rparr>) = settled_in_order t"
  "settled_in_order (t\<lparr>tm_activity_revision := n\<rparr>) = settled_in_order t"
  "settled_in_order (t\<lparr>tm_output := out\<rparr>) = settled_in_order t"
  "settled_in_order (t\<lparr>tm_output_end := oe\<rparr>) = settled_in_order t"
  "settled_in_order (t\<lparr>tm_over := b\<rparr>) = settled_in_order t"
  by (simp_all add: settled_in_order_def)

lemmas head_in_order = settle_head_in_order [of "u\<lparr>tm_requests := q\<rparr>" for u q, simplified]
  settle_head_in_order [of "u\<lparr>tm_replies := rs\<rparr>" for u rs, simplified]

lemma ok_run_control:
  assumes "terminal_ok t" and "tm_replies t = []"
  shows "terminal_ok (run_control t)"
proof (cases "tm_chain t")
  case (Cons h rest)
  obtain i c where h: "h = (i, c)" by (cases h)
  show ?thesis
    using assms Cons
    by (auto simp: run_control_def h terminal_ok_def served_def push_def intro!: head_in_order settle_head_in_order
      split: option.split sum.split)
qed (use assms in \<open>simp add: run_control_def\<close>)

lemma ok_take_reply:
  assumes "terminal_ok t"
  shows "terminal_ok (take_reply r t)"
proof (cases "tm_replies t")
  case (Cons i rest)
  with assms obtain c tail where "tm_chain t = (i, c) # tail" "rest = []" "expects_reply c"
    by (auto simp: terminal_ok_def served_def)
  with assms Cons show ?thesis
    by (auto simp: take_reply_def terminal_ok_def served_def intro!: head_in_order)
qed (use assms in \<open>simp add: take_reply_def\<close>)

lemma end_output_simps [simp]:
  "tm_chain (end_output t) = tm_chain t" "tm_asked (end_output t) = tm_asked t" "tm_answers (end_output t) = tm_answers t"
  "tm_replies (end_output t) = tm_replies t" "tm_completion (end_output t) = tm_completion t"
  "tm_over (end_output t) = tm_over t" "tm_quiescent (end_output t) = tm_quiescent t" "tm_closed (end_output t) = tm_closed t"
  "tm_requests (end_output t) = tm_requests t" "settled_in_order (end_output t) = settled_in_order t"
  by (auto simp: end_output_def split: output_end.split)

lemma ok_on_response: "terminal_ok t \<Longrightarrow> terminal_ok (on_response r t)"
  by (cases r) (auto simp: ok_take_reply, auto simp: terminal_ok_def served_def settle_once_def finish_def split: option.splits)

lemma ok_lose:
  assumes "terminal_ok t"
  shows "terminal_ok ((lose er t)\<lparr>tm_over := b\<rparr>) \<and> tm_replies (lose er t) = []"
proof (cases "tm_replies t")
  case Nil
  with assms show ?thesis
    by (auto simp: lose_def Let_def reject_replies_def finish_def terminal_ok_def served_def settle_once_def split: option.splits)
next
  case (Cons i rest)
  with assms obtain c tail where "tm_chain t = (i, c) # tail" "rest = []" "expects_reply c"
    by (auto simp: terminal_ok_def served_def)
  with assms Cons show ?thesis
    by (auto simp: lose_def Let_def reject_replies_def finish_def terminal_ok_def served_def settle_once_def
      intro!: settle_head_in_order split: option.splits)
qed

lemma ok_end_of_stream:
  assumes "terminal_ok t"
  shows "terminal_ok (end_of_stream failed t)"
proof (cases "failed = None \<and> tm_completion t \<noteq> None")
  case True
  with assms show ?thesis by (auto simp: end_of_stream_def finish_def terminal_ok_def served_def)
next
  case False
  then show ?thesis using ok_lose [OF assms] by (auto simp: end_of_stream_def split: option.split)
qed

lemma ok_step: "terminal_step t t' \<Longrightarrow> terminal_ok t \<Longrightarrow> terminal_ok t'"
proof (induction rule: terminal_step.induct)
  case (asks i t c)
  then show ?case
    unfolding serialize_control_def terminal_ok_def served_def settled_in_order_def by auto
next
  case (observes t state)
  then show ?case by (auto simp: observe_activity_def Let_def terminal_ok_def served_def)
next
  case (terminates t)
  then show ?case by (auto simp: terminate_def terminal_ok_def served_def)
qed (auto simp: ok_run_control ok_on_response ok_end_of_stream, auto simp: terminal_ok_def served_def)

lemma ok_new: "terminal_ok (new_terminal s f)"
  by (simp add: terminal_ok_def new_terminal_def served_def settled_in_order_def)

lemma ok_run: "terminal_run (new_terminal s f) t \<Longrightarrow> terminal_ok t"
  by (induction rule: terminal_run.induct) (auto intro: ok_new ok_step)

section \<open>After the end\<close>

text \<open>On a closed terminal with no control being served, every waiting control is refused in its turn.\<close>

lemma closed_drains:
  assumes "tm_closed t"
  shows "tm_chain ((run_control ^^ length (tm_chain t)) t) = []
    \<and> tm_answers ((run_control ^^ length (tm_chain t)) t) = tm_answers t @ map (\<lambda>(i, c). (i, Inl terminal_is_closed)) (tm_chain t)"
proof -
  have "tm_closed u \<Longrightarrow> n = length (tm_chain u) \<Longrightarrow> tm_chain ((run_control ^^ n) u) = []
    \<and> tm_answers ((run_control ^^ n) u) = tm_answers u @ map (\<lambda>(i, c). (i, Inl terminal_is_closed)) (tm_chain u)" for u n
  proof (induction n arbitrary: u)
    case (Suc n)
    then obtain i c rest where chain: "tm_chain u = (i, c) # rest" by (cases "tm_chain u") auto
    then have "run_control u = settle_head i (Inl terminal_is_closed) u" using Suc.prems by (simp add: run_control_def)
    with Suc.prems chain Suc.IH [of "settle_head i (Inl terminal_is_closed) u"] show ?case
      by (simp del: funpow.simps add: funpow_Suc_right)
  qed simp
  with assms show ?thesis by blast
qed

lemma ok_settled:
  assumes "terminal_ok t"
  shows "map fst (tm_answers t) @ map fst (tm_chain t) = map fst (tm_asked t)"
    and "(i, Inr (Replied r)) \<in> set (tm_answers t) \<Longrightarrow> \<exists>c. (i, c) \<in> set (tm_asked t) \<and> expects_reply c"
proof -
  from assms obtain settled where s: "tm_asked t = settled @ tm_chain t" "list_all2 answer_fits settled (tm_answers t)"
    by (auto simp: terminal_ok_def settled_in_order_def)
  have "map fst settled = map fst (tm_answers t)"
    using s(2) by (induction rule: list_all2_induct) (auto simp: answer_fits_def)
  then show "map fst (tm_answers t) @ map fst (tm_chain t) = map fst (tm_asked t)" using s(1) by simp
  have "\<exists>c. (i, c) \<in> set settled \<and> expects_reply c" if "(i, Inr (Replied r)) \<in> set (tm_answers t)"
    using s(2) that by (induction rule: list_all2_induct) (auto simp: answer_fits_def)
  then show "(i, Inr (Replied r)) \<in> set (tm_answers t) \<Longrightarrow> \<exists>c. (i, c) \<in> set (tm_asked t) \<and> expects_reply c"
    using s(1) by auto
qed

lemma lose_simps:
  "tm_closed (lose er t)" "tm_asked (lose er t) = tm_asked t" "tm_started (lose er t) \<noteq> None"
proof -
  have "tm_closed (fold (\<lambda>i. settle_head i a) is u) = tm_closed u \<and> tm_asked (fold (\<lambda>i. settle_head i a) is u) = tm_asked u
    \<and> tm_started (fold (\<lambda>i. settle_head i a) is u) = tm_started u" for a "is" u
    by (induction "is" arbitrary: u) (auto simp: settle_head_def)
  then show "tm_closed (lose er t)" "tm_asked (lose er t) = tm_asked t" "tm_started (lose er t) \<noteq> None"
    by (simp_all add: lose_def Let_def reject_replies_def finish_def settle_once_def split: option.split)
qed



section \<open>Example\<close>

definition demo_spec :: spawn_spec where
  "demo_spec = \<lparr>sp_argv = [''bash''], sp_cwd = ''/state/s1'', sp_env = [], sp_rows = 24, sp_cols = 80,
     sp_terminal_type = ''xterm'', sp_grace_ms = 1000\<rparr>"

definition demo_frame :: path_frames where
  "demo_frame = \<lparr>pf_session_workspace = Some ''/state/s1'', pf_sandbox_workspace = ''/workspace/repository''\<rparr>"

text \<open>A query is being served and an input waits behind it.\<close>

definition demo_busy :: terminal where
  "demo_busy = serialize_control 2 (Write_Input ''ls'') (run_control (serialize_control 1 (Ask Query_Foreground)
     (new_terminal demo_spec demo_frame)))"

lemma demo_busy_simps:
  "tm_chain demo_busy = [(1, Ask Query_Foreground), (2, Write_Input ''ls'')]" "tm_replies demo_busy = [1]"
  "tm_asked demo_busy = [(1, Ask Query_Foreground), (2, Write_Input ''ls'')]" "tm_answers demo_busy = []"
  "\<not> tm_over demo_busy" "tm_completion demo_busy = None" "\<not> tm_closed demo_busy"
  by (simp_all add: demo_busy_def serialize_control_def run_control_def new_terminal_def push_def new_queue_def)

lemma demo_busy_run: "terminal_run (new_terminal demo_spec demo_frame) demo_busy"
proof -
  let ?t0 = "new_terminal demo_spec demo_frame"
  have "terminal_run ?t0 (serialize_control 1 (Ask Query_Foreground) ?t0)"
    by (rule further [OF here asks]) (simp add: new_terminal_def)
  then have "terminal_run ?t0 (run_control (serialize_control 1 (Ask Query_Foreground) ?t0))"
    by (rule further) (rule turn, simp add: serialize_control_def new_terminal_def)
  then show ?thesis
    unfolding demo_busy_def
    by (rule further) (rule asks, simp add: serialize_control_def new_terminal_def run_control_def push_def new_queue_def)
qed



end
