(* ===== verification/Mcp_Pool.thy ===== *)
theory Mcp_Pool
  imports Mcp_Store
begin

text \<open>
  \<open>mcp/mcp-pool.ts\<close>: the live connections of the stored MCP servers. A connection is a fiber of dsh's
  MCP client, here a number; \<open>starts n\<close> is the message with which starting the \<open>n\<close>-th one throws, if it
  does, and it settles by itself later, well or badly. The bodies between two awaits are the
  steps of \<open>pool_step\<close>; the object of a mount is a number too, since a mount's handler keeps it after the
  map has let it go.
\<close>

section \<open>State\<close>

record client_config =
  cc_server_name :: string
  cc_url :: string
  cc_headers :: "(string \<times> string) list"
  cc_fail_on_startup :: bool
  cc_tool_call_timeout_ms :: int
  cc_reconnect :: "int \<times> int \<times> int"

definition build_config :: "string \<Rightarrow> string \<Rightarrow> string option \<Rightarrow> bool \<Rightarrow> client_config" where
  "build_config n url token fail_on_startup =
    \<lparr>cc_server_name = n, cc_url = url,
     cc_headers = (case token of None \<Rightarrow> [] | Some t \<Rightarrow> [(''Authorization'', ''Bearer '' @ t)]),
     cc_fail_on_startup = fail_on_startup, cc_tool_call_timeout_ms = 60000, cc_reconnect = (500, 30000, 10)\<rparr>"

datatype mount_status = Starting | Connected | Failing

record live_mount =
  lm_entry :: mcp_server_entry
  lm_token :: "string option"
  lm_fibers :: "nat list"
  lm_status :: mount_status
  lm_error :: "string option"
  lm_retired :: bool

text \<open>\<open>mp_started\<close> and \<open>mp_disposed\<close> are the history of the fibers.\<close>

record mcp_pool =
  mp_mounts :: "(string \<times> nat) list"
  mp_objects :: "nat \<Rightarrow> live_mount"
  mp_next_object :: nat
  mp_next_fiber :: nat
  mp_started :: "(nat \<times> client_config) list"
  mp_disposed :: "nat list"
  mp_probes :: "(string \<times> nat option) list"
  mp_probe_count :: nat
  mp_warnings :: "string list"

definition new_pool :: "live_mount \<Rightarrow> mcp_pool" where
  "new_pool unused = \<lparr>mp_mounts = [], mp_objects = (\<lambda>_. unused), mp_next_object = 0, mp_next_fiber = 0, mp_started = [],
     mp_disposed = [], mp_probes = [], mp_probe_count = 0, mp_warnings = []\<rparr>"

definition set_object :: "nat \<Rightarrow> live_mount \<Rightarrow> mcp_pool \<Rightarrow> mcp_pool" where
  "set_object i l p = p\<lparr>mp_objects := (mp_objects p)(i := l)\<rparr>"

section \<open>Mounting\<close>

text \<open>\<open>mount\<close>: starts a fiber or throws.\<close>

definition mount_fiber :: "(nat \<Rightarrow> string option) \<Rightarrow> client_config \<Rightarrow> mcp_pool \<Rightarrow> (string + nat) \<times> mcp_pool" where
  "mount_fiber starts c p =
    (let n = mp_next_fiber p; p' = p\<lparr>mp_next_fiber := n + 1\<rparr> in
     case starts n of
       Some m \<Rightarrow> (Inl m, p')
     | None \<Rightarrow> (Inr n, p'\<lparr>mp_started := mp_started p @ [(n, c)]\<rparr>))"

definition start_mount :: "(nat \<Rightarrow> string option) \<Rightarrow> nat \<Rightarrow> client_config \<Rightarrow> mcp_pool \<Rightarrow> string option \<times> mcp_pool" where
  "start_mount starts i c p =
    (case mount_fiber starts c p of
       (Inl m, p') \<Rightarrow> (Some m, p')
     | (Inr n, p') \<Rightarrow>
        (None, set_object i ((mp_objects p' i)\<lparr>lm_fibers := lm_fibers (mp_objects p' i) @ [n]\<rparr>) p'))"

definition mount_entry :: "(nat \<Rightarrow> string option) \<Rightarrow> string option \<Rightarrow> mcp_server_entry \<Rightarrow> mcp_pool \<Rightarrow> mcp_pool" where
  "mount_entry starts token entry p =
    (let i = mp_next_object p;
         live = \<lparr>lm_entry = entry, lm_token = token, lm_fibers = [], lm_status = Starting, lm_error = None, lm_retired = False\<rparr>;
         p1 = (set_object i live p)\<lparr>mp_next_object := i + 1\<rparr>;
         p2 = (case start_mount starts i (build_config (me_server_name entry) (me_url entry) token True) p1 of
            (None, q) \<Rightarrow> q
          | (Some m, q) \<Rightarrow> set_object i ((mp_objects q i)\<lparr>lm_status := Failing, lm_error := Some m\<rparr>) q)
     in p2\<lparr>mp_mounts := AList.update (me_server_name entry) i (mp_mounts p2)\<rparr>)"

definition unmount :: "string \<Rightarrow> mcp_pool \<Rightarrow> mcp_pool" where
  "unmount n p =
    (case map_of (mp_mounts p) n of
       None \<Rightarrow> p
     | Some i \<Rightarrow>
        (set_object i ((mp_objects p i)\<lparr>lm_retired := True\<rparr>) p)
          \<lparr>mp_mounts := AList.delete n (mp_mounts p), mp_disposed := mp_disposed p @ lm_fibers (mp_objects p i)\<rparr>)"

text \<open>The first fiber of a mount settles.\<close>

definition on_settled :: "nat \<Rightarrow> mcp_pool \<Rightarrow> mcp_pool" where
  "on_settled i p = set_object i ((mp_objects p i)\<lparr>lm_status := Connected\<rparr>) p"

definition retry_after_failure :: "(nat \<Rightarrow> string option) \<Rightarrow> string \<Rightarrow> nat \<Rightarrow> mcp_pool \<Rightarrow> mcp_pool" where
  "retry_after_failure starts n i p =
    (let live = mp_objects p i in
     if lm_retired live \<or> map_of (mp_mounts p) n \<noteq> Some i then p
     else case start_mount starts i (build_config n (me_url (lm_entry live)) (lm_token live) False) p of
       (None, q) \<Rightarrow> q
     | (Some m, q) \<Rightarrow> q\<lparr>mp_warnings := mp_warnings q @ [''MCP client for '' @ n @ '' could not start a reconnect mount: '' @ m]\<rparr>)"

definition on_failed :: "(nat \<Rightarrow> string option) \<Rightarrow> nat \<Rightarrow> string \<Rightarrow> mcp_pool \<Rightarrow> mcp_pool" where
  "on_failed starts i m p =
    (let q = set_object i ((mp_objects p i)\<lparr>lm_status := Failing, lm_error := Some m\<rparr>) p
     in retry_after_failure starts (me_server_name (lm_entry (mp_objects p i))) i q)"

section \<open>Reconciling\<close>

definition mountable :: "js_number \<Rightarrow> mcp_file \<Rightarrow> mcp_server_entry \<Rightarrow> bool" where
  "mountable now servers e =
    (me_enabled e \<and> (me_auth e \<noteq> ''oauth'' \<or> token_for now servers (me_server_name e) \<noteq> None))"

type_synonym wanted_servers = "(string \<times> mcp_server_entry) list"

definition wanted_of :: "mcp_server_entry list \<Rightarrow> wanted_servers" where
  "wanted_of entries = fold (\<lambda>e. AList.update (me_server_name e) e) entries []"

definition outdated :: "js_number \<Rightarrow> mcp_file \<Rightarrow> wanted_servers \<Rightarrow> string \<Rightarrow> live_mount \<Rightarrow> bool" where
  "outdated now servers wanted n live =
    (case map_of wanted n of
       None \<Rightarrow> True
     | Some e \<Rightarrow> \<not> mountable now servers e \<or> me_url (lm_entry live) \<noteq> me_url e
         \<or> lm_token live \<noteq> token_for now servers n)"

text \<open>One turn of the first loop, and the second loop, which has no await.\<close>

definition reconcile_mount ::
  "js_number \<Rightarrow> mcp_file \<Rightarrow> wanted_servers \<Rightarrow> string \<times> nat \<Rightarrow> mcp_pool \<Rightarrow> mcp_pool" where
  "reconcile_mount now servers wanted x p =
    (if outdated now servers wanted (fst x) (mp_objects p (snd x)) then unmount (fst x) p else p)"

definition mount_wanted :: "(nat \<Rightarrow> string option) \<Rightarrow> js_number \<Rightarrow> mcp_file \<Rightarrow> mcp_server_entry \<Rightarrow> mcp_pool \<Rightarrow> mcp_pool" where
  "mount_wanted starts now servers e p =
    (if \<not> mountable now servers e \<or> map_of (mp_mounts p) (me_server_name e) \<noteq> None then p
     else mount_entry starts (token_for now servers (me_server_name e)) e p)"

definition mount_missing ::
  "(nat \<Rightarrow> string option) \<Rightarrow> js_number \<Rightarrow> mcp_file \<Rightarrow> wanted_servers \<Rightarrow> mcp_pool \<Rightarrow> mcp_pool" where
  "mount_missing starts now servers wanted p = fold (mount_wanted starts now servers) (map snd wanted) p"

text \<open>A whole reconciliation with nothing in between.\<close>

definition reconcile_pool :: "(nat \<Rightarrow> string option) \<Rightarrow> js_number \<Rightarrow> mcp_file \<Rightarrow> mcp_pool \<Rightarrow> mcp_pool" where
  "reconcile_pool starts now servers p =
    (let wanted = wanted_of (list_servers servers)
     in mount_missing starts now servers wanted (fold (reconcile_mount now servers wanted) (mp_mounts p) p))"

definition remount :: "(nat \<Rightarrow> string option) \<Rightarrow> js_number \<Rightarrow> mcp_file \<Rightarrow> string \<Rightarrow> mcp_pool \<Rightarrow> mcp_pool" where
  "remount starts now servers n p =
    (case get_server servers n of
       None \<Rightarrow> p
     | Some e \<Rightarrow> if mountable now servers e then mount_entry starts (token_for now servers n) e p else p)"

definition dispose_pool :: "mcp_pool \<Rightarrow> mcp_pool" where
  "dispose_pool p = fold unmount (map fst (mp_mounts p)) p"

section \<open>Probes\<close>

definition probe_token :: "js_number \<Rightarrow> mcp_file \<Rightarrow> mcp_server_entry \<Rightarrow> string option" where
  "probe_token now servers e =
    (let saved = get_server servers (me_server_name e);
         same_mode = (case saved of None \<Rightarrow> False | Some s \<Rightarrow> me_auth s = me_auth e) in
     if me_auth e = ''none'' then None
     else if me_auth e = ''bearer'' then
       (case me_token e of
          Some t \<Rightarrow> if t \<noteq> '''' then Some t
            else if same_mode then token_for now servers (me_server_name e) else None
        | None \<Rightarrow> if same_mode then token_for now servers (me_server_name e) else None)
     else if same_mode \<and> map_option me_url saved = Some (me_url e) then token_for now servers (me_server_name e)
     else None)"

text \<open>\<open>toString(36)\<close>.\<close>

definition digit36 :: "nat \<Rightarrow> char" where
  "digit36 d = (if d < 10 then char_of (48 + d) else char_of (87 + d))"

fun base36 :: "nat \<Rightarrow> string" where
  "base36 n = (if n < 36 then [digit36 n] else base36 (n div 36) @ [digit36 (n mod 36)])"

declare base36.simps [simp del]

definition name_taken :: "mcp_pool \<Rightarrow> string \<Rightarrow> bool" where
  "name_taken p n = (map_of (mp_mounts p) n \<noteq> None \<or> map_of (mp_probes p) n \<noteq> None)"

text \<open>The loop of \<open>probeName\<close>; one turn more than there are names taken is enough.\<close>

fun probe_loop :: "nat \<Rightarrow> mcp_pool \<Rightarrow> string \<Rightarrow> (string \<times> nat) option" where
  "probe_loop 0 p n = None"
| "probe_loop (Suc fuel) p n =
    (if name_taken p n
     then let k = mp_probe_count p + 1 in probe_loop fuel (p\<lparr>mp_probe_count := k\<rparr>) (''probe_'' @ base36 k)
     else Some (n, mp_probe_count p))"

definition probe_name :: "string \<Rightarrow> mcp_pool \<Rightarrow> (string \<times> mcp_pool) option" where
  "probe_name server p =
    (case probe_loop (length (mp_mounts p) + length (mp_probes p) + 2) p (take 32 (''probe_'' @ server)) of
       None \<Rightarrow> None
     | Some (n, k) \<Rightarrow> Some (n, p\<lparr>mp_probe_count := k, mp_probes := AList.update n None (mp_probes p)\<rparr>))"

record test_result =
  te_ok :: bool
  te_tool_count :: nat
  te_error :: "string option"

text \<open>\<open>testConnection\<close> from the end of its wait (settled well, or badly, or late), and up to that wait, which it does not
  reach when the client does not start.\<close>

definition probe_end :: "string \<Rightarrow> string list \<Rightarrow> string + unit \<Rightarrow> mcp_pool \<Rightarrow> test_result \<times> mcp_pool" where
  "probe_end n tools outcome p =
    ((case outcome of
        Inr _ \<Rightarrow> \<lparr>te_ok = True, te_tool_count = length (filter (\<lambda>t. is_tool_of_server t n) tools), te_error = None\<rparr>
      | Inl m \<Rightarrow> \<lparr>te_ok = False, te_tool_count = 0, te_error = Some m\<rparr>),
     p\<lparr>mp_probes := AList.delete n (mp_probes p),
       mp_disposed := mp_disposed p @ (case map_of (mp_probes p) n of Some (Some k) \<Rightarrow> [k] | _ \<Rightarrow> [])\<rparr>)"

definition probe_begin ::
  "(nat \<Rightarrow> string option) \<Rightarrow> js_number \<Rightarrow> mcp_file \<Rightarrow> mcp_server_entry \<Rightarrow> mcp_pool \<Rightarrow>
    ((test_result + string) \<times> mcp_pool) option" where
  "probe_begin starts now servers e p =
    (case probe_name (me_server_name e) p of
       None \<Rightarrow> None
     | Some (n, p1) \<Rightarrow>
        (case mount_fiber starts (build_config n (me_url e) (probe_token now servers e) True) p1 of
           (Inl m, p2) \<Rightarrow> (case probe_end n [] (Inl m) p2 of (r, p3) \<Rightarrow> Some (Inl r, p3))
         | (Inr k, p2) \<Rightarrow> Some (Inr n, p2\<lparr>mp_probes := AList.update n (Some k) (mp_probes p2)\<rparr>)))"

section \<open>What the page shows\<close>

datatype shown_status = Shown_Connected | Shown_Starting | Shown_Error | Shown_Disabled | Shown_Needs_Auth

record mcp_server_view =
  mv_entry :: mcp_server_entry
  mv_has_token :: bool
  mv_authorization :: "oauth_status option"
  mv_status :: shown_status
  mv_tool_count :: nat
  mv_tools :: "string list"
  mv_error :: "string option"

definition no_tools_registered :: string where
  "no_tools_registered = ''no tools are registered'' @ [CHR '' '', CHR 0xE2, CHR 0x80, CHR 0x94, CHR '' '']
     @ ''the connection was lost or the server advertises none''"

definition shown_status_of :: "mcp_server_entry \<Rightarrow> live_mount option \<Rightarrow> nat \<Rightarrow> shown_status" where
  "shown_status_of e live tool_count =
    (case live of
       None \<Rightarrow> if me_enabled e \<and> me_auth e = ''oauth'' then Shown_Needs_Auth else Shown_Disabled
     | Some l \<Rightarrow>
        if 0 < tool_count then Shown_Connected
        else (case lm_status l of Connected \<Rightarrow> Shown_Error | Starting \<Rightarrow> Shown_Starting | Failing \<Rightarrow> Shown_Error))"

definition pool_view ::
  "js_number \<Rightarrow> mcp_file \<Rightarrow> string list \<Rightarrow> mcp_pool \<Rightarrow> mcp_server_entry \<Rightarrow> mcp_server_view" where
  "pool_view now servers names p e =
    (let n = me_server_name e;
         live = map_option (mp_objects p) (map_of (mp_mounts p) n);
         tools = (if live = None then [] else sort (filter (\<lambda>t. is_tool_of_server t n) names));
         status = shown_status_of e live (length tools) in
     \<lparr>mv_entry = e, mv_has_token = has_bearer_token servers n,
      mv_authorization = (if me_auth e = ''oauth'' then Some (oauth_status_of now servers n) else None),
      mv_status = status,
      mv_tool_count = (if status = Shown_Connected then length tools else 0),
      mv_tools = (if status = Shown_Connected then tools else []),
      mv_error = (if status = Shown_Error
        then Some (case Option.bind live lm_error of Some m \<Rightarrow> m | None \<Rightarrow> no_tools_registered) else None)\<rparr>)"

definition pool_views :: "js_number \<Rightarrow> mcp_file \<Rightarrow> string list \<Rightarrow> mcp_pool \<Rightarrow> mcp_server_view list" where
  "pool_views now servers names p = map (pool_view now servers names p) (list_servers servers)"

section \<open>The steps in any order\<close>

text \<open>\<open>serialize\<close> runs one reconciliation or retry at a time; the store and the time change, connections settle, probes
  and a disposal run in between. The promise of a mount's first fiber settles once, when the mount is
  starting.\<close>

datatype pool_job = Reconciling wanted_servers "(string \<times> nat) list" | Retrying string

record pool_host =
  ph_pool :: mcp_pool
  ph_job :: "pool_job option"
  ph_servers :: mcp_file
  ph_now :: js_number

definition awaits_first :: "nat \<Rightarrow> mcp_pool \<Rightarrow> bool" where
  "awaits_first i p \<longleftrightarrow> i < mp_next_object p \<and> lm_status (mp_objects p i) = Starting \<and> lm_fibers (mp_objects p i) \<noteq> []"

inductive pool_step :: "(nat \<Rightarrow> string option) \<Rightarrow> pool_host \<Rightarrow> pool_host \<Rightarrow> bool" for starts :: "nat \<Rightarrow> string option" where
  stored: "pool_step starts h (h\<lparr>ph_servers := servers, ph_now := now\<rparr>)"
| sync_begins: "ph_job h = None \<Longrightarrow>
    pool_step starts h (h\<lparr>ph_job := Some (Reconciling (wanted_of (list_servers (ph_servers h))) (mp_mounts (ph_pool h)))\<rparr>)"
| sync_turn: "ph_job h = Some (Reconciling wanted (x # xs)) \<Longrightarrow>
    pool_step starts h (h\<lparr>ph_pool := reconcile_mount (ph_now h) (ph_servers h) wanted x (ph_pool h),
      ph_job := Some (Reconciling wanted xs)\<rparr>)"
| sync_ends: "ph_job h = Some (Reconciling wanted []) \<Longrightarrow>
    pool_step starts h (h\<lparr>ph_pool := mount_missing starts (ph_now h) (ph_servers h) wanted (ph_pool h), ph_job := None\<rparr>)"
| retry_begins: "ph_job h = None \<Longrightarrow>
    pool_step starts h (h\<lparr>ph_pool := unmount n (ph_pool h), ph_job := Some (Retrying n)\<rparr>)"
| retry_ends: "ph_job h = Some (Retrying n) \<Longrightarrow>
    pool_step starts h (h\<lparr>ph_pool := remount starts (ph_now h) (ph_servers h) n (ph_pool h), ph_job := None\<rparr>)"
| settles: "awaits_first i (ph_pool h) \<Longrightarrow> pool_step starts h (h\<lparr>ph_pool := on_settled i (ph_pool h)\<rparr>)"
| fails: "awaits_first i (ph_pool h) \<Longrightarrow> pool_step starts h (h\<lparr>ph_pool := on_failed starts i m (ph_pool h)\<rparr>)"
| disposes: "pool_step starts h (h\<lparr>ph_pool := dispose_pool (ph_pool h)\<rparr>)"
| probe_begins: "probe_begin starts (ph_now h) (ph_servers h) e (ph_pool h) = Some (r, p) \<Longrightarrow>
    pool_step starts h (h\<lparr>ph_pool := p\<rparr>)"
| probe_ends: "pool_step starts h (h\<lparr>ph_pool := snd (probe_end n tools outcome (ph_pool h))\<rparr>)"

inductive pool_run :: "(nat \<Rightarrow> string option) \<Rightarrow> pool_host \<Rightarrow> pool_host \<Rightarrow> bool" for starts h0 where
  here: "pool_run starts h0 h0"
| further: "pool_run starts h0 h \<Longrightarrow> pool_step starts h h' \<Longrightarrow> pool_run starts h0 h'"

section \<open>Who owns a connection\<close>

definition fibers_of :: "mcp_pool \<Rightarrow> nat \<Rightarrow> nat set" where
  "fibers_of p i = set (lm_fibers (mp_objects p i))"

definition mounted :: "mcp_pool \<Rightarrow> nat \<Rightarrow> bool" where
  "mounted p i \<longleftrightarrow> (\<exists>n. map_of (mp_mounts p) n = Some i)"

definition probed :: "mcp_pool \<Rightarrow> nat \<Rightarrow> bool" where
  "probed p k \<longleftrightarrow> (\<exists>n. map_of (mp_probes p) n = Some (Some k))"

definition mount_ok :: "mcp_pool \<Rightarrow> string \<Rightarrow> nat \<Rightarrow> bool" where
  "mount_ok p n i \<longleftrightarrow>
    (let live = mp_objects p i in
     i < mp_next_object p \<and> \<not> lm_retired live \<and> me_server_name (lm_entry live) = n
     \<and> length (lm_fibers live) \<le> (if lm_status live = Starting then 1 else 2)
     \<and> (\<forall>k \<in> set (lm_fibers live). k \<notin> set (mp_disposed p)
          \<and> (\<exists>b. (k, build_config n (me_url (lm_entry live)) (lm_token live) b) \<in> set (mp_started p))))"

definition pool_ok :: "mcp_pool \<Rightarrow> bool" where
  "pool_ok p \<longleftrightarrow>
    (\<forall>n i. map_of (mp_mounts p) n = Some i \<longrightarrow> mount_ok p n i)
    \<and> (\<forall>i < mp_next_object p. \<forall>k \<in> fibers_of p i. k < mp_next_fiber p)
    \<and> (\<forall>i < mp_next_object p. \<forall>j < mp_next_object p. i \<noteq> j \<longrightarrow> fibers_of p i \<inter> fibers_of p j = {})
    \<and> (\<forall>n k. map_of (mp_probes p) n = Some (Some k) \<longrightarrow> k < mp_next_fiber p \<and> k \<notin> set (mp_disposed p)
         \<and> (\<forall>i < mp_next_object p. k \<notin> fibers_of p i) \<and> (\<forall>m. map_of (mp_probes p) m = Some (Some k) \<longrightarrow> m = n))
    \<and> (\<forall>k \<in> set (mp_disposed p). k < mp_next_fiber p)
    \<and> (\<forall>x \<in> set (mp_started p). fst x < mp_next_fiber p
         \<and> (fst x \<in> set (mp_disposed p) \<or> (\<exists>i. mounted p i \<and> fst x \<in> fibers_of p i) \<or> probed p (fst x)))"

lemma set_object_simps [simp]:
  "mp_mounts (set_object i l p) = mp_mounts p" "mp_next_object (set_object i l p) = mp_next_object p"
  "mp_next_fiber (set_object i l p) = mp_next_fiber p" "mp_started (set_object i l p) = mp_started p"
  "mp_disposed (set_object i l p) = mp_disposed p" "mp_probes (set_object i l p) = mp_probes p"
  "mp_objects (set_object i l p) = (mp_objects p)(i := l)"
  by (simp_all add: set_object_def)

lemma pool_okD:
  assumes "pool_ok p"
  shows "\<And>i k. i < mp_next_object p \<Longrightarrow> k \<in> fibers_of p i \<Longrightarrow> k < mp_next_fiber p"
    and "\<And>i j k. i < mp_next_object p \<Longrightarrow> j < mp_next_object p \<Longrightarrow> k \<in> fibers_of p i \<Longrightarrow> k \<in> fibers_of p j \<Longrightarrow> i = j"
    and "\<And>n k. map_of (mp_probes p) n = Some (Some k) \<Longrightarrow> k < mp_next_fiber p \<and> k \<notin> set (mp_disposed p)"
    and "\<And>n k i. map_of (mp_probes p) n = Some (Some k) \<Longrightarrow> i < mp_next_object p \<Longrightarrow> k \<notin> fibers_of p i"
    and "\<And>n m k. map_of (mp_probes p) n = Some (Some k) \<Longrightarrow> map_of (mp_probes p) m = Some (Some k) \<Longrightarrow> m = n"
    and "\<And>k. k \<in> set (mp_disposed p) \<Longrightarrow> k < mp_next_fiber p"
    and "\<And>x. x \<in> set (mp_started p) \<Longrightarrow> fst x < mp_next_fiber p"
    and "\<And>x. x \<in> set (mp_started p) \<Longrightarrow>
      fst x \<in> set (mp_disposed p) \<or> (\<exists>i. mounted p i \<and> fst x \<in> fibers_of p i) \<or> probed p (fst x)"
  using assms unfolding pool_ok_def by (blast+)

lemma pool_okI:
  assumes "\<And>n i. map_of (mp_mounts p) n = Some i \<Longrightarrow> mount_ok p n i"
    and "\<And>i k. i < mp_next_object p \<Longrightarrow> k \<in> fibers_of p i \<Longrightarrow> k < mp_next_fiber p"
    and "\<And>i j k. i < mp_next_object p \<Longrightarrow> j < mp_next_object p \<Longrightarrow> k \<in> fibers_of p i \<Longrightarrow> k \<in> fibers_of p j \<Longrightarrow> i = j"
    and "\<And>n k. map_of (mp_probes p) n = Some (Some k) \<Longrightarrow> k < mp_next_fiber p \<and> k \<notin> set (mp_disposed p)"
    and "\<And>n k i. map_of (mp_probes p) n = Some (Some k) \<Longrightarrow> i < mp_next_object p \<Longrightarrow> k \<notin> fibers_of p i"
    and "\<And>n m k. map_of (mp_probes p) n = Some (Some k) \<Longrightarrow> map_of (mp_probes p) m = Some (Some k) \<Longrightarrow> m = n"
    and "\<And>k. k \<in> set (mp_disposed p) \<Longrightarrow> k < mp_next_fiber p"
    and "\<And>x. x \<in> set (mp_started p) \<Longrightarrow> fst x < mp_next_fiber p"
    and "\<And>x. x \<in> set (mp_started p) \<Longrightarrow>
      fst x \<in> set (mp_disposed p) \<or> (\<exists>i. mounted p i \<and> fst x \<in> fibers_of p i) \<or> probed p (fst x)"
  shows "pool_ok p"
  using assms unfolding pool_ok_def by blast

lemma pool_ok_mount: "pool_ok p \<Longrightarrow> map_of (mp_mounts p) n = Some i \<Longrightarrow> mount_ok p n i"
  by (simp add: pool_ok_def)

lemma mounted_once:
  assumes "pool_ok p" and "map_of (mp_mounts p) n = Some i" and "map_of (mp_mounts p) m = Some i"
  shows "m = n"
  using pool_ok_mount [OF assms(1,2)] pool_ok_mount [OF assms(1,3)] by (simp add: mount_ok_def Let_def)

lemma ok_status:
  assumes "pool_ok p" and "st \<noteq> Starting"
  shows "pool_ok (set_object i ((mp_objects p i)\<lparr>lm_status := st, lm_error := m\<rparr>) p)"
proof -
  have "mount_ok (set_object i ((mp_objects p i)\<lparr>lm_status := st, lm_error := m\<rparr>) p) n j" if "mount_ok p n j" for n j
    using that assms(2) by (auto simp: mount_ok_def Let_def split: if_splits)
  moreover have "fibers_of (set_object i ((mp_objects p i)\<lparr>lm_status := st, lm_error := m\<rparr>) p) j = fibers_of p j" for j
    by (simp add: fibers_of_def)
  ultimately show ?thesis using assms(1) by (simp add: pool_ok_def mounted_def probed_def)
qed

lemma ok_unmount:
  assumes "pool_ok p"
  shows "pool_ok (unmount n p)"
proof (cases "map_of (mp_mounts p) n")
  case (Some i)
  let ?q = "unmount n p"
  have q: "mp_mounts ?q = AList.delete n (mp_mounts p)" "mp_disposed ?q = mp_disposed p @ lm_fibers (mp_objects p i)"
    "mp_objects ?q = (mp_objects p)(i := (mp_objects p i)\<lparr>lm_retired := True\<rparr>)" "mp_next_object ?q = mp_next_object p"
    "mp_next_fiber ?q = mp_next_fiber p" "mp_started ?q = mp_started p" "mp_probes ?q = mp_probes p"
    by (simp_all add: unmount_def Some)
  have i: "i < mp_next_object p" using pool_ok_mount [OF assms Some] by (simp add: mount_ok_def Let_def)
  have fibers: "fibers_of ?q j = fibers_of p j" for j by (simp add: fibers_of_def q)
  have mounts: "mount_ok ?q m j" if m: "map_of (mp_mounts ?q) m = Some j" for m j
  proof -
    have mj: "m \<noteq> n" "map_of (mp_mounts p) m = Some j" using m by (auto simp: q split: if_splits)
    then have "j \<noteq> i" using mounted_once [OF assms Some] by blast
    moreover have "fibers_of p j \<inter> fibers_of p i = {}"
      using assms pool_ok_mount [OF assms mj(2)] i \<open>j \<noteq> i\<close> by (simp add: pool_ok_def mount_ok_def Let_def)
    ultimately show ?thesis
      using pool_ok_mount [OF assms mj(2)] by (auto simp: mount_ok_def Let_def q fibers_of_def)
  qed
  have started: "fst x \<in> set (mp_disposed ?q) \<or> (\<exists>j. mounted ?q j \<and> fst x \<in> fibers_of p j) \<or> probed p (fst x)"
    if "x \<in> set (mp_started p)" for x
  proof -
    have "fst x \<in> set (mp_disposed p) \<or> (\<exists>j. mounted p j \<and> fst x \<in> fibers_of p j) \<or> probed p (fst x)"
      using assms that by (auto simp: pool_ok_def)
    moreover have "mounted ?q j" if "mounted p j" "j \<noteq> i" for j
    proof -
      from that(1) obtain m where m: "map_of (mp_mounts p) m = Some j" by (auto simp: mounted_def)
      with that(2) Some have "m \<noteq> n" by auto
      with m show ?thesis unfolding mounted_def q by (intro exI [of _ m]) simp
    qed
    ultimately show ?thesis by (auto simp: q fibers_of_def)
  qed
  have disposed: "\<forall>k \<in> fibers_of p i. k < mp_next_fiber p" using assms i by (simp add: pool_ok_def)
  show ?thesis
    using assms i mounts started disposed
    unfolding pool_ok_def fibers q(2,4-7) probed_def
    by (auto simp: q fibers_of_def)
qed (simp add: unmount_def assms)

text \<open>A fiber more for a mount that has room for it.\<close>

lemma ok_start_mount:
  assumes "pool_ok p" and n: "map_of (mp_mounts p) n = Some i"
    and room: "length (lm_fibers (mp_objects p i)) < (if lm_status (mp_objects p i) = Starting then 1 else 2)"
    and c: "c = build_config n (me_url (lm_entry (mp_objects p i))) (lm_token (mp_objects p i)) b"
    and q: "start_mount starts i c p = (r, q)"
  shows "pool_ok q \<and> mp_mounts q = mp_mounts p"
proof (cases "starts (mp_next_fiber p)")
  case (Some m)
  then have "q = p\<lparr>mp_next_fiber := mp_next_fiber p + 1\<rparr>"
    using q by (simp add: start_mount_def mount_fiber_def Let_def)
  then show ?thesis
    using assms(1) by (auto simp: pool_ok_def mount_ok_def mounted_def probed_def Let_def less_Suc_eq fibers_of_def)
next
  case None
  let ?k = "mp_next_fiber p"
  have q: "mp_mounts q = mp_mounts p" "mp_disposed q = mp_disposed p" "mp_next_object q = mp_next_object p"
    "mp_next_fiber q = Suc ?k" "mp_started q = mp_started p @ [(?k, c)]" "mp_probes q = mp_probes p"
    "mp_objects q = (mp_objects p)(i := (mp_objects p i)\<lparr>lm_fibers := lm_fibers (mp_objects p i) @ [?k]\<rparr>)"
    using q None by (auto simp: start_mount_def mount_fiber_def Let_def)
  have i: "i < mp_next_object p" using pool_ok_mount [OF assms(1) n] by (simp add: mount_ok_def Let_def)
  have fibers: "fibers_of q j = fibers_of p j \<union> (if j = i then {?k} else {})" for j by (auto simp: fibers_of_def q)
  have below: "\<forall>k \<in> fibers_of p j. k < ?k" if "j < mp_next_object p" for j using assms(1) that by (simp add: pool_ok_def)
  have fresh: "?k \<notin> set (mp_disposed p)" "\<not> probed p ?k"
    using assms(1) by (auto simp: pool_ok_def probed_def)
  have mounts: "mount_ok q m j" if m: "map_of (mp_mounts p) m = Some j" for m j
  proof (cases "j = i")
    case True
    then have "m = n" using mounted_once [OF assms(1) n] m by blast
    with True pool_ok_mount [OF assms(1) m] room c fresh(1) show ?thesis
      by (auto simp: mount_ok_def Let_def q)
  next
    case False
    with pool_ok_mount [OF assms(1) m] show ?thesis by (auto simp: mount_ok_def Let_def q)
  qed
  have started: "fst x < Suc ?k \<and> (fst x \<in> set (mp_disposed p) \<or> (\<exists>j. mounted q j \<and> fst x \<in> fibers_of q j) \<or> probed q (fst x))"
    if "x \<in> set (mp_started q)" for x
  proof (cases "x = (?k, c)")
    case True
    then show ?thesis using n by (auto simp: fibers mounted_def q)
  next
    case False
    with that have x: "x \<in> set (mp_started p)" by (simp add: q)
    have "mounted q = mounted p" "probed q = probed p" by (auto simp: mounted_def probed_def q)
    with pool_okD(7,8) [OF assms(1) x] show ?thesis by (auto simp: fibers)
  qed
  have "pool_ok q"
  proof (rule pool_okI)
    fix j k l assume "j < mp_next_object q" "l < mp_next_object q" "k \<in> fibers_of q j" "k \<in> fibers_of q l"
    then show "j = l" using below pool_okD(2) [OF assms(1)] by (auto simp: q(3) fibers split: if_splits)
  next
    fix m k j assume "map_of (mp_probes q) m = Some (Some k)" "j < mp_next_object q"
    then show "k \<notin> fibers_of q j" using pool_okD(3,4) [OF assms(1)] by (auto simp: q(3,6) fibers)
  next
    fix m l k assume "map_of (mp_probes q) m = Some (Some k)" "map_of (mp_probes q) l = Some (Some k)"
    then show "l = m" using pool_okD(5) [OF assms(1)] by (simp add: q(6))
  next
    fix x assume "x \<in> set (mp_started q)"
    from started [OF this] show "fst x < mp_next_fiber q"
      "fst x \<in> set (mp_disposed q) \<or> (\<exists>j. mounted q j \<and> fst x \<in> fibers_of q j) \<or> probed q (fst x)"
      by (simp_all add: q(2,4))
  next
    show "\<And>m j. map_of (mp_mounts q) m = Some j \<Longrightarrow> mount_ok q m j" by (rule mounts) (simp add: q(1))
  next
    show "\<And>j k. j < mp_next_object q \<Longrightarrow> k \<in> fibers_of q j \<Longrightarrow> k < mp_next_fiber q"
      using below by (auto simp: q(3,4) fibers less_Suc_eq split: if_splits)
  next
    show "\<And>m k. map_of (mp_probes q) m = Some (Some k) \<Longrightarrow> k < mp_next_fiber q \<and> k \<notin> set (mp_disposed q)"
      "\<And>k. k \<in> set (mp_disposed q) \<Longrightarrow> k < mp_next_fiber q"
      using pool_okD(3,6) [OF assms(1)] by (auto simp: q(2,4,6) less_Suc_eq)
  qed
  then show ?thesis by (simp add: q(1))
qed

text \<open>A new object, mounted.\<close>

definition adopt :: "string option \<Rightarrow> mcp_server_entry \<Rightarrow> mcp_pool \<Rightarrow> mcp_pool" where
  "adopt token e p =
    (let i = mp_next_object p in
     (set_object i \<lparr>lm_entry = e, lm_token = token, lm_fibers = [], lm_status = Starting, lm_error = None, lm_retired = False\<rparr> p)
       \<lparr>mp_next_object := i + 1, mp_mounts := AList.update (me_server_name e) i (mp_mounts p)\<rparr>)"

lemma mount_entry_adopt:
  "mount_entry starts token e p =
    (case start_mount starts (mp_next_object p) (build_config (me_server_name e) (me_url e) token True) (adopt token e p) of
       (None, q) \<Rightarrow> q
     | (Some m, q) \<Rightarrow> set_object (mp_next_object p)
         ((mp_objects q (mp_next_object p))\<lparr>lm_status := Failing, lm_error := Some m\<rparr>) q)"
  by (simp add: mount_entry_def start_mount_def mount_fiber_def adopt_def set_object_def Let_def split: option.split)

lemma ok_adopt:
  assumes "pool_ok p" and n: "map_of (mp_mounts p) (me_server_name e) = None"
  shows "pool_ok (adopt token e p)"
proof -
  let ?q = "adopt token e p" and ?i = "mp_next_object p"
  have q: "mp_mounts ?q = AList.update (me_server_name e) ?i (mp_mounts p)" "mp_disposed ?q = mp_disposed p"
    "mp_next_object ?q = Suc ?i" "mp_next_fiber ?q = mp_next_fiber p" "mp_started ?q = mp_started p" "mp_probes ?q = mp_probes p"
    "mp_objects ?q = (mp_objects p)(?i := \<lparr>lm_entry = e, lm_token = token, lm_fibers = [], lm_status = Starting,
       lm_error = None, lm_retired = False\<rparr>)"
    by (simp_all add: adopt_def Let_def)
  have fibers: "fibers_of ?q j = (if j = ?i then {} else fibers_of p j)" for j by (simp add: fibers_of_def q)
  have mounts: "mount_ok ?q m j" if m: "map_of (mp_mounts ?q) m = Some j" for m j
  proof (cases "m = me_server_name e")
    case True
    with m show ?thesis by (auto simp: q mount_ok_def Let_def)
  next
    case False
    with m have m': "map_of (mp_mounts p) m = Some j" by (simp add: q)
    from pool_ok_mount [OF assms(1) m'] show ?thesis by (auto simp: mount_ok_def Let_def q)
  qed
  have mounted: "mounted ?q j" if "mounted p j" for j
    using that n unfolding mounted_def q by (metis fun_upd_other map_of_update_alist option.distinct(1))
  have less: "j < ?i" if "mounted p j" for j
    using that pool_ok_mount [OF assms(1)] by (auto simp: mounted_def mount_ok_def Let_def)
  have started: "fst x \<in> set (mp_disposed p) \<or> (\<exists>j. mounted ?q j \<and> fst x \<in> fibers_of ?q j) \<or> probed p (fst x)"
    if "x \<in> set (mp_started p)" for x
    using assms(1) that mounted less unfolding pool_ok_def fibers by (metis less_irrefl)
  show ?thesis
  proof (rule pool_okI)
    show "\<And>m j. map_of (mp_mounts ?q) m = Some j \<Longrightarrow> mount_ok ?q m j" by (rule mounts)
  next
    fix x assume x: "x \<in> set (mp_started ?q)"
    then show "fst x < mp_next_fiber ?q" using pool_okD(7) [OF assms(1)] by (simp add: q(4,5))
    from x started show "fst x \<in> set (mp_disposed ?q) \<or> (\<exists>j. mounted ?q j \<and> fst x \<in> fibers_of ?q j) \<or> probed ?q (fst x)"
      by (simp add: q(2,5,6) probed_def)
  qed (use pool_okD(1-6) [OF assms(1)] in \<open>auto simp: q(2-4,6) fibers less_Suc_eq split: if_splits\<close>)
qed

lemma ok_mount_entry:
  assumes "pool_ok p" and "map_of (mp_mounts p) (me_server_name e) = None"
  shows "pool_ok (mount_entry starts token e p)"
proof -
  let ?c = "build_config (me_server_name e) (me_url e) token True"
  obtain r q where s: "start_mount starts (mp_next_object p) ?c (adopt token e p) = (r, q)" by (rule prod.exhaust)
  have "pool_ok q"
    using ok_start_mount [OF ok_adopt [OF assms] _ _ _ s, of "me_server_name e" True]
    by (simp add: adopt_def Let_def)
  then show ?thesis by (simp add: mount_entry_adopt s ok_status split: option.split)
qed

lemma start_mount_frame:
  "start_mount starts i c p = (r, q) \<Longrightarrow> mp_mounts q = mp_mounts p \<and> mp_probes q = mp_probes p"
  by (auto simp: start_mount_def mount_fiber_def Let_def split: option.splits)

lemma pool_ok_warned [simp]: "pool_ok (p\<lparr>mp_warnings := ws\<rparr>) = pool_ok p"
  by (simp add: pool_ok_def mount_ok_def fibers_of_def mounted_def probed_def)

lemma on_failed_mounts: "mp_mounts (on_failed starts i m p) = mp_mounts p"
  by (auto simp: on_failed_def retry_after_failure_def Let_def dest: start_mount_frame split: prod.split option.split)

lemma ok_on_failed:
  assumes "pool_ok p" and "awaits_first i p"
  shows "pool_ok (on_failed starts i m p)"
proof -
  let ?n = "me_server_name (lm_entry (mp_objects p i))"
  let ?q = "set_object i ((mp_objects p i)\<lparr>lm_status := Failing, lm_error := Some m\<rparr>) p"
  have q: "pool_ok ?q" by (rule ok_status [OF assms(1)]) simp
  show ?thesis
  proof (cases "map_of (mp_mounts p) ?n = Some i")
    case True
    have room: "length (lm_fibers (mp_objects p i)) \<le> 1"
      using pool_ok_mount [OF assms(1) True] assms(2) by (simp add: mount_ok_def Let_def awaits_first_def)
    obtain r t where s: "start_mount starts i (build_config ?n (me_url (lm_entry (mp_objects ?q i))) (lm_token (mp_objects ?q i)) False) ?q = (r, t)"
      by (rule prod.exhaust)
    have "pool_ok t" using ok_start_mount [OF q _ _ refl s] True room by simp
    with q s True show ?thesis
      by (cases r) (auto simp: on_failed_def retry_after_failure_def Let_def)
  next
    case False
    with q show ?thesis by (simp add: on_failed_def retry_after_failure_def Let_def)
  qed
qed

lemma on_settled_status: "on_settled i p = set_object i ((mp_objects p i)\<lparr>lm_status := Connected, lm_error := lm_error (mp_objects p i)\<rparr>) p"
  by (simp add: on_settled_def)

lemma ok_on_settled: "pool_ok p \<Longrightarrow> pool_ok (on_settled i p)"
  unfolding on_settled_status by (rule ok_status) simp_all

lemma get_server_name: "get_server servers n = Some e \<Longrightarrow> me_server_name e = n"
  by (auto simp: get_server_def find_server_def public_entry_def find_Some_iff)

lemma ok_mount_wanted: "pool_ok p \<Longrightarrow> pool_ok (mount_wanted starts now servers e p)"
  by (simp add: mount_wanted_def ok_mount_entry)

lemma ok_folds:
  "pool_ok p \<Longrightarrow> pool_ok (fold (mount_wanted starts now servers) wanted p)"
  "pool_ok p \<Longrightarrow> pool_ok (fold unmount names p)"
  by (induction wanted arbitrary: p; simp add: ok_mount_wanted) (induction names arbitrary: p; simp add: ok_unmount)

lemma ok_remount:
  "pool_ok p \<Longrightarrow> map_of (mp_mounts p) n = None \<Longrightarrow> pool_ok (remount starts now servers n p)"
  by (auto simp: remount_def dest!: get_server_name intro!: ok_mount_entry split: option.split)

text \<open>Probes.\<close>

lemma probe_name_frame:
  assumes "probe_name server p = Some (n, q)"
  shows "map_of (mp_probes p) n = None \<and> map_of (mp_mounts p) n = None
    \<and> (\<exists>k. q = p\<lparr>mp_probe_count := k, mp_probes := AList.update n None (mp_probes p)\<rparr>)"
proof -
  have "probe_loop fuel p m = Some (n, k) \<Longrightarrow> map_of (mp_probes p) n = None \<and> map_of (mp_mounts p) n = None" for fuel p m k
    by (induction fuel p m rule: probe_loop.induct) (auto simp: name_taken_def Let_def split: if_splits)
  moreover from assms obtain k where
    "probe_loop (length (mp_mounts p) + length (mp_probes p) + 2) p (take 32 (''probe_'' @ server)) = Some (n, k)"
    "q = p\<lparr>mp_probe_count := k, mp_probes := AList.update n None (mp_probes p)\<rparr>"
    by (auto simp: probe_name_def split: option.splits)
  ultimately show ?thesis by blast
qed

text \<open>A probe's name becomes its own; other probes keep their fibers.\<close>

lemma probed_update:
  assumes "map_of (mp_probes p) n = None \<or> map_of (mp_probes p) n = Some None" and "probed p j"
    and "mp_probes q = AList.update n v (mp_probes p)"
  shows "probed q j"
proof -
  from assms(2) obtain m where m: "map_of (mp_probes p) m = Some (Some j)" by (auto simp: probed_def)
  with assms(1) have "m \<noteq> n" by auto
  with m assms(3) have "map_of (mp_probes q) m = Some (Some j)" by simp
  then show ?thesis unfolding probed_def by blast
qed

lemma mount_ok_mono:
  assumes "mount_ok p n i" and "mp_objects q = mp_objects p" and "mp_next_object q = mp_next_object p"
    and "mp_disposed q = mp_disposed p" and "set (mp_started p) \<subseteq> set (mp_started q)"
  shows "mount_ok q n i"
  using assms(1) subsetD [OF assms(5)] unfolding mount_ok_def assms(2-4) Let_def by metis


lemma ok_probe_name:
  assumes "pool_ok p" and "map_of (mp_probes p) n = None"
  shows "pool_ok (p\<lparr>mp_probe_count := k, mp_probes := AList.update n None (mp_probes p)\<rparr>)" (is "pool_ok ?q")
proof (rule pool_okI)
  have probed: "probed ?q j" if "probed p j" for j
    by (rule probed_update [of p n j, OF _ that]) (simp_all add: assms(2))
  have frame: "fibers_of ?q = fibers_of p" "mounted ?q = mounted p" by (auto simp: fibers_of_def mounted_def)
  fix x assume "x \<in> set (mp_started ?q)"
  then show "fst x < mp_next_fiber ?q"
    "fst x \<in> set (mp_disposed ?q) \<or> (\<exists>i. mounted ?q i \<and> fst x \<in> fibers_of ?q i) \<or> probed ?q (fst x)"
    using pool_okD(7,8) [OF assms(1), of x] probed by (auto simp: frame)
qed (use pool_okD(1-6) [OF assms(1)] pool_ok_mount [OF assms(1)] in
  \<open>auto simp: mount_ok_def fibers_of_def split: if_splits\<close>)

lemma ok_probe_mounted:
  assumes "pool_ok p" and "map_of (mp_probes p) n = Some None" and "mount_fiber starts c p = (r, q)"
  shows "pool_ok (case r of Inl _ \<Rightarrow> q | Inr k \<Rightarrow> q\<lparr>mp_probes := AList.update n (Some k) (mp_probes q)\<rparr>)"
proof (cases "starts (mp_next_fiber p)")
  case (Some m)
  then have "q = p\<lparr>mp_next_fiber := mp_next_fiber p + 1\<rparr>" "r = Inl m"
    using assms(3) by (simp_all add: mount_fiber_def Let_def)
  then show ?thesis
    using assms(1) by (auto simp: pool_ok_def mount_ok_def mounted_def probed_def Let_def less_Suc_eq fibers_of_def)
next
  case None
  let ?k = "mp_next_fiber p"
  let ?t = "q\<lparr>mp_probes := AList.update n (Some ?k) (mp_probes q)\<rparr>"
  have t: "r = Inr ?k" "mp_mounts ?t = mp_mounts p" "mp_disposed ?t = mp_disposed p" "mp_next_object ?t = mp_next_object p"
    "mp_next_fiber ?t = Suc ?k" "mp_started ?t = mp_started p @ [(?k, c)]" "mp_objects ?t = mp_objects p"
    "mp_probes ?t = AList.update n (Some ?k) (mp_probes p)"
    using assms(3) None by (auto simp: mount_fiber_def Let_def)
  have frame: "fibers_of ?t = fibers_of p" "mounted ?t = mounted p" by (auto simp: fibers_of_def mounted_def t)
  have "probed ?t j" if "probed p j" for j
    by (rule probed_update [OF _ that t(8)]) (simp add: assms(2))
  moreover have "probed ?t ?k" unfolding probed_def t(8) by (intro exI [of _ n]) simp
  ultimately have probed: "probed ?t j" if "probed p j \<or> j = ?k" for j using that by blast
  have "pool_ok ?t"
  proof (rule pool_okI)
    fix x assume x: "x \<in> set (mp_started ?t)"
    then have "x \<in> set (mp_started p) \<or> fst x = ?k" by (auto simp: t(6))
    then show "fst x < mp_next_fiber ?t"
      "fst x \<in> set (mp_disposed ?t) \<or> (\<exists>i. mounted ?t i \<and> fst x \<in> fibers_of ?t i) \<or> probed ?t (fst x)"
      using pool_okD(7,8) [OF assms(1), of x] probed by (auto simp: frame t(3,5))
  next
    show "\<And>m j. map_of (mp_mounts ?t) m = Some j \<Longrightarrow> mount_ok ?t m j"
      by (rule mount_ok_mono [OF pool_ok_mount [OF assms(1)]]) (auto simp: t(2-7))
  next
    show "\<And>i j k. i < mp_next_object ?t \<Longrightarrow> j < mp_next_object ?t \<Longrightarrow> k \<in> fibers_of ?t i \<Longrightarrow> k \<in> fibers_of ?t j \<Longrightarrow> i = j"
      "\<And>i k. i < mp_next_object ?t \<Longrightarrow> k \<in> fibers_of ?t i \<Longrightarrow> k < mp_next_fiber ?t"
      "\<And>k. k \<in> set (mp_disposed ?t) \<Longrightarrow> k < mp_next_fiber ?t"
      using pool_okD(1,2,6) [OF assms(1)] by (auto simp: frame t(3-5) less_Suc_eq)
  next
    fix m k assume mk: "map_of (mp_probes ?t) m = Some (Some k)"
    show "k < mp_next_fiber ?t \<and> k \<notin> set (mp_disposed ?t)"
      using mk pool_okD(3,6) [OF assms(1)] by (auto simp: t(3,5,8) less_Suc_eq split: if_splits)
    show "k \<notin> fibers_of ?t i" if "i < mp_next_object ?t" for i
      using mk that pool_okD(1,4) [OF assms(1)] by (auto simp: frame t(4,8) split: if_splits)
    show "l = m" if "map_of (mp_probes ?t) l = Some (Some k)" for l
      using mk that pool_okD(3,5) [OF assms(1)] by (auto simp: t(8) split: if_splits)
  qed
  then show ?thesis by (simp add: t(1))
qed

lemma ok_probe_end:
  assumes "pool_ok p"
  shows "pool_ok (snd (probe_end n tools outcome p))" (is "pool_ok ?q")
proof -
  have q: "mp_mounts ?q = mp_mounts p" "mp_next_object ?q = mp_next_object p" "mp_next_fiber ?q = mp_next_fiber p"
    "mp_started ?q = mp_started p" "mp_objects ?q = mp_objects p" "mp_probes ?q = AList.delete n (mp_probes p)"
    and d: "set (mp_disposed ?q) = set (mp_disposed p) \<union> {k. map_of (mp_probes p) n = Some (Some k)}"
    by (auto simp: probe_end_def split: option.split)
  have frame: "fibers_of ?q = fibers_of p" "mounted ?q = mounted p" by (auto simp: fibers_of_def mounted_def q)
  show ?thesis
  proof (rule pool_okI)
    fix m i assume m: "map_of (mp_mounts ?q) m = Some i"
    then have i: "mount_ok p m i" by (simp add: q pool_ok_mount [OF assms])
    then have "k \<notin> fibers_of p i" if "map_of (mp_probes p) n = Some (Some k)" for k
      using pool_okD(4) [OF assms that, of i] by (simp add: mount_ok_def Let_def)
    with i show "mount_ok ?q m i" by (auto simp: mount_ok_def Let_def q d fibers_of_def)
  next
    fix x assume x: "x \<in> set (mp_started ?q)"
    then show "fst x < mp_next_fiber ?q" using pool_okD(7) [OF assms] by (simp add: q)
    have "probed ?q j \<or> map_of (mp_probes p) n = Some (Some j)" if pj: "probed p j" for j
    proof -
      obtain m where "map_of (mp_probes p) m = Some (Some j)" using pj by (auto simp: probed_def)
      then show ?thesis unfolding probed_def q(6) by (cases "m = n") (auto intro: exI [of _ m])
    qed
    then show "fst x \<in> set (mp_disposed ?q) \<or> (\<exists>i. mounted ?q i \<and> fst x \<in> fibers_of ?q i) \<or> probed ?q (fst x)"
      using pool_okD(8) [OF assms, of x] x by (auto simp: frame d q(4))
  next
    fix m k assume mk: "map_of (mp_probes ?q) m = Some (Some k)"
    then have m: "m \<noteq> n" "map_of (mp_probes p) m = Some (Some k)" by (auto simp: q split: if_splits)
    have "map_of (mp_probes p) n \<noteq> Some (Some k)" using pool_okD(5) [OF assms m(2), of n] m(1) by metis
    then show "k < mp_next_fiber ?q \<and> k \<notin> set (mp_disposed ?q)"
      using pool_okD(3) [OF assms m(2)] by (simp add: q(3) d)
    show "k \<notin> fibers_of ?q i" if "i < mp_next_object ?q" for i
      using that pool_okD(4) [OF assms m(2)] by (simp add: frame q(2))
    show "l = m" if "map_of (mp_probes ?q) l = Some (Some k)" for l
    proof -
      from that have "map_of (mp_probes p) l = Some (Some k)" by (auto simp: q split: if_splits)
      from pool_okD(5) [OF assms m(2) this] show ?thesis .
    qed
  qed (use pool_okD(1,2,3,6) [OF assms] in \<open>auto simp: frame q d\<close>)
qed

lemma ok_probe_begin:
  assumes "pool_ok p" and "probe_begin starts now servers e p = Some (r, q)"
  shows "pool_ok q \<and> mp_mounts q = mp_mounts p"
proof -
  obtain n p1 where p1: "probe_name (me_server_name e) p = Some (n, p1)"
    using assms(2) by (auto simp: probe_begin_def split: option.splits)
  then obtain k where k: "map_of (mp_probes p) n = None"
    "p1 = p\<lparr>mp_probe_count := k, mp_probes := AList.update n None (mp_probes p)\<rparr>"
    using probe_name_frame by blast
  let ?c = "build_config n (me_url e) (probe_token now servers e) True"
  obtain x t where m: "mount_fiber starts ?c p1 = (x, t)" by (rule prod.exhaust)
  have t: "mp_mounts t = mp_mounts p"
    using m by (auto simp: mount_fiber_def Let_def k(2) split: option.splits)
  have "pool_ok p1" "map_of (mp_probes p1) n = Some None" using ok_probe_name [OF assms(1) k(1)] by (simp_all add: k(2))
  note ok = ok_probe_mounted [OF this m]
  show ?thesis
  proof (cases x)
    case (Inl msg)
    with assms(2) p1 m have "q = snd (probe_end n [] (Inl msg) t)" by (simp add: probe_begin_def split: prod.splits)
    with ok Inl t show ?thesis using ok_probe_end [of t] by (simp add: probe_end_def)
  next
    case (Inr j)
    with assms(2) p1 m ok t show ?thesis by (auto simp: probe_begin_def)
  qed
qed

text \<open>A free name is always found: the names tried are all different.\<close>

lemma digit36_inj: "a < 36 \<Longrightarrow> b < 36 \<Longrightarrow> digit36 a = digit36 b \<Longrightarrow> a = b"
  by (drule arg_cong [where f = "of_char :: char \<Rightarrow> nat"]) (simp add: digit36_def split: if_splits)

lemma base36_nonempty: "base36 n \<noteq> []" "[] \<noteq> base36 n"
  by (subst base36.simps; simp)+

lemma base36_inj: "base36 m = base36 n \<Longrightarrow> m = n"
proof (induction m arbitrary: n rule: base36.induct)
  case (1 m)
  have "base36 m = (if m < 36 then [] else base36 (m div 36)) @ [digit36 (m mod 36)]"
    "base36 n = (if n < 36 then [] else base36 (n div 36)) @ [digit36 (n mod 36)]"
    by (subst base36.simps; simp)+
  with "1.prems" have "(if m < 36 then [] else base36 (m div 36)) = (if n < 36 then [] else base36 (n div 36))"
    and "digit36 (m mod 36) = digit36 (n mod 36)" by simp_all
  moreover from this(2) have "m mod 36 = n mod 36" by (intro digit36_inj) simp_all
  ultimately have "m div 36 = n div 36"
    using "1.IH" [of "n div 36"] base36_nonempty by (auto split: if_splits)
  with \<open>m mod 36 = n mod 36\<close> show ?case by (metis div_mult_mod_eq)
qed

lemma probe_loop_stuck:
  "probe_loop fuel p n = None \<Longrightarrow> 0 < j \<Longrightarrow> j < fuel \<Longrightarrow> name_taken p (''probe_'' @ base36 (mp_probe_count p + j))"
proof (induction fuel p n arbitrary: j rule: probe_loop.induct)
  case (2 fuel p n)
  let ?k = "mp_probe_count p + 1"
  have taken: "name_taken p n" and stuck: "probe_loop fuel (p\<lparr>mp_probe_count := ?k\<rparr>) (''probe_'' @ base36 ?k) = None"
    using "2.prems"(1) by (auto simp: Let_def split: if_splits)
  have same: "name_taken (p\<lparr>mp_probe_count := k\<rparr>) = name_taken p" for k by (simp add: name_taken_def fun_eq_iff)
  show ?case
  proof (cases "j = 1")
    case True
    from stuck 2(3,4) True have "fuel \<noteq> 0" by simp
    with stuck have "name_taken p (''probe_'' @ base36 ?k)" by (cases fuel) (auto simp: same Let_def split: if_splits)
    with True show ?thesis by simp
  next
    case False
    with "2.IH" [OF taken refl stuck, of "j - 1"] "2.prems"(2,3) show ?thesis by (simp add: same)
  qed
qed simp

lemma probe_name_found: "\<exists>r. probe_name server p = Some r"
proof (rule ccontr)
  assume "\<not> ?thesis"
  let ?f = "length (mp_mounts p) + length (mp_probes p) + 1"
  let ?name = "\<lambda>j. ''probe_'' @ base36 (mp_probe_count p + j)"
  let ?taken = "fst ` set (mp_mounts p) \<union> fst ` set (mp_probes p)"
  from \<open>\<not> ?thesis\<close> have "probe_loop (Suc ?f) p (take 32 (''probe_'' @ server)) = None"
    by (auto simp: probe_name_def simp del: probe_loop.simps split: option.splits)
  then have "name_taken p (?name j)" if "j \<in> {1..?f}" for j
    using probe_loop_stuck that by (metis atLeastAtMost_iff less_Suc_eq_le less_eq_Suc_le One_nat_def)
  then have "?name ` {1..?f} \<subseteq> ?taken"
    by (fastforce simp: name_taken_def map_of_eq_None_iff)
  moreover have "inj_on ?name {1..?f}" by (rule inj_onI) (auto dest: base36_inj)
  moreover have "card ?taken \<le> length (mp_mounts p) + length (mp_probes p)"
    by (metis (no_types, lifting) add_mono card_Un_le card_image_le card_length List.finite_set le_trans)
  ultimately show False
    by (metis (no_types, lifting) List.finite_set card_atLeastAtMost card_image card_mono diff_Suc_1 finite_UnI
        finite_imageI One_nat_def add.commute not_less_eq_eq plus_1_eq_Suc)
qed

section \<open>What is mounted\<close>

text \<open>Under which entry and token a server is mounted.\<close>

definition mounted_as :: "mcp_pool \<Rightarrow> string \<Rightarrow> (mcp_server_entry \<times> string option) option" where
  "mounted_as p n = map_option (\<lambda>i. (lm_entry (mp_objects p i), lm_token (mp_objects p i))) (map_of (mp_mounts p) n)"

lemma mounted_as_None: "mounted_as p n = None \<longleftrightarrow> map_of (mp_mounts p) n = None"
  by (simp add: mounted_as_def)

lemma mounted_as_unmount: "mounted_as (unmount n p) = (mounted_as p)(n := None)"
  by (auto simp: mounted_as_def unmount_def fun_eq_iff map_option_case split: option.split)

lemma start_mount_as:
  assumes "start_mount starts i c p = (r, q)"
  shows "mounted_as q = mounted_as p" and "lm_entry (mp_objects q j) = lm_entry (mp_objects p j)"
    and "lm_token (mp_objects q j) = lm_token (mp_objects p j)"
  using assms by (auto simp: start_mount_def mount_fiber_def mounted_as_def fun_eq_iff map_option_case Let_def
      split: option.splits)

lemma set_status_as: "mounted_as (set_object i ((mp_objects p i)\<lparr>lm_status := st, lm_error := m\<rparr>) p) = mounted_as p"
  by (auto simp: mounted_as_def fun_eq_iff map_option_case split: option.split)

lemma mounted_as_mount_entry:
  assumes "pool_ok p"
  shows "mounted_as (mount_entry starts token e p) = (mounted_as p)(me_server_name e := Some (e, token))"
proof -
  have adopted: "mounted_as (adopt token e p) = (mounted_as p)(me_server_name e := Some (e, token))"
  proof
    fix n
    have "i \<noteq> mp_next_object p" if "map_of (mp_mounts p) n = Some i" for i
      using pool_ok_mount [OF assms that] by (simp add: mount_ok_def Let_def)
    then show "mounted_as (adopt token e p) n = ((mounted_as p)(me_server_name e := Some (e, token))) n"
      by (cases "map_of (mp_mounts p) n") (auto simp: mounted_as_def adopt_def Let_def)
  qed
  obtain r q where s: "start_mount starts (mp_next_object p) (build_config (me_server_name e) (me_url e) token True)
      (adopt token e p) = (r, q)" by (rule prod.exhaust)
  then show ?thesis
    using start_mount_as(1) [OF s] adopted by (simp add: mount_entry_adopt s set_status_as split: option.split)
qed

lemma outdated_as:
  "map_of (mp_mounts p) n = Some i \<Longrightarrow>
   outdated now servers wanted n (mp_objects p i) =
     (case map_of wanted n of
        None \<Rightarrow> True
      | Some e \<Rightarrow> \<not> mountable now servers e \<or> (case mounted_as p n of None \<Rightarrow> False | Some (e', t) \<Rightarrow>
          me_url e' \<noteq> me_url e \<or> t \<noteq> token_for now servers n))"
  by (auto simp: outdated_def mounted_as_def split: option.split)

text \<open>Which mounts the first loop keeps.\<close>

definition kept :: "js_number \<Rightarrow> mcp_file \<Rightarrow> wanted_servers \<Rightarrow> mcp_pool \<Rightarrow> string \<Rightarrow> bool" where
  "kept now servers wanted p n \<longleftrightarrow>
    (\<exists>e e'. map_of wanted n = Some e \<and> mountable now servers e
       \<and> mounted_as p n = Some (e', token_for now servers n) \<and> me_url e' = me_url e)"

lemma unmount_objects:
  "lm_entry (mp_objects (unmount n p) j) = lm_entry (mp_objects p j)"
  "lm_token (mp_objects (unmount n p) j) = lm_token (mp_objects p j)"
  by (auto simp: unmount_def split: option.split)

lemma first_loop:
  assumes "distinct (map fst xs)" and "\<forall>x \<in> set xs. map_of (mp_mounts p) (fst x) = Some (snd x)"
  shows "mounted_as (fold (reconcile_mount now servers wanted) xs p) =
    (\<lambda>n. if n \<in> fst ` set xs \<and> \<not> kept now servers wanted p n then None else mounted_as p n)"
  using assms
proof (induction xs arbitrary: p)
  case (Cons x xs)
  obtain n i where x: "x = (n, i)" by (cases x)
  let ?q = "reconcile_mount now servers wanted x p"
  have i: "map_of (mp_mounts p) n = Some i" using Cons.prems(2) by (simp add: x)
  have drop: "outdated now servers wanted n (mp_objects p i) \<longleftrightarrow> \<not> kept now servers wanted p n"
    unfolding outdated_as [OF i] kept_def using i
    by (auto simp: mounted_as_def split: option.split)
  have as: "mounted_as ?q = (if kept now servers wanted p n then mounted_as p else (mounted_as p)(n := None))"
    by (simp add: reconcile_mount_def x drop mounted_as_unmount)
  have mounts: "map_of (mp_mounts ?q) m = (if kept now servers wanted p n \<or> m \<noteq> n then map_of (mp_mounts p) m else None)" for m
    by (simp add: reconcile_mount_def x drop unmount_def i)
  have same: "kept now servers wanted ?q m \<longleftrightarrow> kept now servers wanted p m" if "m \<noteq> n" for m
    using that by (simp add: kept_def as)
  have "\<forall>y \<in> set xs. map_of (mp_mounts ?q) (fst y) = Some (snd y)"
  proof
    fix y assume "y \<in> set xs"
    then have "fst y \<noteq> n" "map_of (mp_mounts p) (fst y) = Some (snd y)" using Cons.prems x by (auto simp: image_iff)
    then show "map_of (mp_mounts ?q) (fst y) = Some (snd y)" by (simp add: mounts)
  qed
  with Cons.prems(1) have IH: "mounted_as (fold (reconcile_mount now servers wanted) xs ?q) =
      (\<lambda>m. if m \<in> fst ` set xs \<and> \<not> kept now servers wanted ?q m then None else mounted_as ?q m)"
    by (intro Cons.IH) simp_all
  have new: "n \<notin> fst ` set xs" using Cons.prems(1) by (simp add: x)
  have "(if m \<in> fst ` set xs \<and> \<not> kept now servers wanted ?q m then None else mounted_as ?q m) =
      (if m \<in> fst ` set (x # xs) \<and> \<not> kept now servers wanted p m then None else mounted_as p m)" for m
    using new by (cases "m = n") (simp_all add: same as, simp_all add: x)
  then show ?case by (simp add: IH)
qed simp

lemma ok_reconcile_mount: "pool_ok p \<Longrightarrow> pool_ok (reconcile_mount now servers wanted x p)"
  by (simp add: reconcile_mount_def ok_unmount)

lemma ok_first_loop: "pool_ok p \<Longrightarrow> pool_ok (fold (reconcile_mount now servers wanted) xs p)"
  by (induction xs arbitrary: p) (simp_all add: ok_reconcile_mount)

lemma second_loop:
  assumes "pool_ok p" and "distinct (map me_server_name es)"
  shows "mounted_as (fold (mount_wanted starts now servers) es p) =
    (\<lambda>n. case mounted_as p n of
       Some v \<Rightarrow> Some v
     | None \<Rightarrow> (case map_of (map (\<lambda>e. (me_server_name e, e)) es) n of
          Some e \<Rightarrow> if mountable now servers e then Some (e, token_for now servers n) else None
        | None \<Rightarrow> None))"
  using assms
proof (induction es arbitrary: p)
  case (Cons e es)
  let ?q = "mount_wanted starts now servers e p" and ?n = "me_server_name e"
  have as: "mounted_as ?q = (if mountable now servers e \<and> mounted_as p ?n = None
      then (mounted_as p)(?n := Some (e, token_for now servers ?n)) else mounted_as p)"
    using mounted_as_mount_entry [OF Cons.prems(1)] by (auto simp: mount_wanted_def mounted_as_None)
  have "?n \<notin> me_server_name ` set es" using Cons.prems(2) by simp
  then have new: "map_of (map (\<lambda>e. (me_server_name e, e)) es) ?n = None"
    by (simp add: map_of_eq_None_iff image_image)
  show ?case
    using Cons.IH [OF ok_mount_wanted [OF Cons.prems(1)]] Cons.prems(2) new
    by (auto simp: as fun_eq_iff split: option.split)
qed (auto split: option.split)

lemma wanted_of_ok:
  "distinct (map fst (wanted_of es)) \<and> (\<forall>x \<in> set (wanted_of es). me_server_name (snd x) = fst x)"
proof -
  have "distinct (map fst w) \<and> (\<forall>x \<in> set w. me_server_name (snd x) = fst x) \<Longrightarrow>
    distinct (map fst (fold (\<lambda>e. AList.update (me_server_name e) e) es w))
    \<and> (\<forall>x \<in> set (fold (\<lambda>e. AList.update (me_server_name e) e) es w). me_server_name (snd x) = fst x)" for w
  proof (induction es arbitrary: w)
    case (Cons e es)
    have "\<forall>x \<in> set (AList.update (me_server_name e) e w). me_server_name (snd x) = fst x"
      using Cons.prems by (auto dest!: set_updateD)
    with Cons.IH [of "AList.update (me_server_name e) e w"] Cons.prems show ?case by (simp add: distinct_update)
  qed simp
  from this [of "[]"] show ?thesis by (simp add: wanted_of_def)
qed

lemma reconciled_as:
  assumes "pool_ok p" and "distinct (map fst (mp_mounts p))"
    and w_def: "w = wanted_of (list_servers servers)"
  shows "mounted_as (reconcile_pool starts now servers p) n =
    (case map_of w n of
       None \<Rightarrow> None
     | Some e \<Rightarrow>
        if \<not> mountable now servers e then None
        else if kept now servers w p n then mounted_as p n
        else Some (e, token_for now servers n))"
proof -
  note w = wanted_of_ok [of "list_servers servers", folded w_def]
  have names: "map (\<lambda>e. (me_server_name e, e)) (map snd w) = w"
    using w by (simp add: comp_def map_idI)
  have "map me_server_name (map snd w) = map fst w" using w by simp
  with w have d: "distinct (map me_server_name (map snd w))" by metis
  have "\<forall>x \<in> set (mp_mounts p). map_of (mp_mounts p) (fst x) = Some (snd x)" using assms(2) by auto
  from first_loop [OF assms(2) this, of now servers w]
  have one: "mounted_as (fold (reconcile_mount now servers w) (mp_mounts p) p) n =
      (if kept now servers w p n then mounted_as p n else None)"
    by (auto simp: mounted_as_def map_option_case split: option.split dest: map_of_SomeD) (metis fst_conv image_eqI map_of_SomeD)
  have two: "mounted_as (reconcile_pool starts now servers p) n =
      (case (if kept now servers w p n then mounted_as p n else None) of
         Some v \<Rightarrow> Some v
       | None \<Rightarrow> (case map_of w n of
            Some e \<Rightarrow> if mountable now servers e then Some (e, token_for now servers n) else None
          | None \<Rightarrow> None))"
    using second_loop [OF ok_first_loop [OF assms(1)] d, of starts now servers now servers w "mp_mounts p"]
    unfolding names by (simp add: reconcile_pool_def Let_def mount_missing_def w_def [symmetric] one)
  show ?thesis
    unfolding two by (auto simp: kept_def split: option.split)
qed

section \<open>The host\<close>

definition host_ok :: "pool_host \<Rightarrow> bool" where
  "host_ok h \<longleftrightarrow> pool_ok (ph_pool h) \<and> distinct (map fst (mp_mounts (ph_pool h)))
     \<and> (\<forall>n. ph_job h = Some (Retrying n) \<longrightarrow> map_of (mp_mounts (ph_pool h)) n = None)"

lemma distinct_unmount: "distinct (map fst (mp_mounts p)) \<Longrightarrow> distinct (map fst (mp_mounts (unmount n p)))"
  by (simp add: unmount_def distinct_delete split: option.split)

lemma unmount_none: "map_of (mp_mounts (unmount n p)) m = (if m = n then None else map_of (mp_mounts p) m)"
  by (simp add: unmount_def split: option.split)

lemma distinct_mount_entry:
  "distinct (map fst (mp_mounts p)) \<Longrightarrow> distinct (map fst (mp_mounts (mount_entry starts token e p)))"
  unfolding mount_entry_adopt
  by (auto simp: adopt_def Let_def distinct_update dest!: start_mount_frame split: prod.split option.split)

lemma distinct_mount_missing:
  "distinct (map fst (mp_mounts p)) \<Longrightarrow> distinct (map fst (mp_mounts (mount_missing starts now servers w p)))"
proof -
  have "distinct (map fst (mp_mounts p)) \<Longrightarrow> distinct (map fst (mp_mounts (fold (mount_wanted starts now servers) es p)))"
    for es by (induction es arbitrary: p) (simp_all add: mount_wanted_def distinct_mount_entry)
  then show "distinct (map fst (mp_mounts p)) \<Longrightarrow> distinct (map fst (mp_mounts (mount_missing starts now servers w p)))"
    by (simp add: mount_missing_def)
qed

lemma dispose_pool_frame:
  "distinct (map fst (mp_mounts p)) \<Longrightarrow> distinct (map fst (mp_mounts (dispose_pool p)))"
  "map_of (mp_mounts p) m = None \<Longrightarrow> map_of (mp_mounts (dispose_pool p)) m = None"
proof -
  have "distinct (map fst (mp_mounts p)) \<Longrightarrow> distinct (map fst (mp_mounts (fold unmount ns p)))" for ns
    by (induction ns arbitrary: p) (simp_all add: distinct_unmount)
  then show "distinct (map fst (mp_mounts p)) \<Longrightarrow> distinct (map fst (mp_mounts (dispose_pool p)))"
    by (simp add: dispose_pool_def)
  have "map_of (mp_mounts p) m = None \<Longrightarrow> map_of (mp_mounts (fold unmount ns p)) m = None" for ns
    by (induction ns arbitrary: p) (simp_all add: unmount_none)
  then show "map_of (mp_mounts p) m = None \<Longrightarrow> map_of (mp_mounts (dispose_pool p)) m = None"
    by (simp add: dispose_pool_def)
qed

lemma host_ok_step:
  assumes "pool_step starts h h'" and "host_ok h"
  shows "host_ok h'"
  using assms
proof (induction rule: pool_step.induct)
  case (sync_turn h w x xs)
  then show ?case by (simp add: host_ok_def ok_reconcile_mount) (simp add: reconcile_mount_def distinct_unmount)
next
  case (sync_ends h w)
  then show ?case by (simp add: host_ok_def distinct_mount_missing) (simp add: mount_missing_def ok_folds)
next
  case (retry_begins h n)
  then show ?case by (simp add: host_ok_def ok_unmount distinct_unmount unmount_none)
next
  case (retry_ends h n)
  then show ?case
    by (simp add: host_ok_def ok_remount) (simp add: remount_def distinct_mount_entry split: option.split)
next
  case (settles i h)
  then show ?case by (simp add: host_ok_def ok_on_settled) (simp add: on_settled_def)
next
  case (fails i h m)
  then show ?case by (simp add: host_ok_def ok_on_failed on_failed_mounts)
next
  case (disposes h)
  then show ?case by (simp add: host_ok_def dispose_pool_frame) (simp add: dispose_pool_def ok_folds)
next
  case (probe_begins h e r p)
  then show ?case using ok_probe_begin [of "ph_pool h" starts "ph_now h" "ph_servers h" e r p] by (simp add: host_ok_def)
next
  case (probe_ends h n tools outcome)
  then show ?case by (simp add: host_ok_def ok_probe_end) (simp add: probe_end_def)
qed (simp_all add: host_ok_def)

lemma host_ok_run: "pool_run starts h0 h \<Longrightarrow> host_ok h0 \<Longrightarrow> host_ok h"
  by (induction rule: pool_run.induct) (auto intro: host_ok_step)

definition new_host :: "live_mount \<Rightarrow> mcp_file \<Rightarrow> js_number \<Rightarrow> pool_host" where
  "new_host unused servers now = \<lparr>ph_pool = new_pool unused, ph_job = None, ph_servers = servers, ph_now = now\<rparr>"

lemma host_ok_new: "host_ok (new_host unused servers now)"
  by (simp add: host_ok_def new_host_def new_pool_def pool_ok_def)

text \<open>C27: No connection of the MCP pool is lost or doubled, whatever the order of synchronisations, retries, probes,
  settled and failed handshakes, store changes and a disposal: every client that was started has been
  disposed of, or belongs to a server that is mounted now, or to a running connection test; and a mounted
  server holds at most two clients, none of them disposed of, each configured with the server's own name,
  the address and the token it was mounted with.\<close>

theorem pool_owns_every_connection:
  assumes "pool_run starts (new_host unused servers now) h" and "p = ph_pool h"
  shows "(\<forall>(k, c) \<in> set (mp_started p). k \<in> set (mp_disposed p)
      \<or> (\<exists>n i. map_of (mp_mounts p) n = Some i \<and> k \<in> set (lm_fibers (mp_objects p i)))
      \<or> (\<exists>n. map_of (mp_probes p) n = Some (Some k)))
    \<and> (\<forall>n i. map_of (mp_mounts p) n = Some i \<longrightarrow>
      (let live = mp_objects p i in
       \<not> lm_retired live \<and> length (lm_fibers live) \<le> 2
       \<and> (\<forall>k \<in> set (lm_fibers live). k \<notin> set (mp_disposed p)
            \<and> (\<exists>b. (k, build_config n (me_url (lm_entry live)) (lm_token live) b) \<in> set (mp_started p)))))"
proof (intro conjI allI impI ballI)
  have ok: "pool_ok p" using host_ok_run [OF assms(1) host_ok_new] assms(2) by (simp add: host_ok_def)
  fix x assume "x \<in> set (mp_started p)"
  from pool_okD(8) [OF ok this]
  show "case x of (k, c) \<Rightarrow> k \<in> set (mp_disposed p)
      \<or> (\<exists>n i. map_of (mp_mounts p) n = Some i \<and> k \<in> set (lm_fibers (mp_objects p i)))
      \<or> (\<exists>n. map_of (mp_probes p) n = Some (Some k))"
    by (auto simp: mounted_def fibers_of_def probed_def)
next
  have ok: "pool_ok p" using host_ok_run [OF assms(1) host_ok_new] assms(2) by (simp add: host_ok_def)
  fix n i assume "map_of (mp_mounts p) n = Some i"
  from pool_ok_mount [OF ok this]
  show "let live = mp_objects p i in
       \<not> lm_retired live \<and> length (lm_fibers live) \<le> 2
       \<and> (\<forall>k \<in> set (lm_fibers live). k \<notin> set (mp_disposed p)
            \<and> (\<exists>b. (k, build_config n (me_url (lm_entry live)) (lm_token live) b) \<in> set (mp_started p)))"
    by (auto simp: mount_ok_def Let_def split: if_splits)
qed

text \<open>C28: After a synchronisation the MCP pool is exactly what the stored configuration asks for, whatever was mounted
  before: a server is mounted if and only if it is stored, enabled and, when it signs in by OAuth, has an
  unexpired access token; and it is mounted under its stored address with its current token.\<close>

theorem reconcile_exact:
  assumes "pool_run starts (new_host unused servers0 now0) h" and "q = reconcile_pool starts now servers (ph_pool h)"
  shows "map_option (\<lambda>i. (me_url (lm_entry (mp_objects q i)), lm_token (mp_objects q i))) (map_of (mp_mounts q) n) =
    (case map_of (wanted_of (list_servers servers)) n of
       None \<Rightarrow> None
     | Some e \<Rightarrow> if mountable now servers e then Some (me_url e, token_for now servers n) else None)"
proof -
  have ok: "host_ok h" using host_ok_run [OF assms(1) host_ok_new] .
  have "map_option (\<lambda>i. (me_url (lm_entry (mp_objects q i)), lm_token (mp_objects q i))) (map_of (mp_mounts q) n) =
      map_option (\<lambda>(e, t). (me_url e, t)) (mounted_as q n)"
    by (cases "map_of (mp_mounts q) n") (simp_all add: mounted_as_def)
  with ok show ?thesis
    using reconciled_as [of "ph_pool h" "wanted_of (list_servers servers)" servers starts now n] assms(2)
    by (auto simp: host_ok_def kept_def split: option.split)
qed

section \<open>A concrete run\<close>

definition demo_unused :: live_mount where
  "demo_unused = \<lparr>lm_entry = demo_entry ''none'', lm_token = None, lm_fibers = [], lm_status = Starting,
     lm_error = None, lm_retired = True\<rparr>"

definition demo_mounted :: mcp_pool where
  "demo_mounted = mount_entry (\<lambda>_. None) (Some ''t'') (public_entry demo_bearer_server) (new_pool demo_unused)"

lemma demo_sync:
  "reconcile_pool (\<lambda>_. None) NaN [demo_bearer_server] (new_pool demo_unused) = demo_mounted"
  "mountable NaN [demo_bearer_server] (public_entry demo_bearer_server)"
  "wanted_of (list_servers [demo_bearer_server]) = [(''gh'', public_entry demo_bearer_server)]"
  by (simp_all add: reconcile_pool_def demo_mounted_def wanted_of_def list_servers_def sorted_servers_def Let_def
      demo_bearer_server_def public_entry_def mountable_def new_pool_def mount_missing_def
      mount_wanted_def token_for_def find_server_def)

lemma demo_mounted_simps:
  "mp_started demo_mounted = [(0, build_config ''gh'' ''https://m'' (Some ''t'') True)]"
  "mp_disposed demo_mounted = []" "mp_probes demo_mounted = []"
  by (simp_all add: demo_mounted_def mount_entry_adopt adopt_def start_mount_def mount_fiber_def new_pool_def Let_def
      set_object_def public_entry_def demo_bearer_server_def)

lemma demo_pool_run:
  "pool_run (\<lambda>_. None) (new_host demo_unused [demo_bearer_server] NaN)
    \<lparr>ph_pool = demo_mounted, ph_job = None, ph_servers = [demo_bearer_server], ph_now = NaN\<rparr>"
proof -
  let ?h = "new_host demo_unused [demo_bearer_server] NaN"
  let ?w = "[(''gh'', public_entry demo_bearer_server)]"
  have "pool_run (\<lambda>_. None) ?h (?h\<lparr>ph_job := Some (Reconciling ?w [])\<rparr>)"
    using pool_run.further [OF pool_run.here pool_step.sync_begins, of ?h "\<lambda>_. None"]
    by (simp add: new_host_def demo_sync(3)) (simp add: new_pool_def)
  from pool_run.further [OF this pool_step.sync_ends [where wanted = ?w]]
  show ?thesis
    using demo_sync(1) by (simp add: new_host_def reconcile_pool_def demo_sync(3)) (simp add: new_pool_def)
qed

theorem pool_owns_every_connection_witness:
  "\<exists>n i. map_of (mp_mounts demo_mounted) n = Some i \<and> 0 \<in> set (lm_fibers (mp_objects demo_mounted i))"
  using pool_owns_every_connection [OF demo_pool_run refl] by (simp add: demo_mounted_simps)

theorem reconcile_exact_witness:
  "map_option (\<lambda>i. (me_url (lm_entry (mp_objects demo_mounted i)), lm_token (mp_objects demo_mounted i)))
     (map_of (mp_mounts demo_mounted) ''gh'') = Some (''https://m'', Some ''t'')"
  using reconcile_exact [OF pool_run.here refl, of "\<lambda>_. None" NaN "[demo_bearer_server]" demo_unused _ _ "''gh''"]
  by (simp add: new_host_def demo_sync) (simp add: public_entry_def demo_bearer_server_def token_for_def find_server_def)

end
