(* ===== verification/Spec2Isabelle.thy ===== *)
theory Spec2Isabelle
  imports Lifecycle_Witnesses Profile_Config Idle_Schedule Root_Session Mcp_Choice Credential_Broker Message_Queue Tunnel
    Video_Media Preview Sandbox_Path Profile_Choice Sandbox_Status Mcp_Exclusion Passcode_Auth Oidc_Auth Backends
    Manager_Witnesses Manager_Pages Mcp_OAuth File_References Session_Tools
    Attachment_Copies Terminal Mcp_Pool
begin

text \<open>
  A verification library for dsh-yawn's control plane (\<open>src/control-plane/src\<close>, TypeScript): the
  plugin that gives every agent session of the dsh host a remote sandbox.

  \<^bold>\<open>The program.\<close> A session's root agent (\<open>manager/root-session.ts\<close>) is served by one sandbox. Its
  record lives in the session store (\<open>core/state-store.ts\<close>); the lifecycle
  (\<open>manager/sandbox-lifecycle.ts\<close>) provisions, wakes, hibernates, checkpoints (\<open>sandbox/checkpoint.ts\<close>)
  and releases it through a backend of its profile (\<open>manager/profile-registry.ts\<close>,
  \<open>sandbox/config.ts\<close>), and reaches the runner inside through a tunnel the runner dials
  (\<open>core/tunnel.ts\<close>, \<open>core/message-queue.ts\<close>, \<open>manager/runner-attachment.ts\<close>). An idle countdown
  (\<open>manager/idle.ts\<close>) parks sessions nobody uses. Secrets, Git hosts and MCP servers are kept in files
  of their own (\<open>credentials/\<close>, \<open>mcp/\<close>), previews and media are served out of the sandbox
  (\<open>previews/\<close>, \<open>media/\<close>), and a sign-in row (\<open>auth/\<close>) stands in front of the host's web page.

  \<^bold>\<open>How it is modelled.\<close> \<open>Prelude\<close> has the errors as a datatype, an \<open>async\<close> method as a computation
  from a state to an error or a result and a state (\<open>comp\<close>), and three ways to reason about it:
  \<open>preserves\<close>, \<open>keeps\<close> and the equations of \<open>wp\<close>. \<open>Js_Strings\<close>, \<open>Js_Values\<close> and \<open>Posix_Path\<close> are the
  parts of the language and of Node the code uses. A class is a record, a \<open>Map\<close> an association list in
  insertion order, a discriminated union a datatype, a rejected promise the left side of a sum. What the
  repository only calls (Kubernetes, Docker, Buildkite, the file system, the clock, the runner, dsh
  itself, URL and JSON text parsers, crypto) is an argument over a world \<open>'e\<close> about which nothing is
  assumed, unless a theorem names the hypothesis.

  \<^bold>\<open>Theories and code.\<close>
  \<^item> \<open>Durable_File\<close>: the write chain every store shares; the locale \<open>durable_store\<close> is its contract,
    interpreted for the session store (\<open>State_Store\<close>), the broker (\<open>Credential_Broker\<close>, with
    \<open>Git_Hosts\<close>) and the MCP file (\<open>Mcp_Store\<close>). They show which prefix of the operations the file
    holds, and that files are read back as they were written.
  \<^item> \<open>Sandbox_Types\<close>, \<open>Runner_Client\<close>, \<open>Checkpoints\<close>, \<open>Profile_Registry\<close>, \<open>Runner_Attachment\<close>: what
    the lifecycle calls.
  \<^item> \<open>Lifecycle_World\<close> (its state: store, checkpoint files, cached runners, and a log of the durable
    images and calls), \<open>Lifecycle\<close> (one definition per method; \<open>react\<close> with fuel 2, which
    \<open>react_fuel_enough\<close> proves enough), \<open>Lifecycle_Safety\<close> (locales \<open>serving_invariant\<close> and
    \<open>step_invariant\<close>: what an invariant must survive), \<open>Lifecycle_Properties\<close> and
    \<open>Lifecycle_Witnesses\<close>. They show that a checkpoint is never lost, even in a crash, what every event
    does, and that sessions do not disturb each other.
  \<^item> \<open>Idle_Schedule\<close>, \<open>Root_Session\<close>, \<open>Profile_Config\<close>, \<open>Profile_Choice\<close>, \<open>Sandbox_Status\<close>: the
    policies around the lifecycle, and the read model of the page.
  \<^item> \<open>Message_Queue\<close> refines a channel, operation by operation; \<open>Tunnel\<close> is the registry of
    runners as a step relation with its invariants.
  \<^item> \<open>Mcp_Store\<close>, \<open>Mcp_Choice\<close>, \<open>Mcp_Exclusion\<close>: MCP servers, which of them a session hides, and what
    hiding removes from a request.
  \<^item> \<open>Sandbox_Path\<close>, \<open>Video_Media\<close>, \<open>Preview\<close>: paths, byte ranges and preview host names.
  \<^item> \<open>Auth_Core\<close>, \<open>Passcode_Auth\<close>, \<open>Oidc_Auth\<close>: the sign-in rows, as functions from requests to
    responses, and as steps over the pending logins.

  \<^bold>\<open>Bounds and fuel.\<close> \<open>react\<close> has fuel 2 and the wait for a runner 121 rounds (a minute of half-second
  polls); both are proved enough, so \<open>OutOfFuel\<close> is never an answer. Numbers from outside are
  \<open>js_number\<close> (rationals with the non-finite values); sizes and times the code computes itself are
  integers. Rounding of doubles is not modelled.

  \<^bold>\<open>Not modelled.\<close> Two handlers of one component do not run between each other's awaits, except where a
  theory says so (\<open>Idle_Schedule\<close> and \<open>Tunnel\<close> split theirs); the lifecycle serializes a session's
  events itself. The text layer of JSON and YAML, UTF-8 decoding, telemetry and log lines, object keys
  that name properties of \<open>Object.prototype\<close> (see the findings), and the masks of
  \<open>mcp-tool-exclusion.ts\<close> in dsh's tool registry are left out. The backends' API calls, the shell, file
  and subprocess adapters, the pages (\<open>client/\<close>), the generated protocol code (\<open>gen/\<close>), the Go runner
  and the scripts are not modelled; the manifest gives the reason for each.

  \<^bold>\<open>Plan.\<close> Next are MCP sign-in and its renewals (\<open>mcp/mcp-oauth.ts\<close>), the facade's own operations
  (\<open>manager/sandbox-manager.ts\<close>), the session tools, the file-reference completion, the interactive
  terminal, and the backends' state mapping.
\<close>

end
